(* ===== verification/Pactum_Prelude.thy ===== *)
theory Pactum_Prelude
  imports Main "HOL-Library.Word"
begin

text \<open>
  Shared vocabulary of the Pactum development.

  A request handler or a worker step of the backend is an \<^emph>\<open>action\<close>: a function from the
  world to a result (\<open>Inl\<close> the error that Rust's \<open>?\<close> would return, \<open>Inr\<close> the value) and the
  world it leaves. Errors do not undo what was written before them: the world is returned on
  both sides. The theory holds the combinators, the elimination rules that take a finished
  run of an action apart (collection \<open>act_simps\<close>), the \<open>keeps\<close> calculus for properties that
  hold on every path, errors included (collection \<open>keeps_intros\<close>), the list forms of the SQL
  statements the program uses, the functions of Rust's standard library on strings, and the
  integer conversions.
\<close>

named_theorems act_simps "taking a finished run of an action apart"
named_theorems keeps_intros "composition rules of keeps"
named_theorems sql_list "facts about the list forms of SQL statements"

type_synonym byte = "8 word"
type_synonym u8 = "8 word"
type_synonym u16 = "16 word"
type_synonym u32 = "32 word"
type_synonym u64 = "64 word"
type_synonym uuid = "128 word"

section \<open>Actions\<close>

type_synonym ('w, 'e, 'a) act = "'w \<Rightarrow> ('e + 'a) \<times> 'w"

definition ret :: "'a \<Rightarrow> ('w, 'e, 'a) act" where
  "ret x = (\<lambda>w. (Inr x, w))"

definition fail :: "'e \<Rightarrow> ('w, 'e, 'a) act" where
  "fail e = (\<lambda>w. (Inl e, w))"

definition bindE :: "('w, 'e, 'a) act \<Rightarrow> ('a \<Rightarrow> ('w, 'e, 'b) act) \<Rightarrow> ('w, 'e, 'b) act" where
  "bindE m k = (\<lambda>w. case m w of (Inl e, w') \<Rightarrow> (Inl e, w') | (Inr x, w') \<Rightarrow> k x w')"

definition thenE :: "('w, 'e, unit) act \<Rightarrow> ('w, 'e, 'b) act \<Rightarrow> ('w, 'e, 'b) act" where
  "thenE m k = bindE m (\<lambda>_. k)"

definition liftE :: "'e + 'a \<Rightarrow> ('w, 'e, 'a) act" where
  "liftE r = (\<lambda>w. (r, w))"

definition ok_or :: "'e \<Rightarrow> 'a option \<Rightarrow> ('w, 'e, 'a) act" where
  "ok_or e v = (case v of None \<Rightarrow> fail e | Some x \<Rightarrow> ret x)"

definition guardE :: "bool \<Rightarrow> 'e \<Rightarrow> ('w, 'e, unit) act" where
  "guardE b e = (if b then ret () else fail e)"

definition get_world :: "('w, 'e, 'w) act" where
  "get_world = (\<lambda>w. (Inr w, w))"

definition modify :: "('w \<Rightarrow> 'w) \<Rightarrow> ('w, 'e, unit) act" where
  "modify f = (\<lambda>w. (Inr (), f w))"

text \<open>The outcome of an action as a value: what a \<open>match\<close> on its result sees.\<close>

definition attempt :: "('w, 'e, 'a) act \<Rightarrow> ('w, 'f, 'e + 'a) act" where
  "attempt m = (\<lambda>w. case m w of (r, w') \<Rightarrow> (Inr r, w'))"

text \<open>\<open>Result::map_err\<close>.\<close>

definition map_err :: "('e \<Rightarrow> 'f) \<Rightarrow> ('w, 'e, 'a) act \<Rightarrow> ('w, 'f, 'a) act" where
  "map_err f m = (\<lambda>w. case m w of (Inl e, w') \<Rightarrow> (Inl (f e), w') | (Inr x, w') \<Rightarrow> (Inr x, w'))"

text \<open>A \<open>for\<close> loop: \<open>for_each\<close> stops at the first error, as a body that uses \<open>?\<close> does.\<close>

fun for_each :: "'x list \<Rightarrow> ('x \<Rightarrow> ('w, 'e, unit) act) \<Rightarrow> ('w, 'e, unit) act" where
  "for_each [] f = ret ()"
| "for_each (x # xs) f = thenE (f x) (for_each xs f)"

fun fold_each :: "'x list \<Rightarrow> ('x \<Rightarrow> 'acc \<Rightarrow> ('w, 'e, 'acc) act) \<Rightarrow> 'acc \<Rightarrow> ('w, 'e, 'acc) act" where
  "fold_each [] f acc = ret acc"
| "fold_each (x # xs) f acc = bindE (f x acc) (\<lambda>acc'. fold_each xs f acc')"

subsection \<open>Taking runs apart\<close>

lemma ret_iff [act_simps]: "ret x w = (r, w') \<longleftrightarrow> r = Inr x \<and> w' = w"
  by (auto simp: ret_def)

lemma fail_iff [act_simps]: "fail e w = (r, w') \<longleftrightarrow> r = Inl e \<and> w' = w"
  by (auto simp: fail_def)

lemma bindE_Inr_iff [act_simps]:
  "bindE m k w = (Inr y, w') \<longleftrightarrow> (\<exists>x w1. m w = (Inr x, w1) \<and> k x w1 = (Inr y, w'))"
  by (auto simp: bindE_def split: prod.splits sum.splits)

lemma bindE_Inl_iff [act_simps]:
  "bindE m k w = (Inl e, w') \<longleftrightarrow>
     m w = (Inl e, w') \<or> (\<exists>x w1. m w = (Inr x, w1) \<and> k x w1 = (Inl e, w'))"
  by (auto simp: bindE_def split: prod.splits sum.splits)

lemma thenE_Inr_iff [act_simps]:
  "thenE m k w = (Inr y, w') \<longleftrightarrow> (\<exists>w1. m w = (Inr (), w1) \<and> k w1 = (Inr y, w'))"
  by (auto simp: thenE_def act_simps)

lemma thenE_Inl_iff [act_simps]:
  "thenE m k w = (Inl e, w') \<longleftrightarrow>
     m w = (Inl e, w') \<or> (\<exists>w1. m w = (Inr (), w1) \<and> k w1 = (Inl e, w'))"
  by (auto simp: thenE_def act_simps)

lemma liftE_iff [act_simps]: "liftE r w = (r', w') \<longleftrightarrow> r' = r \<and> w' = w"
  by (auto simp: liftE_def)

lemma ok_or_Inr_iff [act_simps]: "ok_or e v w = (Inr x, w') \<longleftrightarrow> v = Some x \<and> w' = w"
  by (auto simp: ok_or_def act_simps split: option.splits)

lemma ok_or_Inl_iff [act_simps]: "ok_or e v w = (Inl e', w') \<longleftrightarrow> v = None \<and> e' = e \<and> w' = w"
  by (auto simp: ok_or_def act_simps split: option.splits)

lemma guardE_Inr_iff [act_simps]: "guardE b e w = (Inr u, w') \<longleftrightarrow> b \<and> w' = w"
  by (auto simp: guardE_def act_simps)

lemma guardE_Inl_iff [act_simps]: "guardE b e w = (Inl e', w') \<longleftrightarrow> \<not> b \<and> e' = e \<and> w' = w"
  by (auto simp: guardE_def act_simps)

lemma get_world_iff [act_simps]: "get_world w = (r, w') \<longleftrightarrow> r = Inr w \<and> w' = w"
  by (auto simp: get_world_def)

lemma modify_iff [act_simps]: "modify f w = (r, w') \<longleftrightarrow> r = Inr () \<and> w' = f w"
  by (auto simp: modify_def)

lemma attempt_iff [act_simps]:
  "attempt m w = (r, w') \<longleftrightarrow> (\<exists>r0. r = Inr r0 \<and> m w = (r0, w'))"
  by (auto simp: attempt_def split: prod.splits)

lemma map_err_Inr_iff [act_simps]: "map_err f m w = (Inr x, w') \<longleftrightarrow> m w = (Inr x, w')"
  by (auto simp: map_err_def split: prod.splits sum.splits)

lemma map_err_Inl_iff [act_simps]: "map_err f m w = (Inl e, w') \<longleftrightarrow> (\<exists>e0. m w = (Inl e0, w') \<and> e = f e0)"
  by (auto simp: map_err_def split: prod.splits sum.splits)

text \<open>Evaluating a run on a concrete world: one step of \<open>bindE\<close> at a time.\<close>

lemma bindE_Inr [simp]: "m w = (Inr x, w1) \<Longrightarrow> bindE m k w = k x w1"
  by (simp add: bindE_def)

lemma bindE_Inl [simp]: "m w = (Inl e, w1) \<Longrightarrow> bindE m k w = (Inl e, w1)"
  by (simp add: bindE_def)

lemmas act_defs =
  ret_def fail_def bindE_def thenE_def liftE_def ok_or_def guardE_def get_world_def
  modify_def attempt_def

text \<open>
  A loop that finishes: what holds of the elements done and the accumulator at the start, and is
  kept by each turn, holds at the end.
\<close>

lemma fold_each_invariant:
  assumes "fold_each xs f acc w = (Inr acc', w')" and "I ys acc w"
    and "\<And>zs x a u a' u'. x \<in> set xs \<Longrightarrow> I zs a u \<Longrightarrow> f x a u = (Inr a', u') \<Longrightarrow> I (zs @ [x]) a' u'"
  shows "I (ys @ xs) acc' w'"
  using assms
proof (induction xs arbitrary: ys acc w)
  case Nil
  then show ?case by (simp add: act_simps)
next
  case (Cons x xs)
  from Cons.prems(1) obtain a u where step: "f x acc w = (Inr a, u)"
    and rest: "fold_each xs f a u = (Inr acc', w')" by (auto simp: act_simps)
  have I1: "I (ys @ [x]) a u" using Cons.prems(3) [OF _ Cons.prems(2) step] by simp
  have "I ((ys @ [x]) @ xs) acc' w'"
    by (rule Cons.IH [OF rest I1]) (auto intro: Cons.prems(3))
  then show ?case by simp
qed

lemma for_each_invariant:
  assumes "for_each xs f w = (Inr (), w')" and "I ys w"
    and "\<And>zs x u u'. x \<in> set xs \<Longrightarrow> I zs u \<Longrightarrow> f x u = (Inr (), u') \<Longrightarrow> I (zs @ [x]) u'"
  shows "I (ys @ xs) w'"
  using assms
proof (induction xs arbitrary: ys w)
  case Nil
  then show ?case by (simp add: act_simps)
next
  case (Cons x xs)
  from Cons.prems(1) obtain u where step: "f x w = (Inr (), u)"
    and rest: "for_each xs f u = (Inr (), w')" by (auto simp: act_simps)
  have I1: "I (ys @ [x]) u" using Cons.prems(3) [OF _ Cons.prems(2) step] by simp
  have "I ((ys @ [x]) @ xs) w'"
    by (rule Cons.IH [OF rest I1]) (auto intro: Cons.prems(3))
  then show ?case by simp
qed

subsection \<open>Properties kept on every path\<close>

definition keeps :: "('w \<Rightarrow> 'w \<Rightarrow> bool) \<Rightarrow> ('w, 'e, 'a) act \<Rightarrow> bool" where
  "keeps R m \<longleftrightarrow> (\<forall>w. R w (snd (m w)))"

lemma keepsD: "keeps R m \<Longrightarrow> m w = (r, w') \<Longrightarrow> R w w'"
  by (auto simp: keeps_def dest: spec [of _ w])

lemma keepsI: "(\<And>w r w'. m w = (r, w') \<Longrightarrow> R w w') \<Longrightarrow> keeps R m"
  by (auto simp: keeps_def intro: prod.collapse [symmetric])

lemma keeps_ret [keeps_intros]: "reflp R \<Longrightarrow> keeps R (ret x)"
  by (auto simp: keeps_def ret_def dest: reflpD)

lemma keeps_fail [keeps_intros]: "reflp R \<Longrightarrow> keeps R (fail e)"
  by (auto simp: keeps_def fail_def dest: reflpD)

lemma keeps_liftE [keeps_intros]: "reflp R \<Longrightarrow> keeps R (liftE r)"
  by (auto simp: keeps_def liftE_def dest: reflpD)

lemma keeps_ok_or [keeps_intros]: "reflp R \<Longrightarrow> keeps R (ok_or e v)"
  by (auto simp: ok_or_def keeps_ret keeps_fail split: option.splits)

lemma keeps_guardE [keeps_intros]: "reflp R \<Longrightarrow> keeps R (guardE b e)"
  by (auto simp: guardE_def keeps_ret keeps_fail)

lemma keeps_get_world [keeps_intros]: "reflp R \<Longrightarrow> keeps R get_world"
  by (auto simp: keeps_def get_world_def dest: reflpD)

lemma keeps_attempt [keeps_intros]: "keeps R m \<Longrightarrow> keeps R (attempt m)"
  by (auto simp: keeps_def attempt_def split: prod.splits) (metis snd_conv)

lemma keeps_map_err [keeps_intros]: "keeps R m \<Longrightarrow> keeps R (map_err f m)"
  by (auto simp: keeps_def map_err_def split: prod.splits sum.splits) (metis snd_conv)+

lemma keeps_bindE [keeps_intros]:
  assumes "transp R" and "keeps R m" and "\<And>x. keeps R (k x)"
  shows "keeps R (bindE m k)"
proof (rule keepsI)
  fix w r w' assume run: "bindE m k w = (r, w')"
  obtain r1 w1 where m: "m w = (r1, w1)" by (cases "m w")
  have "R w w1" using keepsD [OF assms(2) m] .
  moreover have "R w1 w' \<or> w' = w1"
    using run m keepsD [OF assms(3)] by (cases r1) (auto simp: bindE_def)
  ultimately show "R w w'" using assms(1) by (auto dest: transpD)
qed

text \<open>The continuation may rely on what a successful run of the first action guarantees.\<close>

lemma keeps_bindE_post:
  assumes "transp R" and "keeps R m" and "\<And>x w w'. m w = (Inr x, w') \<Longrightarrow> keeps R (k x)"
  shows "keeps R (bindE m k)"
proof (rule keepsI)
  fix w r w' assume run: "bindE m k w = (r, w')"
  obtain r1 w1 where m: "m w = (r1, w1)" by (cases "m w")
  have "R w w1" using keepsD [OF assms(2) m] .
  moreover have "R w1 w' \<or> w' = w1"
    using run m keepsD [OF assms(3)] by (cases r1) (auto simp: bindE_def)
  ultimately show "R w w'" using assms(1) by (auto dest: transpD)
qed

lemma keeps_thenE [keeps_intros]:
  "transp R \<Longrightarrow> keeps R m \<Longrightarrow> keeps R k \<Longrightarrow> keeps R (thenE m k)"
  unfolding thenE_def by (rule keeps_bindE)

lemma keeps_for_each [keeps_intros]:
  "reflp R \<Longrightarrow> transp R \<Longrightarrow> (\<And>x. x \<in> set xs \<Longrightarrow> keeps R (f x)) \<Longrightarrow> keeps R (for_each xs f)"
  by (induction xs) (auto intro: keeps_intros)

lemma keeps_fold_each [keeps_intros]:
  "reflp R \<Longrightarrow> transp R \<Longrightarrow> (\<And>x acc. keeps R (f x acc)) \<Longrightarrow> keeps R (fold_each xs f acc)"
  by (induction xs arbitrary: acc) (auto intro: keeps_intros)

lemma keeps_if [keeps_intros]: "keeps R a \<Longrightarrow> keeps R b \<Longrightarrow> keeps R (if c then a else b)"
  by simp

lemma keeps_case_option [keeps_intros]:
  "keeps R a \<Longrightarrow> (\<And>x. keeps R (f x)) \<Longrightarrow> keeps R (case v of None \<Rightarrow> a | Some x \<Rightarrow> f x)"
  by (cases v) auto

lemma keeps_case_sum [keeps_intros]:
  "(\<And>x. keeps R (f x)) \<Longrightarrow> (\<And>x. keeps R (g x)) \<Longrightarrow> keeps R (case v of Inl x \<Rightarrow> f x | Inr x \<Rightarrow> g x)"
  by (cases v) auto

lemma keeps_case_prod [keeps_intros]:
  "(\<And>x y. keeps R (f x y)) \<Longrightarrow> keeps R (case v of (x, y) \<Rightarrow> f x y)"
  by (cases v) auto

lemma keeps_Let [keeps_intros]: "keeps R (f x) \<Longrightarrow> keeps R (let y = x in f y)"
  by simp

section \<open>SQL statements on lists of rows\<close>

text \<open>
  \<open>UPDATE ... WHERE\<close>, \<open>DELETE ... WHERE\<close>, the first row of a \<open>SELECT\<close>, and
  \<open>SELECT DISTINCT\<close>. A table is the list of its rows in scan order.
\<close>

definition upd_where :: "('r \<Rightarrow> bool) \<Rightarrow> ('r \<Rightarrow> 'r) \<Rightarrow> 'r list \<Rightarrow> 'r list" where
  "upd_where P f rs = map (\<lambda>r. if P r then f r else r) rs"

definition del_where :: "('r \<Rightarrow> bool) \<Rightarrow> 'r list \<Rightarrow> 'r list" where
  "del_where P rs = filter (\<lambda>r. \<not> P r) rs"

definition select_first :: "('r \<Rightarrow> bool) \<Rightarrow> 'r list \<Rightarrow> 'r option" where
  "select_first P rs = find P rs"

lemma length_upd_where [simp, sql_list]: "length (upd_where P f rs) = length rs"
  by (simp add: upd_where_def)

lemma upd_where_Nil [simp, sql_list]: "upd_where P f [] = []"
  by (simp add: upd_where_def)

lemma upd_where_Cons [simp, sql_list]:
  "upd_where P f (r # rs) = (if P r then f r else r) # upd_where P f rs"
  by (simp add: upd_where_def)

lemma del_where_Nil [simp, sql_list]: "del_where P [] = []"
  by (simp add: del_where_def)

lemma del_where_Cons [simp, sql_list]:
  "del_where P (r # rs) = (if P r then del_where P rs else r # del_where P rs)"
  by (simp add: del_where_def)

lemma in_upd_where [sql_list]:
  "r' \<in> set (upd_where P f rs) \<longleftrightarrow> (\<exists>r \<in> set rs. r' = (if P r then f r else r))"
  by (auto simp: upd_where_def)

lemma ball_upd_where:
  "(\<forall>x \<in> set (upd_where P f rs). Q x) \<longleftrightarrow> (\<forall>r \<in> set rs. if P r then Q (f r) else Q r)"
  by (auto simp: upd_where_def)

lemma in_del_where [sql_list]: "r \<in> set (del_where P rs) \<longleftrightarrow> r \<in> set rs \<and> \<not> P r"
  by (auto simp: del_where_def)

lemma upd_where_no_match:
  "(\<And>r. r \<in> set rs \<Longrightarrow> \<not> P r) \<Longrightarrow> upd_where P f rs = rs"
  by (induction rs) auto

lemma map_upd_where:
  "(\<And>r. r \<in> set rs \<Longrightarrow> P r \<Longrightarrow> g (f r) = g r) \<Longrightarrow> map g (upd_where P f rs) = map g rs"
  by (induction rs) auto

lemma select_first_SomeD:
  "select_first P rs = Some r \<Longrightarrow> r \<in> set rs \<and> P r"
  by (auto simp: select_first_def find_Some_iff)

lemma select_first_None_iff [sql_list]:
  "select_first P rs = None \<longleftrightarrow> (\<forall>r \<in> set rs. \<not> P r)"
  by (auto simp: select_first_def find_None_iff)

lemma select_first_simps [simp]:
  "select_first P [] = None"
  "select_first P (r # rs) = (if P r then Some r else select_first P rs)"
  by (auto simp: select_first_def)

lemma select_first_ex: "r \<in> set rs \<Longrightarrow> P r \<Longrightarrow> \<exists>r'. select_first P rs = Some r'"
  by (cases "select_first P rs") (auto simp: select_first_None_iff)

lemma select_first_upd:
  "(\<And>r. r \<in> set rs \<Longrightarrow> P r \<Longrightarrow> P (f r)) \<Longrightarrow> select_first P (upd_where P f rs) = map_option f (select_first P rs)"
  by (induction rs) auto

lemma select_first_append:
  "select_first P (xs @ ys) = (case select_first P xs of None \<Rightarrow> select_first P ys | Some x \<Rightarrow> Some x)"
  by (induction xs) auto

lemma select_first_stronger:
  "select_first P rs = Some r \<Longrightarrow> Q r \<Longrightarrow> select_first (\<lambda>x. P x \<and> Q x) rs = Some r"
  by (induction rs) (auto split: if_splits)

lemma select_first_unique:
  assumes "distinct (map key rs)" and "r \<in> set rs"
  shows "select_first (\<lambda>x. key x = key r) rs = Some r"
  using assms by (induction rs) (auto simp: image_iff)

section \<open>Rust strings\<close>

text \<open>
  A Rust \<open>String\<close> is its UTF-8 bytes; a \<open>char\<close> of HOL is one byte, so \<open>length\<close> is
  \<open>str::len\<close>.
\<close>

definition as_bytes :: "string \<Rightarrow> byte list" where
  "as_bytes s = map of_char s"

definition strip_prefix :: "string \<Rightarrow> string \<Rightarrow> string option" where
  "strip_prefix p s = (if take (length p) s = p then Some (drop (length p) s) else None)"

definition starts_with :: "string \<Rightarrow> string \<Rightarrow> bool" where
  "starts_with p s \<longleftrightarrow> take (length p) s = p"

text \<open>\<open>trim_start_matches\<close> removes the pattern as long as it is a prefix.\<close>

function trim_start_matches :: "string \<Rightarrow> string \<Rightarrow> string" where
  "trim_start_matches p s =
     (if p \<noteq> [] \<and> s \<noteq> [] \<and> starts_with p s then trim_start_matches p (drop (length p) s) else s)"
  by pat_completeness auto
termination
  by (relation "measure (\<lambda>(p, s). length s)") (auto simp: starts_with_def)

declare trim_start_matches.simps [simp del]

definition split_once :: "char \<Rightarrow> string \<Rightarrow> (string \<times> string) option" where
  "split_once c s =
     (if c \<in> set s then Some (takeWhile (\<lambda>x. x \<noteq> c) s, tl (dropWhile (\<lambda>x. x \<noteq> c) s)) else None)"

text \<open>The first segment of \<open>str::split(c)\<close>, which always exists.\<close>

definition split_next :: "char \<Rightarrow> string \<Rightarrow> string" where
  "split_next c s = takeWhile (\<lambda>x. x \<noteq> c) s"

definition to_ascii_lowercase :: "string \<Rightarrow> string" where
  "to_ascii_lowercase s = map (\<lambda>c. let n = of_char c :: nat in
     if 65 \<le> n \<and> n \<le> 90 then char_of (n + 32) else c) s"

definition eq_ignore_ascii_case :: "string \<Rightarrow> string \<Rightarrow> bool" where
  "eq_ignore_ascii_case a b \<longleftrightarrow> to_ascii_lowercase a = to_ascii_lowercase b"

definition is_ascii_hexdigit :: "char \<Rightarrow> bool" where
  "is_ascii_hexdigit c \<longleftrightarrow> (let n = of_char c :: nat in
     (48 \<le> n \<and> n \<le> 57) \<or> (65 \<le> n \<and> n \<le> 70) \<or> (97 \<le> n \<and> n \<le> 102))"

definition is_ascii_alphanumeric :: "char \<Rightarrow> bool" where
  "is_ascii_alphanumeric c \<longleftrightarrow> (let n = of_char c :: nat in
     (48 \<le> n \<and> n \<le> 57) \<or> (65 \<le> n \<and> n \<le> 90) \<or> (97 \<le> n \<and> n \<le> 122))"

text \<open>
  The UTF-8 encodings of the characters with Unicode's \<open>White_Space\<close> property, which
  \<open>str::trim\<close> removes at both ends.
\<close>

definition utf8_of :: "nat list \<Rightarrow> string" where
  "utf8_of ns = map char_of ns"

definition whitespace_encodings :: "string list" where
  "whitespace_encodings =
     map utf8_of ([[9], [10], [11], [12], [13], [32], [194, 133], [194, 160], [225, 154, 128]]
       @ map (\<lambda>k. [226, 128, k]) [128 ..< 139]
       @ [[226, 128, 168], [226, 128, 169], [226, 128, 175], [226, 129, 159], [227, 128, 128]])"

lemma whitespace_encodings_nonempty: "p \<in> set whitespace_encodings \<Longrightarrow> p \<noteq> []"
  by (auto simp: whitespace_encodings_def utf8_of_def)

lemma find_whitespace_nonempty:
  "find (\<lambda>p. starts_with p s) whitespace_encodings = Some p \<Longrightarrow> p \<noteq> [] \<and> starts_with p s"
  using whitespace_encodings_nonempty by (auto simp: find_Some_iff)

function trim_start :: "string \<Rightarrow> string" where
  "trim_start s =
     (case find (\<lambda>p. starts_with p s) whitespace_encodings of
        None \<Rightarrow> s
      | Some p \<Rightarrow> if s = [] then s else trim_start (drop (length p) s))"
  by pat_completeness auto
termination
  by (relation "measure length") (auto dest: find_whitespace_nonempty)

declare trim_start.simps [simp del]

lemma find_suffix_nonempty:
  "find (\<lambda>p. p \<noteq> [] \<and> length p \<le> length s \<and> Q p) ps = Some p \<Longrightarrow> 0 < length p \<and> 0 < length s"
  by (auto simp: find_Some_iff)

function trim_end :: "string \<Rightarrow> string" where
  "trim_end s =
     (case find (\<lambda>p. p \<noteq> [] \<and> length p \<le> length s \<and> drop (length s - length p) s = p)
        whitespace_encodings of
        None \<Rightarrow> s
      | Some p \<Rightarrow> trim_end (take (length s - length p) s))"
  by pat_completeness auto
termination
  by (relation "measure length") (auto dest!: find_suffix_nonempty intro!: diff_less)

declare trim_end.simps [simp del]

definition trim :: "string \<Rightarrow> string" where
  "trim s = trim_end (trim_start s)"

text \<open>\<open>str::chars().next()\<close>: the first scalar value, as the bytes that encode it.\<close>

definition utf8_len :: "char \<Rightarrow> nat" where
  "utf8_len c = (let n = of_char c :: nat in
     if n < 192 then 1 else if n < 224 then 2 else if n < 240 then 3 else 4)"

definition chars_next :: "string \<Rightarrow> string option" where
  "chars_next s = (case s of [] \<Rightarrow> None | c # _ \<Rightarrow> Some (take (utf8_len c) s))"

text \<open>Decimal digits of a number, as \<open>format!("{}")\<close> prints an unsigned integer.\<close>

fun dec_digits :: "nat \<Rightarrow> string" where
  "dec_digits n =
     (if n < 10 then [char_of (48 + n)] else dec_digits (n div 10) @ [char_of (48 + n mod 10)])"

declare dec_digits.simps [simp del]

section \<open>Fixed-width integers\<close>

text \<open>
  A value of type \<open>i64\<close> is the integer it denotes. Arithmetic wraps, as the release profile
  of the crate compiles it; \<open>as i64\<close> reinterprets the bits; \<open>i64::try_from\<close> refuses a value
  out of range.
\<close>

definition as_i64 :: "u64 \<Rightarrow> int" where
  "as_i64 x = sint x"

definition as_i32 :: "u32 \<Rightarrow> int" where
  "as_i32 x = sint x"

definition wrap_i64 :: "int \<Rightarrow> int" where
  "wrap_i64 x = sint (word_of_int x :: 64 word)"

definition i64_try_from :: "u64 \<Rightarrow> int option" where
  "i64_try_from x = (if uint x < 2 ^ 63 then Some (uint x) else None)"

lemma wrap_i64_id: "- (2 ^ 63) \<le> x \<Longrightarrow> x < 2 ^ 63 \<Longrightarrow> wrap_i64 x = x"
  by (simp add: wrap_i64_def sint_sbintrunc' signed_take_bit_int_eq_self)

lemma as_i64_small: "uint x < 2 ^ 63 \<Longrightarrow> as_i64 x = uint x"
proof -
  assume "uint x < 2 ^ 63"
  moreover have "wrap_i64 (uint x) = sint x" by (simp add: wrap_i64_def)
  moreover have "0 \<le> uint x" by simp
  ultimately show ?thesis using wrap_i64_id [of "uint x"] by (simp add: as_i64_def)
qed

end
