(* ===== verification/App_Error.thy ===== *)
theory App_Error
  imports Pactum_Prelude "HOL-Library.Char_ord" "HOL-Library.List_Lexorder"
begin

text \<open>
  \<^verbatim>\<open>src/src/error.rs\<close>: the error type of the API and the HTTP response each error becomes.
  A response is its status code and its JSON body.

  JSON values are \<open>serde_json::Value\<close>. \<^verbatim>\<open>src/Cargo.toml\<close> and \<^verbatim>\<open>src/Cargo.lock\<close> select \<open>serde_json\<close> without its
  \<open>preserve_order\<close> feature, so an object is a \<open>BTreeMap\<close>: \<open>json!\<close> inserts the members one after the other and they
  are kept, and serialised, in the order of their keys. Strings are compared byte by byte, which is the
  lexicographic order on character lists.
\<close>

datatype json =
    JNull
  | JBool bool
  | JNum int
  | JStr string
  | JArr "json list"
  | JObj "(string \<times> json) list"

text \<open>\<open>BTreeMap::insert\<close> on the members in key order, and the object \<open>json!\<close> builds from the members as written.\<close>

fun member_insert :: "string \<Rightarrow> 'v \<Rightarrow> (string \<times> 'v) list \<Rightarrow> (string \<times> 'v) list" where
  "member_insert k v [] = [(k, v)]"
| "member_insert k v ((k', v') # ms) =
     (if k < k' then (k, v) # (k', v') # ms
      else if k = k' then (k, v) # ms
      else (k', v') # member_insert k v ms)"

definition json_object :: "(string \<times> json) list \<Rightarrow> json" where
  "json_object kvs = JObj (fold (\<lambda>(k, v). member_insert k v) kvs [])"

text \<open>\<open>Value::get\<close> on an object and \<open>Value::as_str\<close>.\<close>

fun json_get :: "string \<Rightarrow> json \<Rightarrow> json option" where
  "json_get k (JObj kvs) = map_of kvs k"
| "json_get k _ = None"

fun json_as_str :: "json \<Rightarrow> string option" where
  "json_as_str (JStr s) = Some s"
| "json_as_str _ = None"

text \<open>Insertion keeps the keys strictly ascending, and a lookup finds the member inserted last.\<close>

lemma member_insert_keys: "set (map fst (member_insert k v ms)) = insert k (set (map fst ms))"
  by (induction k v ms rule: member_insert.induct) auto

lemma member_insert_sorted: "sorted_wrt (<) (map fst ms) \<Longrightarrow> sorted_wrt (<) (map fst (member_insert k v ms))"
proof (induction k v ms rule: member_insert.induct)
  case (2 k v k' v' ms)
  then have "\<forall>x \<in> insert k (set (map fst ms)). k' < x" if "\<not> k < k'" "k \<noteq> k'" using that by (auto simp: not_less)
  with 2 show ?case using member_insert_keys [of k v ms] by (auto simp: set_map [symmetric] simp del: set_map)
qed simp

lemma member_insert_lookup: "map_of (member_insert k v ms) = (map_of ms)(k \<mapsto> v)"
  by (induction k v ms rule: member_insert.induct) (auto simp: fun_eq_iff)

lemma members_sorted:
  "sorted_wrt (<) (map fst ms) \<Longrightarrow> sorted_wrt (<) (map fst (fold (\<lambda>(k, v). member_insert k v) kvs ms))"
  by (induction kvs arbitrary: ms) (auto simp: member_insert_sorted)

lemma members_lookup:
  "map_of (fold (\<lambda>(k, v). member_insert k v) kvs ms) = map_of ms ++ map_of (rev kvs)"
  by (induction kvs arbitrary: ms) (auto simp: member_insert_lookup map_add_def fun_eq_iff split: option.splits)

lemma json_get_object [simp]: "json_get k (json_object kvs) = map_of (rev kvs) k"
  by (simp add: json_object_def members_lookup)

lemma json_object_sorted: "json_object kvs = JObj ms \<Longrightarrow> sorted_wrt (<) (map fst ms)"
  using members_sorted [of "[]" kvs] by (auto simp: json_object_def)

datatype app_error =
    InvalidOrExpiredNonce
  | InvalidRefreshToken
  | Unauthorized
  | WalletRequired string string
  | EmailAlreadyRegistered
  | EmailRequired string string
  | WalletAlreadyLinked
  | MissingContentType
  | InvalidFileType
  | FileTooLarge
  | UploadFailed
  | PinataAuthError string
  | PinataRateLimitError u64
  | PinataUploadError string
  | PinataNetworkError string
  | DraftNotReady
  | PaymentRequired string string
  | InvalidHash
  | HashMismatch
  | EncryptionFailed
  | DecryptionFailed
  | KeypairLoadFailed string
  | PaymentMethodUnsupported
  | TreasuryAtaMismatch
  | NoRefundAmountSet
  | VaultDepositExceedsMaximum
  | InviteWindowExceedsSigningWindow
  | DisplayNameTooLong
  | InvalidDisplayName
  | NotFound
  | InternalError
  | RateLimited
  | NotImplemented
  | SolanaRpcError
  | TransactionSigningFailed

definition err_body :: "string \<Rightarrow> json" where
  "err_body code = json_object [(''error'', JStr code)]"

fun into_response :: "app_error \<Rightarrow> nat \<times> string \<times> json" where
  "into_response InvalidOrExpiredNonce = (401, ''Invalid or expired nonce'', err_body ''invalid_nonce'')"
| "into_response InvalidRefreshToken =
     (401, ''Invalid or expired refresh token'', err_body ''invalid_refresh_token'')"
| "into_response Unauthorized = (401, ''Unauthorized'', err_body ''unauthorized'')"
| "into_response (WalletRequired message link_url) =
     (403, ''Wallet required'', json_object [(''error'', JStr ''wallet_required''),
        (''message'', JStr message), (''link_url'', JStr link_url)])"
| "into_response NotFound = (404, ''Not found'', err_body ''not_found'')"
| "into_response EmailAlreadyRegistered =
     (409, ''Email already registered'', err_body ''email_already_registered'')"
| "into_response WalletAlreadyLinked =
     (409, ''Wallet already linked'', err_body ''wallet_already_linked'')"
| "into_response MissingContentType =
     (422, ''Missing content type header'', err_body ''missing_content_type'')"
| "into_response InvalidFileType = (422, ''Invalid file type'', err_body ''invalid_file_type'')"
| "into_response FileTooLarge = (422, ''File too large'', err_body ''file_too_large'')"
| "into_response UploadFailed = (422, ''Upload failed'', err_body ''upload_failed'')"
| "into_response (PinataAuthError message) =
     (401, ''Pinata authentication failed'',
        json_object [(''error'', JStr ''pinata_auth_error''), (''message'', JStr message)])"
| "into_response (PinataRateLimitError retry_after) =
     (429, ''Pinata rate limit exceeded'',
        json_object [(''error'', JStr ''pinata_rate_limited''), (''retry_after'', JNum (uint retry_after))])"
| "into_response (PinataUploadError message) =
     (422, ''Pinata upload failed'',
        json_object [(''error'', JStr ''pinata_upload_failed''), (''message'', JStr message)])"
| "into_response (PinataNetworkError message) =
     (503, ''Pinata network error'',
        json_object [(''error'', JStr ''pinata_network_error''), (''message'', JStr message)])"
| "into_response DraftNotReady = (422, ''Draft not ready'', err_body ''draft_not_ready'')"
| "into_response (PaymentRequired draft_id initiate_url) =
     (422, ''Payment required'', json_object [(''error'', JStr ''payment_required''),
        (''draft_id'', JStr draft_id), (''initiate_url'', JStr initiate_url)])"
| "into_response (EmailRequired message add_email_url) =
     (422, ''Email required'', json_object [(''error'', JStr ''email_required''),
        (''message'', JStr message), (''add_email_url'', JStr add_email_url)])"
| "into_response InvalidHash = (422, ''Invalid hash'', err_body ''invalid_hash'')"
| "into_response HashMismatch = (400, ''Hash mismatch'', err_body ''hash_mismatch'')"
| "into_response EncryptionFailed = (422, ''Encryption failed'', err_body ''encryption_failed'')"
| "into_response DecryptionFailed = (422, ''Decryption failed'', err_body ''decryption_failed'')"
| "into_response (KeypairLoadFailed msg) =
     (422, ''Keypair load failed'',
        json_object [(''error'', JStr ''keypair_load_failed''), (''details'', JStr msg)])"
| "into_response PaymentMethodUnsupported =
     (422, ''Payment method unsupported'', err_body ''payment_method_unsupported'')"
| "into_response TreasuryAtaMismatch =
     (422, ''Treasury ATA mismatch'', err_body ''treasury_ata_mismatch'')"
| "into_response NoRefundAmountSet =
     (422, ''No refund amount set'', err_body ''no_refund_amount_set'')"
| "into_response VaultDepositExceedsMaximum =
     (422, ''Vault deposit exceeds maximum'', err_body ''vault_deposit_exceeds_maximum'')"
| "into_response InviteWindowExceedsSigningWindow =
     (422, ''Invite window exceeds signing window'', err_body ''invite_window_exceeds_signing_window'')"
| "into_response DisplayNameTooLong =
     (422, ''Display name too long'', err_body ''display_name_too_long'')"
| "into_response InvalidDisplayName =
     (422, ''Invalid display name'', err_body ''invalid_display_name'')"
| "into_response RateLimited = (429, ''Rate limited'', err_body ''rate_limited'')"
| "into_response InternalError = (500, ''Internal server error'', err_body ''internal_error'')"
| "into_response SolanaRpcError = (500, ''Solana RPC error'', err_body ''solana_rpc_error'')"
| "into_response TransactionSigningFailed =
     (500, ''Transaction signing failed'', err_body ''transaction_signing_failed'')"
| "into_response NotImplemented = (501, ''Not implemented'', err_body ''not_implemented'')"

definition status_of :: "app_error \<Rightarrow> nat" where
  "status_of e = fst (into_response e)"

definition body_of :: "app_error \<Rightarrow> json" where
  "body_of e = snd (snd (into_response e))"

lemma status_of_range: "400 \<le> status_of e \<and> status_of e < 600"
  by (cases e) (simp_all add: status_of_def)

lemma status_of_server_error:
  "500 \<le> status_of e \<longleftrightarrow>
     e \<in> {InternalError, SolanaRpcError, TransactionSigningFailed, NotImplemented} \<or>
     (\<exists>m. e = PinataNetworkError m)"
  by (cases e) (simp_all add: status_of_def)

section \<open>Responses are well typed\<close>

text \<open>The machine-readable code of a response, and the position of a variant in the declaration.\<close>

definition error_code :: "app_error \<Rightarrow> string option" where
  "error_code e = Option.bind (json_get ''error'' (body_of e)) json_as_str"

fun variant :: "app_error \<Rightarrow> nat" where
  "variant InvalidOrExpiredNonce = 0"
| "variant InvalidRefreshToken = 1"
| "variant Unauthorized = 2"
| "variant (WalletRequired _ _) = 3"
| "variant EmailAlreadyRegistered = 4"
| "variant (EmailRequired _ _) = 5"
| "variant WalletAlreadyLinked = 6"
| "variant MissingContentType = 7"
| "variant InvalidFileType = 8"
| "variant FileTooLarge = 9"
| "variant UploadFailed = 10"
| "variant (PinataAuthError _) = 11"
| "variant (PinataRateLimitError _) = 12"
| "variant (PinataUploadError _) = 13"
| "variant (PinataNetworkError _) = 14"
| "variant DraftNotReady = 15"
| "variant (PaymentRequired _ _) = 16"
| "variant InvalidHash = 17"
| "variant HashMismatch = 18"
| "variant EncryptionFailed = 19"
| "variant DecryptionFailed = 20"
| "variant (KeypairLoadFailed _) = 21"
| "variant PaymentMethodUnsupported = 22"
| "variant TreasuryAtaMismatch = 23"
| "variant NoRefundAmountSet = 24"
| "variant VaultDepositExceedsMaximum = 25"
| "variant InviteWindowExceedsSigningWindow = 26"
| "variant DisplayNameTooLong = 27"
| "variant InvalidDisplayName = 28"
| "variant NotFound = 29"
| "variant InternalError = 30"
| "variant RateLimited = 31"
| "variant NotImplemented = 32"
| "variant SolanaRpcError = 33"
| "variant TransactionSigningFailed = 34"

definition variant_codes :: "string list" where
  "variant_codes =
    [''invalid_nonce'', ''invalid_refresh_token'', ''unauthorized'', ''wallet_required'',
      ''email_already_registered'', ''email_required'', ''wallet_already_linked'', ''missing_content_type'',
      ''invalid_file_type'', ''file_too_large'', ''upload_failed'', ''pinata_auth_error'',
      ''pinata_rate_limited'', ''pinata_upload_failed'', ''pinata_network_error'', ''draft_not_ready'',
      ''payment_required'', ''invalid_hash'', ''hash_mismatch'', ''encryption_failed'', ''decryption_failed'',
      ''keypair_load_failed'', ''payment_method_unsupported'', ''treasury_ata_mismatch'',
      ''no_refund_amount_set'', ''vault_deposit_exceeds_maximum'', ''invite_window_exceeds_signing_window'',
      ''display_name_too_long'', ''invalid_display_name'', ''not_found'', ''internal_error'',
      ''rate_limited'', ''not_implemented'', ''solana_rpc_error'', ''transaction_signing_failed'']"

lemma error_code_variant: "error_code e = Some (variant_codes ! variant e) \<and> variant e < length variant_codes"
  by (cases e) (simp_all add: error_code_def body_of_def err_body_def variant_codes_def)

lemma distinct_variant_codes: "distinct variant_codes"
  by code_simp

lemma error_code_eq_iff: "error_code e = error_code e' \<longleftrightarrow> variant e = variant e'"
proof
  assume "error_code e = error_code e'"
  then have "variant_codes ! variant e = variant_codes ! variant e'" using error_code_variant by (metis option.inject)
  then show "variant e = variant e'" using error_code_variant distinct_variant_codes by (metis nth_eq_iff_index_eq)
next
  assume "variant e = variant e'"
  then show "error_code e = error_code e'" using error_code_variant by metis
qed

text \<open>The body carries everything the variant does.\<close>

lemma body_of_inj:
  assumes "body_of e = body_of e'"
  shows "e = e'"
proof -
  have "variant e = variant e'" using assms error_code_eq_iff [of e e'] by (simp add: error_code_def)
  then show ?thesis
    using assms by (cases e; cases e'; (simp; fail | simp add: body_of_def json_object_def word_uint_eq_iff))
qed

text \<open>A JSON value that is a string or a number.\<close>

fun json_scalar :: "json \<Rightarrow> bool" where
  "json_scalar (JStr s) = True"
| "json_scalar (JNum n) = True"
| "json_scalar _ = False"

text \<open>
  C40 (error responses are typed and lose nothing). Every error becomes a response with a client or server error status,
  a server error exactly for the five faults on the server's side; its body is a JSON object with its members in the
  order of their keys, all strings or numbers, whose member \<open>error\<close> is a non-empty code; the code alone tells which
  variant of \<open>AppError\<close> it was, and the whole body tells the error with the values it carries.
\<close>

theorem error_response_typed:
  "(400 \<le> status_of e \<and> status_of e < 600) \<and>
   (500 \<le> status_of e \<longleftrightarrow>
      e \<in> {InternalError, SolanaRpcError, TransactionSigningFailed, NotImplemented} \<or> (\<exists>m. e = PinataNetworkError m)) \<and>
   (\<exists>ms code. body_of e = JObj ms \<and> sorted_wrt (<) (map fst ms) \<and> list_all (\<lambda>m. json_scalar (snd m)) ms \<and>
      json_get ''error'' (body_of e) = Some (JStr code) \<and> code \<noteq> []) \<and>
   (error_code e = error_code e' \<longleftrightarrow> variant e = variant e') \<and>
   (body_of e = body_of e' \<longleftrightarrow> e = e')"
proof -
  have "\<exists>kvs. body_of e = json_object kvs" by (cases e) (auto simp: body_of_def err_body_def)
  then obtain ms where ms: "body_of e = JObj ms" and "sorted_wrt (<) (map fst ms)"
    using json_object_sorted by (metis json_object_def)
  moreover have "list_all (\<lambda>m. json_scalar (snd m)) ms"
    using ms by (cases e) (auto simp: body_of_def err_body_def json_object_def)
  moreover have "\<exists>code. json_get ''error'' (body_of e) = Some (JStr code) \<and> code \<noteq> []"
    by (cases e) (simp_all add: body_of_def err_body_def)
  ultimately show ?thesis
    using status_of_range status_of_server_error error_code_eq_iff body_of_inj by blast
qed

end
