(* ===== verification/Process_Health.thy ===== *)
theory Process_Health
  imports App_Error
begin

text \<open>
  Process health and worker supervision: \<open>ProcessHealth\<close> and \<open>ProcessHealthState\<close> of
  \<^verbatim>\<open>src/src/state.rs\<close>, the failure policy of \<^verbatim>\<open>src/src/workers/policy.rs\<close>, the supervisor of
  \<^verbatim>\<open>src/src/workers/supervisor.rs\<close>, the health endpoint of \<^verbatim>\<open>src/src/router.rs\<close> and the worker
  start-up of \<^verbatim>\<open>src/src/main.rs\<close>.

  The atomic \<open>u8\<close> of \<open>ProcessHealthState\<close> is an \<open>8 word\<close>. \<open>main\<close>, the supervising tasks and the workers' own
  tasks run on several threads: a step relation makes one access to shared state at a time, a call of \<open>spawn\<close>, one
  write of a supervising task, the end of a worker's task, or a degraded mark a worker sets by itself. The main
  result is that the health endpoint reports \<open>503 runtime-failed\<close> exactly when the supervising task of the
  critical worker has recorded its end, that it stays so, and that the end is recorded on every fair schedule.
\<close>

section \<open>Health codes\<close>

datatype process_health = PH_Healthy | PH_Degraded | PH_RuntimeFailed | PH_StartupFailed

definition HEALTHY :: u8 where "HEALTHY = 0"
definition DEGRADED :: u8 where "DEGRADED = 1"
definition RUNTIME_FAILED :: u8 where "RUNTIME_FAILED = 2"
definition STARTUP_FAILED :: u8 where "STARTUP_FAILED = 3"

lemmas health_codes = HEALTHY_def DEGRADED_def RUNTIME_FAILED_def STARTUP_FAILED_def

fun encode :: "process_health \<Rightarrow> u8" where
  "encode PH_Healthy = HEALTHY"
| "encode PH_Degraded = DEGRADED"
| "encode PH_RuntimeFailed = RUNTIME_FAILED"
| "encode PH_StartupFailed = STARTUP_FAILED"

definition decode :: "u8 \<Rightarrow> process_health" where
  "decode v =
     (if v = HEALTHY then PH_Healthy
      else if v = DEGRADED then PH_Degraded
      else if v = RUNTIME_FAILED then PH_RuntimeFailed
      else if v = STARTUP_FAILED then PH_StartupFailed
      else PH_StartupFailed)"

definition health_new :: "process_health \<Rightarrow> u8" where
  "health_new initial = encode initial"

definition health_current :: "u8 \<Rightarrow> process_health" where
  "health_current s = decode s"

definition health_set :: "process_health \<Rightarrow> u8 \<Rightarrow> u8" where
  "health_set nxt s = encode nxt"

text \<open>\<open>compare_exchange(HEALTHY, DEGRADED)\<close>: the store happens only from \<open>HEALTHY\<close>.\<close>

definition mark_degraded :: "u8 \<Rightarrow> u8" where
  "mark_degraded s = (if s = HEALTHY then DEGRADED else s)"

definition mark_runtime_failed :: "u8 \<Rightarrow> u8" where
  "mark_runtime_failed s = health_set PH_RuntimeFailed s"

section \<open>Failure policy\<close>

datatype worker_criticality = Critical | NonCritical
datatype bootstrap_failure_action = FailFast | DisableAndContinue
datatype worker_status = WS_Healthy | WS_Degraded | WS_Disabled
datatype degradation_reason = RpcUnavailable | RetryBackoff | CircuitBreakerTripped | PanicRecovered

fun on_bootstrap_failure :: "worker_criticality \<Rightarrow> bootstrap_failure_action" where
  "on_bootstrap_failure Critical = FailFast"
| "on_bootstrap_failure NonCritical = DisableAndContinue"

definition on_runtime_failure :: "worker_criticality \<Rightarrow> worker_status" where
  "on_runtime_failure c = WS_Disabled"

fun suggested_status :: "degradation_reason \<Rightarrow> worker_status" where
  "suggested_status RpcUnavailable = WS_Degraded"
| "suggested_status RetryBackoff = WS_Degraded"
| "suggested_status CircuitBreakerTripped = WS_Disabled"
| "suggested_status PanicRecovered = WS_Disabled"

section \<open>Health endpoint\<close>

record health_response_body =
  hr_status :: string
  hr_process_alive :: bool
  hr_workers :: string

fun health_response :: "process_health \<Rightarrow> nat \<times> health_response_body" where
  "health_response PH_Healthy =
     (200, \<lparr>hr_status = ''healthy'', hr_process_alive = True, hr_workers = ''ready''\<rparr>)"
| "health_response PH_Degraded =
     (200, \<lparr>hr_status = ''degraded'', hr_process_alive = True, hr_workers = ''degraded''\<rparr>)"
| "health_response PH_StartupFailed =
     (503, \<lparr>hr_status = ''startup-failed'', hr_process_alive = False, hr_workers = ''unavailable''\<rparr>)"
| "health_response PH_RuntimeFailed =
     (503, \<lparr>hr_status = ''runtime-failed'', hr_process_alive = True, hr_workers = ''failed''\<rparr>)"

definition health_handler :: "u8 \<Rightarrow> nat \<times> health_response_body" where
  "health_handler s = health_response (health_current s)"

section \<open>Supervisor\<close>

datatype worker_lifecycle = Starting | Running | Exited | Panicked | Cancelled

text \<open>How the inner task ended: \<open>Ok(())\<close>, a join error that is a panic, any other join error.\<close>

datatype join_outcome = JoinOk | JoinPanic | JoinCancelled

definition record_runtime_failure :: "worker_criticality \<Rightarrow> u8 \<Rightarrow> u8" where
  "record_runtime_failure c s =
     (case c of NonCritical \<Rightarrow> mark_degraded s | Critical \<Rightarrow> mark_runtime_failed s)"

fun lifecycle_of_outcome :: "join_outcome \<Rightarrow> worker_lifecycle" where
  "lifecycle_of_outcome JoinOk = Exited"
| "lifecycle_of_outcome JoinPanic = Panicked"
| "lifecycle_of_outcome JoinCancelled = Cancelled"

text \<open>
  Where the supervising task of a worker stands: queued by \<open>spawn\<close>; \<open>Running\<close> inserted; awaiting the worker's own
  task; that task ended, which the supervising task has not seen yet; its end inserted in the map, not yet recorded
  in the process health; and finished.
\<close>

datatype task_phase =
    Queued
  | MarkedRunning
  | Awaiting
  | Joined join_outcome
  | MarkedEnded join_outcome
  | Finished join_outcome

text \<open>\<open>to_spawn\<close> is what \<open>main\<close> has still to spawn.\<close>

record supervisor =
  to_spawn :: "(string \<times> worker_criticality) list"
  lifecycle :: "string \<Rightarrow> worker_lifecycle option"
  criticality_of :: "string \<Rightarrow> worker_criticality option"
  phase_of :: "string \<Rightarrow> task_phase option"
  process_health :: u8

definition spawn_call :: "string \<Rightarrow> worker_criticality \<Rightarrow> supervisor \<Rightarrow> supervisor" where
  "spawn_call worker c s =
     s\<lparr>lifecycle := (lifecycle s)(worker \<mapsto> Starting),
       criticality_of := (criticality_of s)(worker \<mapsto> c),
       phase_of := (phase_of s)(worker \<mapsto> Queued)\<rparr>"

definition enter_phase :: "string \<Rightarrow> task_phase \<Rightarrow> supervisor \<Rightarrow> supervisor" where
  "enter_phase worker p s = s\<lparr>phase_of := (phase_of s)(worker \<mapsto> p)\<rparr>"

definition insert_lifecycle :: "string \<Rightarrow> worker_lifecycle \<Rightarrow> supervisor \<Rightarrow> supervisor" where
  "insert_lifecycle worker l s = s\<lparr>lifecycle := (lifecycle s)(worker \<mapsto> l)\<rparr>"

text \<open>
  The next step of a supervising task, where it has one: each write is a step of its own. It waits while the
  worker's task runs, and has none when it has finished.
\<close>

definition supervise :: "string \<Rightarrow> supervisor \<Rightarrow> supervisor option" where
  "supervise worker s =
     (case (phase_of s worker, criticality_of s worker) of
        (Some Queued, Some c) \<Rightarrow> Some (enter_phase worker MarkedRunning (insert_lifecycle worker Running s))
      | (Some MarkedRunning, Some c) \<Rightarrow> Some (enter_phase worker Awaiting s)
      | (Some (Joined out), Some c) \<Rightarrow>
          Some (enter_phase worker (MarkedEnded out) (insert_lifecycle worker (lifecycle_of_outcome out) s))
      | (Some (MarkedEnded out), Some c) \<Rightarrow>
          Some (enter_phase worker (Finished out) (s\<lparr>process_health := record_runtime_failure c (process_health s)\<rparr>))
      | _ \<Rightarrow> None)"

definition supervisor_lifecycle_of :: "supervisor \<Rightarrow> string \<Rightarrow> worker_lifecycle option" where
  "supervisor_lifecycle_of s worker = lifecycle s worker"

text \<open>\<open>main\<close> sets the health to \<open>Healthy\<close> after the bootstrap and spawns the five workers.\<close>

definition runtime_workers :: "(string \<times> worker_criticality) list" where
  "runtime_workers =
     [(''event_listener'', NonCritical), (''keeper'', Critical),
      (''notification_worker'', NonCritical), (''refund_worker'', NonCritical),
      (''expiry_worker'', NonCritical)]"

definition supervisor_new :: "u8 \<Rightarrow> supervisor" where
  "supervisor_new h =
     \<lparr>to_spawn = [], lifecycle = Map.empty, criticality_of = Map.empty, phase_of = Map.empty, process_health = h\<rparr>"

text \<open>
  \<open>spawn_runtime_workers\<close> up to its first call of \<open>spawn\<close>, and one call: the tasks spawned already may run before the
  next call is made.
\<close>

definition spawn_runtime_workers :: "u8 \<Rightarrow> supervisor" where
  "spawn_runtime_workers h = (supervisor_new h)\<lparr>to_spawn := runtime_workers\<rparr>"

definition spawn_next :: "supervisor \<Rightarrow> supervisor option" where
  "spawn_next s =
     (case to_spawn s of [] \<Rightarrow> None | (worker, c) # rest \<Rightarrow> Some (spawn_call worker c (s\<lparr>to_spawn := rest\<rparr>)))"

definition runtime_start :: supervisor where
  "runtime_start = spawn_runtime_workers (health_set PH_Healthy (health_new PH_StartupFailed))"

inductive sup_step :: "supervisor \<Rightarrow> supervisor \<Rightarrow> bool" where
  spawn: "spawn_next s = Some t \<Longrightarrow> sup_step s t"
| task: "supervise worker s = Some t \<Longrightarrow> sup_step s t"
| worker_end: "phase_of s worker = Some Awaiting \<Longrightarrow> sup_step s (enter_phase worker (Joined outcome) s)"
| degrade: "phase_of s worker = Some Awaiting \<Longrightarrow>
     sup_step s (s\<lparr>process_health := mark_degraded (process_health s)\<rparr>)"

inductive sup_reachable :: "supervisor \<Rightarrow> bool" where
  init: "sup_reachable runtime_start"
| step: "sup_reachable s \<Longrightarrow> sup_step s t \<Longrightarrow> sup_reachable t"

inductive_cases sup_stepE: "sup_step s t"

text \<open>
  A run of the process from the start, with time passing between steps, and the promise of the runtime: a task
  that can make a step is polled again.
\<close>

definition sup_run :: "(nat \<Rightarrow> supervisor) \<Rightarrow> bool" where
  "sup_run f \<longleftrightarrow> f 0 = runtime_start \<and> (\<forall>n. f (Suc n) = f n \<or> sup_step (f n) (f (Suc n)))"

definition sup_fair :: "(nat \<Rightarrow> supervisor) \<Rightarrow> bool" where
  "sup_fair f \<longleftrightarrow>
     (\<forall>n worker. supervise worker (f n) \<noteq> None \<longrightarrow> (\<exists>m \<ge> n. supervise worker (f m) = Some (f (Suc m))))"

fun lifecycle_of_phase :: "task_phase \<Rightarrow> worker_lifecycle" where
  "lifecycle_of_phase Queued = Starting"
| "lifecycle_of_phase (MarkedEnded out) = lifecycle_of_outcome out"
| "lifecycle_of_phase (Finished out) = lifecycle_of_outcome out"
| "lifecycle_of_phase _ = Running"

definition recorded :: "supervisor \<Rightarrow> string \<Rightarrow> bool" where
  "recorded s worker \<longleftrightarrow> (\<exists>out. phase_of s worker = Some (Finished out))"

text \<open>The worker's own task has ended, whoever knows of it.\<close>

definition worker_ended :: "supervisor \<Rightarrow> string \<Rightarrow> bool" where
  "worker_ended s worker \<longleftrightarrow> (\<exists>out. phase_of s worker \<in> {Some (Joined out), Some (MarkedEnded out), Some (Finished out)})"

definition sup_health :: "u8 \<Rightarrow> (string \<Rightarrow> bool) \<Rightarrow> bool" where
  "sup_health h rec \<longleftrightarrow>
     h \<in> {HEALTHY, DEGRADED, RUNTIME_FAILED} \<and> (h = RUNTIME_FAILED \<longleftrightarrow> rec ''keeper'') \<and>
     (h = HEALTHY \<longrightarrow> (\<forall>worker. \<not> rec worker))"

definition sup_wf :: "supervisor \<Rightarrow> bool" where
  "sup_wf s \<longleftrightarrow>
     (\<forall>worker. lifecycle s worker = map_option lifecycle_of_phase (phase_of s worker)) \<and>
     (\<forall>worker. phase_of s worker \<noteq> None \<longrightarrow>
        criticality_of s worker = map_of runtime_workers worker \<and> map_of runtime_workers worker \<noteq> None) \<and>
     (\<forall>p \<in> set (to_spawn s). phase_of s (fst p) = None \<and> map_of runtime_workers (fst p) = Some (snd p)) \<and>
     distinct (map fst (to_spawn s))"

definition sup_inv :: "supervisor \<Rightarrow> bool" where
  "sup_inv s \<longleftrightarrow> sup_wf s \<and> sup_health (process_health s) (recorded s)"

section \<open>Codes as an interface\<close>

text \<open>
  A table of codes: what is written can be read back. The health byte, the event names of the
  notification queue and the instruction names of the program logs are such tables.
\<close>

locale code_table =
  fixes enc :: "'a \<Rightarrow> 'c" and dec :: "'c \<Rightarrow> 'a option"
  assumes dec_enc: "dec (enc x) = Some x"
begin

lemma enc_inj: "enc x = enc y \<longleftrightarrow> x = y"
  by (metis dec_enc option.inject)

lemma dec_range: "c \<in> range enc \<Longrightarrow> \<exists>x. dec c = Some x \<and> enc x = c"
  by (auto simp: dec_enc)

lemma not_decoded_not_written: "dec c = None \<Longrightarrow> enc x \<noteq> c"
  using dec_enc [of x] by auto

end

interpretation health_code: code_table encode "\<lambda>v. Some (decode v)"
proof unfold_locales
  fix x show "Some (decode (encode x)) = Some x"
    by (cases x) (simp_all add: decode_def health_codes)
qed

lemma encode_eq_iff [simp]:
  "encode h = HEALTHY \<longleftrightarrow> h = PH_Healthy" "encode h = DEGRADED \<longleftrightarrow> h = PH_Degraded"
  "encode h = RUNTIME_FAILED \<longleftrightarrow> h = PH_RuntimeFailed"
  "encode h = STARTUP_FAILED \<longleftrightarrow> h = PH_StartupFailed"
  using health_code.enc_inj [of h] by (metis encode.simps)+

lemma decode_code [simp]:
  "decode HEALTHY = PH_Healthy" "decode DEGRADED = PH_Degraded"
  "decode RUNTIME_FAILED = PH_RuntimeFailed" "decode STARTUP_FAILED = PH_StartupFailed"
  by (simp_all add: decode_def health_codes)

lemma code_distinct [simp]:
  "HEALTHY \<noteq> DEGRADED" "DEGRADED \<noteq> HEALTHY" "HEALTHY \<noteq> RUNTIME_FAILED" "RUNTIME_FAILED \<noteq> HEALTHY"
  "DEGRADED \<noteq> RUNTIME_FAILED" "RUNTIME_FAILED \<noteq> DEGRADED" "STARTUP_FAILED \<noteq> HEALTHY"
  "STARTUP_FAILED \<noteq> DEGRADED" "STARTUP_FAILED \<noteq> RUNTIME_FAILED"
  by (simp_all add: health_codes)

section \<open>Invariant of the supervisor\<close>

lemmas phase_defs = enter_phase_def insert_lifecycle_def spawn_call_def

lemma critical_is_keeper: "map_of runtime_workers worker = Some Critical \<longleftrightarrow> worker = ''keeper''"
  by (simp add: runtime_workers_def)

lemma sup_wf_phase: "sup_wf s \<Longrightarrow> phase_of s worker = Some p \<Longrightarrow> criticality_of s worker = map_of runtime_workers worker"
  by (simp add: sup_wf_def)

lemma sup_inv_start: "sup_inv runtime_start"
  by (simp add: sup_inv_def sup_wf_def sup_health_def runtime_start_def spawn_runtime_workers_def supervisor_new_def
      health_set_def recorded_def runtime_workers_def)

lemma sup_inv_spawn:
  assumes inv: "sup_inv s" and sp: "spawn_next s = Some t"
  shows "sup_inv t"
proof -
  from sp obtain worker c rest where ts: "to_spawn s = (worker, c) # rest"
    and t: "t = spawn_call worker c (s\<lparr>to_spawn := rest\<rparr>)"
    by (auto simp: spawn_next_def split: list.splits)
  have new: "phase_of s worker = None" using inv ts by (simp add: sup_inv_def sup_wf_def)
  then have "recorded t = recorded s" by (auto simp: t phase_defs recorded_def fun_eq_iff)
  moreover have "sup_wf t" using inv ts by (auto simp: sup_inv_def sup_wf_def t spawn_call_def)
  moreover have "process_health t = process_health s" by (simp add: t spawn_call_def)
  ultimately show ?thesis using inv by (simp add: sup_inv_def)
qed

text \<open>A step of a supervising task that does not write the health.\<close>

lemma sup_wf_enter:
  assumes "sup_wf s" and "phase_of s worker = Some q"
  shows "sup_wf (enter_phase worker p (insert_lifecycle worker (lifecycle_of_phase p) s))"
  using assms unfolding sup_wf_def by (auto simp: phase_defs)

lemma sup_inv_enter:
  assumes "sup_inv s" and "phase_of s worker = Some q" and "\<forall>out. q \<noteq> Finished out" and "\<forall>out. p \<noteq> Finished out"
  shows "sup_inv (enter_phase worker p (insert_lifecycle worker (lifecycle_of_phase p) s))" (is "sup_inv ?t")
proof -
  have "recorded ?t = recorded s" using assms(2-4) by (auto simp: phase_defs recorded_def fun_eq_iff)
  moreover have "process_health ?t = process_health s" by (simp add: phase_defs)
  ultimately show ?thesis using assms(1) sup_wf_enter [OF _ assms(2)] by (simp add: sup_inv_def)
qed

lemma sup_inv_same_lifecycle:
  assumes "sup_inv s" and "phase_of s worker = Some q" and "lifecycle_of_phase p = lifecycle_of_phase q"
  shows "enter_phase worker p (insert_lifecycle worker (lifecycle_of_phase p) s) = enter_phase worker p s"
proof -
  have "lifecycle s worker = Some (lifecycle_of_phase p)" using assms by (simp add: sup_inv_def sup_wf_def)
  then show ?thesis by (simp add: phase_defs fun_upd_idem)
qed

lemma sup_inv_record:
  assumes inv: "sup_inv s" and ph: "phase_of s worker = Some (MarkedEnded out)" and c: "criticality_of s worker = Some c"
  shows "sup_inv (enter_phase worker (Finished out) (s\<lparr>process_health := record_runtime_failure c (process_health s)\<rparr>))"
    (is "sup_inv ?t")
proof -
  have k: "c = Critical \<longleftrightarrow> worker = ''keeper''"
    using inv c sup_wf_phase [OF _ ph] critical_is_keeper [of worker] by (auto simp: sup_inv_def)
  have rec: "recorded ?t w \<longleftrightarrow> w = worker \<or> recorded s w" for w by (auto simp: phase_defs recorded_def)
  have h: "process_health ?t = record_runtime_failure c (process_health s)" by (simp add: phase_defs)
  have "sup_health (process_health ?t) (recorded ?t)"
    using inv k unfolding sup_inv_def sup_health_def rec h
    by (cases c) (auto simp: record_runtime_failure_def mark_degraded_def mark_runtime_failed_def health_set_def)
  moreover have "sup_wf ?t"
  proof -
    have "lifecycle s worker = Some (lifecycle_of_phase (Finished out))" using inv ph by (simp add: sup_inv_def sup_wf_def)
    then have "enter_phase worker (Finished out) (insert_lifecycle worker (lifecycle_of_phase (Finished out)) s) =
        enter_phase worker (Finished out) s" by (simp add: phase_defs fun_upd_idem)
    with inv sup_wf_enter [OF _ ph, of "Finished out"] have "sup_wf (enter_phase worker (Finished out) s)" by (simp add: sup_inv_def)
    then show ?thesis by (simp add: sup_wf_def phase_defs)
  qed
  ultimately show ?thesis by (simp add: sup_inv_def)
qed

lemma supervise_cases:
  assumes "supervise worker s = Some t"
  obtains (running) "phase_of s worker = Some Queued" and "t = enter_phase worker MarkedRunning (insert_lifecycle worker Running s)"
  | (inner) "phase_of s worker = Some MarkedRunning" and "t = enter_phase worker Awaiting s"
  | (mark) out where "phase_of s worker = Some (Joined out)"
      and "t = enter_phase worker (MarkedEnded out) (insert_lifecycle worker (lifecycle_of_outcome out) s)"
  | (write_health) out c where "phase_of s worker = Some (MarkedEnded out)" and "criticality_of s worker = Some c"
      and "t = enter_phase worker (Finished out) (s\<lparr>process_health := record_runtime_failure c (process_health s)\<rparr>)"
  using assms by (auto simp: supervise_def split: option.splits task_phase.splits)

lemma sup_inv_supervise:
  assumes "sup_inv s" and "supervise worker s = Some t"
  shows "sup_inv t"
  using assms(2)
proof (cases rule: supervise_cases)
  case running
  then show ?thesis using sup_inv_enter [OF assms(1), of worker Queued MarkedRunning] by simp
next
  case inner
  then show ?thesis
    using sup_inv_enter [OF assms(1), of worker MarkedRunning Awaiting] sup_inv_same_lifecycle [OF assms(1), of worker MarkedRunning Awaiting]
    by simp
next
  case (mark out)
  then show ?thesis using sup_inv_enter [OF assms(1), of worker "Joined out" "MarkedEnded out"] by simp
next
  case (write_health out c)
  then show ?thesis using sup_inv_record [OF assms(1)] by simp
qed

lemma sup_inv_step:
  assumes "sup_step s t" and "sup_inv s"
  shows "sup_inv t"
  using assms(1)
proof cases
  case spawn
  then show ?thesis by (rule sup_inv_spawn [OF assms(2)])
next
  case (task worker)
  then show ?thesis by (rule sup_inv_supervise [OF assms(2)])
next
  case (worker_end worker out)
  then show ?thesis
    using sup_inv_enter [OF assms(2), of worker Awaiting "Joined out"] sup_inv_same_lifecycle [OF assms(2), of worker Awaiting "Joined out"]
    by simp
next
  case (degrade worker)
  have "recorded t = recorded s" by (simp add: degrade recorded_def fun_eq_iff)
  then show ?thesis
    using assms(2) degrade by (auto simp: sup_inv_def sup_wf_def sup_health_def mark_degraded_def)
qed

lemma sup_reachable_inv: "sup_reachable s \<Longrightarrow> sup_inv s"
  by (induction rule: sup_reachable.induct) (auto intro: sup_inv_start sup_inv_step)

lemma sup_run_reachable: "sup_run f \<Longrightarrow> sup_reachable (f n)"
  by (induction n) (simp add: sup_run_def sup_reachable.init, metis sup_run_def sup_reachable.step)

section \<open>What an end leads to\<close>

text \<open>Once its worker's task has ended, a supervising task is moved by its own steps only.\<close>

lemma phase_kept:
  assumes "sup_step s t" and "sup_inv s" and "phase_of s worker = Some p" and "p \<notin> {Queued, MarkedRunning, Awaiting}"
  shows "phase_of t worker = Some p \<or> supervise worker s = Some t"
  using assms(1)
proof cases
  case spawn
  then show ?thesis
    using assms(2,3) by (auto simp: spawn_next_def spawn_call_def sup_inv_def sup_wf_def split: list.splits)
next
  case (task worker')
  then show ?thesis
    using assms(3) by (cases "worker' = worker") (auto elim!: supervise_cases simp: enter_phase_def insert_lifecycle_def)
qed (use assms(3,4) in \<open>auto simp: enter_phase_def\<close>)

lemma finished_kept:
  assumes "sup_step s t" and "sup_inv s" and "recorded s worker"
  shows "recorded t worker"
proof -
  from assms(3) obtain out where "phase_of s worker = Some (Finished out)" by (auto simp: recorded_def)
  then show ?thesis
    using phase_kept [OF assms(1,2), of worker "Finished out"] by (auto simp: recorded_def supervise_def split: option.splits)
qed

lemma recorded_forever:
  assumes "sup_run f" and "recorded (f n) worker" and "n \<le> m"
  shows "recorded (f m) worker"
  using assms(3,2)
proof (induction m rule: dec_induct)
  case (step m)
  then show ?case
    using assms(1) finished_kept [of "f m" "f (Suc m)"] sup_reachable_inv [OF sup_run_reachable [OF assms(1)]]
    unfolding sup_run_def by metis
qed simp

text \<open>A supervising task that can make a step makes it, and until then its phase stays.\<close>

lemma fair_advance:
  assumes run: "sup_run f" and fair: "sup_fair f" and ph: "phase_of (f n) worker = Some p"
    and p: "p \<notin> {Queued, MarkedRunning, Awaiting}" and enabled: "\<And>k. phase_of (f k) worker = Some p \<Longrightarrow> supervise worker (f k) \<noteq> None"
  shows "\<exists>m \<ge> n. phase_of (f m) worker = Some p \<and> supervise worker (f m) = Some (f (Suc m))"
proof (rule ccontr)
  assume no: "\<not> ?thesis"
  have kept: "phase_of (f m) worker = Some p" if "n \<le> m" for m
    using that
  proof (induction m rule: dec_induct)
    case base
    show ?case by (rule ph)
  next
    case (step m)
    then have "supervise worker (f m) \<noteq> Some (f (Suc m))" using no by auto
    then show ?case
      using step run p phase_kept [of "f m" "f (Suc m)" worker p] sup_reachable_inv [OF sup_run_reachable [OF run]]
      unfolding sup_run_def by metis
  qed
  from fair enabled [OF ph] obtain m where "n \<le> m" and "supervise worker (f m) = Some (f (Suc m))"
    unfolding sup_fair_def by blast
  with kept no show False by blast
qed

lemma phase_enabled:
  assumes "sup_inv s" and "phase_of s worker = Some p" and "p \<in> {Joined out, MarkedEnded out}"
  shows "supervise worker s \<noteq> None"
  using assms by (auto simp: supervise_def sup_inv_def sup_wf_def)

lemma ended_gets_recorded:
  assumes run: "sup_run f" and fair: "sup_fair f" and e: "worker_ended (f n) worker"
  shows "\<exists>m \<ge> n. recorded (f m) worker"
proof -
  note inv = sup_reachable_inv [OF sup_run_reachable [OF run]]
  have marked: "\<exists>k \<ge> m. recorded (f k) worker" if at: "phase_of (f m) worker = Some (MarkedEnded out)" for m out
  proof -
    obtain k where "k \<ge> m" "phase_of (f k) worker = Some (MarkedEnded out)" "supervise worker (f k) = Some (f (Suc k))"
      using fair_advance [OF run fair at] phase_enabled [OF inv] by auto
    then have "recorded (f (Suc k)) worker" by (auto elim!: supervise_cases simp: enter_phase_def recorded_def)
    with \<open>k \<ge> m\<close> show ?thesis by (meson le_SucI)
  qed
  have joined: "\<exists>k \<ge> m. phase_of (f k) worker = Some (MarkedEnded out)" if at: "phase_of (f m) worker = Some (Joined out)" for m out
  proof -
    obtain k where "k \<ge> m" "phase_of (f k) worker = Some (Joined out)" "supervise worker (f k) = Some (f (Suc k))"
      using fair_advance [OF run fair at] phase_enabled [OF inv] by auto
    then have "phase_of (f (Suc k)) worker = Some (MarkedEnded out)"
      by (auto elim!: supervise_cases simp: enter_phase_def insert_lifecycle_def)
    with \<open>k \<ge> m\<close> show ?thesis by (meson le_SucI)
  qed
  from e obtain out where "phase_of (f n) worker \<in> {Some (Joined out), Some (MarkedEnded out), Some (Finished out)}"
    by (auto simp: worker_ended_def)
  then consider "phase_of (f n) worker = Some (Joined out)" | "phase_of (f n) worker = Some (MarkedEnded out)" | "recorded (f n) worker"
    by (auto simp: recorded_def)
  then show ?thesis using marked joined by cases (meson le_trans, blast, blast)
qed

lemma health_status:
  assumes "sup_inv s"
  shows "fst (health_handler (process_health s)) = (if recorded s ''keeper'' then 503 else 200)"
  using assms by (auto simp: sup_inv_def sup_health_def health_handler_def health_current_def)

text \<open>
  C37 (the health endpoint and the critical worker). On every run of the process after start-up, whatever the
  interleaving of \<open>main\<close>, the supervising tasks, exits, panics, cancellations and degraded marks: \<open>GET /health\<close> answers
  503 exactly when the supervising task of the keeper has recorded the keeper's end, and 200 otherwise, so that a worker
  that is only degraded, or another one that died, leaves it at 200; a 503 implies that the supervisor's map shows
  the keeper as ended, and it is never taken back; and when the keeper's task has ended and the runtime goes on polling
  tasks that can proceed, there is a moment from which every answer is 503.
\<close>

theorem health_reports_critical_failure:
  assumes "sup_run f"
  shows "fst (health_handler (process_health (f n))) = (if recorded (f n) ''keeper'' then 503 else 200) \<and>
    (fst (health_handler (process_health (f n))) = 503 \<longrightarrow>
       supervisor_lifecycle_of (f n) ''keeper'' \<in> {Some Exited, Some Panicked, Some Cancelled} \<and>
       (\<forall>m \<ge> n. fst (health_handler (process_health (f m))) = 503)) \<and>
    (sup_fair f \<and> worker_ended (f n) ''keeper'' \<longrightarrow>
       (\<exists>m \<ge> n. \<forall>k \<ge> m. fst (health_handler (process_health (f k))) = 503))"
proof -
  note inv = sup_reachable_inv [OF sup_run_reachable [OF assms]]
  have "supervisor_lifecycle_of (f n) ''keeper'' \<in> {Some Exited, Some Panicked, Some Cancelled}" if r: "recorded (f n) ''keeper''"
  proof -
    from r obtain out where "phase_of (f n) ''keeper'' = Some (Finished out)" by (auto simp: recorded_def)
    then show ?thesis using inv [of n] by (cases out) (simp_all add: supervisor_lifecycle_of_def sup_inv_def sup_wf_def)
  qed
  moreover have "\<exists>m \<ge> n. \<forall>k \<ge> m. fst (health_handler (process_health (f k))) = 503"
    if live: "sup_fair f" "worker_ended (f n) ''keeper''"
  proof -
    obtain m where "m \<ge> n" and m: "recorded (f m) ''keeper''" using ended_gets_recorded [OF assms live] by blast
    then show ?thesis using recorded_forever [OF assms m] health_status [OF inv] by (intro exI [of _ m]) simp
  qed
  moreover have "fst (health_handler (process_health (f m))) = 503" if "recorded (f n) ''keeper''" "m \<ge> n" for m
    using recorded_forever [OF assms that] health_status [OF inv, of m] by simp
  ultimately show ?thesis using health_status [OF inv, of n] by (intro conjI impI allI) (simp_all split: if_splits)
qed

section \<open>A run\<close>

text \<open>Moves of a schedule; a move that is not possible leaves the state as it is.\<close>

datatype sup_move = Spawn_Next | Task string | Worker_End string join_outcome

fun sup_exec :: "sup_move \<Rightarrow> supervisor \<Rightarrow> supervisor" where
  "sup_exec Spawn_Next s = (case spawn_next s of None \<Rightarrow> s | Some t \<Rightarrow> t)"
| "sup_exec (Task worker) s = (case supervise worker s of None \<Rightarrow> s | Some t \<Rightarrow> t)"
| "sup_exec (Worker_End worker out) s =
     (if phase_of s worker = Some Awaiting then enter_phase worker (Joined out) s else s)"

definition schedule_run :: "sup_move list \<Rightarrow> nat \<Rightarrow> supervisor" where
  "schedule_run ms n = fold sup_exec (take n ms) runtime_start"

lemma sup_exec_step: "sup_exec m s = s \<or> sup_step s (sup_exec m s)"
  by (cases m) (auto split: option.splits intro: sup_step.intros)

lemma schedule_run_Suc:
  "schedule_run ms (Suc n) = (if n < length ms then sup_exec (ms ! n) (schedule_run ms n) else schedule_run ms n)"
  by (simp add: schedule_run_def take_Suc_conv_app_nth)

lemma sup_run_schedule: "sup_run (schedule_run ms)"
  unfolding sup_run_def schedule_run_Suc using sup_exec_step by (auto simp: schedule_run_def)

text \<open>A schedule after which no supervising task can proceed is fair.\<close>

lemma supervise_enabled:
  "supervise worker s \<noteq> None \<longleftrightarrow>
     (\<exists>p c. phase_of s worker = Some p \<and> criticality_of s worker = Some c \<and> p \<noteq> Awaiting \<and> (\<forall>out. p \<noteq> Finished out))"
  by (auto simp: supervise_def split: option.splits task_phase.splits)

lemma supervise_kept:
  assumes "sup_step s t" and "sup_inv s" and "supervise worker s \<noteq> None"
  shows "supervise worker s = Some t \<or> supervise worker t \<noteq> None"
proof -
  from assms(3) obtain p c where pc: "phase_of s worker = Some p" "criticality_of s worker = Some c"
    and p: "p \<noteq> Awaiting" "\<forall>out. p \<noteq> Finished out" unfolding supervise_enabled by blast
  have "supervise worker s = Some t \<or> phase_of t worker = Some p \<and> criticality_of t worker = Some c"
    using assms(1)
  proof cases
    case spawn
    then show ?thesis
      using assms(2) pc by (auto simp: spawn_next_def spawn_call_def sup_inv_def sup_wf_def split: list.splits)
  next
    case (task worker')
    then show ?thesis
      using pc by (cases "worker' = worker") (auto elim!: supervise_cases simp: enter_phase_def insert_lifecycle_def)
  qed (use pc p in \<open>auto simp: enter_phase_def\<close>)
  with p show ?thesis unfolding supervise_enabled by blast
qed

lemma sup_fair_schedule:
  assumes "\<And>worker. supervise worker (schedule_run ms (length ms)) = None"
  shows "sup_fair (schedule_run ms)"
  unfolding sup_fair_def
proof (intro allI impI)
  fix n worker assume en: "supervise worker (schedule_run ms n) \<noteq> None"
  show "\<exists>m \<ge> n. supervise worker (schedule_run ms m) = Some (schedule_run ms (Suc m))"
  proof (rule ccontr)
    assume no: "\<not> ?thesis"
    have "supervise worker (schedule_run ms m) \<noteq> None" if "n \<le> m" for m
      using that
    proof (induction m rule: dec_induct)
      case (step m)
      then show ?case
        using no supervise_kept [of "schedule_run ms m" "schedule_run ms (Suc m)" worker] sup_run_schedule [of ms]
          sup_reachable_inv [OF sup_run_reachable [OF sup_run_schedule]]
        unfolding sup_run_def by metis
    qed (rule en)
    from this [of "max n (length ms)"] show False
      using assms [of worker] by (simp add: schedule_run_def)
  qed
qed

text \<open>The keeper panics once every worker runs.\<close>

definition keeper_panics :: "sup_move list" where
  "keeper_panics = replicate 5 Spawn_Next @ concat (map (\<lambda>(worker, c). [Task worker, Task worker]) runtime_workers) @
     [Worker_End ''keeper'' JoinPanic, Task ''keeper'', Task ''keeper'']"

lemmas sup_run_defs = schedule_run_def keeper_panics_def runtime_workers_def runtime_start_def spawn_runtime_workers_def
  supervisor_new_def spawn_next_def phase_defs supervise_def eval_nat_numeral

lemma keeper_panics_phases:
  "phase_of (schedule_run keeper_panics 18) =
     [''event_listener'' \<mapsto> Awaiting, ''keeper'' \<mapsto> Finished JoinPanic, ''notification_worker'' \<mapsto> Awaiting,
      ''refund_worker'' \<mapsto> Awaiting, ''expiry_worker'' \<mapsto> Awaiting]"
  "phase_of (schedule_run keeper_panics 16) ''keeper'' = Some (Joined JoinPanic)"
  by (simp_all add: sup_run_defs fun_eq_iff)

text \<open>Between the two writes the map shows the panic and the endpoint still answers 200.\<close>

lemma health_lags_behind:
  "supervisor_lifecycle_of (schedule_run keeper_panics 17) ''keeper'' = Some Panicked \<and>
   fst (health_handler (process_health (schedule_run keeper_panics 17))) = 200"
  by (simp add: sup_run_defs supervisor_lifecycle_of_def health_handler_def health_current_def health_set_def)

theorem health_reports_critical_failure_witness:
  "sup_run (schedule_run keeper_panics) \<and> sup_fair (schedule_run keeper_panics) \<and>
   worker_ended (schedule_run keeper_panics 16) ''keeper'' \<and>
   (\<exists>m \<ge> 16. \<forall>k \<ge> m. fst (health_handler (process_health (schedule_run keeper_panics k))) = 503)"
proof -
  have len: "length keeper_panics = 18" by (simp add: keeper_panics_def runtime_workers_def eval_nat_numeral)
  have "supervise worker (schedule_run keeper_panics 18) = None" for worker
    by (simp add: supervise_def keeper_panics_phases(1))
  then have "sup_fair (schedule_run keeper_panics)" using len by (intro sup_fair_schedule) simp
  moreover have "worker_ended (schedule_run keeper_panics 16) ''keeper''"
    by (simp add: worker_ended_def keeper_panics_phases(2))
  ultimately show ?thesis
    using health_reports_critical_failure [OF sup_run_schedule, of keeper_panics 16] sup_run_schedule by blast
qed

end
