(* ===== verification/Solana_Types.thy ===== *)
theory Solana_Types
  imports Pactum_Prelude
begin

text \<open>
  \<^verbatim>\<open>src/src/solana_types.rs\<close>: the on-chain data of the Pactum program as the backend sees it, and
  the instruction and transaction values that \<^verbatim>\<open>src/src/services/solana.rs\<close> hands to the Solana
  SDK. A fixed array \<open>[u8; n]\<close> is a byte list; \<open>wire_sizes\<close> states the lengths the types fix.
\<close>

type_synonym pubkey = "byte list"

definition MAX_PARTIES :: u16 where "MAX_PARTIES = 10"
definition MAX_EXPIRY_SECONDS :: u64 where "MAX_EXPIRY_SECONDS = 7776000"
definition MAX_URI_LEN :: u16 where "MAX_URI_LEN = 128"
definition MAX_TITLE_LEN :: u16 where "MAX_TITLE_LEN = 64"
definition PROGRAM_ID :: string where "PROGRAM_ID = ''DF1cHTN9EE8Qonda1esTeYvFjmbYcoc52vDTjTMKvS1P''"

datatype agreement_status =
  AS_Draft | AS_PendingSignatures | AS_Completed | AS_Cancelled | AS_Expired | AS_Revoked

datatype storage_backend = Ipfs | Arweave

record revoke_retract_entry_wire =
  rr_pubkey :: pubkey
  rr_count :: u8

record agreement_state_wire =
  creator :: pubkey
  agreement_id :: "byte list"
  content_hash :: "byte list"
  title :: string
  storage_uri :: string
  storage_backend_of :: storage_backend
  parties :: "pubkey list"
  signed_by :: "pubkey list"
  signed_at :: "int list"
  status :: agreement_status
  created_at :: int
  expires_at :: int
  completed_at :: "int option"
  revoked_at :: "int option"
  nft_asset :: "pubkey option"
  collection :: pubkey
  vault_funder :: pubkey
  revoke_votes :: "pubkey list"
  revoke_retract_counts :: "revoke_retract_entry_wire list"
  bump :: u8

record create_agreement_args =
  ca_agreement_id :: "byte list"
  ca_title :: string
  ca_content_hash :: "byte list"
  ca_storage_uri :: string
  ca_storage_backend :: storage_backend
  ca_parties :: "pubkey list"
  ca_expires_in_secs :: int

definition wire_sizes :: "agreement_state_wire \<Rightarrow> bool" where
  "wire_sizes a \<longleftrightarrow> length (creator a) = 32 \<and> length (agreement_id a) = 16 \<and>
     length (content_hash a) = 32 \<and> (\<forall>p \<in> set (parties a). length p = 32) \<and>
     (\<forall>p \<in> set (signed_by a). length p = 32)"

section \<open>Instructions and transactions\<close>

record account_meta =
  am_pubkey :: pubkey
  am_is_signer :: bool
  am_is_writable :: bool

text \<open>\<open>AccountMeta::new\<close> is writable, \<open>AccountMeta::new_readonly\<close> is not.\<close>

definition account_new :: "pubkey \<Rightarrow> bool \<Rightarrow> account_meta" where
  "account_new k signer = \<lparr>am_pubkey = k, am_is_signer = signer, am_is_writable = True\<rparr>"

definition account_new_readonly :: "pubkey \<Rightarrow> bool \<Rightarrow> account_meta" where
  "account_new_readonly k signer = \<lparr>am_pubkey = k, am_is_signer = signer, am_is_writable = False\<rparr>"

record instruction =
  ix_program_id :: pubkey
  ix_accounts :: "account_meta list"
  ix_data :: "byte list"

text \<open>
  A transaction as the builders describe it to the SDK: its instructions, the fee payer, the
  recent blockhash and the keys that have signed so far.
\<close>

record transaction =
  tx_instructions :: "instruction list"
  tx_payer :: pubkey
  tx_blockhash :: "byte list option"
  tx_signed_by :: "pubkey list"

definition required_signers :: "transaction \<Rightarrow> pubkey set" where
  "required_signers tx = insert (tx_payer tx)
     {am_pubkey a | a ix. ix \<in> set (tx_instructions tx) \<and> a \<in> set (ix_accounts ix) \<and> am_is_signer a}"

end
