(* ===== verification/Config.thy ===== *)
theory Config
  imports Complex_Main App_Error
begin

text \<open>
  \<^verbatim>\<open>src/src/config.rs\<close>: the configuration record and the stablecoin registry. Floating-point
  thresholds are real numbers; where the program computes with \<open>f64\<close> the rounding is a parameter.
\<close>

record stablecoin_info =
  symbol :: string
  mint :: string
  ata :: string
  decimals :: u8

record stablecoin_registry =
  usdc :: stablecoin_info
  usdt :: stablecoin_info
  pyusd :: stablecoin_info

definition resolve :: "stablecoin_registry \<Rightarrow> string \<Rightarrow> stablecoin_info option" where
  "resolve reg method =
     (if method = ''usdc'' then Some (usdc reg)
      else if method = ''usdt'' then Some (usdt reg)
      else if method = ''pyusd'' then Some (pyusd reg)
      else None)"

record config =
  database_url :: string
  solana_rpc_url :: string
  solana_ws_url :: string
  program_id :: string
  jwt_secret :: string
  jwt_access_expiry_seconds :: u64
  jwt_refresh_expiry_seconds :: u64
  encryption_key :: string
  encryption_index_key :: string
  google_client_id :: string
  google_client_secret :: string
  google_redirect_uri :: string
  microsoft_client_id :: string
  microsoft_client_secret :: string
  microsoft_redirect_uri :: string
  microsoft_tenant :: string
  resend_api_key :: string
  email_from :: string
  invite_base_url :: string
  invite_expiry_seconds :: u64
  invite_reminder_after_seconds :: u64
  platform_fee_usd_cents :: u32
  platform_fee_free_tier :: u32
  platform_nonrefundable_fee_cents :: u32
  platform_vault_pubkey :: string
  platform_vault_keypair_path :: string
  platform_treasury_pubkey :: string
  platform_treasury_keypair_path :: string
  vault_min_sol_alert :: real
  vault_min_sol_circuit_breaker :: real
  vault_funding_rate_limit_per_hour :: u32
  treasury_min_usdc_alert :: u64
  treasury_float_per_token :: u64
  treasury_sweep_dest :: string
  stablecoin_registry :: stablecoin_registry
  pinata_jwt :: string
  pinata_gateway_domain :: string
  arweave_wallet_path :: string
  server_port :: u16
  server_host :: string

lemma resolve_Some_iff:
  "resolve reg m = Some info \<longleftrightarrow>
     m = ''usdc'' \<and> info = usdc reg \<or> m = ''usdt'' \<and> info = usdt reg \<or>
     m = ''pyusd'' \<and> info = pyusd reg"
  by (auto simp: resolve_def)

end
