(* ===== verification/Schema.thy ===== *)
theory Schema
  imports Process_Health Solana_Types Config
begin

text \<open>
  The state the handlers and the workers share: the tables of \<^verbatim>\<open>src/migrations\<close>, the in-memory
  parts of \<open>AppState\<close> (\<^verbatim>\<open>src/src/state.rs\<close>), and what the program reaches outside itself.

  A table is the list of its rows in scan order. A statement that a constraint of the schema
  rejects returns an error and leaves the tables as they were.

  Code that is not in the repository is a parameter: \<open>libs\<close> holds the pure functions of the
  libraries (key parsing, hashes, ciphers, JWT, serialisation), \<open>outside\<close> what changes from call
  to call (the clock, random values, whether a database statement or a remote call fails). The
  world counts the external calls made so far in \<open>tick\<close>; the \<open>n\<close>-th call takes its outcome from
  position \<open>n\<close> of \<open>outside\<close>, so a theorem that leaves it free holds for every schedule
  of failures, times and random draws. What leaves the process (transactions, e-mails, pushed
  WebSocket events) is recorded in \<open>outbox\<close>.
\<close>

section \<open>Rows\<close>

record user_account_row =
  ua_id :: uuid
  ua_display_name :: "string option"
  ua_created_at :: int

record auth_wallet_row =
  aw_user_id :: uuid
  aw_pubkey :: string
  aw_linked_at :: int

record auth_oauth_row =
  ao_user_id :: uuid
  ao_provider :: string
  ao_provider_id :: string
  ao_linked_at :: int

record user_contacts_row =
  uc_user_id :: uuid
  uc_email_enc :: "byte list option"
  uc_email_nonce :: "byte list option"
  uc_email_index :: "byte list option"
  uc_phone_enc :: "byte list option"
  uc_phone_nonce :: "byte list option"
  uc_push_token_enc :: "byte list option"
  uc_push_token_nonce :: "byte list option"
  uc_updated_at :: int

record siws_nonce_row =
  sn_nonce :: string
  sn_created_at :: int

record refresh_token_row =
  rt_token_hash :: string
  rt_user_id :: uuid
  rt_created_at :: int
  rt_expires_at :: int

record agreement_party_row =
  ap_party_pubkey :: string
  ap_agreement_pda :: string
  ap_creator_pubkey :: string
  ap_status :: string
  ap_signed_at :: "int option"
  ap_created_at :: int
  ap_expires_at :: int
  ap_title :: string

text \<open>\<open>DraftPartyEntry\<close> and \<open>DraftPayload\<close>, the values stored in the two JSONB columns.\<close>

record party_slot =
  slot_pubkey :: "string option"
  slot_invite_id :: "uuid option"

record draft_payload =
  dp_title :: string
  dp_expires_in_secs :: u64
  dp_parties :: "party_slot list"

record draft_row =
  dr_id :: uuid
  dr_creator_pubkey :: string
  dr_draft_payload :: json
  dr_party_slots :: json
  dr_status :: string
  dr_created_at :: int
  dr_ready_at :: "int option"
  dr_submitted_at :: "int option"
  dr_paid :: bool
  dr_paid_at :: "int option"
  dr_storage_uri :: "string option"
  dr_storage_uploaded :: bool
  dr_agreement_pda :: "string option"
  dr_agreement_id :: "byte list option"
  dr_payment_id :: "uuid option"

record payment_row =
  pay_id :: uuid
  pay_draft_id :: uuid
  pay_user_id :: uuid
  pay_method :: string
  pay_status :: string
  pay_usd_amount_cents :: int
  pay_token_reference_pubkey :: "string option"
  pay_token_mint :: "string option"
  pay_token_amount :: "int option"
  pay_token_tx_signature :: "string option"
  pay_token_source_ata :: "string option"
  pay_refund_amount :: "int option"
  pay_refund_usd_cents :: "int option"
  pay_refund_tx_signature :: "string option"
  pay_refund_initiated_at :: "int option"
  pay_refund_completed_at :: "int option"
  pay_created_at :: int
  pay_confirmed_at :: "int option"
  pay_agreement_pda :: "string option"

record counts_row =
  cnt_user_id :: uuid
  cnt_total_submitted :: int
  cnt_free_used :: int

record invitation_row =
  inv_id :: uuid
  inv_draft_id :: uuid
  inv_email_index :: "byte list"
  inv_email_enc :: "byte list"
  inv_email_nonce :: "byte list"
  inv_token :: string
  inv_status :: string
  inv_reminder_sent_at :: "int option"
  inv_reminder_count :: int
  inv_created_at :: int
  inv_expires_at :: int

record notification_row =
  nq_id :: uuid
  nq_event_type :: string
  nq_agreement_pda :: string
  nq_recipient_pubkey :: string
  nq_status :: string
  nq_attempts :: int
  nq_created_at :: int
  nq_scheduled_at :: int

record database =
  user_accounts :: "user_account_row list"
  auth_wallet :: "auth_wallet_row list"
  auth_oauth :: "auth_oauth_row list"
  user_contacts :: "user_contacts_row list"
  siws_nonces :: "siws_nonce_row list"
  refresh_tokens :: "refresh_token_row list"
  agreement_parties :: "agreement_party_row list"
  agreement_drafts :: "draft_row list"
  agreement_payments :: "payment_row list"
  user_agreement_counts :: "counts_row list"
  party_invitations :: "invitation_row list"
  notification_queue :: "notification_row list"
  sweep_config :: "(int \<times> int) list"
  applied_migrations :: "int list"

text \<open>
  \<open>applied_migrations\<close> are the versions recorded in the migrator's own table; a table exists once the migration that
  creates it is applied. The statements of the handlers and workers run on a migrated database: the process does not
  get as far as them otherwise (\<open>Startup\<close>). \<open>empty_db\<close> is the database after a first start.
\<close>

definition empty_db :: database where
  "empty_db = \<lparr>user_accounts = [], auth_wallet = [], auth_oauth = [], user_contacts = [],
     siws_nonces = [], refresh_tokens = [], agreement_parties = [], agreement_drafts = [],
     agreement_payments = [], user_agreement_counts = [], party_invitations = [],
     notification_queue = [], sweep_config = [(1, 0)],
     applied_migrations = [20240306120000, 20240306120001, 20240306120002, 20240306120003, 20240306120004]\<rparr>"

text \<open>
  The columns of two tables, for the statements that name columns: PostgreSQL rejects a statement
  that names a column the table does not have, and an \<open>INSERT\<close> that leaves out a \<open>NOT NULL\<close> column
  without a default.
\<close>

definition notification_queue_columns :: "string list" where
  "notification_queue_columns = [''id'', ''event_type'', ''agreement_pda'', ''recipient_pubkey'',
     ''status'', ''attempts'', ''created_at'', ''scheduled_at'']"

definition agreement_payments_columns :: "string list" where
  "agreement_payments_columns = [''id'', ''draft_id'', ''user_id'', ''method'', ''status'',
     ''usd_amount_cents'', ''token_reference_pubkey'', ''token_mint'', ''token_amount'',
     ''token_tx_signature'', ''token_source_ata'', ''refund_amount'', ''refund_usd_cents'',
     ''refund_tx_signature'', ''refund_initiated_at'', ''refund_completed_at'', ''created_at'',
     ''confirmed_at'', ''agreement_pda'']"

definition agreement_payments_required :: "string list" where
  "agreement_payments_required = [''draft_id'', ''user_id'', ''method'', ''usd_amount_cents'']"

definition names_columns :: "string list \<Rightarrow> string list \<Rightarrow> bool" where
  "names_columns used columns \<longleftrightarrow> set used \<subseteq> set columns"

section \<open>Events, claims and the world\<close>

datatype ws_event =
    AgreementCreated string
  | AgreementSigned string
  | AgreementCompleted string
  | AgreementCancelled string
  | AgreementExpired string
  | AgreementRevokeVote string
  | AgreementRevoked string
  | DraftReady string
  | DraftInvitationExpired string
  | PaymentConfirmed string
  | RefundCompleted string
  | GenericNotification string

record claims =
  cl_sub :: uuid
  cl_pubkey :: "string option"
  cl_exp :: u64
  cl_iat :: u64
  cl_jti :: uuid

datatype external_effect =
    WsPush uuid nat ws_event
  | Email string string string string
  | SubmitTx transaction
  | SplTransfer pubkey pubkey u64

record world =
  db :: database
  tick :: nat
  ws_channels :: "uuid \<Rightarrow> nat option"
  health :: u8
  invite_limiter :: "string \<Rightarrow> int list"
  outbox :: "external_effect list"

section \<open>The outside\<close>

text \<open>\<open>LogData\<close> of \<^verbatim>\<open>src/src/services/program_log.rs\<close>, as serde reads it from a log line.\<close>

record log_data =
  ld_agreement_pda :: "string option"
  ld_creator :: "string option"
  ld_signer :: "string option"
  ld_parties :: "string list option"

text \<open>
  What an HTTP exchange with a storage service yields: no response (with the client's error text), a response
  whose body could not be read, or a status, the body, and the body as JSON where it parses.
\<close>

datatype http_reply =
    NoResponse string
  | NoBody nat
  | Reply nat string "json option"

record libs =
  pubkey_from_str :: "string \<Rightarrow> pubkey option"
  pubkey_to_string :: "pubkey \<Rightarrow> string"
  find_program_address :: "byte list list \<Rightarrow> pubkey \<Rightarrow> pubkey \<times> u8"
  get_associated_token_address :: "pubkey \<Rightarrow> pubkey \<Rightarrow> pubkey"
  signature_from_str :: "string \<Rightarrow> byte list option"
  signature_verify :: "byte list \<Rightarrow> pubkey \<Rightarrow> byte list \<Rightarrow> bool"
  sha256 :: "byte list \<Rightarrow> byte list"
  hmac_sha256 :: "byte list \<Rightarrow> byte list \<Rightarrow> byte list"
  aes_gcm_encrypt :: "byte list \<Rightarrow> byte list \<Rightarrow> byte list \<Rightarrow> byte list option"
  aes_gcm_decrypt :: "byte list \<Rightarrow> byte list \<Rightarrow> byte list \<Rightarrow> byte list option"
  hex_encode :: "byte list \<Rightarrow> string"
  hex_decode :: "string \<Rightarrow> byte list option"
  jwt_encode :: "string \<Rightarrow> claims \<Rightarrow> string option"
  jwt_decode :: "string \<Rightarrow> int \<Rightarrow> string \<Rightarrow> claims option"
  uuid_to_string :: "uuid \<Rightarrow> string"
  uuid_bytes :: "uuid \<Rightarrow> byte list"
  slots_to_value :: "party_slot list \<Rightarrow> json option"
  slots_from_value :: "json \<Rightarrow> party_slot list option"
  payload_to_value :: "draft_payload \<Rightarrow> json option"
  payload_from_value :: "json \<Rightarrow> draft_payload option"
  borsh_agreement_state :: "byte list \<Rightarrow> agreement_state_wire option"
  borsh_create_args :: "create_agreement_args \<Rightarrow> byte list option"
  borsh_sign_args :: "string option \<Rightarrow> byte list option"
  borsh_collection_args :: "string \<Rightarrow> string \<Rightarrow> byte list option"
  tx_to_base64 :: "transaction \<Rightarrow> string option"
  tx_from_base64 :: "string \<Rightarrow> transaction option"
  can_sign :: "transaction \<Rightarrow> pubkey \<Rightarrow> bool"
  round_f64 :: "real \<Rightarrow> real"
  uuid_from_slice :: "byte list \<Rightarrow> uuid option"
  log_data_from_str :: "string \<Rightarrow> log_data option"
  json_text :: "json \<Rightarrow> string"
  json_to_vec :: "json \<Rightarrow> byte list option"
  url_ok :: "string \<Rightarrow> bool"
  authorize_url :: "string \<Rightarrow> string \<Rightarrow> string \<Rightarrow> string list \<Rightarrow> string \<Rightarrow> string"
  bytes_from_json :: "string \<Rightarrow> string + byte list"
  keypair_try_from :: "byte list \<Rightarrow> string + pubkey"
  status_display :: "nat \<Rightarrow> string"
  parse_f64 :: "string \<Rightarrow> real option"
  spl_transfer_ix :: "pubkey \<Rightarrow> pubkey \<Rightarrow> pubkey \<Rightarrow> u64 \<Rightarrow> instruction option"

record outside =
  db_fault :: "nat \<Rightarrow> bool"
  clock :: "nat \<Rightarrow> int"
  random_uuid :: "nat \<Rightarrow> uuid"
  random_bytes :: "nat \<Rightarrow> nat \<Rightarrow> byte list"
  ws_send_ok :: "nat \<Rightarrow> nat \<Rightarrow> bool"
  rpc_account_data :: "nat \<Rightarrow> pubkey \<Rightarrow> byte list option"
  rpc_account_exists :: "nat \<Rightarrow> pubkey \<Rightarrow> bool option"
  rpc_blockhash :: "nat \<Rightarrow> byte list option"
  rpc_rent_exemption :: "nat \<Rightarrow> nat \<Rightarrow> u64 option"
  rpc_send_transaction :: "nat \<Rightarrow> string option"
  rpc_balance :: "nat \<Rightarrow> pubkey \<Rightarrow> u64 option"
  rpc_token_balance :: "nat \<Rightarrow> pubkey \<Rightarrow> string option"
  email_ok :: "nat \<Rightarrow> bool"
  http_post_form :: "nat \<Rightarrow> string \<Rightarrow> (string \<times> string) list \<Rightarrow> json option"
  http_get_json :: "nat \<Rightarrow> string \<Rightarrow> string \<Rightarrow> json option"
  join_fault :: "nat \<Rightarrow> bool"
  new_keypair :: "nat \<Rightarrow> pubkey"
  csrf_token :: "nat \<Rightarrow> string"
  ipfs_reply :: "nat \<Rightarrow> string \<Rightarrow> string \<Rightarrow> byte list \<Rightarrow> http_reply"
  arweave_reply :: "nat \<Rightarrow> string \<Rightarrow> byte list \<Rightarrow> byte list \<Rightarrow> http_reply"
  read_file :: "nat \<Rightarrow> string \<Rightarrow> string + byte list"
  migrator_run :: "nat \<Rightarrow> (int \<times> (database \<Rightarrow> database)) list \<Rightarrow> database \<Rightarrow> bool \<times> database"
  tcp_bind :: "nat \<Rightarrow> string \<Rightarrow> bool"

text \<open>The immutable parts of \<open>AppState\<close> and the parameters.\<close>

record env =
  lib :: libs
  orc :: outside
  cfg :: config
  vault_pubkey :: pubkey
  treasury_pubkey :: pubkey
  pactum_program_pubkey :: pubkey

section \<open>External calls\<close>

text \<open>Every external call advances \<open>tick\<close> by one.\<close>

definition tick_on :: "world \<Rightarrow> world" where
  "tick_on w = w\<lparr>tick := Suc (tick w)\<rparr>"

definition ask :: "(nat \<Rightarrow> 'a) \<Rightarrow> (world, 'e, 'a) act" where
  "ask f = (\<lambda>w. (Inr (f (tick w)), tick_on w))"

definition now :: "env \<Rightarrow> (world, 'e, int) act" where
  "now E = ask (clock (orc E))"

definition new_v4 :: "env \<Rightarrow> (world, 'e, uuid) act" where
  "new_v4 E = ask (random_uuid (orc E))"

definition fill_bytes :: "env \<Rightarrow> nat \<Rightarrow> (world, 'e, byte list) act" where
  "fill_bytes E n = ask (\<lambda>k. random_bytes (orc E) k n)"

text \<open>
  \<open>tokio::task::spawn_blocking(f).await\<close>: the task itself may fail to join (\<open>je\<close>), otherwise the
  result of \<open>f\<close> decides.
\<close>

definition spawn_blocking :: "env \<Rightarrow> 'e \<Rightarrow> (nat \<Rightarrow> 'a) \<Rightarrow> (world, 'e, 'a) act" where
  "spawn_blocking E je f =
     bindE (ask (join_fault (orc E))) (\<lambda>j. thenE (guardE (\<not> j) je) (ask f))"

text \<open>\<open>SystemTime::now()\<close> in whole seconds since the epoch, 0 before it.\<close>

definition current_unix_timestamp :: "env \<Rightarrow> (world, 'e, int) act" where
  "current_unix_timestamp E = bindE (now E) (\<lambda>t. ret (max 0 t))"

text \<open>
  A database statement: it fails when the connection does, or when the statement itself is
  rejected (\<open>None\<close>); otherwise it sees the server's clock and a fresh \<open>gen_random_uuid()\<close>,
  reads the tables and replaces them in one step.
\<close>

definition sql :: "env \<Rightarrow> 'e \<Rightarrow> (int \<Rightarrow> uuid \<Rightarrow> database \<Rightarrow> ('a \<times> database) option) \<Rightarrow> (world, 'e, 'a) act" where
  "sql E e stmt = (\<lambda>w.
     if db_fault (orc E) (tick w) then (Inl e, tick_on w)
     else case stmt (clock (orc E) (tick w)) (random_uuid (orc E) (tick w)) (db w) of
       None \<Rightarrow> (Inl e, tick_on w)
     | Some (x, d) \<Rightarrow> (Inr x, (tick_on w)\<lparr>db := d\<rparr>))"

text \<open>A \<open>SELECT\<close>, and an \<open>UPDATE\<close> or \<open>DELETE\<close> that no constraint can reject.\<close>

definition sql_select :: "env \<Rightarrow> 'e \<Rightarrow> (database \<Rightarrow> 'a) \<Rightarrow> (world, 'e, 'a) act" where
  "sql_select E e q = sql E e (\<lambda>t g d. Some (q d, d))"

definition sql_update :: "env \<Rightarrow> 'e \<Rightarrow> (database \<Rightarrow> database) \<Rightarrow> (world, 'e, unit) act" where
  "sql_update E e u = sql E e (\<lambda>t g d. Some ((), u d))"

text \<open>
  \<open>begin\<close> \dots \<open>commit\<close>: an error inside the transaction rolls the tables back.
\<close>

definition transaction_of :: "(world, 'e, 'a) act \<Rightarrow> (world, 'e, 'a) act" where
  "transaction_of m = (\<lambda>w. case m w of
     (Inl e, w') \<Rightarrow> (Inl e, w'\<lparr>db := db w\<rparr>)
   | (Inr x, w') \<Rightarrow> (Inr x, w'))"

definition emit :: "external_effect \<Rightarrow> (world, 'e, unit) act" where
  "emit x = modify (\<lambda>w. w\<lparr>outbox := outbox w @ [x]\<rparr>)"

lemma tick_on_simps [simp]:
  "db (tick_on w) = db w" "ws_channels (tick_on w) = ws_channels w" "health (tick_on w) = health w"
  "invite_limiter (tick_on w) = invite_limiter w" "outbox (tick_on w) = outbox w"
  "tick (tick_on w) = Suc (tick w)"
  by (simp_all add: tick_on_def)

lemma ask_iff [act_simps]: "ask f w = (r, w') \<longleftrightarrow> r = Inr (f (tick w)) \<and> w' = tick_on w"
  by (auto simp: ask_def)

lemma now_iff [act_simps]: "now E w = (r, w') \<longleftrightarrow> r = Inr (clock (orc E) (tick w)) \<and> w' = tick_on w"
  by (simp add: now_def ask_iff)

lemma new_v4_iff [act_simps]:
  "new_v4 E w = (r, w') \<longleftrightarrow> r = Inr (random_uuid (orc E) (tick w)) \<and> w' = tick_on w"
  by (simp add: new_v4_def ask_iff)

lemma fill_bytes_iff [act_simps]:
  "fill_bytes E n w = (r, w') \<longleftrightarrow> r = Inr (random_bytes (orc E) (tick w) n) \<and> w' = tick_on w"
  by (simp add: fill_bytes_def ask_iff)

lemma current_unix_timestamp_iff [act_simps]:
  "current_unix_timestamp E w = (r, w') \<longleftrightarrow> r = Inr (max 0 (clock (orc E) (tick w))) \<and> w' = tick_on w"
  by (auto simp: current_unix_timestamp_def now_def ask_def bindE_def ret_def)

lemma spawn_blocking_Inr_iff [act_simps]:
  "spawn_blocking E je f w = (Inr x, w') \<longleftrightarrow>
     \<not> join_fault (orc E) (tick w) \<and> x = f (Suc (tick w)) \<and> w' = tick_on (tick_on w)"
  by (auto simp: spawn_blocking_def act_simps)

lemma spawn_blocking_Inl_iff [act_simps]:
  "spawn_blocking E je f w = (Inl e, w') \<longleftrightarrow> join_fault (orc E) (tick w) \<and> e = je \<and> w' = tick_on w"
  by (auto simp: spawn_blocking_def act_simps)

lemma sql_Inr_iff [act_simps]:
  "sql E e stmt w = (Inr x, w') \<longleftrightarrow>
     \<not> db_fault (orc E) (tick w) \<and>
     (\<exists>d. stmt (clock (orc E) (tick w)) (random_uuid (orc E) (tick w)) (db w) = Some (x, d) \<and>
          w' = (tick_on w)\<lparr>db := d\<rparr>)"
  by (auto simp: sql_def split: option.splits prod.splits)

lemma sql_Inl_iff [act_simps]:
  "sql E e stmt w = (Inl e', w') \<longleftrightarrow>
     e' = e \<and> w' = tick_on w \<and>
     (db_fault (orc E) (tick w) \<or>
      stmt (clock (orc E) (tick w)) (random_uuid (orc E) (tick w)) (db w) = None)"
  by (auto simp: sql_def split: option.splits prod.splits)

lemma sql_select_Inr_iff [act_simps]:
  "sql_select E e q w = (Inr x, w') \<longleftrightarrow>
     \<not> db_fault (orc E) (tick w) \<and> x = q (db w) \<and> w' = tick_on w"
  by (auto simp: sql_select_def act_simps tick_on_def)

lemma sql_select_Inl_iff [act_simps]:
  "sql_select E e q w = (Inl e', w') \<longleftrightarrow> db_fault (orc E) (tick w) \<and> e' = e \<and> w' = tick_on w"
  by (auto simp: sql_select_def act_simps)

lemma sql_update_Inr_iff [act_simps]:
  "sql_update E e u w = (Inr x, w') \<longleftrightarrow>
     \<not> db_fault (orc E) (tick w) \<and> w' = (tick_on w)\<lparr>db := u (db w)\<rparr>"
  by (auto simp: sql_update_def act_simps)

lemma sql_update_Inl_iff [act_simps]:
  "sql_update E e u w = (Inl e', w') \<longleftrightarrow> db_fault (orc E) (tick w) \<and> e' = e \<and> w' = tick_on w"
  by (auto simp: sql_update_def act_simps)

lemma transaction_of_Inr_iff [act_simps]:
  "transaction_of m w = (Inr x, w') \<longleftrightarrow> m w = (Inr x, w')"
  by (auto simp: transaction_of_def split: prod.splits sum.splits)

lemma transaction_of_Inl_iff [act_simps]:
  "transaction_of m w = (Inl e, w') \<longleftrightarrow> (\<exists>w1. m w = (Inl e, w1) \<and> w' = w1\<lparr>db := db w\<rparr>)"
  by (auto simp: transaction_of_def split: prod.splits sum.splits)

lemma emit_iff [act_simps]:
  "emit x w = (r, w') \<longleftrightarrow> r = Inr () \<and> w' = w\<lparr>outbox := outbox w @ [x]\<rparr>"
  by (auto simp: emit_def act_simps)

section \<open>What an action leaves alone\<close>

text \<open>
  A relation between the world before and after that is reflexive, transitive and blind to the
  call counter is kept by every external call that does not write what it is about.
\<close>

definition frame :: "(world \<Rightarrow> world \<Rightarrow> bool) \<Rightarrow> bool" where
  "frame R \<longleftrightarrow> reflp R \<and> transp R \<and> (\<forall>w w'. R w w' \<longrightarrow> R w (tick_on w'))"

lemma frame_reflp [keeps_intros]: "frame R \<Longrightarrow> reflp R"
  by (simp add: frame_def)

lemma frame_transp [keeps_intros]: "frame R \<Longrightarrow> transp R"
  by (simp add: frame_def)

lemma frame_tick: "frame R \<Longrightarrow> R w (tick_on w)"
  by (auto simp: frame_def dest: reflpD)

lemma keeps_ask [keeps_intros]: "frame R \<Longrightarrow> keeps R (ask f)"
  by (auto intro!: keepsI simp: act_simps frame_tick)

lemma keeps_now [keeps_intros]: "frame R \<Longrightarrow> keeps R (now E)"
  by (simp add: now_def keeps_ask)

lemma keeps_new_v4 [keeps_intros]: "frame R \<Longrightarrow> keeps R (new_v4 E)"
  by (simp add: new_v4_def keeps_ask)

lemma keeps_fill_bytes [keeps_intros]: "frame R \<Longrightarrow> keeps R (fill_bytes E n)"
  by (simp add: fill_bytes_def keeps_ask)

lemma keeps_current_unix_timestamp [keeps_intros]: "frame R \<Longrightarrow> keeps R (current_unix_timestamp E)"
  unfolding current_unix_timestamp_def by (intro keeps_intros keeps_now)

lemma keeps_spawn_blocking [keeps_intros]: "frame R \<Longrightarrow> keeps R (spawn_blocking E je f)"
  unfolding spawn_blocking_def by (intro keeps_intros keeps_ask)

lemma keeps_sql_select [keeps_intros]: "frame R \<Longrightarrow> keeps R (sql_select E e q)"
proof (rule keepsI)
  fix w r w' assume "frame R" and "sql_select E e q w = (r, w')"
  then show "R w w'" by (cases r) (auto simp: act_simps frame_tick)
qed

lemma keeps_sql:
  assumes "frame R"
    and "\<And>w t g x d. stmt t g (db w) = Some (x, d) \<Longrightarrow> R w ((tick_on w)\<lparr>db := d\<rparr>)"
  shows "keeps R (sql E e stmt)"
proof (rule keepsI)
  fix w r w' assume "sql E e stmt w = (r, w')"
  then show "R w w'"
    using assms by (cases r) (auto simp: act_simps frame_tick)
qed

lemma keeps_sql_update:
  assumes "frame R" and "\<And>w. R w ((tick_on w)\<lparr>db := u (db w)\<rparr>)"
  shows "keeps R (sql_update E e u)"
  unfolding sql_update_def using assms by (intro keeps_sql) auto

text \<open>The relations used most: one component of the world is the same after as before.\<close>

lemma frame_same: "(\<And>w. f (tick_on w) = f w) \<Longrightarrow> frame (\<lambda>w w'. f w' = f w)"
  by (auto simp: frame_def reflp_def transp_def)

text \<open>
  \<open>db_frame P\<close>: whatever else happens, if the tables satisfied \<open>P\<close> before, they do after.
\<close>

definition db_frame :: "(database \<Rightarrow> bool) \<Rightarrow> world \<Rightarrow> world \<Rightarrow> bool" where
  "db_frame P w w' \<longleftrightarrow> (P (db w) \<longrightarrow> P (db w'))"

lemma frame_db_frame [keeps_intros]: "frame (db_frame P)"
  by (auto simp: frame_def db_frame_def reflp_def transp_def)

lemma keeps_db_frame_sql:
  "(\<And>t g d x d'. stmt t g d = Some (x, d') \<Longrightarrow> P d \<Longrightarrow> P d') \<Longrightarrow> keeps (db_frame P) (sql E e stmt)"
  by (rule keeps_sql [OF frame_db_frame]) (auto simp: db_frame_def)

lemma keeps_db_frame_update:
  "(\<And>d. P d \<Longrightarrow> P (u d)) \<Longrightarrow> keeps (db_frame P) (sql_update E e u)"
  by (rule keeps_sql_update [OF frame_db_frame]) (auto simp: db_frame_def)

lemma keeps_db_frameD: "keeps (db_frame P) m \<Longrightarrow> P (db w) \<Longrightarrow> P (db (snd (m w)))"
  by (simp add: keeps_def db_frame_def)

text \<open>
  \<open>absent_from T P\<close>: from call number \<open>T\<close> on, what \<open>P\<close> finds missing in the tables stays missing.
\<close>

definition absent_from :: "nat \<Rightarrow> (database \<Rightarrow> bool) \<Rightarrow> world \<Rightarrow> world \<Rightarrow> bool" where
  "absent_from T P w w' \<longleftrightarrow> tick w \<le> tick w' \<and> (T \<le> tick w \<and> \<not> P (db w) \<longrightarrow> \<not> P (db w'))"

lemma frame_absent_from [keeps_intros]: "frame (absent_from T P)"
  unfolding frame_def absent_from_def reflp_def transp_def by auto

lemma keeps_absent_from_sql:
  "(\<And>t g d x d'. stmt t g d = Some (x, d') \<Longrightarrow> P d' \<Longrightarrow> P d) \<Longrightarrow> keeps (absent_from T P) (sql E e stmt)"
  by (rule keeps_sql [OF frame_absent_from]) (auto simp: absent_from_def)

lemma keeps_absent_from_update:
  "(\<And>d. P (u d) \<Longrightarrow> P d) \<Longrightarrow> keeps (absent_from T P) (sql_update E e u)"
  by (rule keeps_sql_update [OF frame_absent_from]) (auto simp: absent_from_def)

end
