(* ===== verification/Crypto_Service.thy ===== *)
theory Crypto_Service
  imports Schema
begin

text \<open>
  \<^verbatim>\<open>src/src/services/crypto.rs\<close>, \<^verbatim>\<open>src/src/services/hash.rs\<close> and the key helpers the handlers share.
  AES-GCM, HMAC, SHA-256 and hexadecimal coding are library parameters; UTF-8 validation belongs
  to Rust's standard library and is written out. The laws of the cipher and of hexadecimal coding
  that the round trips rely on are the predicates \<open>cipher_law\<close> and \<open>hex_law\<close>.
\<close>

section \<open>UTF-8 validation\<close>

definition cont :: "nat \<Rightarrow> bool" where
  "cont b \<longleftrightarrow> 128 \<le> b \<and> b < 192"

fun valid_utf8 :: "nat list \<Rightarrow> bool" where
  "valid_utf8 [] = True"
| "valid_utf8 (a # bs) =
     (if a < 128 then valid_utf8 bs
      else case bs of
        [] \<Rightarrow> False
      | b # bs2 \<Rightarrow>
          if 194 \<le> a \<and> a < 224 then cont b \<and> valid_utf8 bs2
          else case bs2 of
            [] \<Rightarrow> False
          | c # bs3 \<Rightarrow>
              if 224 \<le> a \<and> a < 240
              then cont b \<and> cont c \<and> (a = 224 \<longrightarrow> 160 \<le> b) \<and> (a = 237 \<longrightarrow> b < 160) \<and> valid_utf8 bs3
              else case bs3 of
                [] \<Rightarrow> False
              | d # bs4 \<Rightarrow>
                  240 \<le> a \<and> a < 245 \<and> cont b \<and> cont c \<and> cont d \<and>
                  (a = 240 \<longrightarrow> 144 \<le> b) \<and> (a = 244 \<longrightarrow> b < 144) \<and> valid_utf8 bs4)"

text \<open>A Rust \<open>String\<close> always holds valid UTF-8.\<close>

definition rust_string :: "string \<Rightarrow> bool" where
  "rust_string s \<longleftrightarrow> valid_utf8 (map of_char s)"

definition from_utf8 :: "byte list \<Rightarrow> string option" where
  "from_utf8 bs = (if valid_utf8 (map unat bs) then Some (map (\<lambda>b. char_of (unat b)) bs) else None)"

section \<open>Operations\<close>

definition encrypt :: "env \<Rightarrow> string \<Rightarrow> byte list \<Rightarrow> (world, app_error, byte list \<times> byte list) act" where
  "encrypt E plaintext key =
     bindE (fill_bytes E 12) (\<lambda>nonce_bytes.
     bindE (ok_or EncryptionFailed (aes_gcm_encrypt (lib E) key nonce_bytes (as_bytes plaintext)))
       (\<lambda>ciphertext. ret (ciphertext, nonce_bytes)))"

definition decrypt :: "env \<Rightarrow> byte list \<Rightarrow> byte list \<Rightarrow> byte list \<Rightarrow> app_error + string" where
  "decrypt E ciphertext nonce key =
     (case aes_gcm_decrypt (lib E) key nonce ciphertext of
        None \<Rightarrow> Inl DecryptionFailed
      | Some plaintext \<Rightarrow>
          (case from_utf8 plaintext of None \<Rightarrow> Inl DecryptionFailed | Some s \<Rightarrow> Inr s))"

definition hmac_index :: "env \<Rightarrow> string \<Rightarrow> byte list \<Rightarrow> byte list" where
  "hmac_index E v key = hmac_sha256 (lib E) key (as_bytes v)"

definition compute_sha256 :: "env \<Rightarrow> byte list \<Rightarrow> byte list" where
  "compute_sha256 E bs = sha256 (lib E) bs"

definition verify_client_hash :: "env \<Rightarrow> byte list \<Rightarrow> string \<Rightarrow> app_error + byte list" where
  "verify_client_hash E file_bytes client_hash_hex =
     (let server_hash = compute_sha256 E file_bytes in
      case hex_decode (lib E) client_hash_hex of
        None \<Rightarrow> Inl InvalidHash
      | Some client_hash \<Rightarrow> if server_hash \<noteq> client_hash then Inl HashMismatch else Inr server_hash)"

definition sha256_hex :: "env \<Rightarrow> string \<Rightarrow> string" where
  "sha256_hex E input = hex_encode (lib E) (sha256 (lib E) (as_bytes input))"

text \<open>\<open>decode_hex_key_32\<close>, the same in \<open>auth.rs\<close>, \<open>agreement.rs\<close> and \<open>user.rs\<close>.\<close>

definition decode_hex_key_32 :: "env \<Rightarrow> string \<Rightarrow> app_error + byte list" where
  "decode_hex_key_32 E key_hex =
     (case hex_decode (lib E) key_hex of
        None \<Rightarrow> Inl InternalError
      | Some key_bytes \<Rightarrow> if length key_bytes = 32 then Inr key_bytes else Inl InternalError)"

section \<open>Documented laws of the libraries\<close>

definition cipher_law :: "libs \<Rightarrow> bool" where
  "cipher_law L \<longleftrightarrow> (\<forall>key nonce m c.
     aes_gcm_encrypt L key nonce m = Some c \<longrightarrow> aes_gcm_decrypt L key nonce c = Some m)"

definition hex_law :: "libs \<Rightarrow> bool" where
  "hex_law L \<longleftrightarrow>
     (\<forall>bs. hex_decode L (hex_encode L bs) = Some bs) \<and>
     (\<forall>s. hex_decode L s \<noteq> None \<longleftrightarrow> even (length s) \<and> (\<forall>c \<in> set s. is_ascii_hexdigit c)) \<and>
     (\<forall>s bs. hex_decode L s = Some bs \<longrightarrow> length s = 2 * length bs)"

definition serde_law :: "libs \<Rightarrow> bool" where
  "serde_law L \<longleftrightarrow>
     (\<forall>ss v. slots_to_value L ss = Some v \<longrightarrow> slots_from_value L v = Some ss) \<and>
     (\<forall>p v. payload_to_value L p = Some v \<longrightarrow> payload_from_value L v = Some p)"

lemma hex_decode_encode: "hex_law L \<Longrightarrow> hex_decode L (hex_encode L bs) = Some bs"
  by (simp add: hex_law_def)

lemma hex_encode_inj: "hex_law L \<Longrightarrow> hex_encode L a = hex_encode L b \<Longrightarrow> a = b"
  by (metis hex_decode_encode option.inject)

lemma hex_decode_64:
  assumes "hex_law L" and "length s = 64" and "\<forall>c \<in> set s. is_ascii_hexdigit c"
  shows "\<exists>bs. hex_decode L s = Some bs \<and> length bs = 32"
proof -
  from assms obtain bs where bs: "hex_decode L s = Some bs"
    unfolding hex_law_def by fastforce
  with assms(1,2) have "64 = 2 * length bs" unfolding hex_law_def by metis
  with bs show ?thesis by simp
qed

section \<open>A concrete hexadecimal coding\<close>

text \<open>
  Lower-case hexadecimal, as the \<open>hex\<close> crate documents it: the instance of the library parameter
  that the witnesses use.
\<close>

definition hex_digit :: "nat \<Rightarrow> char" where
  "hex_digit n = char_of (if n < 10 then 48 + n else 87 + n)"

definition hex_value :: "char \<Rightarrow> nat option" where
  "hex_value c = (let n = of_char c :: nat in
     if 48 \<le> n \<and> n \<le> 57 then Some (n - 48)
     else if 65 \<le> n \<and> n \<le> 70 then Some (n - 55)
     else if 97 \<le> n \<and> n \<le> 102 then Some (n - 87)
     else None)"

fun hex_bytes :: "byte list \<Rightarrow> string" where
  "hex_bytes [] = []"
| "hex_bytes (b # bs) = hex_digit (unat b div 16) # hex_digit (unat b mod 16) # hex_bytes bs"

fun hex_parse :: "string \<Rightarrow> byte list option" where
  "hex_parse [] = Some []"
| "hex_parse [c] = None"
| "hex_parse (c # d # s) =
     (case (hex_value c, hex_value d, hex_parse s) of
        (Some h, Some l, Some bs) \<Rightarrow> Some (word_of_nat (16 * h + l) # bs)
      | _ \<Rightarrow> None)"

lemma hex_value_digit: "n < 16 \<Longrightarrow> hex_value (hex_digit n) = Some n"
  by (auto simp: hex_value_def hex_digit_def Let_def)

lemma hex_value_Some_iff: "(\<exists>v. hex_value c = Some v) \<longleftrightarrow> is_ascii_hexdigit c"
  by (auto simp: hex_value_def is_ascii_hexdigit_def Let_def)

lemma byte_nibbles: "word_of_nat (16 * (unat (b::byte) div 16) + unat b mod 16) = b"
  by simp

lemma nibble_less: "unat (b::byte) div 16 < 16"
  using unsigned_less [of b, where ?'a = nat] by simp

lemma hex_parse_bytes: "hex_parse (hex_bytes bs) = Some bs"
  by (induction bs) (simp_all add: hex_value_digit nibble_less)

lemma hex_parse_defined:
  "hex_parse s \<noteq> None \<longleftrightarrow> even (length s) \<and> (\<forall>c \<in> set s. is_ascii_hexdigit c)"
  by (induction s rule: hex_parse.induct)
    (auto simp: hex_value_Some_iff [symmetric] split: option.splits)

lemma hex_parse_length: "hex_parse s = Some bs \<Longrightarrow> length s = 2 * length bs"
  by (induction s arbitrary: bs rule: hex_parse.induct) (auto split: option.splits)

lemma hex_law_concrete: "hex_encode L = hex_bytes \<Longrightarrow> hex_decode L = hex_parse \<Longrightarrow> hex_law L"
  unfolding hex_law_def using hex_parse_bytes hex_parse_defined hex_parse_length by auto

section \<open>Round trips\<close>

lemma of_char_byte: "unat (of_char c :: byte) = of_char c"
proof -
  have "(of_char c :: byte) = word_of_nat (of_char c)" by (simp only: of_nat_of_char)
  then show ?thesis by (simp add: unsigned_of_nat take_bit_nat_eq_self)
qed

lemma from_utf8_as_bytes: "rust_string s \<Longrightarrow> from_utf8 (as_bytes s) = Some s"
  by (simp add: from_utf8_def as_bytes_def rust_string_def comp_def of_char_byte)

lemma decrypt_encrypt:
  assumes "cipher_law (lib E)" and "rust_string p" and "encrypt E p key w = (Inr (c, n), w')"
  shows "decrypt E c n key = Inr p"
  using assms by (auto simp: encrypt_def decrypt_def act_simps cipher_law_def from_utf8_as_bytes)

lemma keeps_encrypt [keeps_intros]: "frame R \<Longrightarrow> keeps R (encrypt E p key)"
  unfolding encrypt_def by (intro keeps_intros)

lemma verify_client_hash_Inr_iff:
  "verify_client_hash E bs h = Inr server \<longleftrightarrow>
     server = sha256 (lib E) bs \<and> hex_decode (lib E) h = Some server"
  by (auto simp: verify_client_hash_def compute_sha256_def Let_def split: option.splits)

end
