(* ===== verification/Sample_World.thy ===== *)
theory Sample_World
  imports Crypto_Service
begin

text \<open>
  A concrete environment and world for evaluating the handlers: every library parameter is a
  simple total function that satisfies the documented laws, no call fails, the clock stands at
  second 1000 and the \<open>n\<close>-th random value is \<open>n\<close>. The witnesses of the properties run here.
\<close>

definition str_of_bytes :: "byte list \<Rightarrow> string" where
  "str_of_bytes bs = map (\<lambda>b. char_of (unat b)) bs"

definition slot_value :: "party_slot \<Rightarrow> json" where
  "slot_value s = JObj
     [(''pubkey'', case slot_pubkey s of None \<Rightarrow> JNull | Some p \<Rightarrow> JStr p),
      (''invite_id'', case slot_invite_id s of None \<Rightarrow> JNull | Some u \<Rightarrow> JNum (uint u))]"

fun value_slot :: "json \<Rightarrow> party_slot option" where
  "value_slot (JObj [(k1, p), (k2, i)]) =
     Some \<lparr>slot_pubkey = json_as_str p,
           slot_invite_id = (case i of JNum n \<Rightarrow> Some (word_of_int n) | _ \<Rightarrow> None)\<rparr>"
| "value_slot _ = None"

fun value_slots :: "json list \<Rightarrow> party_slot list option" where
  "value_slots [] = Some []"
| "value_slots (v # vs) =
     (case (value_slot v, value_slots vs) of (Some s, Some ss) \<Rightarrow> Some (s # ss) | _ \<Rightarrow> None)"

definition slots_value :: "party_slot list \<Rightarrow> json" where
  "slots_value ss = JArr (map slot_value ss)"

fun slots_of_value :: "json \<Rightarrow> party_slot list option" where
  "slots_of_value (JArr vs) = value_slots vs"
| "slots_of_value _ = None"

definition payload_value :: "draft_payload \<Rightarrow> json" where
  "payload_value p = JObj
     [(''title'', JStr (dp_title p)), (''expires_in_secs'', JNum (uint (dp_expires_in_secs p))),
      (''parties'', slots_value (dp_parties p))]"

fun payload_of_value :: "json \<Rightarrow> draft_payload option" where
  "payload_of_value (JObj [(k1, JStr t), (k2, JNum n), (k3, ps)]) =
     (case slots_of_value ps of
        None \<Rightarrow> None
      | Some ss \<Rightarrow> Some \<lparr>dp_title = t, dp_expires_in_secs = word_of_int n, dp_parties = ss\<rparr>)"
| "payload_of_value _ = None"

definition sample_libs :: libs where
  "sample_libs = \<lparr>
     pubkey_from_str = (\<lambda>s. if s = [] then None else Some (as_bytes s)),
     pubkey_to_string = str_of_bytes,
     find_program_address = (\<lambda>seeds p. (concat seeds @ p, 255)),
     get_associated_token_address = (\<lambda>a b. a @ b),
     signature_from_str = (\<lambda>s. Some (as_bytes s)),
     signature_verify = (\<lambda>sg pk m. sg = pk @ m),
     sha256 = (\<lambda>bs. bs),
     hmac_sha256 = (\<lambda>k m. m),
     aes_gcm_encrypt = (\<lambda>k n m. Some m),
     aes_gcm_decrypt = (\<lambda>k n m. Some m),
     hex_encode = hex_bytes,
     hex_decode = hex_parse,
     jwt_encode = (\<lambda>secret cl. Some ''jwt''),
     jwt_decode = (\<lambda>secret t token. None),
     uuid_to_string = (\<lambda>u. dec_digits (unat u)),
     uuid_bytes = (\<lambda>u. replicate 15 0 @ [ucast u]),
     slots_to_value = (\<lambda>ss. Some (slots_value ss)),
     slots_from_value = slots_of_value,
     payload_to_value = (\<lambda>p. Some (payload_value p)),
     payload_from_value = payload_of_value,
     borsh_agreement_state = (\<lambda>bs. None),
     borsh_create_args = (\<lambda>a. Some []),
     borsh_sign_args = (\<lambda>a. Some []),
     borsh_collection_args = (\<lambda>a b. Some []),
     tx_to_base64 = (\<lambda>tx. Some ''tx''),
     tx_from_base64 = (\<lambda>s. None),
     can_sign = (\<lambda>tx k. True),
     round_f64 = (\<lambda>x. x),
     uuid_from_slice = (\<lambda>bs. if length bs = 16 then Some (ucast (last bs)) else None),
     log_data_from_str = (\<lambda>s. None),
     json_text = (\<lambda>v. []),
     json_to_vec = (\<lambda>v. Some []),
     url_ok = (\<lambda>u. True),
     authorize_url = (\<lambda>u c r s st. u @ ''?state='' @ st),
     bytes_from_json = (\<lambda>s. Inr (as_bytes s)),
     keypair_try_from = (\<lambda>bs. Inr (take 32 bs)),
     status_display = dec_digits,
     parse_f64 = (\<lambda>s. Some 0),
     spl_transfer_ix = (\<lambda>a b k n. Some \<lparr>ix_program_id = [], ix_accounts = [], ix_data = []\<rparr>)\<rparr>"

definition sample_outside :: outside where
  "sample_outside = \<lparr>
     db_fault = (\<lambda>k. False),
     clock = (\<lambda>k. 1000),
     random_uuid = (\<lambda>k. word_of_nat k),
     random_bytes = (\<lambda>k n. replicate n (word_of_nat k)),
     ws_send_ok = (\<lambda>k c. True),
     rpc_account_data = (\<lambda>k p. None),
     rpc_account_exists = (\<lambda>k p. Some True),
     rpc_blockhash = (\<lambda>k. Some []),
     rpc_rent_exemption = (\<lambda>k n. Some 0),
     rpc_send_transaction = (\<lambda>k. Some ''sig''),
     rpc_balance = (\<lambda>k p. Some 0),
     rpc_token_balance = (\<lambda>k p. Some ''0''),
     email_ok = (\<lambda>k. True),
     http_post_form = (\<lambda>k u f. None),
     http_get_json = (\<lambda>k u b. None),
     join_fault = (\<lambda>k. False),
     new_keypair = (\<lambda>k. [word_of_nat k]),
     csrf_token = (\<lambda>k. dec_digits k),
     ipfs_reply = (\<lambda>k u b d. NoResponse []),
     arweave_reply = (\<lambda>k u wl d. NoResponse []),
     read_file = (\<lambda>k p. Inl ''missing''),
     migrator_run = (\<lambda>k ms d. (True, fold (\<lambda>(v, u) d. (u d)\<lparr>applied_migrations := applied_migrations d @ [v]\<rparr>)
       (filter (\<lambda>m. fst m \<notin> set (applied_migrations d)) ms) d)),
     tcp_bind = (\<lambda>k a. True)\<rparr>"

definition sample_coin :: stablecoin_info where
  "sample_coin = \<lparr>symbol = ''usdc'', mint = ''mint'', ata = ''ata'', decimals = 6\<rparr>"

definition sample_config :: config where
  "sample_config = \<lparr>
     database_url = [], solana_rpc_url = [], solana_ws_url = [], program_id = [], jwt_secret = [],
     jwt_access_expiry_seconds = 900, jwt_refresh_expiry_seconds = 604800,
     encryption_key = replicate 64 (CHR ''0''), encryption_index_key = replicate 64 (CHR ''0''),
     google_client_id = [], google_client_secret = [], google_redirect_uri = [],
     microsoft_client_id = [], microsoft_client_secret = [], microsoft_redirect_uri = [],
     microsoft_tenant = ''common'', resend_api_key = [], email_from = [], invite_base_url = [],
     invite_expiry_seconds = 604800, invite_reminder_after_seconds = 259200,
     platform_fee_usd_cents = 199, platform_fee_free_tier = 3, platform_nonrefundable_fee_cents = 10,
     platform_vault_pubkey = [], platform_vault_keypair_path = [], platform_treasury_pubkey = [],
     platform_treasury_keypair_path = [], vault_min_sol_alert = 1 / 2,
     vault_min_sol_circuit_breaker = 1 / 10, vault_funding_rate_limit_per_hour = 50,
     treasury_min_usdc_alert = 20000000, treasury_float_per_token = 50000000, treasury_sweep_dest = [],
     stablecoin_registry = \<lparr>usdc = sample_coin, usdt = sample_coin, pyusd = sample_coin\<rparr>,
     pinata_jwt = [], pinata_gateway_domain = [], arweave_wallet_path = [], server_port = 8080,
     server_host = []\<rparr>"

definition sample_env :: env where
  "sample_env = \<lparr>lib = sample_libs, orc = sample_outside, cfg = sample_config,
     vault_pubkey = [1], treasury_pubkey = [2], pactum_program_pubkey = [3]\<rparr>"

definition empty_world :: world where
  "empty_world = \<lparr>db = empty_db, tick = 0, ws_channels = Map.empty, health = HEALTHY,
     invite_limiter = (\<lambda>_. []), outbox = []\<rparr>"

lemmas sample_defs =
  sample_env_def sample_libs_def sample_outside_def sample_config_def sample_coin_def
  empty_world_def empty_db_def

lemmas run_defs =
  act_defs sql_def sql_select_def sql_update_def transaction_of_def emit_def ask_def now_def
  new_v4_def fill_bytes_def spawn_blocking_def current_unix_timestamp_def tick_on_def Let_def

text \<open>The sample satisfies the documented laws.\<close>

lemma value_slot_value: "value_slot (slot_value s) = Some s"
  by (cases s) (auto simp: slot_value_def split: option.splits)

lemma slots_of_slots_value: "slots_of_value (slots_value ss) = Some ss"
  by (induction ss) (auto simp: slots_value_def value_slot_value)

lemma payload_of_payload_value: "payload_of_value (payload_value p) = Some p"
  by (cases p) (simp add: payload_value_def slots_of_slots_value)

lemma sample_laws: "serde_law (lib sample_env)" "cipher_law (lib sample_env)" "hex_law (lib sample_env)"
proof -
  show "serde_law (lib sample_env)"
    by (simp add: serde_law_def sample_defs slots_of_slots_value payload_of_payload_value)
  show "cipher_law (lib sample_env)" by (simp add: cipher_law_def sample_defs)
  show "hex_law (lib sample_env)" by (rule hex_law_concrete) (simp_all add: sample_defs)
qed

end
