(* ===== verification/Auth_Service.thy ===== *)
theory Auth_Service
  imports Sample_World
begin

text \<open>
  Sign-in and sessions: \<^verbatim>\<open>src/src/services/jwt.rs\<close>, \<^verbatim>\<open>src/src/middleware\<close> and the wallet, refresh
  and logout handlers of \<^verbatim>\<open>src/src/handlers/auth.rs\<close> (the OAuth handlers are in
  \<open>OAuth_Service\<close>).

  Nonces and refresh tokens are single-use records: a handler deletes the row and goes on only if
  a row was deleted. That contract is the locale \<open>single_use\<close>, interpreted on both tables.
\<close>

section \<open>Tokens\<close>

text \<open>The timestamp is \<open>as_secs() as usize\<close>; the crate is built for 64-bit targets.\<close>

definition current_timestamp :: "env \<Rightarrow> (world, 'e, u64) act" where
  "current_timestamp E = bindE (now E) (\<lambda>t. ret (word_of_int t))"

definition issue_access_token :: "env \<Rightarrow> uuid \<Rightarrow> string option \<Rightarrow> (world, app_error, string) act" where
  "issue_access_token E user_id pubkey =
     bindE (current_timestamp E) (\<lambda>t.
     bindE (new_v4 E) (\<lambda>j.
     ok_or InternalError (jwt_encode (lib E) (jwt_secret (cfg E))
       \<lparr>cl_sub = user_id, cl_pubkey = pubkey, cl_exp = t + jwt_access_expiry_seconds (cfg E),
        cl_iat = t, cl_jti = j\<rparr>)))"

text \<open>\<open>decode\<close> checks the signature and, with a leeway of 0, the expiry against the clock.\<close>

definition decode_access_token :: "env \<Rightarrow> string \<Rightarrow> (world, app_error, claims) act" where
  "decode_access_token E token =
     bindE (now E) (\<lambda>t. ok_or Unauthorized (jwt_decode (lib E) (jwt_secret (cfg E)) t token))"

definition issue_and_store_refresh_token :: "env \<Rightarrow> uuid \<Rightarrow> (world, app_error, string) act" where
  "issue_and_store_refresh_token E user_id =
     bindE (fill_bytes E 32) (\<lambda>token_bytes.
     let raw_token = hex_encode (lib E) token_bytes;
         token_hash = sha256_hex E raw_token in
     bindE (current_timestamp E) (\<lambda>ts.
     let t = as_i64 ts; expires = wrap_i64 (t + 604800) in
     thenE (sql E InternalError (\<lambda>_ _ d.
       if token_hash \<in> set (map rt_token_hash (refresh_tokens d))
          \<or> user_id \<notin> set (map ua_id (user_accounts d)) then None
       else Some ((), d\<lparr>refresh_tokens := refresh_tokens d @
         [\<lparr>rt_token_hash = token_hash, rt_user_id = user_id, rt_created_at = t,
           rt_expires_at = expires\<rparr>]\<rparr>)))
     (ret raw_token)))"

section \<open>Extractors\<close>

type_synonym headers = "string \<Rightarrow> string option"

record auth_user =
  au_user_id :: uuid
  au_pubkey :: "string option"

record auth_user_with_wallet =
  aww_user_id :: uuid
  aww_pubkey :: string

text \<open>
  A header is present when its value is visible ASCII (\<open>to_str().ok()\<close>). A rejection is the
  status and the message.
\<close>

definition auth_user_from_request :: "env \<Rightarrow> headers \<Rightarrow> (world, nat \<times> string, auth_user) act" where
  "auth_user_from_request E hs =
     bindE (ok_or (401, ''Missing or invalid Authorization header'')
       (Option.bind (hs ''authorization'') (strip_prefix ''Bearer ''))) (\<lambda>token.
     bindE (attempt (decode_access_token E token)) (\<lambda>r.
     case r of
       Inl _ \<Rightarrow> fail (401, ''Invalid or expired token'')
     | Inr cl \<Rightarrow> ret \<lparr>au_user_id = cl_sub cl, au_pubkey = cl_pubkey cl\<rparr>))"

definition wallet_required_debug :: string where
  "wallet_required_debug =
     ''WalletRequired { message: '' @ [CHR 0x22] @
     ''This action requires a connected wallet. Please link a wallet to your account.'' @
     [CHR 0x22] @ '', link_url: '' @ [CHR 0x22] @ ''/auth/link/wallet'' @ [CHR 0x22] @ '' }''"

definition auth_user_with_wallet_from_request ::
    "env \<Rightarrow> headers \<Rightarrow> (world, nat \<times> string, auth_user_with_wallet) act" where
  "auth_user_with_wallet_from_request E hs =
     bindE (auth_user_from_request E hs) (\<lambda>auth.
     case au_pubkey auth of
       Some pk \<Rightarrow> ret \<lparr>aww_user_id = au_user_id auth, aww_pubkey = pk\<rparr>
     | None \<Rightarrow> fail (403, wallet_required_debug))"

section \<open>Handlers\<close>

record verify_request =
  vr_pubkey :: string
  vr_signature :: string
  vr_nonce :: string

record auth_response =
  access_token :: string
  refresh_token :: string

definition live_nonce :: "int \<Rightarrow> string \<Rightarrow> siws_nonce_row \<Rightarrow> bool" where
  "live_nonce t n r \<longleftrightarrow> sn_nonce r = n \<and> sn_created_at r > t - 300"

text \<open>\<open>DELETE FROM siws_nonces ... RETURNING nonce\<close>\<close>

definition consume_nonce :: "int \<Rightarrow> string \<Rightarrow> database \<Rightarrow> string option \<times> database" where
  "consume_nonce t n d =
     (map_option sn_nonce (select_first (live_nonce t n) (siws_nonces d)),
      d\<lparr>siws_nonces := del_where (live_nonce t n) (siws_nonces d)\<rparr>)"

definition challenge :: "env \<Rightarrow> (world, app_error, string) act" where
  "challenge E =
     bindE (new_v4 E) (\<lambda>u.
     let nonce = uuid_to_string (lib E) u in
     thenE (sql E InternalError (\<lambda>t _ d.
       if nonce \<in> set (map sn_nonce (siws_nonces d)) then None
       else Some ((), d\<lparr>siws_nonces := siws_nonces d @ [\<lparr>sn_nonce = nonce, sn_created_at = t\<rparr>]\<rparr>)))
     (ret nonce))"

definition wallet_owner :: "string \<Rightarrow> database \<Rightarrow> uuid option" where
  "wallet_owner pk d = map_option aw_user_id (select_first (\<lambda>r. aw_pubkey r = pk) (auth_wallet d))"

definition user_wallet :: "uuid \<Rightarrow> database \<Rightarrow> string option" where
  "user_wallet u d = map_option aw_pubkey (select_first (\<lambda>r. aw_user_id r = u) (auth_wallet d))"

text \<open>\<open>INSERT INTO user_accounts DEFAULT VALUES RETURNING id\<close>\<close>

definition insert_user :: "int \<Rightarrow> uuid \<Rightarrow> database \<Rightarrow> (uuid \<times> database) option" where
  "insert_user t g d =
     (if g \<in> set (map ua_id (user_accounts d)) then None
      else Some (g, d\<lparr>user_accounts := user_accounts d @
        [\<lparr>ua_id = g, ua_display_name = None, ua_created_at = t\<rparr>]\<rparr>))"

definition insert_wallet :: "int \<Rightarrow> uuid \<Rightarrow> string \<Rightarrow> database \<Rightarrow> (unit \<times> database) option" where
  "insert_wallet t user_id pk d =
     (if pk \<in> set (map aw_pubkey (auth_wallet d)) \<or> user_id \<notin> set (map ua_id (user_accounts d))
      then None
      else Some ((), d\<lparr>auth_wallet := auth_wallet d @
        [\<lparr>aw_user_id = user_id, aw_pubkey = pk, aw_linked_at = t\<rparr>]\<rparr>))"

text \<open>The part of \<open>verify\<close> and \<open>link_wallet\<close> that consumes the nonce and checks the signature.\<close>

definition check_signed_nonce :: "env \<Rightarrow> verify_request \<Rightarrow> (world, app_error, unit) act" where
  "check_signed_nonce E body =
     bindE (sql E InternalError (\<lambda>t _ d. Some (consume_nonce t (vr_nonce body) d))) (\<lambda>row.
     thenE (guardE (row \<noteq> None) InvalidOrExpiredNonce)
     (bindE (ok_or Unauthorized (pubkey_from_str (lib E) (vr_pubkey body))) (\<lambda>pubkey.
      bindE (ok_or Unauthorized (signature_from_str (lib E) (vr_signature body))) (\<lambda>signature.
      guardE (signature_verify (lib E) signature pubkey (as_bytes (vr_nonce body))) Unauthorized))))"

definition verify :: "env \<Rightarrow> verify_request \<Rightarrow> (world, app_error, auth_response) act" where
  "verify E body =
     thenE (check_signed_nonce E body)
     (bindE (sql_select E InternalError (wallet_owner (vr_pubkey body))) (\<lambda>existing_user_id.
      bindE (case existing_user_id of
          Some user_id \<Rightarrow> ret user_id
        | None \<Rightarrow>
            bindE (sql E InternalError insert_user) (\<lambda>user_id.
            thenE (sql E InternalError (\<lambda>t _. insert_wallet t user_id (vr_pubkey body)))
            (ret user_id))) (\<lambda>user_id.
      bindE (issue_access_token E user_id (Some (vr_pubkey body))) (\<lambda>acc.
      bindE (issue_and_store_refresh_token E user_id) (\<lambda>ref.
      ret \<lparr>access_token = acc, refresh_token = ref\<rparr>)))))"

definition link_wallet ::
    "env \<Rightarrow> auth_user \<Rightarrow> verify_request \<Rightarrow> (world, app_error, auth_response) act" where
  "link_wallet E auth body =
     thenE (guardE (au_pubkey auth = None) WalletAlreadyLinked)
     (thenE (check_signed_nonce E body)
     (bindE (sql_select E InternalError (wallet_owner (vr_pubkey body))) (\<lambda>existing_user_id.
      thenE (guardE (existing_user_id = None) WalletAlreadyLinked)
      (thenE (sql E InternalError (\<lambda>t _. insert_wallet t (au_user_id auth) (vr_pubkey body)))
      (bindE (issue_access_token E (au_user_id auth) (Some (vr_pubkey body))) (\<lambda>acc.
       bindE (issue_and_store_refresh_token E (au_user_id auth)) (\<lambda>ref.
       ret \<lparr>access_token = acc, refresh_token = ref\<rparr>)))))))"

definition live_token :: "int \<Rightarrow> string \<Rightarrow> refresh_token_row \<Rightarrow> bool" where
  "live_token t h r \<longleftrightarrow> rt_token_hash r = h \<and> rt_expires_at r > t"

text \<open>\<open>DELETE FROM refresh_tokens ... RETURNING user_id\<close>\<close>

definition consume_token :: "int \<Rightarrow> string \<Rightarrow> database \<Rightarrow> uuid option \<times> database" where
  "consume_token t h d =
     (map_option rt_user_id (select_first (live_token t h) (refresh_tokens d)),
      d\<lparr>refresh_tokens := del_where (live_token t h) (refresh_tokens d)\<rparr>)"

definition refresh :: "env \<Rightarrow> string \<Rightarrow> (world, app_error, auth_response) act" where
  "refresh E token =
     bindE (sql E InternalError (\<lambda>t _ d. Some (consume_token t (sha256_hex E token) d))) (\<lambda>row.
     bindE (ok_or InvalidRefreshToken row) (\<lambda>user_id.
     bindE (sql_select E InternalError (user_wallet user_id)) (\<lambda>pubkey.
     bindE (issue_access_token E user_id pubkey) (\<lambda>acc.
     bindE (issue_and_store_refresh_token E user_id) (\<lambda>ref.
     ret \<lparr>access_token = acc, refresh_token = ref\<rparr>)))))"

definition logout :: "env \<Rightarrow> string \<Rightarrow> (world, app_error, string) act" where
  "logout E token =
     thenE (sql_update E InternalError (\<lambda>d. d\<lparr>refresh_tokens :=
       del_where (\<lambda>r. rt_token_hash r = sha256_hex E token) (refresh_tokens d)\<rparr>))
     (ret ''Logged out successfully'')"

section \<open>Sequences of requests\<close>

datatype auth_op =
    OpChallenge
  | OpVerify verify_request
  | OpLink auth_user verify_request
  | OpRefresh string
  | OpLogout string

fun run_auth_op :: "env \<Rightarrow> auth_op \<Rightarrow> world \<Rightarrow> world" where
  "run_auth_op E OpChallenge w = snd (challenge E w)"
| "run_auth_op E (OpVerify body) w = snd (verify E body w)"
| "run_auth_op E (OpLink auth body) w = snd (link_wallet E auth body w)"
| "run_auth_op E (OpRefresh token) w = snd (refresh E token w)"
| "run_auth_op E (OpLogout token) w = snd (logout E token w)"

definition run_auth_ops :: "env \<Rightarrow> auth_op list \<Rightarrow> world \<Rightarrow> world" where
  "run_auth_ops E ops w = fold (run_auth_op E) ops w"

text \<open>The keys and references the schema declares on the tables of this component.\<close>

definition auth_inv :: "database \<Rightarrow> bool" where
  "auth_inv d \<longleftrightarrow>
     distinct (map ua_id (user_accounts d)) \<and>
     distinct (map sn_nonce (siws_nonces d)) \<and>
     distinct (map aw_pubkey (auth_wallet d)) \<and>
     distinct (map rt_token_hash (refresh_tokens d)) \<and>
     (\<forall>r \<in> set (auth_wallet d). aw_user_id r \<in> ua_id ` set (user_accounts d)) \<and>
     (\<forall>r \<in> set (refresh_tokens d). rt_user_id r \<in> ua_id ` set (user_accounts d))"

section \<open>Single-use records\<close>

locale single_use =
  fixes consume :: "int \<Rightarrow> 'k \<Rightarrow> database \<Rightarrow> 'v option \<times> database"
    and held :: "'k \<Rightarrow> database \<Rightarrow> bool"
    and keyed :: "database \<Rightarrow> bool"
  assumes hit_held: "consume t k d = (Some v, d') \<Longrightarrow> held k d"
    and hit_removes: "keyed d \<Longrightarrow> consume t k d = (Some v, d') \<Longrightarrow> \<not> held k d'"
    and miss: "\<not> held k d \<Longrightarrow> fst (consume t k d) = None"
    and consume_held: "held k' (snd (consume t k d)) \<Longrightarrow> held k' d"
    and other_held: "k' \<noteq> k \<Longrightarrow> held k' (snd (consume t k d)) = held k' d"
    and consume_keyed: "keyed d \<Longrightarrow> keyed (snd (consume t k d))"
begin

lemma at_most_once:
  assumes "keyed d" and "consume t k d = (Some v, d1)"
  shows "fst (consume t' k d1) = None"
  using assms hit_removes miss by metis

lemma at_most_once_later:
  assumes "keyed d" and "consume t k d = (Some v, d1)" and "held k d2 \<Longrightarrow> held k d1"
  shows "fst (consume t' k d2) = None"
  using assms hit_removes miss by metis

end

lemma distinct_del_where: "distinct (map f rs) \<Longrightarrow> distinct (map f (del_where P rs))"
  by (induction rs) (auto simp: sql_list)

lemma keyed_delete:
  assumes "distinct (map f rs)" and "r \<in> set rs" and "P r" and "\<And>x. P x \<Longrightarrow> f x = k"
  shows "k \<notin> f ` set (del_where P rs)"
proof
  assume "k \<in> f ` set (del_where P rs)"
  then obtain x where x: "x \<in> set rs" "\<not> P x" "f x = k" by (auto simp: sql_list)
  then have "f x = f r" using assms by simp
  then have "x = r" using assms(1,2) x(1) by (meson distinct_map inj_onD)
  then show False using x(2) assms(3) by simp
qed

definition nonce_held :: "string \<Rightarrow> database \<Rightarrow> bool" where
  "nonce_held n d \<longleftrightarrow> n \<in> sn_nonce ` set (siws_nonces d)"

definition token_held :: "string \<Rightarrow> database \<Rightarrow> bool" where
  "token_held h d \<longleftrightarrow> h \<in> rt_token_hash ` set (refresh_tokens d)"

interpretation nonce: single_use consume_nonce nonce_held
  "\<lambda>d. distinct (map sn_nonce (siws_nonces d))"
proof unfold_locales
  fix t k d v d'
  assume "consume_nonce t k d = (Some v, d')"
  then obtain r where r: "select_first (live_nonce t k) (siws_nonces d) = Some r"
    and d': "d' = d\<lparr>siws_nonces := del_where (live_nonce t k) (siws_nonces d)\<rparr>"
    by (auto simp: consume_nonce_def)
  then have rr: "r \<in> set (siws_nonces d)" "live_nonce t k r" by (auto dest: select_first_SomeD)
  then show "nonce_held k d" by (auto simp: nonce_held_def live_nonce_def)
  assume "distinct (map sn_nonce (siws_nonces d))"
  then have "k \<notin> sn_nonce ` set (del_where (live_nonce t k) (siws_nonces d))"
    using rr by (rule keyed_delete) (simp add: live_nonce_def)
  with d' show "\<not> nonce_held k d'" by (simp add: nonce_held_def)
qed (auto simp: consume_nonce_def nonce_held_def live_nonce_def sql_list distinct_del_where)

interpretation token: single_use consume_token token_held
  "\<lambda>d. distinct (map rt_token_hash (refresh_tokens d))"
proof unfold_locales
  fix t k d v d'
  assume "consume_token t k d = (Some v, d')"
  then obtain r where r: "select_first (live_token t k) (refresh_tokens d) = Some r"
    and d': "d' = d\<lparr>refresh_tokens := del_where (live_token t k) (refresh_tokens d)\<rparr>"
    by (auto simp: consume_token_def)
  then have rr: "r \<in> set (refresh_tokens d)" "live_token t k r" by (auto dest: select_first_SomeD)
  then show "token_held k d" by (auto simp: token_held_def live_token_def)
  assume "distinct (map rt_token_hash (refresh_tokens d))"
  then have "k \<notin> rt_token_hash ` set (del_where (live_token t k) (refresh_tokens d))"
    using rr by (rule keyed_delete) (simp add: live_token_def)
  with d' show "\<not> token_held k d'" by (simp add: token_held_def)
qed (auto simp: consume_token_def token_held_def live_token_def sql_list distinct_del_where)

section \<open>What each handler keeps\<close>

lemma keeps_current_timestamp [keeps_intros]: "frame R \<Longrightarrow> keeps R (current_timestamp E)"
  unfolding current_timestamp_def by (intro keeps_intros)

lemma keeps_issue_access_token [keeps_intros]: "frame R \<Longrightarrow> keeps R (issue_access_token E u p)"
  unfolding issue_access_token_def by (intro keeps_intros)

lemma keeps_decode_access_token [keeps_intros]: "frame R \<Longrightarrow> keeps R (decode_access_token E tok)"
  unfolding decode_access_token_def by (intro keeps_intros)

lemma keeps_auth_user [keeps_intros]: "frame R \<Longrightarrow> keeps R (auth_user_from_request E hs)"
  unfolding auth_user_from_request_def by (intro keeps_intros)

lemma auth_inv_consume_nonce: "auth_inv d \<Longrightarrow> auth_inv (snd (consume_nonce t n d))"
  by (auto simp: auth_inv_def consume_nonce_def distinct_del_where)

lemma auth_inv_consume_token: "auth_inv d \<Longrightarrow> auth_inv (snd (consume_token t h d))"
  by (auto simp: auth_inv_def consume_token_def distinct_del_where sql_list)

lemma auth_inv_insert_user: "insert_user t g d = Some (x, d') \<Longrightarrow> auth_inv d \<Longrightarrow> auth_inv d'"
  by (auto simp: auth_inv_def insert_user_def split: if_splits)

lemma auth_inv_insert_wallet: "insert_wallet t u pk d = Some (x, d') \<Longrightarrow> auth_inv d \<Longrightarrow> auth_inv d'"
  by (auto simp: auth_inv_def insert_wallet_def split: if_splits)

lemma keeps_auth_inv_store_refresh:
  "keeps (db_frame auth_inv) (issue_and_store_refresh_token E u)"
  unfolding issue_and_store_refresh_token_def
  by (intro keeps_intros keeps_db_frame_sql) (auto simp: auth_inv_def split: if_splits)

lemma keeps_auth_inv_check: "keeps (db_frame auth_inv) (check_signed_nonce E body)"
  unfolding check_signed_nonce_def
  by (intro keeps_intros keeps_db_frame_sql) (metis auth_inv_consume_nonce option.inject snd_conv)

lemma keeps_auth_inv_verify: "keeps (db_frame auth_inv) (verify E body)"
  unfolding verify_def
  by (intro keeps_intros keeps_db_frame_sql keeps_auth_inv_check keeps_auth_inv_store_refresh)
    (auto intro: auth_inv_insert_user auth_inv_insert_wallet)

lemma keeps_auth_inv_link: "keeps (db_frame auth_inv) (link_wallet E auth body)"
  unfolding link_wallet_def
  by (intro keeps_intros keeps_db_frame_sql keeps_auth_inv_check keeps_auth_inv_store_refresh)
    (auto intro: auth_inv_insert_wallet)

lemma keeps_auth_inv_refresh: "keeps (db_frame auth_inv) (refresh E tok)"
  unfolding refresh_def
  by (intro keeps_intros keeps_db_frame_sql keeps_auth_inv_store_refresh)
    (metis auth_inv_consume_token option.inject snd_conv)

lemma keeps_auth_inv_logout: "keeps (db_frame auth_inv) (logout E tok)"
  unfolding logout_def
  by (intro keeps_intros keeps_db_frame_update) (auto simp: auth_inv_def distinct_del_where sql_list)

lemma keeps_auth_inv_challenge: "keeps (db_frame auth_inv) (challenge E)"
  unfolding challenge_def
  by (intro keeps_intros keeps_db_frame_sql) (auto simp: auth_inv_def split: if_splits)

lemmas keeps_auth_inv =
  keeps_auth_inv_challenge keeps_auth_inv_verify keeps_auth_inv_link keeps_auth_inv_refresh
  keeps_auth_inv_logout

lemma run_auth_op_inv: "auth_inv (db w) \<Longrightarrow> auth_inv (db (run_auth_op E p w))"
  by (cases p) (simp_all add: keeps_db_frameD keeps_auth_inv)

section \<open>A consumed record does not come back\<close>

text \<open>Only \<open>challenge\<close> writes nonces, only the issue of a refresh token writes token hashes.\<close>

lemma nonce_absent_store: "keeps (absent_from T (nonce_held n)) (issue_and_store_refresh_token E u)"
  unfolding issue_and_store_refresh_token_def
  by (intro keeps_intros keeps_absent_from_sql) (auto simp: nonce_held_def split: if_splits)

lemma nonce_absent_check: "keeps (absent_from T (nonce_held n)) (check_signed_nonce E body)"
  unfolding check_signed_nonce_def
  by (intro keeps_intros keeps_absent_from_sql)
    (auto simp: nonce_held_def consume_nonce_def sql_list)

lemma nonce_absent_verify: "keeps (absent_from T (nonce_held n)) (verify E body)"
  unfolding verify_def
  by (intro keeps_intros keeps_absent_from_sql nonce_absent_check nonce_absent_store)
    (auto simp: nonce_held_def insert_user_def insert_wallet_def split: if_splits)

lemma nonce_absent_link: "keeps (absent_from T (nonce_held n)) (link_wallet E auth body)"
  unfolding link_wallet_def
  by (intro keeps_intros keeps_absent_from_sql nonce_absent_check nonce_absent_store)
    (auto simp: nonce_held_def insert_wallet_def split: if_splits)

lemma nonce_absent_refresh: "keeps (absent_from T (nonce_held n)) (refresh E tok)"
  unfolding refresh_def
  by (intro keeps_intros keeps_absent_from_sql nonce_absent_store)
    (auto simp: nonce_held_def consume_token_def)

lemma nonce_absent_logout: "keeps (absent_from T (nonce_held n)) (logout E tok)"
  unfolding logout_def by (intro keeps_intros keeps_absent_from_update) (auto simp: nonce_held_def)

lemma nonce_absent_challenge:
  assumes "\<forall>k \<ge> T. uuid_to_string (lib E) (random_uuid (orc E) k) \<noteq> n"
  shows "keeps (absent_from T (nonce_held n)) (challenge E)"
proof (rule keepsI)
  fix w r w' assume run: "challenge E w = (r, w')"
  then show "absent_from T (nonce_held n) w w'"
    using assms
    by (cases r)
      (auto simp: challenge_def act_simps Let_def absent_from_def nonce_held_def split: if_splits)
qed

lemma run_auth_ops_nonce_absent:
  assumes fresh: "\<forall>k \<ge> T. uuid_to_string (lib E) (random_uuid (orc E) k) \<noteq> n"
    and "T \<le> tick w" and "\<not> nonce_held n (db w)"
  shows "\<not> nonce_held n (db (run_auth_ops E ops w))"
  using assms(2,3)
proof (induction ops arbitrary: w)
  case Nil
  then show ?case by (simp add: run_auth_ops_def)
next
  case (Cons p ops)
  have "absent_from T (nonce_held n) w (run_auth_op E p w)"
    using nonce_absent_challenge [OF fresh] nonce_absent_verify [of T n E] nonce_absent_link [of T n E]
      nonce_absent_refresh [of T n E] nonce_absent_logout [of T n E]
    by (cases p) (simp_all add: keeps_def)
  with Cons.prems have "T \<le> tick (run_auth_op E p w)" "\<not> nonce_held n (db (run_auth_op E p w))"
    by (auto simp: absent_from_def)
  from Cons.IH [OF this] show ?case by (simp add: run_auth_ops_def)
qed

lemma check_signed_nonce_absent:
  assumes "\<not> nonce_held (vr_nonce body) (db w)"
  shows "\<exists>e w2. check_signed_nonce E body w = (Inl e, w2) \<and> e \<in> {InvalidOrExpiredNonce, InternalError}"
proof -
  obtain d where "consume_nonce (clock (orc E) (tick w)) (vr_nonce body) (db w) = (None, d)"
    using nonce.miss [OF assms] by (metis prod.collapse)
  then show ?thesis
    by (auto simp: check_signed_nonce_def run_defs)
qed

lemma check_signed_nonce_Inr:
  assumes "check_signed_nonce E body w = (Inr (), w1)"
  obtains v pk sg where
    "consume_nonce (clock (orc E) (tick w)) (vr_nonce body) (db w) = (Some v, db w1)"
    "pubkey_from_str (lib E) (vr_pubkey body) = Some pk"
    "signature_from_str (lib E) (vr_signature body) = Some sg"
    "signature_verify (lib E) sg pk (as_bytes (vr_nonce body))"
    "w1 = (tick_on w)\<lparr>db := snd (consume_nonce (clock (orc E) (tick w)) (vr_nonce body) (db w))\<rparr>"
  using assms by (force simp: check_signed_nonce_def act_simps)

lemma verify_Inr:
  assumes "verify E body w = (Inr resp, w')"
  obtains w1 where "check_signed_nonce E body w = (Inr (), w1)"
    and "absent_from T (nonce_held n) w1 w'"
proof -
  from assms obtain w1 where w1: "check_signed_nonce E body w = (Inr (), w1)"
    by (auto simp: verify_def act_simps)
  let ?rest = "bindE (sql_select E InternalError (wallet_owner (vr_pubkey body))) (\<lambda>existing_user_id.
      bindE (case existing_user_id of
          Some user_id \<Rightarrow> ret user_id
        | None \<Rightarrow>
            bindE (sql E InternalError insert_user) (\<lambda>user_id.
            thenE (sql E InternalError (\<lambda>t _. insert_wallet t user_id (vr_pubkey body)))
            (ret user_id))) (\<lambda>user_id.
      bindE (issue_access_token E user_id (Some (vr_pubkey body))) (\<lambda>acc.
      bindE (issue_and_store_refresh_token E user_id) (\<lambda>ref.
      ret \<lparr>access_token = acc, refresh_token = ref\<rparr>))))"
  have "keeps (absent_from T (nonce_held n)) ?rest"
    by (intro keeps_intros keeps_absent_from_sql nonce_absent_store)
      (auto simp: nonce_held_def insert_user_def insert_wallet_def split: if_splits)
  moreover have "?rest w1 = (Inr resp, w')"
    using assms w1 by (simp add: verify_def thenE_def)
  ultimately have "absent_from T (nonce_held n) w1 w'" by (rule keepsD)
  with w1 show ?thesis by (rule that)
qed

text \<open>
  Single use of sign-in nonces. Once \<open>verify\<close> has succeeded with a nonce, no later sequence of
  challenges, sign-ins, links, refreshes and logouts makes that nonce usable again: a second
  \<open>verify\<close> or \<open>link_wallet\<close> with it is refused. The hypothesis on the random source says that
  \<open>Uuid::new_v4\<close> does not draw the same nonce again.
\<close>

theorem nonce_single_use:
  assumes inv: "auth_inv (db w)"
    and run: "verify E body w = (Inr resp, w1)"
    and fresh: "\<forall>k \<ge> tick w1. uuid_to_string (lib E) (random_uuid (orc E) k) \<noteq> vr_nonce body"
    and same: "vr_nonce body' = vr_nonce body"
  shows "(\<exists>e w2. verify E body' (run_auth_ops E ops w1) = (Inl e, w2) \<and>
            e \<in> {InvalidOrExpiredNonce, InternalError}) \<and>
         (\<exists>e w2. link_wallet E auth body' (run_auth_ops E ops w1) = (Inl e, w2) \<and>
            e \<in> {InvalidOrExpiredNonce, InternalError, WalletAlreadyLinked})"
proof -
  obtain w0 where c: "check_signed_nonce E body w = (Inr (), w0)"
    and ab: "absent_from 0 (nonce_held (vr_nonce body)) w0 w1"
    using verify_Inr [OF run] by metis
  from c obtain v where "consume_nonce (clock (orc E) (tick w)) (vr_nonce body) (db w) = (Some v, db w0)"
    by (rule check_signed_nonce_Inr)
  then have "\<not> nonce_held (vr_nonce body) (db w0)"
    using nonce.hit_removes inv by (auto simp: auth_inv_def)
  with ab have "\<not> nonce_held (vr_nonce body) (db w1)" by (simp add: absent_from_def)
  then have "\<not> nonce_held (vr_nonce body') (db (run_auth_ops E ops w1))"
    using run_auth_ops_nonce_absent [OF fresh] same by simp
  from check_signed_nonce_absent [OF this, of E] show ?thesis
    by (auto simp: verify_def link_wallet_def thenE_def guardE_def ret_def fail_def bindE_def)
qed

definition sample_login :: verify_request where
  "sample_login = \<lparr>vr_pubkey = ''alice'', vr_signature = ''aliceN'', vr_nonce = ''N''\<rparr>"

definition sample_login_world :: world where
  "sample_login_world =
     empty_world\<lparr>db := empty_db\<lparr>siws_nonces := [\<lparr>sn_nonce = ''N'', sn_created_at = 900\<rparr>]\<rparr>\<rparr>"

lemmas sample_login_defs = sample_defs sample_login_def sample_login_world_def

lemma dec_digits_not_N: "dec_digits n \<noteq> ''N''"
proof
  assume "dec_digits n = ''N''"
  then have "last (dec_digits n) = CHR ''N''" by simp
  moreover have "last (dec_digits n) = char_of (48 + n mod 10)"
    by (subst dec_digits.simps) simp
  ultimately have "of_char (char_of (48 + n mod 10) :: char) = (78::nat)" by simp
  moreover have "n mod 10 < 10" by simp
  ultimately show False by simp
qed

lemma sample_verify: "\<exists>resp w1. verify sample_env sample_login sample_login_world = (Inr resp, w1)"
  by (simp add: verify_def check_signed_nonce_def issue_access_token_def current_timestamp_def
      issue_and_store_refresh_token_def consume_nonce_def live_nonce_def wallet_owner_def
      insert_user_def insert_wallet_def run_defs Let_def sample_login_defs as_bytes_def)

lemma sample_login_inv: "auth_inv (db sample_login_world)"
  by (simp add: auth_inv_def sample_login_defs)

lemma sample_nonce_fresh:
  "\<forall>k \<ge> T. uuid_to_string (lib sample_env) (random_uuid (orc sample_env) k) \<noteq> vr_nonce sample_login"
  by (simp add: sample_login_defs dec_digits_not_N)

theorem nonce_single_use_witness:
  "fst (verify sample_env sample_login sample_login_world) \<noteq> Inl InvalidOrExpiredNonce \<and>
   (\<exists>resp w1 e w2. verify sample_env sample_login sample_login_world = (Inr resp, w1) \<and>
     verify sample_env sample_login (run_auth_ops sample_env [OpChallenge] w1) = (Inl e, w2) \<and>
     e \<in> {InvalidOrExpiredNonce, InternalError})"
proof -
  obtain resp w1 where run: "verify sample_env sample_login sample_login_world = (Inr resp, w1)"
    using sample_verify by blast
  show ?thesis
    using nonce_single_use [OF sample_login_inv run sample_nonce_fresh refl, of "[OpChallenge]"] run by auto
qed

section \<open>What a session is for\<close>

lemma issue_access_token_Inr:
  assumes "issue_access_token E u pk w = (Inr tok, w')"
  shows "\<exists>t j. jwt_encode (lib E) (jwt_secret (cfg E)) \<lparr>cl_sub = u, cl_pubkey = pk, cl_exp = t + jwt_access_expiry_seconds (cfg E),
    cl_iat = t, cl_jti = j\<rparr> = Some tok \<and> db w' = db w"
  using assms by (auto simp: issue_access_token_def current_timestamp_def act_simps)

lemma issue_refresh_Inr:
  assumes "issue_and_store_refresh_token E u w = (Inr tok, w')"
  shows "\<exists>t. db w' = (db w)\<lparr>refresh_tokens := refresh_tokens (db w) @
      [\<lparr>rt_token_hash = sha256_hex E tok, rt_user_id = u, rt_created_at = t, rt_expires_at = wrap_i64 (t + 604800)\<rparr>]\<rparr> \<and>
    sha256_hex E tok \<notin> rt_token_hash ` set (refresh_tokens (db w)) \<and> u \<in> ua_id ` set (user_accounts (db w))"
  using assms by (auto simp: issue_and_store_refresh_token_def current_timestamp_def act_simps Let_def split: if_splits)

lemma consume_nonce_other:
  "consume_nonce t n d = (v, d') \<Longrightarrow> auth_wallet d' = auth_wallet d \<and> user_accounts d' = user_accounts d \<and> refresh_tokens d' = refresh_tokens d"
  by (auto simp: consume_nonce_def)

text \<open>The part of \<open>verify\<close> that finds or creates the owner of the wallet.\<close>

lemma verify_parts:
  assumes "verify E body w = (Inr resp, w')"
  obtains w1 w2 u w3 where "check_signed_nonce E body w = (Inr (), w1)"
    and "wallet_owner (vr_pubkey body) (db w2) = Some u" and "siws_nonces (db w2) = siws_nonces (db w1)"
    and "refresh_tokens (db w2) = refresh_tokens (db w1)"
    and "wallet_owner (vr_pubkey body) (db w1) = Some u \<and> db w2 = db w1 \<or>
      wallet_owner (vr_pubkey body) (db w1) = None \<and> u \<notin> ua_id ` set (user_accounts (db w1))"
    and "issue_access_token E u (Some (vr_pubkey body)) w2 = (Inr (access_token resp), w3)"
    and "issue_and_store_refresh_token E u w3 = (Inr (refresh_token resp), w')"
proof -
  from assms obtain w1 w2 u w3 where c: "check_signed_nonce E body w = (Inr (), w1)"
    and f: "(case wallet_owner (vr_pubkey body) (db w1) of Some user_id \<Rightarrow> ret user_id
        | None \<Rightarrow> bindE (sql E InternalError insert_user) (\<lambda>user_id.
            thenE (sql E InternalError (\<lambda>t _. insert_wallet t user_id (vr_pubkey body))) (ret user_id))) (tick_on w1) = (Inr u, w2)"
    and i: "issue_access_token E u (Some (vr_pubkey body)) w2 = (Inr (access_token resp), w3)"
      "issue_and_store_refresh_token E u w3 = (Inr (refresh_token resp), w')"
    by (auto simp: verify_def act_simps)
  show ?thesis
  proof (cases "wallet_owner (vr_pubkey body) (db w1)")
    case (Some v)
    with f have "u = v" "w2 = tick_on w1" by (auto simp: act_simps)
    with that [OF c _ _ _ _ i] Some show ?thesis by simp
  next
    case None
    then have n: "\<forall>r \<in> set (auth_wallet (db w1)). aw_pubkey r \<noteq> vr_pubkey body"
      by (auto simp: wallet_owner_def select_first_None_iff)
    with None f have "wallet_owner (vr_pubkey body) (db w2) = Some u" "u \<notin> ua_id ` set (user_accounts (db w1))"
      "siws_nonces (db w2) = siws_nonces (db w1)" "refresh_tokens (db w2) = refresh_tokens (db w1)"
      by (auto simp: act_simps insert_user_def insert_wallet_def wallet_owner_def select_first_append
          select_first_None_iff [THEN iffD2] split: if_splits option.splits)
    with that [OF c _ _ _ _ i] None show ?thesis by simp
  qed
qed

text \<open>
  C6 (wallet sign-in). A sign-in succeeds only with a nonce the server issued less than 300 seconds before and a
  signature of that nonce that verifies under the presented key; the tokens it hands out are for the account the
  wallet belongs to, which is the owner it had before or a new account.
\<close>

theorem wallet_sign_in_sound:
  assumes run: "verify E body w = (Inr resp, w')"
  shows "(\<exists>r \<in> set (siws_nonces (db w)). sn_nonce r = vr_nonce body \<and> sn_created_at r > clock (orc E) (tick w) - 300) \<and>
    (\<exists>pk sg. pubkey_from_str (lib E) (vr_pubkey body) = Some pk \<and> signature_from_str (lib E) (vr_signature body) = Some sg \<and>
       signature_verify (lib E) sg pk (as_bytes (vr_nonce body))) \<and>
    (\<exists>u t j. wallet_owner (vr_pubkey body) (db w') = Some u \<and>
       (wallet_owner (vr_pubkey body) (db w) = Some u \<or>
        wallet_owner (vr_pubkey body) (db w) = None \<and> u \<notin> ua_id ` set (user_accounts (db w))) \<and>
       jwt_encode (lib E) (jwt_secret (cfg E)) \<lparr>cl_sub = u, cl_pubkey = Some (vr_pubkey body),
         cl_exp = t + jwt_access_expiry_seconds (cfg E), cl_iat = t, cl_jti = j\<rparr> = Some (access_token resp) \<and>
       (\<exists>r \<in> set (refresh_tokens (db w')). rt_token_hash r = sha256_hex E (refresh_token resp) \<and> rt_user_id r = u))"
proof -
  obtain w1 w2 u w3 where c: "check_signed_nonce E body w = (Inr (), w1)"
    and own: "wallet_owner (vr_pubkey body) (db w2) = Some u"
      "wallet_owner (vr_pubkey body) (db w1) = Some u \<and> db w2 = db w1 \<or>
       wallet_owner (vr_pubkey body) (db w1) = None \<and> u \<notin> ua_id ` set (user_accounts (db w1))"
    and a: "issue_access_token E u (Some (vr_pubkey body)) w2 = (Inr (access_token resp), w3)"
    and f: "issue_and_store_refresh_token E u w3 = (Inr (refresh_token resp), w')"
    by (rule verify_parts [OF run])
  obtain v pk sg where v: "consume_nonce (clock (orc E) (tick w)) (vr_nonce body) (db w) = (Some v, db w1)"
    and sig: "pubkey_from_str (lib E) (vr_pubkey body) = Some pk" "signature_from_str (lib E) (vr_signature body) = Some sg"
      "signature_verify (lib E) sg pk (as_bytes (vr_nonce body))"
    by (rule check_signed_nonce_Inr [OF c])
  from v have live: "\<exists>r \<in> set (siws_nonces (db w)). sn_nonce r = vr_nonce body \<and> sn_created_at r > clock (orc E) (tick w) - 300"
    by (auto simp: consume_nonce_def live_nonce_def dest!: select_first_SomeD)
  have w1: "auth_wallet (db w1) = auth_wallet (db w)" "user_accounts (db w1) = user_accounts (db w)"
    using consume_nonce_other [OF v] by simp_all
  from issue_refresh_Inr [OF f] issue_access_token_Inr [OF a] obtain t j q where tj:
    "jwt_encode (lib E) (jwt_secret (cfg E)) \<lparr>cl_sub = u, cl_pubkey = Some (vr_pubkey body),
       cl_exp = t + jwt_access_expiry_seconds (cfg E), cl_iat = t, cl_jti = j\<rparr> = Some (access_token resp)"
    and q: "db w' = (db w2)\<lparr>refresh_tokens := q\<rparr>"
    and r: "\<exists>r \<in> set q. rt_token_hash r = sha256_hex E (refresh_token resp) \<and> rt_user_id r = u" by auto
  from own w1 q have "wallet_owner (vr_pubkey body) (db w') = Some u \<and>
    (wallet_owner (vr_pubkey body) (db w) = Some u \<or> wallet_owner (vr_pubkey body) (db w) = None \<and> u \<notin> ua_id ` set (user_accounts (db w)))"
    by (auto simp: wallet_owner_def)
  with live sig tj q r show ?thesis by auto
qed

theorem wallet_sign_in_sound_witness:
  "\<exists>resp w' u. verify sample_env sample_login sample_login_world = (Inr resp, w') \<and> wallet_owner ''alice'' (db w') = Some u"
proof -
  obtain resp w1 where run: "verify sample_env sample_login sample_login_world = (Inr resp, w1)"
    by (simp add: verify_def check_signed_nonce_def issue_access_token_def current_timestamp_def
        issue_and_store_refresh_token_def consume_nonce_def live_nonce_def wallet_owner_def
        insert_user_def insert_wallet_def run_defs Let_def sample_login_defs as_bytes_def)
  from wallet_sign_in_sound [OF run] run show ?thesis by (auto simp: sample_login_def)
qed

section \<open>Refresh tokens\<close>

definition token_fresh :: "env \<Rightarrow> nat \<Rightarrow> string \<Rightarrow> bool" where
  "token_fresh E T h \<longleftrightarrow> (\<forall>k \<ge> T. sha256_hex E (hex_encode (lib E) (random_bytes (orc E) k 32)) \<noteq> h)"

lemma token_absent_store:
  assumes "token_fresh E T h"
  shows "keeps (absent_from T (token_held h)) (issue_and_store_refresh_token E u)"
proof (rule keepsI)
  fix w r w' assume "issue_and_store_refresh_token E u w = (r, w')"
  with assms show "absent_from T (token_held h) w w'"
    by (cases r)
      (auto simp: issue_and_store_refresh_token_def current_timestamp_def act_simps Let_def absent_from_def token_held_def
        token_fresh_def split: if_splits)
qed

lemma token_absent_op:
  assumes "token_fresh E T h"
  shows "absent_from T (token_held h) w (run_auth_op E p w)"
proof -
  have c: "keeps (absent_from T (token_held h)) (check_signed_nonce E body)" for body
    unfolding check_signed_nonce_def
    by (intro keeps_intros keeps_absent_from_sql) (auto simp: token_held_def consume_nonce_def)
  note s = token_absent_store [OF assms]
  have "keeps (absent_from T (token_held h)) (challenge E)"
    unfolding challenge_def by (intro keeps_intros keeps_absent_from_sql) (auto simp: token_held_def split: if_splits)
  moreover have "keeps (absent_from T (token_held h)) (verify E body)" for body
    unfolding verify_def
    by (intro keeps_intros keeps_absent_from_sql c s)
      (auto simp: token_held_def insert_user_def insert_wallet_def split: if_splits)
  moreover have "keeps (absent_from T (token_held h)) (link_wallet E auth body)" for auth body
    unfolding link_wallet_def
    by (intro keeps_intros keeps_absent_from_sql c s) (auto simp: token_held_def insert_wallet_def split: if_splits)
  moreover have "keeps (absent_from T (token_held h)) (refresh E tok)" for tok
    unfolding refresh_def
    by (intro keeps_intros keeps_absent_from_sql s) (auto simp: token_held_def consume_token_def sql_list)
  moreover have "keeps (absent_from T (token_held h)) (logout E tok)" for tok
    unfolding logout_def by (intro keeps_intros keeps_absent_from_update) (auto simp: token_held_def sql_list)
  ultimately show ?thesis by (cases p) (simp_all add: keeps_def)
qed

lemma run_auth_ops_token_absent:
  assumes "token_fresh E T h" and "T \<le> tick w" and "\<not> token_held h (db w)"
  shows "\<not> token_held h (db (run_auth_ops E ops w))"
  using assms(2,3)
proof (induction ops arbitrary: w)
  case Nil
  then show ?case by (simp add: run_auth_ops_def)
next
  case (Cons p ops)
  from token_absent_op [OF assms(1), of w p] Cons.prems
  have "T \<le> tick (run_auth_op E p w)" "\<not> token_held h (db (run_auth_op E p w))" by (auto simp: absent_from_def)
  from Cons.IH [OF this] show ?case by (simp add: run_auth_ops_def)
qed

lemma refresh_parts:
  assumes "refresh E tok w = (Inr resp, w')"
  obtains u w1 w2 where "consume_token (clock (orc E) (tick w)) (sha256_hex E tok) (db w) = (Some u, db w1)"
    and "issue_access_token E u (user_wallet u (db w1)) (tick_on w1) = (Inr (access_token resp), w2)"
    and "issue_and_store_refresh_token E u w2 = (Inr (refresh_token resp), w')" and "tick w1 = Suc (tick w)"
proof -
  from assms obtain u d w2 where "consume_token (clock (orc E) (tick w)) (sha256_hex E tok) (db w) = (Some u, d)"
    "issue_access_token E u (user_wallet u d) (tick_on ((tick_on w)\<lparr>db := d\<rparr>)) = (Inr (access_token resp), w2)"
    "issue_and_store_refresh_token E u w2 = (Inr (refresh_token resp), w')"
    by (auto simp: refresh_def act_simps)
  then show ?thesis using that [of u "(tick_on w)\<lparr>db := d\<rparr>" w2] by simp
qed

text \<open>
  C7 (refresh tokens rotate). A refresh token is exchanged for a session of the user it was issued to, with the wallet
  that user has now, and a new token; the old one is spent: whatever requests follow, presenting it again is
  refused. The hypothesis on the random source says that the 32 bytes drawn later do not hash to the spent token.
\<close>

theorem refresh_rotates:
  assumes inv: "auth_inv (db w)"
    and run: "refresh E tok w = (Inr resp, w1)"
    and fresh: "token_fresh E (tick w) (sha256_hex E tok)"
  shows "(\<exists>u r t j. r \<in> set (refresh_tokens (db w)) \<and> rt_token_hash r = sha256_hex E tok \<and> rt_expires_at r > clock (orc E) (tick w) \<and>
       rt_user_id r = u \<and>
       jwt_encode (lib E) (jwt_secret (cfg E)) \<lparr>cl_sub = u, cl_pubkey = user_wallet u (db w),
         cl_exp = t + jwt_access_expiry_seconds (cfg E), cl_iat = t, cl_jti = j\<rparr> = Some (access_token resp) \<and>
       (\<exists>r' \<in> set (refresh_tokens (db w1)). rt_token_hash r' = sha256_hex E (refresh_token resp) \<and> rt_user_id r' = u)) \<and>
    (\<exists>e w2. refresh E tok (run_auth_ops E ops w1) = (Inl e, w2) \<and> e \<in> {InvalidRefreshToken, InternalError})"
proof -
  obtain u w0 w2 where c: "consume_token (clock (orc E) (tick w)) (sha256_hex E tok) (db w) = (Some u, db w0)"
    and a: "issue_access_token E u (user_wallet u (db w0)) (tick_on w0) = (Inr (access_token resp), w2)"
    and f: "issue_and_store_refresh_token E u w2 = (Inr (refresh_token resp), w1)" and t0: "tick w0 = Suc (tick w)"
    by (rule refresh_parts [OF run])
  from c obtain r where r: "select_first (live_token (clock (orc E) (tick w)) (sha256_hex E tok)) (refresh_tokens (db w)) = Some r"
      "rt_user_id r = u" by (auto simp: consume_token_def)
  from c have w0: "\<exists>q. db w0 = (db w)\<lparr>refresh_tokens := q\<rparr>" by (simp add: consume_token_def) (metis (no_types))
  from select_first_SomeD [OF r(1)] have live: "r \<in> set (refresh_tokens (db w))" "rt_token_hash r = sha256_hex E tok"
    "rt_expires_at r > clock (orc E) (tick w)" by (auto simp: live_token_def)
  have uw: "user_wallet u (db w0) = user_wallet u (db w)" using w0 by (auto simp: user_wallet_def)
  from issue_access_token_Inr [OF a] obtain t j where tj: "jwt_encode (lib E) (jwt_secret (cfg E)) \<lparr>cl_sub = u,
      cl_pubkey = user_wallet u (db w), cl_exp = t + jwt_access_expiry_seconds (cfg E), cl_iat = t, cl_jti = j\<rparr> = Some (access_token resp)"
    and d2: "db w2 = db w0" unfolding uw by auto
  have new: "\<exists>r' \<in> set (refresh_tokens (db w1)). rt_token_hash r' = sha256_hex E (refresh_token resp) \<and> rt_user_id r' = u"
    using issue_refresh_Inr [OF f] by auto
  have "\<not> token_held (sha256_hex E tok) (db w0)"
    using token.hit_removes [OF _ c] inv by (auto simp: auth_inv_def)
  moreover have "tick w \<le> tick w2" using a t0 by (auto simp: issue_access_token_def current_timestamp_def act_simps)
  ultimately have "\<not> token_held (sha256_hex E tok) (db w1) \<and> tick w \<le> tick w1"
    using keepsD [OF token_absent_store [OF fresh] f] d2 by (simp add: absent_from_def)
  then have gone: "\<not> token_held (sha256_hex E tok) (db (run_auth_ops E ops w1))"
    using run_auth_ops_token_absent [OF fresh] by simp
  let ?w = "run_auth_ops E ops w1"
  obtain d where "consume_token (clock (orc E) (tick ?w)) (sha256_hex E tok) (db ?w) = (None, d)"
    using token.miss [OF gone] by (metis prod.collapse)
  then have "\<exists>e w2. refresh E tok ?w = (Inl e, w2) \<and> e \<in> {InvalidRefreshToken, InternalError}"
    by (auto simp: refresh_def run_defs)
  with live r(2) tj new show ?thesis by blast
qed

definition sample_session_env :: env where
  "sample_session_env = sample_env\<lparr>lib := sample_libs\<lparr>sha256 := (\<lambda>bs. if bs = as_bytes ''old'' then [1] else bs)\<rparr>\<rparr>"

definition sample_session_world :: world where
  "sample_session_world = empty_world\<lparr>db := empty_db\<lparr>user_accounts := [\<lparr>ua_id = 7, ua_display_name = None, ua_created_at = 0\<rparr>],
     refresh_tokens := [\<lparr>rt_token_hash = hex_bytes [1], rt_user_id = 7, rt_created_at = 0, rt_expires_at = 5000\<rparr>]\<rparr>\<rparr>"

lemma length_hex_bytes: "length (hex_bytes bs) = 2 * length bs"
  by (induction bs) simp_all

lemma sample_session_hash: "sha256_hex sample_session_env ''old'' = hex_bytes [1]"
  by (simp add: sha256_hex_def sample_session_env_def sample_libs_def)

lemma sample_session_new_hash:
  "sha256_hex sample_session_env (hex_encode (lib sample_session_env) (random_bytes (orc sample_session_env) k 32)) \<noteq> hex_bytes [1]"
proof -
  let ?raw = "hex_encode (lib sample_session_env) (random_bytes (orc sample_session_env) k 32)"
  have hl: "length ?raw = 64"
    by (simp add: sample_session_env_def sample_env_def sample_outside_def sample_libs_def length_hex_bytes)
  then have "as_bytes ?raw \<noteq> as_bytes ''old''" by (auto simp: as_bytes_def dest!: arg_cong [of _ _ length])
  then have "length (sha256_hex sample_session_env ?raw) = 128"
    using hl by (simp add: sha256_hex_def sample_session_env_def sample_libs_def length_hex_bytes as_bytes_def)
  then show ?thesis by auto
qed

lemma sample_session_fresh: "token_fresh sample_session_env T (sha256_hex sample_session_env ''old'')"
  using sample_session_new_hash by (simp add: token_fresh_def sample_session_hash del: hex_bytes.simps)

lemma sample_session_inv: "auth_inv (db sample_session_world)"
  by (simp add: auth_inv_def sample_session_world_def empty_world_def empty_db_def)

lemma sample_refresh: "\<exists>resp w1. refresh sample_session_env ''old'' sample_session_world = (Inr resp, w1)"
proof -
  have "db_fault (orc sample_session_env) k = False" "clock (orc sample_session_env) k = 1000"
    "jwt_encode (lib sample_session_env) sec cl = Some ''jwt''" for k sec cl
    by (simp_all add: sample_session_env_def sample_env_def sample_outside_def sample_libs_def)
  then show ?thesis using sample_session_hash sample_session_new_hash
    by (simp add: refresh_def consume_token_def live_token_def issue_access_token_def issue_and_store_refresh_token_def
        current_timestamp_def user_wallet_def run_defs sample_session_world_def empty_world_def empty_db_def)
qed

theorem refresh_rotates_witness:
  "\<exists>resp w1 e w2. refresh sample_session_env ''old'' sample_session_world = (Inr resp, w1) \<and>
     refresh sample_session_env ''old'' (run_auth_ops sample_session_env [OpChallenge] w1) = (Inl e, w2) \<and>
     e \<in> {InvalidRefreshToken, InternalError}"
proof -
  obtain resp w1 where run: "refresh sample_session_env ''old'' sample_session_world = (Inr resp, w1)"
    using sample_refresh by blast
  from refresh_rotates [OF sample_session_inv run sample_session_fresh, of "[OpChallenge]"] run show ?thesis by blast
qed

end
