(* ===== verification/Ws_Handler.thy ===== *)
theory Ws_Handler
  imports Auth_Service
begin

text \<open>
  \<^verbatim>\<open>src/src/handlers/ws.rs\<close>: the WebSocket endpoint and the registry of channels, one sender per
  user (\<open>state.ws_channels\<close>). A channel is named by the call counter at its creation, so two
  channels never share a name. The loop of a connection is a function of the outcomes its
  \<open>select!\<close> produces; registering and removing the channel around it are separate steps, because
  other requests run in between.
\<close>

section \<open>The upgrade request\<close>

definition WS_ALLOWED_ORIGINS :: "string list" where
  "WS_ALLOWED_ORIGINS = [''https://pactum.app'', ''https://app.pactum.app'']"

definition is_allowed_origin :: "headers \<Rightarrow> bool" where
  "is_allowed_origin hs =
     (case hs ''origin'' of None \<Rightarrow> False | Some origin \<Rightarrow> origin \<in> set WS_ALLOWED_ORIGINS)"

definition extract_jwt_token :: "headers \<Rightarrow> string option \<Rightarrow> string option" where
  "extract_jwt_token hs query_token =
     (case query_token of
        Some tok \<Rightarrow> if tok \<noteq> [] then Some tok
          else Option.bind (hs ''authorization'') (strip_prefix ''Bearer '')
      | None \<Rightarrow> Option.bind (hs ''authorization'') (strip_prefix ''Bearer ''))"

text \<open>The result is the status of a refusal, or the user the connection is upgraded for.\<close>

definition ws_handler :: "env \<Rightarrow> headers \<Rightarrow> string option \<Rightarrow> (world, nat, uuid) act" where
  "ws_handler E hs query_token =
     thenE (guardE (is_allowed_origin hs) 403)
     (bindE (ok_or 401 (extract_jwt_token hs query_token)) (\<lambda>token.
      bindE (attempt (decode_access_token E token)) (\<lambda>r.
      case r of Inl _ \<Rightarrow> fail 401 | Inr cl \<Rightarrow> ret (cl_sub cl))))"

section \<open>Events on the wire\<close>

fun ws_event_to_json :: "ws_event \<Rightarrow> int \<Rightarrow> json" where
  "ws_event_to_json (AgreementCreated p) t =
     json_object [(''event'', JStr ''agreement.created''), (''agreement_pda'', JStr p), (''timestamp'', JNum t)]"
| "ws_event_to_json (AgreementSigned p) t =
     json_object [(''event'', JStr ''agreement.signed''), (''agreement_pda'', JStr p), (''timestamp'', JNum t)]"
| "ws_event_to_json (AgreementCompleted p) t =
     json_object [(''event'', JStr ''agreement.completed''), (''agreement_pda'', JStr p), (''timestamp'', JNum t)]"
| "ws_event_to_json (AgreementCancelled p) t =
     json_object [(''event'', JStr ''agreement.cancelled''), (''agreement_pda'', JStr p), (''timestamp'', JNum t)]"
| "ws_event_to_json (AgreementExpired p) t =
     json_object [(''event'', JStr ''agreement.expired''), (''agreement_pda'', JStr p), (''timestamp'', JNum t)]"
| "ws_event_to_json (AgreementRevokeVote p) t =
     json_object [(''event'', JStr ''agreement.revoke_vote''), (''agreement_pda'', JStr p), (''timestamp'', JNum t)]"
| "ws_event_to_json (AgreementRevoked p) t =
     json_object [(''event'', JStr ''agreement.revoked''), (''agreement_pda'', JStr p), (''timestamp'', JNum t)]"
| "ws_event_to_json (DraftReady d) t =
     json_object [(''event'', JStr ''draft.ready_to_submit''), (''draft_id'', JStr d), (''timestamp'', JNum t)]"
| "ws_event_to_json (DraftInvitationExpired d) t =
     json_object [(''event'', JStr ''draft.invitation_expired''), (''draft_id'', JStr d), (''timestamp'', JNum t)]"
| "ws_event_to_json (PaymentConfirmed d) t =
     json_object [(''event'', JStr ''payment.confirmed''), (''draft_id'', JStr d), (''timestamp'', JNum t)]"
| "ws_event_to_json (RefundCompleted d) t =
     json_object [(''event'', JStr ''payment.refund_completed''), (''draft_id'', JStr d), (''timestamp'', JNum t)]"
| "ws_event_to_json (GenericNotification m) t =
     json_object [(''event'', JStr ''notification.generic''), (''message'', JStr m), (''timestamp'', JNum t)]"

text \<open>The reader of the protocol: the event a payload stands for, read by the names of the members.\<close>

definition json_str_member :: "string \<Rightarrow> json \<Rightarrow> string option" where
  "json_str_member k v = Option.bind (json_get k v) json_as_str"

definition ws_event_of_json :: "json \<Rightarrow> ws_event option" where
  "ws_event_of_json v =
     Option.bind (json_str_member ''event'' v) (\<lambda>tag.
     let pda = json_str_member ''agreement_pda'' v; draft = json_str_member ''draft_id'' v in
     if tag = ''agreement.created'' then map_option AgreementCreated pda
     else if tag = ''agreement.signed'' then map_option AgreementSigned pda
     else if tag = ''agreement.completed'' then map_option AgreementCompleted pda
     else if tag = ''agreement.cancelled'' then map_option AgreementCancelled pda
     else if tag = ''agreement.expired'' then map_option AgreementExpired pda
     else if tag = ''agreement.revoke_vote'' then map_option AgreementRevokeVote pda
     else if tag = ''agreement.revoked'' then map_option AgreementRevoked pda
     else if tag = ''draft.ready_to_submit'' then map_option DraftReady draft
     else if tag = ''draft.invitation_expired'' then map_option DraftInvitationExpired draft
     else if tag = ''payment.confirmed'' then map_option PaymentConfirmed draft
     else if tag = ''payment.refund_completed'' then map_option RefundCompleted draft
     else if tag = ''notification.generic'' then map_option GenericNotification (json_str_member ''message'' v)
     else None)"

section \<open>The connection loop\<close>

text \<open>
  What one turn of \<open>select!\<close> yields: a message from the client, or an event of the channel
  together with the time it is rendered at and whether sending it to the socket succeeds.
\<close>

datatype select_outcome =
    IncomingClose
  | IncomingEnd
  | IncomingError
  | IncomingOther
  | Event ws_event int bool
  | Lagged
  | ChannelClosed

fun handle_ws_connection :: "select_outcome list \<Rightarrow> json list" where
  "handle_ws_connection [] = []"
| "handle_ws_connection (IncomingOther # os) = handle_ws_connection os"
| "handle_ws_connection (Event ev t True # os) = ws_event_to_json ev t # handle_ws_connection os"
| "handle_ws_connection (Event ev t False # os) = []"
| "handle_ws_connection (Lagged # os) = handle_ws_connection os"
| "handle_ws_connection (IncomingClose # os) = []"
| "handle_ws_connection (IncomingEnd # os) = []"
| "handle_ws_connection (IncomingError # os) = []"
| "handle_ws_connection (ChannelClosed # os) = []"

section \<open>The registry\<close>

text \<open>\<open>handle_upgrade\<close>: before the connection loop, and after it.\<close>

definition handle_upgrade_open :: "uuid \<Rightarrow> (world, 'e, nat) act" where
  "handle_upgrade_open user_id =
     bindE (ask (\<lambda>k. k)) (\<lambda>c.
     thenE (modify (\<lambda>w. w\<lparr>ws_channels := (ws_channels w)(user_id \<mapsto> c)\<rparr>)) (ret c))"

definition remove_user_channel :: "uuid \<Rightarrow> (world, 'e, unit) act" where
  "remove_user_channel user_id = modify (\<lambda>w. w\<lparr>ws_channels := (ws_channels w)(user_id := None)\<rparr>)"

definition send_to_user :: "env \<Rightarrow> uuid \<Rightarrow> ws_event \<Rightarrow> (world, 'e, bool) act" where
  "send_to_user E user_id event =
     bindE get_world (\<lambda>w.
     case ws_channels w user_id of
       None \<Rightarrow> ret False
     | Some c \<Rightarrow>
         bindE (ask (\<lambda>k. ws_send_ok (orc E) k c)) (\<lambda>ok.
         if ok then thenE (emit (WsPush user_id c event)) (ret True) else ret False))"

definition send_to_users :: "env \<Rightarrow> uuid list \<Rightarrow> ws_event \<Rightarrow> (world, 'e, nat) act" where
  "send_to_users E user_ids event =
     fold_each user_ids (\<lambda>u n. bindE (send_to_user E u event) (\<lambda>ok. ret (if ok then Suc n else n))) 0"

section \<open>Lemmas\<close>

lemma send_to_user_result:
  "send_to_user E u ev w = (r, w') \<Longrightarrow>
     (\<exists>c. r = Inr True \<and> ws_channels w u = Some c \<and> ws_send_ok (orc E) (tick w) c \<and>
          w' = (tick_on w)\<lparr>outbox := outbox w @ [WsPush u c ev]\<rparr>) \<or>
     r = Inr False \<and> w' \<in> {w, tick_on w}"
  by (auto simp: send_to_user_def run_defs split: option.splits if_splits)

lemma keeps_send_to_user [keeps_intros]:
  assumes "frame R" and "\<And>w x. R w (w\<lparr>outbox := outbox w @ x\<rparr>)"
  shows "keeps R (send_to_user E u ev)"
  unfolding send_to_user_def emit_def using assms
  by (intro keeps_intros) (auto intro!: keepsI simp: act_simps)

lemma send_to_user_db: "send_to_user E u ev w = (r, w') \<Longrightarrow> db w' = db w"
  by (auto dest!: send_to_user_result)

lemma keeps_db_frame_send_to_user [keeps_intros]: "keeps (db_frame P) (send_to_user E u ev)"
  by (intro keeps_send_to_user frame_db_frame) (auto simp: db_frame_def)

lemma ws_event_json_inverse: "ws_event_of_json (ws_event_to_json ev t) = Some ev"
  by (cases ev) (simp_all add: ws_event_of_json_def json_str_member_def)

lemma handle_ws_connection_subset:
  "m \<in> set (handle_ws_connection os) \<Longrightarrow> \<exists>ev t. Event ev t True \<in> set os \<and> m = ws_event_to_json ev t"
  by (induction os rule: handle_ws_connection.induct) auto

fun ended :: "select_outcome \<Rightarrow> bool" where
  "ended (Event ev t ok) = (\<not> ok)"
| "ended IncomingOther = False"
| "ended Lagged = False"
| "ended _ = True"

fun event_of :: "select_outcome \<Rightarrow> ws_event list" where
  "event_of (Event ev t ok) = [ev]"
| "event_of _ = []"

text \<open>
  Events reach the client unchanged. Reading back the payloads a connection has sent gives
  exactly the events that were received before the loop ended, in order, whatever the clock and
  whatever the client sent; nothing is sent after the client closes or a send fails.
\<close>

theorem connection_relays_events:
  "map ws_event_of_json (handle_ws_connection os) =
     map Some (concat (map event_of (takeWhile (\<lambda>x. \<not> ended x) os)))"
  by (induction os rule: handle_ws_connection.induct) (simp_all add: ws_event_json_inverse)

lemma ws_handler_Inr_iff:
  "ws_handler E hs q w = (Inr u, w') \<longleftrightarrow>
     w' = tick_on w \<and> (\<exists>origin token cl. hs ''origin'' = Some origin \<and>
       origin \<in> {''https://pactum.app'', ''https://app.pactum.app''} \<and>
       extract_jwt_token hs q = Some token \<and>
       jwt_decode (lib E) (jwt_secret (cfg E)) (clock (orc E) (tick w)) token = Some cl \<and>
       u = cl_sub cl)"
  by (auto simp: ws_handler_def is_allowed_origin_def WS_ALLOWED_ORIGINS_def decode_access_token_def
      run_defs split: option.splits if_splits)

end
