(* ===== verification/Solana_Tx.thy ===== *)
theory Solana_Tx
  imports Sample_World
begin

text \<open>
  \<^verbatim>\<open>src/src/services/solana.rs\<close>: program-derived addresses, instruction discriminators and the
  builders of the transactions the API hands to its clients. A builder returns the base64 text of
  a transaction; the transaction itself is the value \<open>transaction\<close> of \<open>Solana_Types\<close>, so the
  theorems speak about its accounts, its data, its fee payer and the signatures still missing.
\<close>

section \<open>Constants\<close>

definition SYSTEM_PROGRAM_ID :: pubkey where
  "SYSTEM_PROGRAM_ID = replicate 32 0"

text \<open>The bytes of \<open>CoREENxT6tW1HoK8ypY1SxRMZTcVPm7R94rH4PZNhX7d\<close>.\<close>

definition MPL_CORE_PROGRAM_ID :: pubkey where
  "MPL_CORE_PROGRAM_ID = [175, 84, 171, 16, 189, 151, 165, 66, 160, 158, 247, 179, 152, 137, 221, 12,
     211, 148, 164, 204, 233, 223, 166, 205, 201, 126, 190, 45, 35, 91, 167, 72]"

definition AGREEMENT_STATE_SIZE :: nat where "AGREEMENT_STATE_SIZE = 1813"
definition VAULT_BUFFER :: u64 where "VAULT_BUFFER = 10000000"

definition CREATE_AGREEMENT_DISCRIMINATOR :: "byte list" where
  "CREATE_AGREEMENT_DISCRIMINATOR = [220, 156, 65, 172, 252, 68, 74, 233]"
definition SIGN_AGREEMENT_DISCRIMINATOR :: "byte list" where
  "SIGN_AGREEMENT_DISCRIMINATOR = [113, 163, 162, 101, 44, 101, 65, 204]"
definition CANCEL_AGREEMENT_DISCRIMINATOR :: "byte list" where
  "CANCEL_AGREEMENT_DISCRIMINATOR = [75, 89, 85, 4, 100, 216, 143, 37]"
definition EXPIRE_AGREEMENT_DISCRIMINATOR :: "byte list" where
  "EXPIRE_AGREEMENT_DISCRIMINATOR = [238, 66, 118, 206, 71, 195, 75, 132]"
definition VOTE_REVOKE_DISCRIMINATOR :: "byte list" where
  "VOTE_REVOKE_DISCRIMINATOR = [37, 199, 69, 222, 97, 220, 96, 2]"
definition RETRACT_REVOKE_VOTE_DISCRIMINATOR :: "byte list" where
  "RETRACT_REVOKE_VOTE_DISCRIMINATOR = [221, 206, 3, 95, 171, 167, 185, 239]"
definition INITIALIZE_COLLECTION_DISCRIMINATOR :: "byte list" where
  "INITIALIZE_COLLECTION_DISCRIMINATOR = [112, 62, 53, 139, 173, 152, 98, 93]"

lemmas discriminator_defs =
  CREATE_AGREEMENT_DISCRIMINATOR_def SIGN_AGREEMENT_DISCRIMINATOR_def
  CANCEL_AGREEMENT_DISCRIMINATOR_def EXPIRE_AGREEMENT_DISCRIMINATOR_def
  VOTE_REVOKE_DISCRIMINATOR_def RETRACT_REVOKE_VOTE_DISCRIMINATOR_def
  INITIALIZE_COLLECTION_DISCRIMINATOR_def

definition discriminators :: "byte list list" where
  "discriminators = [CREATE_AGREEMENT_DISCRIMINATOR, SIGN_AGREEMENT_DISCRIMINATOR,
     CANCEL_AGREEMENT_DISCRIMINATOR, EXPIRE_AGREEMENT_DISCRIMINATOR, VOTE_REVOKE_DISCRIMINATOR,
     RETRACT_REVOKE_VOTE_DISCRIMINATOR, INITIALIZE_COLLECTION_DISCRIMINATOR]"

section \<open>Addresses and instructions\<close>

definition derive_agreement_pda :: "env \<Rightarrow> pubkey \<Rightarrow> byte list \<Rightarrow> pubkey \<times> u8" where
  "derive_agreement_pda E cr aid =
     find_program_address (lib E) [as_bytes ''agreement'', cr, aid] (pactum_program_pubkey E)"

definition derive_collection_state_pda :: "env \<Rightarrow> pubkey \<Rightarrow> pubkey \<times> u8" where
  "derive_collection_state_pda E cr =
     find_program_address (lib E) [as_bytes ''collection'', cr] (pactum_program_pubkey E)"

definition derive_pda_authority :: "env \<Rightarrow> pubkey \<Rightarrow> pubkey \<times> u8" where
  "derive_pda_authority E funder =
     find_program_address (lib E) [as_bytes ''mint_authority'', as_bytes ''v1'', funder]
       (pactum_program_pubkey E)"

definition compute_discriminator :: "env \<Rightarrow> string \<Rightarrow> byte list" where
  "compute_discriminator E name = take 8 (sha256 (lib E) (as_bytes (''global:'' @ name)))"

definition build_anchor_instruction ::
    "pubkey \<Rightarrow> byte list \<Rightarrow> account_meta list \<Rightarrow> byte list \<Rightarrow> instruction" where
  "build_anchor_instruction program discriminator accounts args_data =
     \<lparr>ix_program_id = program, ix_accounts = accounts, ix_data = discriminator @ args_data\<rparr>"

definition calculate_vault_deposit :: "env \<Rightarrow> (world, app_error, u64) act" where
  "calculate_vault_deposit E =
     bindE (ask (\<lambda>k. rpc_rent_exemption (orc E) k AGREEMENT_STATE_SIZE)) (\<lambda>r.
     bindE (ok_or InternalError r) (\<lambda>rent_exempt. ret (rent_exempt + VAULT_BUFFER)))"

section \<open>Transactions\<close>

definition get_latest_blockhash :: "env \<Rightarrow> (world, app_error, byte list) act" where
  "get_latest_blockhash E = bindE (ask (rpc_blockhash (orc E))) (ok_or SolanaRpcError)"

definition new_unsigned :: "instruction \<Rightarrow> pubkey \<Rightarrow> transaction" where
  "new_unsigned ix payer =
     \<lparr>tx_instructions = [ix], tx_payer = payer, tx_blockhash = None, tx_signed_by = []\<rparr>"

definition try_partial_sign :: "env \<Rightarrow> pubkey \<Rightarrow> byte list \<Rightarrow> transaction \<Rightarrow> transaction option" where
  "try_partial_sign E k bh tx =
     (if can_sign (lib E) tx k
      then Some (tx\<lparr>tx_blockhash := Some bh, tx_signed_by := k # tx_signed_by tx\<rparr>) else None)"

definition encode_tx :: "env \<Rightarrow> transaction \<Rightarrow> (world, app_error, string) act" where
  "encode_tx E tx = ok_or InternalError (tx_to_base64 (lib E) tx)"

text \<open>The end of every builder that signs with the vault's key, which also pays the fee.\<close>

definition vault_signed :: "env \<Rightarrow> instruction \<Rightarrow> (world, app_error, string) act" where
  "vault_signed E ix =
     bindE (get_latest_blockhash E) (\<lambda>recent_blockhash.
     bindE (ok_or TransactionSigningFailed
       (try_partial_sign E (vault_pubkey E) recent_blockhash (new_unsigned ix (vault_pubkey E)))) (\<lambda>tx.
     encode_tx E tx))"

definition create_agreement_ix ::
    "env \<Rightarrow> pubkey \<Rightarrow> pubkey \<Rightarrow> pubkey \<Rightarrow> byte list \<Rightarrow> instruction" where
  "create_agreement_ix E cr agreement_pda collection_state_pda args_data =
     \<lparr>ix_program_id = pactum_program_pubkey E,
      ix_accounts =
        [account_new (vault_pubkey E) True, account_new_readonly cr True,
         account_new collection_state_pda False, account_new agreement_pda False,
         account_new_readonly SYSTEM_PROGRAM_ID False],
      ix_data = CREATE_AGREEMENT_DISCRIMINATOR @ args_data\<rparr>"

definition build_create_agreement_instruction ::
    "env \<Rightarrow> create_agreement_args \<Rightarrow> pubkey \<Rightarrow> pubkey \<Rightarrow> pubkey \<Rightarrow> u64 \<Rightarrow> (world, app_error, instruction) act" where
  "build_create_agreement_instruction E args cr agreement_pda collection_state_pda vault_deposit =
     bindE (ok_or InternalError (borsh_create_args (lib E) args)) (\<lambda>args_data.
     ret (create_agreement_ix E cr agreement_pda collection_state_pda args_data))"

definition build_create_agreement_tx ::
    "env \<Rightarrow> create_agreement_args \<Rightarrow> pubkey \<Rightarrow> (world, app_error, string) act" where
  "build_create_agreement_tx E args cr =
     (let agreement_pda = fst (derive_agreement_pda E cr (ca_agreement_id args));
          collection_state_pda = fst (derive_collection_state_pda E cr) in
      bindE (calculate_vault_deposit E) (\<lambda>vault_deposit.
      bindE (build_create_agreement_instruction E args cr agreement_pda collection_state_pda vault_deposit)
        (vault_signed E)))"

definition sign_agreement_ix ::
    "env \<Rightarrow> pubkey \<Rightarrow> byte list \<Rightarrow> pubkey \<Rightarrow> pubkey \<Rightarrow> byte list \<Rightarrow> instruction" where
  "sign_agreement_ix E cr aid signer funder args_data =
     \<lparr>ix_program_id = pactum_program_pubkey E,
      ix_accounts =
        [account_new funder True, account_new signer True, account_new_readonly cr False,
         account_new (fst (derive_agreement_pda E cr aid)) False,
         account_new_readonly (fst (derive_pda_authority E funder)) False,
         account_new_readonly MPL_CORE_PROGRAM_ID False, account_new_readonly SYSTEM_PROGRAM_ID False],
      ix_data = SIGN_AGREEMENT_DISCRIMINATOR @ args_data\<rparr>"

text \<open>Not signed by the vault: the fee payer is the signing party.\<close>

definition build_sign_agreement_tx ::
    "env \<Rightarrow> pubkey \<Rightarrow> byte list \<Rightarrow> pubkey \<Rightarrow> string option \<Rightarrow> pubkey \<Rightarrow> (world, app_error, string) act" where
  "build_sign_agreement_tx E cr aid signer metadata_uri funder =
     bindE (ok_or InternalError (borsh_sign_args (lib E) metadata_uri)) (\<lambda>args_data.
     bindE (get_latest_blockhash E) (\<lambda>recent_blockhash.
     encode_tx E ((new_unsigned (sign_agreement_ix E cr aid signer funder args_data) signer)
       \<lparr>tx_blockhash := Some recent_blockhash\<rparr>)))"

definition cancel_agreement_ix :: "env \<Rightarrow> pubkey \<Rightarrow> byte list \<Rightarrow> pubkey \<Rightarrow> instruction" where
  "cancel_agreement_ix E cr aid canceller =
     \<lparr>ix_program_id = pactum_program_pubkey E,
      ix_accounts =
        [account_new (vault_pubkey E) True, account_new_readonly canceller True,
         account_new (fst (derive_agreement_pda E cr aid)) False,
         account_new_readonly SYSTEM_PROGRAM_ID False],
      ix_data = CANCEL_AGREEMENT_DISCRIMINATOR\<rparr>"

definition build_cancel_agreement_tx ::
    "env \<Rightarrow> pubkey \<Rightarrow> byte list \<Rightarrow> pubkey \<Rightarrow> (world, app_error, string) act" where
  "build_cancel_agreement_tx E cr aid canceller = vault_signed E (cancel_agreement_ix E cr aid canceller)"

definition expire_agreement_ix :: "env \<Rightarrow> pubkey \<Rightarrow> byte list \<Rightarrow> instruction" where
  "expire_agreement_ix E cr aid =
     \<lparr>ix_program_id = pactum_program_pubkey E,
      ix_accounts =
        [account_new (vault_pubkey E) True, account_new (fst (derive_agreement_pda E cr aid)) False,
         account_new_readonly cr False, account_new_readonly SYSTEM_PROGRAM_ID False],
      ix_data = EXPIRE_AGREEMENT_DISCRIMINATOR\<rparr>"

definition build_expire_agreement_tx :: "env \<Rightarrow> pubkey \<Rightarrow> byte list \<Rightarrow> (world, app_error, string) act" where
  "build_expire_agreement_tx E cr aid = vault_signed E (expire_agreement_ix E cr aid)"

definition vote_revoke_ix :: "env \<Rightarrow> pubkey \<Rightarrow> byte list \<Rightarrow> pubkey \<Rightarrow> pubkey \<Rightarrow> instruction" where
  "vote_revoke_ix E cr aid voter nft =
     \<lparr>ix_program_id = pactum_program_pubkey E,
      ix_accounts =
        [account_new (vault_pubkey E) True, account_new voter True, account_new_readonly cr False,
         account_new (fst (derive_agreement_pda E cr aid)) False, account_new nft False,
         account_new_readonly (fst (derive_pda_authority E (vault_pubkey E))) False,
         account_new_readonly MPL_CORE_PROGRAM_ID False, account_new_readonly SYSTEM_PROGRAM_ID False],
      ix_data = VOTE_REVOKE_DISCRIMINATOR\<rparr>"

definition build_vote_revoke_tx ::
    "env \<Rightarrow> pubkey \<Rightarrow> byte list \<Rightarrow> pubkey \<Rightarrow> pubkey \<Rightarrow> (world, app_error, string) act" where
  "build_vote_revoke_tx E cr aid voter nft = vault_signed E (vote_revoke_ix E cr aid voter nft)"

text \<open>The address is derived from the voter; the creator is not used.\<close>

definition retract_revoke_vote_ix :: "env \<Rightarrow> byte list \<Rightarrow> pubkey \<Rightarrow> instruction" where
  "retract_revoke_vote_ix E aid voter =
     (let cr = voter in
      \<lparr>ix_program_id = pactum_program_pubkey E,
       ix_accounts =
         [account_new (vault_pubkey E) True, account_new voter True,
          account_new (fst (derive_agreement_pda E cr aid)) False],
       ix_data = RETRACT_REVOKE_VOTE_DISCRIMINATOR\<rparr>)"

definition build_retract_revoke_vote_tx ::
    "env \<Rightarrow> pubkey \<Rightarrow> byte list \<Rightarrow> pubkey \<Rightarrow> (world, app_error, string) act" where
  "build_retract_revoke_vote_tx E cr aid voter = vault_signed E (retract_revoke_vote_ix E aid voter)"

definition initialize_collection_ix :: "env \<Rightarrow> pubkey \<Rightarrow> pubkey \<Rightarrow> byte list \<Rightarrow> instruction" where
  "initialize_collection_ix E cr asset args_data =
     \<lparr>ix_program_id = pactum_program_pubkey E,
      ix_accounts =
        [account_new (vault_pubkey E) True, account_new_readonly cr True, account_new asset True,
         account_new (fst (derive_collection_state_pda E cr)) False,
         account_new_readonly (fst (derive_pda_authority E (vault_pubkey E))) False,
         account_new_readonly MPL_CORE_PROGRAM_ID False, account_new_readonly SYSTEM_PROGRAM_ID False],
      ix_data = INITIALIZE_COLLECTION_DISCRIMINATOR @ args_data\<rparr>"

definition build_initialize_collection_tx ::
    "env \<Rightarrow> pubkey \<Rightarrow> pubkey \<Rightarrow> string \<Rightarrow> string \<Rightarrow> (world, app_error, string) act" where
  "build_initialize_collection_tx E cr asset name uri =
     bindE (ok_or InternalError (borsh_collection_args (lib E) name uri)) (\<lambda>args_data.
     vault_signed E (initialize_collection_ix E cr asset args_data))"

lemmas instruction_defs =
  create_agreement_ix_def sign_agreement_ix_def cancel_agreement_ix_def expire_agreement_ix_def
  vote_revoke_ix_def retract_revoke_vote_ix_def initialize_collection_ix_def
  account_new_def account_new_readonly_def

section \<open>Lemmas\<close>

text \<open>The keys that still have to sign before the transaction can be submitted.\<close>

definition missing_signers :: "transaction \<Rightarrow> pubkey set" where
  "missing_signers tx = required_signers tx - set (tx_signed_by tx)"

definition ix_signers :: "instruction \<Rightarrow> pubkey list" where
  "ix_signers ix = map am_pubkey (filter am_is_signer (ix_accounts ix))"

lemma required_signers_unsigned:
  "required_signers (new_unsigned ix payer) = insert payer (set (ix_signers ix))"
  by (auto simp: required_signers_def new_unsigned_def ix_signers_def)

lemma ix_signers_simps [simp]:
  "ix_signers (create_agreement_ix E cr pda coll a) = [vault_pubkey E, cr]"
  "ix_signers (sign_agreement_ix E cr aid s f a) = [f, s]"
  "ix_signers (cancel_agreement_ix E cr aid c) = [vault_pubkey E, c]"
  "ix_signers (expire_agreement_ix E cr aid) = [vault_pubkey E]"
  "ix_signers (vote_revoke_ix E cr aid v nft) = [vault_pubkey E, v]"
  "ix_signers (retract_revoke_vote_ix E aid v) = [vault_pubkey E, v]"
  "ix_signers (initialize_collection_ix E cr asset a) = [vault_pubkey E, cr, asset]"
  by (simp_all add: ix_signers_def instruction_defs Let_def)

text \<open>The agreement account an instruction names, by its place in the account list of the IDL.\<close>

lemma agreement_account:
  "am_pubkey (ix_accounts (create_agreement_ix E cr pda coll a) ! 3) = pda"
  "am_pubkey (ix_accounts (sign_agreement_ix E cr aid s f a) ! 3) = fst (derive_agreement_pda E cr aid)"
  "am_pubkey (ix_accounts (cancel_agreement_ix E cr aid c) ! 2) = fst (derive_agreement_pda E cr aid)"
  "am_pubkey (ix_accounts (expire_agreement_ix E cr aid) ! 1) = fst (derive_agreement_pda E cr aid)"
  "am_pubkey (ix_accounts (vote_revoke_ix E cr aid v nft) ! 3) = fst (derive_agreement_pda E cr aid)"
  "am_pubkey (ix_accounts (retract_revoke_vote_ix E aid v) ! 2) = fst (derive_agreement_pda E v aid)"
  by (simp_all add: instruction_defs Let_def)

lemma vault_signed_Inr:
  assumes "vault_signed E ix w = (Inr s, w')"
  shows "\<exists>tx. tx_to_base64 (lib E) tx = Some s \<and> tx_instructions tx = [ix] \<and>
    tx_payer tx = vault_pubkey E \<and> tx_signed_by tx = [vault_pubkey E] \<and>
    missing_signers tx = set (ix_signers ix) - {vault_pubkey E} \<and> db w' = db w"
proof -
  from assms obtain bh where "rpc_blockhash (orc E) (tick w) = Some bh"
    and enc: "tx_to_base64 (lib E) ((new_unsigned ix (vault_pubkey E))
        \<lparr>tx_blockhash := Some bh, tx_signed_by := [vault_pubkey E]\<rparr>) = Some s"
    and w': "w' = tick_on w"
    by (auto simp: vault_signed_def get_latest_blockhash_def encode_tx_def try_partial_sign_def
        new_unsigned_def act_simps split: if_splits)
  let ?tx = "(new_unsigned ix (vault_pubkey E))
      \<lparr>tx_blockhash := Some bh, tx_signed_by := [vault_pubkey E]\<rparr>"
  have "missing_signers ?tx = set (ix_signers ix) - {vault_pubkey E}"
    by (auto simp: missing_signers_def required_signers_def new_unsigned_def ix_signers_def)
  with enc w' show ?thesis by (intro exI [of _ ?tx]) (simp add: new_unsigned_def)
qed

lemma vault_signed_Inl:
  "vault_signed E ix w = (Inl e, w') \<Longrightarrow> e \<in> {SolanaRpcError, TransactionSigningFailed, InternalError}"
  by (auto simp: vault_signed_def get_latest_blockhash_def encode_tx_def act_simps)

lemma build_create_agreement_tx_Inr:
  assumes "build_create_agreement_tx E args cr w = (Inr s, w')"
  shows "\<exists>tx a. borsh_create_args (lib E) args = Some a \<and> tx_to_base64 (lib E) tx = Some s \<and>
    tx_instructions tx = [create_agreement_ix E cr
      (fst (derive_agreement_pda E cr (ca_agreement_id args))) (fst (derive_collection_state_pda E cr)) a] \<and>
    tx_payer tx = vault_pubkey E \<and> missing_signers tx = {cr} - {vault_pubkey E} \<and> db w' = db w"
proof -
  let ?ix = "create_agreement_ix E cr (fst (derive_agreement_pda E cr (ca_agreement_id args)))
      (fst (derive_collection_state_pda E cr))"
  from assms obtain a w1 where a: "borsh_create_args (lib E) args = Some a"
    and run: "vault_signed E (?ix a) w1 = (Inr s, w')" and w1: "db w1 = db w"
    by (auto simp: build_create_agreement_tx_def build_create_agreement_instruction_def
        calculate_vault_deposit_def act_simps Let_def)
  from vault_signed_Inr [OF run] a w1 show ?thesis by auto
qed

lemma keeps_get_latest_blockhash [keeps_intros]: "frame R \<Longrightarrow> keeps R (get_latest_blockhash E)"
  unfolding get_latest_blockhash_def by (intro keeps_intros)

lemma keeps_vault_signed [keeps_intros]: "frame R \<Longrightarrow> keeps R (vault_signed E ix)"
  unfolding vault_signed_def encode_tx_def by (intro keeps_intros)

lemma keeps_build_create [keeps_intros]: "frame R \<Longrightarrow> keeps R (build_create_agreement_tx E args cr)"
  unfolding build_create_agreement_tx_def build_create_agreement_instruction_def
    calculate_vault_deposit_def by (intro keeps_intros)

lemma keeps_build_sign [keeps_intros]: "frame R \<Longrightarrow> keeps R (build_sign_agreement_tx E cr aid s m f)"
  unfolding build_sign_agreement_tx_def encode_tx_def by (intro keeps_intros)

lemma keeps_build_others [keeps_intros]:
  "frame R \<Longrightarrow> keeps R (build_cancel_agreement_tx E cr aid c)"
  "frame R \<Longrightarrow> keeps R (build_expire_agreement_tx E cr aid)"
  "frame R \<Longrightarrow> keeps R (build_vote_revoke_tx E cr aid v nft)"
  "frame R \<Longrightarrow> keeps R (build_retract_revoke_vote_tx E cr aid v)"
  unfolding build_cancel_agreement_tx_def build_expire_agreement_tx_def build_vote_revoke_tx_def
    build_retract_revoke_vote_tx_def by (intro keeps_intros; assumption)+

lemma discriminators_ok: "distinct discriminators" "\<forall>d \<in> set discriminators. length d = 8"
  by (simp_all add: discriminators_def discriminator_defs)

text \<open>
  A program that reads the first eight bytes of the instruction data recovers which
  instruction the builder meant, whatever arguments follow.
\<close>

lemma discriminator_prefix:
  assumes "d1 \<in> set discriminators" and "d2 \<in> set discriminators" and "d1 @ a = d2 @ b"
  shows "d1 = d2 \<and> a = b"
  using assms discriminators_ok(2) append_eq_append_conv [of d1 d2 a b] by auto

end
