(* ===== verification/Agreement.thy ===== *)
theory Agreement
  imports Solana_Tx Auth_Service
begin

text \<open>
  \<^verbatim>\<open>src/src/handlers/agreement.rs\<close>: creating, signing, cancelling, revoking, reading and listing
  agreements. \<open>create_agreement\<close> resolves every party, by key or by e-mail, and then either builds
  the transaction at once (all parties known, free tier) or stores a draft with one invitation for
  each e-mail that no wallet is linked to. \<open>AuthUserWithWallet\<close> is the authenticated caller.
\<close>

section \<open>Helpers\<close>

definition validate_invite_window :: "u64 \<Rightarrow> u64 \<Rightarrow> app_error + unit" where
  "validate_invite_window invite_expiry expires_in =
     (if invite_expiry \<ge> expires_in then Inl InviteWindowExceedsSigningWindow else Inr ())"

definition email_hint :: "string \<Rightarrow> string" where
  "email_hint email =
     (case split_once (CHR ''@'') email of
        None \<Rightarrow> ''***''
      | Some (local, domain) \<Rightarrow>
          (case chars_next local of None \<Rightarrow> ''*'' | Some c \<Rightarrow> c) @ ''***@'' @ domain)"

definition contains_pubkey_bytes :: "pubkey list \<Rightarrow> pubkey \<Rightarrow> bool" where
  "contains_pubkey_bytes pubkeys pk \<longleftrightarrow> list_ex (\<lambda>candidate. candidate = pk) pubkeys"

definition is_final_signature :: "nat \<Rightarrow> nat \<Rightarrow> bool \<Rightarrow> bool" where
  "is_final_signature parties_len signed_by_len already \<longleftrightarrow>
     parties_len = signed_by_len + 1 \<and> \<not> already"

datatype agreement_list_role = RoleCreator | RoleParty | RoleAny

definition parse_role :: "string option \<Rightarrow> agreement_list_role" where
  "parse_role r =
     (case r of
        None \<Rightarrow> RoleAny
      | Some v \<Rightarrow> if eq_ignore_ascii_case v ''creator'' then RoleCreator
                  else if eq_ignore_ascii_case v ''party'' then RoleParty else RoleAny)"

definition saturating_mul :: "u32 \<Rightarrow> u32 \<Rightarrow> u32" where
  "saturating_mul a b = (if unat a * unat b < 2 ^ 32 then a * b else - 1)"

definition sanitize_pagination :: "u32 option \<Rightarrow> u32 option \<Rightarrow> u32 \<times> u32 \<times> int \<times> int" where
  "sanitize_pagination p l =
     (let page = max (case p of None \<Rightarrow> 1 | Some x \<Rightarrow> x) 1;
          limit = min (max (case l of None \<Rightarrow> 20 | Some x \<Rightarrow> x) 1) 100;
          offset = saturating_mul (if page = 0 then 0 else page - 1) limit in
      (page, limit, uint limit, uint offset))"

fun agreement_status_to_string :: "agreement_status \<Rightarrow> string" where
  "agreement_status_to_string AS_Draft = ''draft''"
| "agreement_status_to_string AS_PendingSignatures = ''pending_signatures''"
| "agreement_status_to_string AS_Completed = ''completed''"
| "agreement_status_to_string AS_Cancelled = ''cancelled''"
| "agreement_status_to_string AS_Expired = ''expired''"
| "agreement_status_to_string AS_Revoked = ''revoked''"

fun storage_backend_to_string :: "storage_backend \<Rightarrow> string" where
  "storage_backend_to_string Ipfs = ''ipfs''"
| "storage_backend_to_string Arweave = ''arweave''"

definition hex_to_bytes32 :: "env \<Rightarrow> string \<Rightarrow> byte list option" where
  "hex_to_bytes32 E s =
     (case hex_decode (lib E) s of
        None \<Rightarrow> None | Some bs \<Rightarrow> if length bs = 32 then Some bs else None)"

definition pubkey_to_bytes32 :: "env \<Rightarrow> string \<Rightarrow> pubkey option" where
  "pubkey_to_bytes32 E s = pubkey_from_str (lib E) s"

definition pubkey_bytes_to_base58_vec :: "env \<Rightarrow> pubkey list \<Rightarrow> string list" where
  "pubkey_bytes_to_base58_vec E ks = map (pubkey_to_string (lib E)) ks"

section \<open>Creating an agreement\<close>

datatype party_input = PartyPubkey string | PartyEmail string

record create_agreement_request =
  cr_title :: string
  cr_parties :: "party_input list"
  cr_expires_in_secs :: u64

record pending_invitation =
  pi_email_hint :: string
  pi_invited_at :: int

datatype create_agreement_response =
    Submitted string string
  | AwaitingPartyWallets uuid "pending_invitation list"

record invitation_insert_row =
  ii_id :: uuid
  ii_email_index :: "byte list"
  ii_email_enc :: "byte list"
  ii_email_nonce :: "byte list"
  ii_token :: string
  ii_email_hint :: string
  ii_invited_at :: int
  ii_expires_at :: int

definition free_used_of :: "uuid \<Rightarrow> database \<Rightarrow> int" where
  "free_used_of u d =
     (case select_first (\<lambda>r. cnt_user_id r = u) (user_agreement_counts d) of
        None \<Rightarrow> 0 | Some r \<Rightarrow> cnt_free_used r)"

text \<open>
  The wallet linked to an e-mail: the first row of the join of \<open>user_contacts\<close> and
  \<open>auth_wallet\<close>.
\<close>

definition wallet_of_email :: "byte list \<Rightarrow> database \<Rightarrow> string option" where
  "wallet_of_email idx d =
     (case concat (map (\<lambda>c. map aw_pubkey (filter (\<lambda>a. aw_user_id a = uc_user_id c) (auth_wallet d)))
        (filter (\<lambda>c. uc_email_index c = Some idx) (user_contacts d))) of
        [] \<Rightarrow> None | pk # _ \<Rightarrow> Some pk)"

type_synonym party_acc = "bool \<times> party_slot list \<times> invitation_insert_row list"

text \<open>One turn of the loop over the parties of the request.\<close>

definition resolve_party ::
    "env \<Rightarrow> byte list \<Rightarrow> byte list \<Rightarrow> int \<Rightarrow> int \<Rightarrow> party_input \<Rightarrow> party_acc \<Rightarrow> (world, app_error, party_acc) act" where
  "resolve_party E key idx_key invited_at expires p acc =
     (case acc of (all_resolved, slots, invs) \<Rightarrow>
      case p of
        PartyPubkey pk \<Rightarrow>
          ret (all_resolved, slots @ [\<lparr>slot_pubkey = Some pk, slot_invite_id = None\<rparr>], invs)
      | PartyEmail email \<Rightarrow>
          let email_index = hmac_index E email idx_key in
          bindE (sql_select E InternalError (wallet_of_email email_index)) (\<lambda>resolved.
          case resolved of
            Some pk \<Rightarrow>
              ret (all_resolved, slots @ [\<lparr>slot_pubkey = Some pk, slot_invite_id = None\<rparr>], invs)
          | None \<Rightarrow>
              bindE (new_v4 E) (\<lambda>invite_id.
              bindE (fill_bytes E 32) (\<lambda>token_bytes.
              bindE (encrypt E email key) (\<lambda>en.
              ret (False, slots @ [\<lparr>slot_pubkey = None, slot_invite_id = Some invite_id\<rparr>],
                invs @ [\<lparr>ii_id = invite_id, ii_email_index = email_index, ii_email_enc = fst en,
                  ii_email_nonce = snd en, ii_token = hex_encode (lib E) token_bytes,
                  ii_email_hint = email_hint email, ii_invited_at = invited_at,
                  ii_expires_at = expires\<rparr>]))))))"

definition new_draft_row :: "uuid \<Rightarrow> string \<Rightarrow> json \<Rightarrow> json \<Rightarrow> int \<Rightarrow> draft_row" where
  "new_draft_row g pk payload slots t =
     \<lparr>dr_id = g, dr_creator_pubkey = pk, dr_draft_payload = payload, dr_party_slots = slots,
      dr_status = ''awaiting_party_wallets'', dr_created_at = t, dr_ready_at = None,
      dr_submitted_at = None, dr_paid = False, dr_paid_at = None, dr_storage_uri = None,
      dr_storage_uploaded = False, dr_agreement_pda = None, dr_agreement_id = None,
      dr_payment_id = None\<rparr>"

definition insert_draft :: "string \<Rightarrow> json \<Rightarrow> json \<Rightarrow> int \<Rightarrow> uuid \<Rightarrow> database \<Rightarrow> (uuid \<times> database) option" where
  "insert_draft pk payload slots t g d =
     (if g \<in> set (map dr_id (agreement_drafts d)) then None
      else Some (g, d\<lparr>agreement_drafts := agreement_drafts d @ [new_draft_row g pk payload slots t]\<rparr>))"

definition new_invitation_row ::
    "uuid \<Rightarrow> uuid \<Rightarrow> byte list \<Rightarrow> byte list \<Rightarrow> byte list \<Rightarrow> string \<Rightarrow> int \<Rightarrow> int \<Rightarrow> invitation_row" where
  "new_invitation_row i draft_id ix en no tok expires t =
     \<lparr>inv_id = i, inv_draft_id = draft_id, inv_email_index = ix, inv_email_enc = en,
      inv_email_nonce = no, inv_token = tok, inv_status = ''pending'', inv_reminder_sent_at = None,
      inv_reminder_count = 0, inv_created_at = t, inv_expires_at = expires\<rparr>"

definition insert_invitation :: "invitation_row \<Rightarrow> database \<Rightarrow> (unit \<times> database) option" where
  "insert_invitation r d =
     (if inv_id r \<in> set (map inv_id (party_invitations d))
         \<or> inv_token r \<in> set (map inv_token (party_invitations d))
         \<or> inv_draft_id r \<notin> set (map dr_id (agreement_drafts d)) then None
      else Some ((), d\<lparr>party_invitations := party_invitations d @ [r]\<rparr>))"

definition invitation_of :: "uuid \<Rightarrow> int \<Rightarrow> invitation_insert_row \<Rightarrow> invitation_row" where
  "invitation_of draft_id t i =
     new_invitation_row (ii_id i) draft_id (ii_email_index i) (ii_email_enc i) (ii_email_nonce i)
       (ii_token i) (ii_expires_at i) t"

definition slot_keys :: "env \<Rightarrow> party_slot list \<Rightarrow> pubkey list" where
  "slot_keys E slots =
     List.map_filter (pubkey_to_bytes32 E) (List.map_filter slot_pubkey slots)"

text \<open>The branch that needs no draft.\<close>

definition submit_at_once ::
    "env \<Rightarrow> string \<Rightarrow> create_agreement_request \<Rightarrow> party_slot list \<Rightarrow> (world, app_error, create_agreement_response) act" where
  "submit_at_once E auth_pubkey req slots =
     bindE (ok_or InternalError (pubkey_from_str (lib E) auth_pubkey)) (\<lambda>creator_pubkey.
     bindE (new_v4 E) (\<lambda>aid.
     let aid_bytes = uuid_bytes (lib E) aid;
         agreement_pda = fst (derive_agreement_pda E creator_pubkey aid_bytes);
         args = \<lparr>ca_agreement_id = aid_bytes, ca_title = cr_title req,
           ca_content_hash = (case hex_to_bytes32 E (replicate 64 (CHR ''0'')) of
              None \<Rightarrow> replicate 32 0 | Some bs \<Rightarrow> bs),
           ca_storage_uri = ''ipfs://placeholder'', ca_storage_backend = Ipfs,
           ca_parties = slot_keys E slots, ca_expires_in_secs = as_i64 (cr_expires_in_secs req)\<rparr> in
     bindE (build_create_agreement_tx E args creator_pubkey) (\<lambda>tx.
     ret (Submitted tx (pubkey_to_string (lib E) agreement_pda)))))"

text \<open>The branch that stores a draft and its invitations.\<close>

definition store_draft ::
    "env \<Rightarrow> string \<Rightarrow> create_agreement_request \<Rightarrow> party_slot list \<Rightarrow> invitation_insert_row list \<Rightarrow> (world, app_error, create_agreement_response) act" where
  "store_draft E auth_pubkey req slots invs =
     bindE (ok_or InternalError (payload_to_value (lib E)
       \<lparr>dp_title = cr_title req, dp_expires_in_secs = cr_expires_in_secs req, dp_parties = slots\<rparr>)) (\<lambda>payload.
     bindE (ok_or InternalError (slots_to_value (lib E) slots)) (\<lambda>slots_json.
     bindE (sql E InternalError (insert_draft auth_pubkey payload slots_json)) (\<lambda>draft_id.
     thenE (for_each invs (\<lambda>i.
       sql E InternalError (\<lambda>t _. insert_invitation (invitation_of draft_id t i))))
     (ret (AwaitingPartyWallets draft_id (map (\<lambda>i.
       \<lparr>pi_email_hint = ii_email_hint i, pi_invited_at = ii_invited_at i\<rparr>) invs))))))"

definition create_agreement ::
    "env \<Rightarrow> auth_user_with_wallet \<Rightarrow> create_agreement_request \<Rightarrow> (world, app_error, create_agreement_response) act" where
  "create_agreement E auth req =
     thenE (liftE (validate_invite_window (invite_expiry_seconds (cfg E)) (cr_expires_in_secs req)))
     (bindE (liftE (decode_hex_key_32 E (encryption_key (cfg E)))) (\<lambda>key.
      bindE (liftE (decode_hex_key_32 E (encryption_index_key (cfg E)))) (\<lambda>idx_key.
      bindE (sql_select E InternalError (free_used_of (aww_user_id auth))) (\<lambda>free_used.
      let is_free = free_used < as_i32 (platform_fee_free_tier (cfg E)) in
      bindE (current_unix_timestamp E) (\<lambda>invited_at.
      bindE (ok_or InternalError (i64_try_from (invite_expiry_seconds (cfg E)))) (\<lambda>window.
      let expires = wrap_i64 (invited_at + window) in
      bindE (fold_each (cr_parties req) (resolve_party E key idx_key invited_at expires) (True, [], []))
        (\<lambda>(all_resolved, slots, invs).
      if all_resolved \<and> is_free then submit_at_once E (aww_pubkey auth) req slots
      else store_draft E (aww_pubkey auth) req slots invs)))))))"

section \<open>Acting on an agreement on chain\<close>

text \<open>The prologue the four handlers share: fetch the account and decode it.\<close>

definition fetch_agreement :: "env \<Rightarrow> pubkey \<Rightarrow> app_error \<Rightarrow> (world, app_error, agreement_state_wire) act" where
  "fetch_agreement E pda err =
     bindE (ask (\<lambda>k. rpc_account_data (orc E) k pda)) (\<lambda>r.
     bindE (ok_or err r) (\<lambda>account_data.
     thenE (guardE (\<not> length account_data < 8) err)
     (ok_or err (borsh_agreement_state (lib E) (drop 8 account_data)))))"

record sign_agreement_response =
  sar_transaction :: string
  sar_suggest_email :: bool
  sar_suggest_email_reason :: "string option"

definition contact_email_enc :: "uuid \<Rightarrow> database \<Rightarrow> byte list option option" where
  "contact_email_enc u d =
     map_option uc_email_enc (select_first (\<lambda>r. uc_user_id r = u) (user_contacts d))"

definition sign_agreement ::
    "env \<Rightarrow> auth_user_with_wallet \<Rightarrow> string \<Rightarrow> string option \<Rightarrow> (world, app_error, sign_agreement_response) act" where
  "sign_agreement E auth pda metadata_uri =
     bindE (ok_or InternalError (pubkey_from_str (lib E) pda)) (\<lambda>pda_pubkey.
     bindE (ok_or InternalError (pubkey_from_str (lib E) (aww_pubkey auth))) (\<lambda>signer_pubkey.
     bindE (fetch_agreement E pda_pubkey InternalError) (\<lambda>ag.
     thenE (guardE (contains_pubkey_bytes (parties ag) signer_pubkey) Unauthorized)
     (thenE (guardE (\<not> (is_final_signature (length (parties ag)) (length (signed_by ag))
          (contains_pubkey_bytes (signed_by ag) signer_pubkey) \<and> metadata_uri = None)) InternalError)
     (bindE (build_sign_agreement_tx E (creator ag) (agreement_id ag) signer_pubkey metadata_uri
        (vault_funder ag)) (\<lambda>tx.
      bindE (sql_select E InternalError (contact_email_enc (aww_user_id auth))) (\<lambda>email_enc.
      let suggest_email = (case email_enc of Some (Some _) \<Rightarrow> False | _ \<Rightarrow> True) in
      ret \<lparr>sar_transaction = tx, sar_suggest_email = suggest_email,
           sar_suggest_email_reason = (if suggest_email then Some
             ''Add your email to be notified when all parties sign and your credential is ready.''
             else None)\<rparr>)))))))"

text \<open>The JSON body of the three handlers below.\<close>

definition tx_response :: "string \<Rightarrow> string \<Rightarrow> json" where
  "tx_response tx pda = json_object [(''transaction'', JStr tx), (''agreement_pda'', JStr pda)]"

definition cancel_agreement ::
    "env \<Rightarrow> auth_user_with_wallet \<Rightarrow> string \<Rightarrow> (world, app_error, json) act" where
  "cancel_agreement E auth pda =
     bindE (ok_or InternalError (pubkey_from_str (lib E) pda)) (\<lambda>pda_pubkey.
     bindE (ok_or InternalError (pubkey_from_str (lib E) (aww_pubkey auth))) (\<lambda>canceller.
     bindE (fetch_agreement E pda_pubkey InternalError) (\<lambda>ag.
     thenE (guardE (canceller = creator ag) Unauthorized)
     (bindE (build_cancel_agreement_tx E (creator ag) (agreement_id ag) canceller) (\<lambda>tx.
      ret (tx_response tx pda))))))"

definition vote_revoke :: "env \<Rightarrow> auth_user_with_wallet \<Rightarrow> string \<Rightarrow> (world, app_error, json) act" where
  "vote_revoke E auth pda =
     bindE (ok_or InternalError (pubkey_from_str (lib E) pda)) (\<lambda>pda_pubkey.
     bindE (ok_or InternalError (pubkey_from_str (lib E) (aww_pubkey auth))) (\<lambda>voter.
     bindE (fetch_agreement E pda_pubkey InternalError) (\<lambda>ag.
     thenE (guardE (contains_pubkey_bytes (parties ag) voter) Unauthorized)
     (bindE (ok_or InternalError (nft_asset ag)) (\<lambda>nft.
      bindE (build_vote_revoke_tx E (creator ag) (agreement_id ag) voter nft) (\<lambda>tx.
      ret (tx_response tx pda)))))))"

definition retract_revoke_vote :: "env \<Rightarrow> auth_user_with_wallet \<Rightarrow> string \<Rightarrow> (world, app_error, json) act" where
  "retract_revoke_vote E auth pda =
     bindE (ok_or InternalError (pubkey_from_str (lib E) pda)) (\<lambda>pda_pubkey.
     bindE (ok_or InternalError (pubkey_from_str (lib E) (aww_pubkey auth))) (\<lambda>voter.
     bindE (fetch_agreement E pda_pubkey InternalError) (\<lambda>ag.
     thenE (guardE (contains_pubkey_bytes (parties ag) voter) Unauthorized)
     (bindE (build_retract_revoke_vote_tx E (creator ag) (agreement_id ag) voter) (\<lambda>tx.
      ret (tx_response tx pda))))))"

section \<open>Reading\<close>

record get_agreement_response =
  gar_creator :: string
  gar_agreement_id :: string
  gar_title :: string
  gar_storage_uri :: string
  gar_storage_backend :: string
  gar_status :: string
  gar_created_at :: int
  gar_expires_at :: int
  gar_parties :: "string list"
  gar_signed_by :: "string list"

definition get_agreement :: "env \<Rightarrow> string \<Rightarrow> (world, app_error, get_agreement_response) act" where
  "get_agreement E pda =
     bindE (ok_or InternalError (pubkey_from_str (lib E) pda)) (\<lambda>pda_pubkey.
     bindE (fetch_agreement E pda_pubkey NotFound) (\<lambda>ag.
     ret \<lparr>gar_creator = pubkey_to_string (lib E) (creator ag),
          gar_agreement_id = (case uuid_from_slice (lib E) (agreement_id ag) of
             Some u \<Rightarrow> uuid_to_string (lib E) u | None \<Rightarrow> hex_encode (lib E) (agreement_id ag)),
          gar_title = title ag, gar_storage_uri = storage_uri ag,
          gar_storage_backend = storage_backend_to_string (storage_backend_of ag),
          gar_status = agreement_status_to_string (status ag),
          gar_created_at = created_at ag, gar_expires_at = expires_at ag,
          gar_parties = pubkey_bytes_to_base58_vec E (parties ag),
          gar_signed_by = pubkey_bytes_to_base58_vec E (signed_by ag)\<rparr>))"

record list_agreements_query =
  lq_status :: "string option"
  lq_role :: "string option"
  lq_page :: "u32 option"
  lq_limit :: "u32 option"

record list_agreements_response =
  lr_page :: u32
  lr_limit :: u32
  lr_items :: "agreement_party_row list"

fun role_matches :: "agreement_list_role \<Rightarrow> string \<Rightarrow> agreement_party_row \<Rightarrow> bool" where
  "role_matches RoleAny pk r = (ap_party_pubkey r = pk \<or> ap_creator_pubkey r = pk)"
| "role_matches RoleCreator pk r = (ap_creator_pubkey r = pk)"
| "role_matches RoleParty pk r = (ap_party_pubkey r = pk)"

definition status_matches :: "string option \<Rightarrow> agreement_party_row \<Rightarrow> bool" where
  "status_matches f r \<longleftrightarrow> (case f of None \<Rightarrow> True | Some s \<Rightarrow> ap_status r = s)"

text \<open>\<open>ORDER BY created_at DESC LIMIT ... OFFSET ...\<close>; rows created at the same second in scan order.\<close>

definition list_query ::
    "agreement_list_role \<Rightarrow> string \<Rightarrow> string option \<Rightarrow> int \<Rightarrow> int \<Rightarrow> database \<Rightarrow> agreement_party_row list" where
  "list_query role pk f sql_limit sql_offset d =
     take (nat sql_limit) (drop (nat sql_offset) (sort_key (\<lambda>r. - ap_created_at r)
       (filter (\<lambda>r. role_matches role pk r \<and> status_matches f r) (agreement_parties d))))"

definition list_agreements ::
    "env \<Rightarrow> auth_user \<Rightarrow> list_agreements_query \<Rightarrow> (world, app_error, list_agreements_response) act" where
  "list_agreements E auth q =
     (case sanitize_pagination (lq_page q) (lq_limit q) of (page, limit, sql_limit, sql_offset) \<Rightarrow>
      case au_pubkey auth of
        None \<Rightarrow> ret \<lparr>lr_page = page, lr_limit = limit, lr_items = []\<rparr>
      | Some pk \<Rightarrow>
          let role = parse_role (lq_role q);
              status_filter = (case lq_status q of None \<Rightarrow> None | Some v \<Rightarrow>
                if trim v = [] then None else Some (trim v)) in
          bindE (sql_select E InternalError (list_query role pk status_filter sql_limit sql_offset))
            (\<lambda>rows. ret \<lparr>lr_page = page, lr_limit = limit, lr_items = rows\<rparr>))"

section \<open>The tables of drafts and invitations\<close>

text \<open>A slot names a wallet or an invitation, never both and never neither.\<close>

definition slot_wf :: "party_slot \<Rightarrow> bool" where
  "slot_wf s \<longleftrightarrow> (slot_pubkey s = None) \<noteq> (slot_invite_id s = None)"

definition draft_ok :: "env \<Rightarrow> draft_row \<Rightarrow> bool" where
  "draft_ok E r \<longleftrightarrow>
     dr_status r \<in> {''awaiting_party_wallets'', ''ready_to_submit'', ''discarded''} \<and>
     (\<exists>slots. slots_from_value (lib E) (dr_party_slots r) = Some slots \<and>
        (\<forall>s \<in> set slots. slot_wf s) \<and>
        (dr_status r = ''ready_to_submit'' \<longrightarrow> (\<forall>s \<in> set slots. slot_pubkey s \<noteq> None)))"

definition draft_inv :: "env \<Rightarrow> database \<Rightarrow> bool" where
  "draft_inv E d \<longleftrightarrow>
     distinct (map dr_id (agreement_drafts d)) \<and>
     distinct (map inv_id (party_invitations d)) \<and>
     distinct (map inv_token (party_invitations d)) \<and>
     (\<forall>i \<in> set (party_invitations d). inv_draft_id i \<in> dr_id ` set (agreement_drafts d) \<and>
        inv_status i \<in> {''pending'', ''accepted'', ''expired''}) \<and>
     (\<forall>r \<in> set (agreement_drafts d). draft_ok E r)"

section \<open>What the loop over the parties yields\<close>

text \<open>
  The slots are well formed and in the order of the request; the invitations are those of the
  unresolved slots, in the same order, all with the same deadline; and \<open>all_parties_resolved\<close>
  says that there are none.
\<close>

definition party_acc_ok :: "int \<Rightarrow> int \<Rightarrow> party_input list \<Rightarrow> party_acc \<Rightarrow> bool" where
  "party_acc_ok invited_at expires done acc \<longleftrightarrow>
     (case acc of (all_resolved, slots, invs) \<Rightarrow>
        (\<forall>s \<in> set slots. slot_wf s) \<and> length slots = length done \<and>
        (all_resolved \<longleftrightarrow> invs = []) \<and>
        List.map_filter slot_invite_id slots = map ii_id invs \<and>
        (\<forall>i \<in> set invs. ii_expires_at i = expires \<and> ii_invited_at i = invited_at))"

lemma map_filter_append [simp]: "List.map_filter f (xs @ ys) = List.map_filter f xs @ List.map_filter f ys"
  by (simp add: List.map_filter_def)

lemma map_filter_Cons_Nil [simp]:
  "List.map_filter f [] = []"
  "List.map_filter f (x # xs) = (case f x of None \<Rightarrow> List.map_filter f xs | Some y \<Rightarrow> y # List.map_filter f xs)"
  by (simp_all add: List.map_filter_def split: option.splits)

lemma resolve_party_step:
  assumes "party_acc_ok invited_at expires zs a"
    and "resolve_party E key idx_key invited_at expires p a w = (Inr a', w')"
  shows "party_acc_ok invited_at expires (zs @ [p]) a'"
  using assms
  by (cases a; cases p)
    (auto simp: resolve_party_def party_acc_ok_def slot_wf_def act_simps Let_def
      split: option.splits)

lemma resolve_parties:
  assumes "fold_each ps (resolve_party E key idx_key invited_at expires) (True, [], []) w = (Inr acc, w')"
  shows "party_acc_ok invited_at expires ps acc"
proof -
  have "party_acc_ok invited_at expires ([] @ ps) acc"
    using assms
    by (rule fold_each_invariant [where I = "\<lambda>zs a u. party_acc_ok invited_at expires zs a"])
      (auto simp: party_acc_ok_def [of _ _ "[]"] intro: resolve_party_step)
  then show ?thesis by simp
qed

lemma keeps_resolve_party [keeps_intros]: "frame R \<Longrightarrow> keeps R (resolve_party E k ik t x p acc)"
  unfolding resolve_party_def
  by (cases acc; cases p) (auto simp: Let_def intro!: keeps_intros)

lemma resolve_party_db: "resolve_party E k ik t x p acc w = (r, w') \<Longrightarrow> db w' = db w"
  using keepsD [OF keeps_resolve_party [OF frame_same [of db]]] by simp

text \<open>
  What a party of the request becomes, given the tables \<open>d\<close>: its wallet, the wallet linked to its address, or an
  invitation that carries the blind index and the ciphertext of the address and a random token. \<open>entry\<close> pairs the slot
  with the invitation.
\<close>

definition invitation_for ::
    "env \<Rightarrow> byte list \<Rightarrow> byte list \<Rightarrow> int \<Rightarrow> int \<Rightarrow> string \<Rightarrow> invitation_insert_row \<Rightarrow> bool" where
  "invitation_for E key idx_key invited_at expires email i \<longleftrightarrow>
     ii_email_index i = hmac_index E email idx_key \<and>
     aes_gcm_encrypt (lib E) key (ii_email_nonce i) (as_bytes email) = Some (ii_email_enc i) \<and>
     (\<exists>k. ii_token i = hex_encode (lib E) (random_bytes (orc E) k 32)) \<and>
     ii_email_hint i = email_hint email \<and> ii_invited_at i = invited_at \<and> ii_expires_at i = expires"

definition party_becomes ::
    "env \<Rightarrow> byte list \<Rightarrow> byte list \<Rightarrow> int \<Rightarrow> int \<Rightarrow> database \<Rightarrow> party_input \<Rightarrow> party_slot \<times> invitation_insert_row option \<Rightarrow> bool" where
  "party_becomes E key idx_key invited_at expires d p entry \<longleftrightarrow>
     (case (case p of PartyPubkey pk \<Rightarrow> Some pk | PartyEmail email \<Rightarrow> wallet_of_email (hmac_index E email idx_key) d) of
        Some pk \<Rightarrow> entry = (\<lparr>slot_pubkey = Some pk, slot_invite_id = None\<rparr>, None)
      | None \<Rightarrow> (\<exists>email i. p = PartyEmail email \<and> invitation_for E key idx_key invited_at expires email i \<and>
          entry = (\<lparr>slot_pubkey = None, slot_invite_id = Some (ii_id i)\<rparr>, Some i)))"

lemma resolve_party_becomes:
  assumes "resolve_party E key idx_key invited_at expires p (b, slots, invs) w = (Inr (b', slots', invs'), w')"
  shows "\<exists>s io. party_becomes E key idx_key invited_at expires (db w) p (s, io) \<and>
    slots' = slots @ [s] \<and> invs' = invs @ (case io of None \<Rightarrow> [] | Some i \<Rightarrow> [i])"
proof (cases p)
  case (PartyPubkey pk)
  with assms show ?thesis
    by (intro exI [of _ "\<lparr>slot_pubkey = Some pk, slot_invite_id = None\<rparr>"] exI [of _ None])
      (auto simp: resolve_party_def party_becomes_def act_simps)
next
  case (PartyEmail email)
  show ?thesis
  proof (cases "wallet_of_email (hmac_index E email idx_key) (db w)")
    case None
    with assms PartyEmail obtain u enc no tok k where
      enc: "aes_gcm_encrypt (lib E) key no (as_bytes email) = Some enc" and tok: "tok = hex_encode (lib E) (random_bytes (orc E) k 32)"
      and r: "slots' = slots @ [\<lparr>slot_pubkey = None, slot_invite_id = Some u\<rparr>]"
        "invs' = invs @ [\<lparr>ii_id = u, ii_email_index = hmac_index E email idx_key, ii_email_enc = enc, ii_email_nonce = no,
          ii_token = tok, ii_email_hint = email_hint email, ii_invited_at = invited_at, ii_expires_at = expires\<rparr>]"
      by (auto simp: resolve_party_def encrypt_def act_simps Let_def)
    define i where "i = \<lparr>ii_id = u, ii_email_index = hmac_index E email idx_key, ii_email_enc = enc, ii_email_nonce = no,
      ii_token = tok, ii_email_hint = email_hint email, ii_invited_at = invited_at, ii_expires_at = expires\<rparr>"
    have "invitation_for E key idx_key invited_at expires email i" using enc tok by (auto simp: invitation_for_def i_def)
    moreover have "slots' = slots @ [\<lparr>slot_pubkey = None, slot_invite_id = Some (ii_id i)\<rparr>]" "invs' = invs @ [i]"
      using r by (simp_all add: i_def)
    ultimately show ?thesis using None PartyEmail
      by (intro exI [of _ "\<lparr>slot_pubkey = None, slot_invite_id = Some (ii_id i)\<rparr>"] exI [of _ "Some i"])
        (simp add: party_becomes_def)
  next
    case (Some pk)
    with assms PartyEmail show ?thesis
      by (intro exI [of _ "\<lparr>slot_pubkey = Some pk, slot_invite_id = None\<rparr>"] exI [of _ None])
        (auto simp: resolve_party_def party_becomes_def act_simps Let_def)
  qed
qed

lemma resolve_parties_become:
  assumes "fold_each ps (resolve_party E key idx_key invited_at expires) (True, [], []) w = (Inr (b, slots, invs), w')"
  shows "\<exists>entries. list_all2 (party_becomes E key idx_key invited_at expires (db w)) ps entries \<and>
    slots = map fst entries \<and> invs = List.map_filter snd entries"
proof -
  define I where "I = (\<lambda>zs (acc :: party_acc) (u :: world). db u = db w \<and> (\<exists>entries.
    list_all2 (party_becomes E key idx_key invited_at expires (db w)) zs entries \<and>
    fst (snd acc) = map fst entries \<and> snd (snd acc) = List.map_filter snd entries))"
  have turn: "I (zs @ [p]) acc' u'"
    if I: "I zs acc u" and run: "resolve_party E key idx_key invited_at expires p acc u = (Inr acc', u')" for zs p acc acc' u u'
  proof -
    obtain b slots invs b' slots' invs' where acc: "acc = (b, slots, invs)" "acc' = (b', slots', invs')" by (cases acc; cases acc') auto
    from I acc obtain entries where e: "db u = db w" "list_all2 (party_becomes E key idx_key invited_at expires (db w)) zs entries"
      "slots = map fst entries" "invs = List.map_filter snd entries" by (auto simp: I_def)
    from resolve_party_becomes [OF run [unfolded acc]] obtain s io where
      s: "party_becomes E key idx_key invited_at expires (db w) p (s, io)" "slots' = slots @ [s]"
        "invs' = invs @ (case io of None \<Rightarrow> [] | Some i \<Rightarrow> [i])" using e(1) by auto
    have "db u' = db w" using resolve_party_db [OF run] e(1) by simp
    with e s show ?thesis unfolding I_def acc
      by (intro conjI exI [of _ "entries @ [(s, io)]"]) (auto intro: list_all2_appendI split: option.splits)
  qed
  have start: "I [] (True, [], []) w" by (simp add: I_def)
  have "I ([] @ ps) (b, slots, invs) w'"
    by (rule fold_each_invariant [OF assms, where I = I]) (rule start, erule turn, assumption)
  then show ?thesis by (auto simp: I_def)
qed

lemma keeps_submit_at_once [keeps_intros]: "frame R \<Longrightarrow> keeps R (submit_at_once E pk req slots)"
  unfolding submit_at_once_def by (intro keeps_intros)

section \<open>Preservation\<close>

lemma draft_inv_insert_draft:
  assumes "serde_law (lib E)" and "slots_to_value (lib E) slots = Some v" and "\<forall>s \<in> set slots. slot_wf s"
    and "insert_draft pk payload v t g d = Some (x, d')" and "draft_inv E d"
  shows "draft_inv E d'"
proof -
  have "slots_from_value (lib E) v = Some slots" using assms(1,2) by (auto simp: serde_law_def)
  then have "draft_ok E (new_draft_row g pk payload v t)"
    using assms(3) by (simp add: draft_ok_def new_draft_row_def)
  with assms(4,5) show ?thesis
    by (auto simp: insert_draft_def draft_inv_def new_draft_row_def split: if_splits)
qed

lemma draft_inv_insert_invitation:
  assumes "insert_invitation r d = Some (x, d')" and "inv_status r = ''pending''" and "draft_inv E d"
  shows "draft_inv E d'"
  using assms by (auto simp: insert_invitation_def draft_inv_def split: if_splits)

lemma keeps_draft_inv_store_draft:
  assumes law: "serde_law (lib E)" and wf: "\<forall>s \<in> set slots. slot_wf s"
  shows "keeps (db_frame (draft_inv E)) (store_draft E pk req slots invs)"
proof -
  have insert: "keeps (db_frame (draft_inv E)) (bindE (sql E InternalError (insert_draft pk payload v))
      (\<lambda>draft_id. thenE (for_each invs (\<lambda>i. sql E InternalError (\<lambda>t _.
          insert_invitation (invitation_of draft_id t i)))) (ret (f draft_id))))"
    if "slots_to_value (lib E) slots = Some v" for payload v and f :: "uuid \<Rightarrow> create_agreement_response"
    by (intro keeps_intros keeps_db_frame_sql)
      (auto intro: draft_inv_insert_draft [OF law that wf] draft_inv_insert_invitation
        simp: invitation_of_def new_invitation_row_def)
  show ?thesis
    unfolding store_draft_def
    by (intro keeps_bindE_post frame_transp frame_db_frame keeps_ok_or frame_reflp insert)
      (simp add: act_simps)
qed

text \<open>Every way \<open>create_agreement\<close> can end, given what its branches keep.\<close>

lemma keeps_create_agreement:
  assumes R: "frame R"
    and store: "\<And>slots invs. \<forall>s \<in> set slots. slot_wf s \<Longrightarrow> keeps R (store_draft E (aww_pubkey auth) req slots invs)"
  shows "keeps R (create_agreement E auth req)"
proof -
  note T = frame_transp [OF R]
  have loop: "keeps R (bindE (fold_each (cr_parties req) (resolve_party E key idx t x) (True, [], []))
      (\<lambda>(all_resolved, slots, invs).
        if all_resolved \<and> is_free then submit_at_once E (aww_pubkey auth) req slots
        else store_draft E (aww_pubkey auth) req slots invs))" for key idx t x is_free
  proof (rule keeps_bindE_post [OF T])
    show "keeps R (fold_each (cr_parties req) (resolve_party E key idx t x) (True, [], []))"
      using R by (intro keeps_intros)
    fix acc w w'
    assume "fold_each (cr_parties req) (resolve_party E key idx t x) (True, [], []) w = (Inr acc, w')"
    from resolve_parties [OF this]
    show "keeps R (case acc of (all_resolved, slots, invs) \<Rightarrow>
        if all_resolved \<and> is_free then submit_at_once E (aww_pubkey auth) req slots
        else store_draft E (aww_pubkey auth) req slots invs)"
      using R by (cases acc) (auto simp: party_acc_ok_def intro!: keeps_intros store)
  qed
  show ?thesis
    unfolding create_agreement_def Let_def by (intro keeps_intros loop R)
qed

lemma keeps_draft_inv_create_agreement:
  "serde_law (lib E) \<Longrightarrow> keeps (db_frame (draft_inv E)) (create_agreement E auth req)"
  by (intro keeps_create_agreement frame_db_frame keeps_draft_inv_store_draft)

text \<open>A property that does not look at drafts and invitations is kept.\<close>

lemma keeps_create_agreement_other:
  assumes "\<And>d q. P (d\<lparr>agreement_drafts := q\<rparr>) = P d" and "\<And>d q. P (d\<lparr>party_invitations := q\<rparr>) = P d"
  shows "keeps (db_frame P) (create_agreement E auth req)"
  by (intro keeps_create_agreement frame_db_frame, unfold store_draft_def)
    (intro keeps_intros keeps_db_frame_sql;
      auto simp: insert_draft_def insert_invitation_def assms split: if_splits)

lemma keeps_fetch_agreement [keeps_intros]: "frame R \<Longrightarrow> keeps R (fetch_agreement E pda err)"
  unfolding fetch_agreement_def by (intro keeps_intros)

lemma keeps_chain_handlers [keeps_intros]:
  assumes "frame R"
  shows "keeps R (sign_agreement E auth pda m)" "keeps R (cancel_agreement E auth pda)"
    "keeps R (vote_revoke E auth pda)" "keeps R (retract_revoke_vote E auth pda)"
    "keeps R (get_agreement E pda)" "keeps R (list_agreements E au q)"
  unfolding sign_agreement_def cancel_agreement_def vote_revoke_def retract_revoke_vote_def
    get_agreement_def list_agreements_def
  using assms by (intro keeps_intros; assumption)+

section \<open>What the handlers do\<close>

lemma insert_invitations:
  assumes "for_each invs (\<lambda>i. sql E InternalError (\<lambda>t _. insert_invitation (invitation_of did t i))) w = (Inr (), w')"
  shows "\<exists>news. db w' = (db w)\<lparr>party_invitations := party_invitations (db w) @ news\<rparr> \<and>
    list_all2 (\<lambda>i r. \<exists>t. r = invitation_of did t i) invs news"
proof -
  define I where "I = (\<lambda>zs (u :: world). \<exists>news. db u = (db w)\<lparr>party_invitations := party_invitations (db w) @ news\<rparr> \<and>
    list_all2 (\<lambda>i r. \<exists>t. r = invitation_of did t i) zs news)"
  have start: "I [] w" unfolding I_def by (intro exI [of _ "[]"]) simp
  have turn: "I (zs @ [x]) u'"
    if I: "I zs u" and run: "sql E InternalError (\<lambda>t _. insert_invitation (invitation_of did t x)) u = (Inr (), u')"
    for zs x u u'
  proof -
    from I obtain news where d: "db u = (db w)\<lparr>party_invitations := party_invitations (db w) @ news\<rparr>"
      and l: "list_all2 (\<lambda>i r. \<exists>t. r = invitation_of did t i) zs news" by (auto simp: I_def)
    have "list_all2 (\<lambda>i r. \<exists>t. r = invitation_of did t i) (zs @ [x])
        (news @ [invitation_of did (clock (orc E) (tick u)) x])"
      using l by (auto intro: list_all2_appendI)
    with run d show ?thesis unfolding I_def
      by (intro exI [of _ "news @ [invitation_of did (clock (orc E) (tick u)) x]"])
        (auto simp: act_simps insert_invitation_def split: if_splits)
  qed
  have "I ([] @ invs) w'" using assms start turn by (rule for_each_invariant)
  then show ?thesis by (simp add: I_def)
qed

lemma map_filter_invitations:
  assumes "list_all2 (\<lambda>i r. \<exists>t. r = invitation_of did t i) invs news"
  shows "map inv_id news = map ii_id invs" "length news = length invs"
    "\<forall>r \<in> set news. inv_draft_id r = did \<and> inv_status r = ''pending'' \<and> inv_reminder_count r = 0"
  using assms
  by (induction rule: list_all2_induct) (auto simp: invitation_of_def new_invitation_row_def)

lemma store_draft_Inr:
  assumes "store_draft E pk req slots invs w = (Inr resp, w')"
  shows "\<exists>did payload sj t news. resp = AwaitingPartyWallets did
      (map (\<lambda>i. \<lparr>pi_email_hint = ii_email_hint i, pi_invited_at = ii_invited_at i\<rparr>) invs) \<and>
    payload_to_value (lib E) \<lparr>dp_title = cr_title req, dp_expires_in_secs = cr_expires_in_secs req,
      dp_parties = slots\<rparr> = Some payload \<and>
    slots_to_value (lib E) slots = Some sj \<and>
    db w' = (db w)\<lparr>agreement_drafts := agreement_drafts (db w) @ [new_draft_row did pk payload sj t],
      party_invitations := party_invitations (db w) @ news\<rparr> \<and>
    list_all2 (\<lambda>i r. \<exists>t. r = invitation_of did t i) invs news"
proof -
  from assms obtain payload sj did w1 w2 where
    p: "payload_to_value (lib E) \<lparr>dp_title = cr_title req, dp_expires_in_secs = cr_expires_in_secs req,
      dp_parties = slots\<rparr> = Some payload" and sj: "slots_to_value (lib E) slots = Some sj"
    and ins: "sql E InternalError (insert_draft pk payload sj) w = (Inr did, w1)"
    and loop: "for_each invs (\<lambda>i. sql E InternalError (\<lambda>t _. insert_invitation (invitation_of did t i))) w1 = (Inr (), w2)"
    and r: "resp = AwaitingPartyWallets did
      (map (\<lambda>i. \<lparr>pi_email_hint = ii_email_hint i, pi_invited_at = ii_invited_at i\<rparr>) invs)" "w' = w2"
    by (auto simp: store_draft_def act_simps)
  from ins obtain t where w1: "db w1 = (db w)\<lparr>agreement_drafts := agreement_drafts (db w) @ [new_draft_row did pk payload sj t]\<rparr>"
    by (auto simp: act_simps insert_draft_def split: if_splits)
  from insert_invitations [OF loop] p sj r w1 show ?thesis by fastforce
qed

lemma fetch_agreement_db: "fetch_agreement E pda err w = (r, w') \<Longrightarrow> w' = tick_on w"
  by (cases r) (auto simp: fetch_agreement_def act_simps)

lemma validate_invite_window_Inr_iff: "Inr () = validate_invite_window a b \<longleftrightarrow> a < b"
  by (auto simp: validate_invite_window_def)

text \<open>A successful run: the parties were resolved, and one of the two branches answered.\<close>

lemma create_agreement_Inr:
  assumes "create_agreement E auth req w = (Inr resp, w')"
  obtains key idx_key entries slots invs invited_at expires w1
  where "party_acc_ok invited_at expires (cr_parties req) (invs = [], slots, invs)"
    and "decode_hex_key_32 E (encryption_key (cfg E)) = Inr key"
    and "decode_hex_key_32 E (encryption_index_key (cfg E)) = Inr idx_key"
    and "list_all2 (party_becomes E key idx_key invited_at expires (db w)) (cr_parties req) entries"
    and "slots = map fst entries" and "invs = List.map_filter snd entries"
    and "\<exists>t. invited_at = max 0 t \<and> expires = wrap_i64 (invited_at + uint (invite_expiry_seconds (cfg E)))"
    and "invite_expiry_seconds (cfg E) < cr_expires_in_secs req" and "db w1 = db w"
    and "invs = [] \<and> free_used_of (aww_user_id auth) (db w) < as_i32 (platform_fee_free_tier (cfg E)) \<and>
           submit_at_once E (aww_pubkey auth) req slots w1 = (Inr resp, w') \<or>
         \<not> (invs = [] \<and> free_used_of (aww_user_id auth) (db w) < as_i32 (platform_fee_free_tier (cfg E))) \<and>
           store_draft E (aww_pubkey auth) req slots invs w1 = (Inr resp, w')"
proof -
  from assms obtain key idx_key window b slots invs w1 where
    win: "invite_expiry_seconds (cfg E) < cr_expires_in_secs req"
    and keys: "Inr key = decode_hex_key_32 E (encryption_key (cfg E))" "Inr idx_key = decode_hex_key_32 E (encryption_index_key (cfg E))"
    and window: "i64_try_from (invite_expiry_seconds (cfg E)) = Some window"
    and loop: "fold_each (cr_parties req) (resolve_party E key idx_key (max 0 (clock (orc E) (Suc (tick w))))
        (wrap_i64 (max 0 (clock (orc E) (Suc (tick w))) + window))) (True, [], []) (tick_on (tick_on w)) =
        (Inr (b, slots, invs), w1)"
    and rest: "(if b \<and> free_used_of (aww_user_id auth) (db w) < as_i32 (platform_fee_free_tier (cfg E))
        then submit_at_once E (aww_pubkey auth) req slots
        else store_draft E (aww_pubkey auth) req slots invs) w1 = (Inr resp, w')"
    by (auto simp: create_agreement_def validate_invite_window_Inr_iff act_simps Let_def)
  note ok = resolve_parties [OF loop]
  then have b: "b = (invs = [])" by (simp add: party_acc_ok_def)
  have "keeps (\<lambda>w w'. db w' = db w) (fold_each (cr_parties req) (resolve_party E key idx_key
      (max 0 (clock (orc E) (Suc (tick w)))) (wrap_i64 (max 0 (clock (orc E) (Suc (tick w))) + window)))
      (True, [], []))"
    by (intro keeps_intros frame_same) simp_all
  from keepsD [OF this loop] have "db w1 = db w" by simp
  moreover have "window = uint (invite_expiry_seconds (cfg E))" using window by (auto simp: i64_try_from_def split: if_splits)
  moreover obtain entries where "list_all2 (party_becomes E key idx_key (max 0 (clock (orc E) (Suc (tick w))))
      (wrap_i64 (max 0 (clock (orc E) (Suc (tick w))) + window)) (db w)) (cr_parties req) entries"
      "slots = map fst entries" "invs = List.map_filter snd entries"
    using resolve_parties_become [OF loop] by auto
  ultimately show ?thesis
    using that [OF ok [unfolded b] keys [symmetric], of entries] win rest by (auto simp: b split: if_splits)
qed

section \<open>Properties\<close>

text \<open>The rows of the invitations, each the one inserted for its entry.\<close>

lemma news_of_entries:
  assumes "list_all2 (\<lambda>i r. \<exists>t. r = invitation_of did t i) (List.map_filter snd entries) news"
  shows "\<exists>rows. length rows = length entries \<and> news = List.map_filter (\<lambda>r. r) rows \<and>
    list_all2 (\<lambda>entry row. rel_option (\<lambda>i r. \<exists>t. r = invitation_of did t i) (snd entry) row) entries rows"
  using assms
proof (induction entries arbitrary: news)
  case Nil
  then show ?case by simp
next
  case (Cons e entries)
  show ?case
  proof (cases "snd e")
    case None
    with Cons.prems Cons.IH [of news] obtain rows where "length rows = length entries" "news = List.map_filter (\<lambda>r. r) rows"
      "list_all2 (\<lambda>entry row. rel_option (\<lambda>i r. \<exists>t. r = invitation_of did t i) (snd entry) row) entries rows" by auto
    with None show ?thesis by (intro exI [of _ "None # rows"]) simp
  next
    case (Some i)
    with Cons.prems obtain r rest where n: "news = r # rest" "\<exists>t. r = invitation_of did t i"
      "list_all2 (\<lambda>i r. \<exists>t. r = invitation_of did t i) (List.map_filter snd entries) rest" by (auto simp: list_all2_Cons1)
    from Cons.IH [OF n(3)] obtain rows where "length rows = length entries" "rest = List.map_filter (\<lambda>r. r) rows"
      "list_all2 (\<lambda>entry row. rel_option (\<lambda>i r. \<exists>t. r = invitation_of did t i) (snd entry) row) entries rows" by auto
    with Some n show ?thesis by (intro exI [of _ "Some r # rows"]) simp
  qed
qed

text \<open>
  What a party of the request is stored as in draft \<open>did\<close>: a slot with its own wallet or the wallet linked to its
  address, and no invitation; or a slot that names the invitation stored with it, which is pending, belongs to the draft,
  carries the blind index and the ciphertext of the party's address and a token of 32 random bytes.
\<close>

definition stored_as ::
    "env \<Rightarrow> byte list \<Rightarrow> byte list \<Rightarrow> int \<Rightarrow> uuid \<Rightarrow> database \<Rightarrow> party_input \<Rightarrow> party_slot \<times> invitation_row option \<Rightarrow> bool" where
  "stored_as E key idx_key expires did d p entry \<longleftrightarrow>
     (case (case p of PartyPubkey pk \<Rightarrow> Some pk | PartyEmail email \<Rightarrow> wallet_of_email (hmac_index E email idx_key) d) of
        Some pk \<Rightarrow> entry = (\<lparr>slot_pubkey = Some pk, slot_invite_id = None\<rparr>, None)
      | None \<Rightarrow> (\<exists>email r. p = PartyEmail email \<and> entry = (\<lparr>slot_pubkey = None, slot_invite_id = Some (inv_id r)\<rparr>, Some r) \<and>
          inv_draft_id r = did \<and> inv_status r = ''pending'' \<and> inv_reminder_count r = 0 \<and> inv_expires_at r = expires \<and>
          inv_email_index r = hmac_index E email idx_key \<and>
          aes_gcm_encrypt (lib E) key (inv_email_nonce r) (as_bytes email) = Some (inv_email_enc r) \<and>
          (\<exists>k. inv_token r = hex_encode (lib E) (random_bytes (orc E) k 32))))"

lemma stored_as_becomes:
  assumes "party_becomes E key idx_key invited_at expires d p (s, io)" and "rel_option (\<lambda>i r. \<exists>t. r = invitation_of did t i) io ro"
  shows "stored_as E key idx_key expires did d p (s, ro)"
proof (cases io)
  case None
  with assms show ?thesis by (auto simp: party_becomes_def stored_as_def split: option.splits)
next
  case (Some i)
  with assms(2) obtain t where ro: "ro = Some (invitation_of did t i)" by (auto simp: option_rel_Some1)
  from assms(1) Some obtain email where "p = PartyEmail email" "wallet_of_email (hmac_index E email idx_key) d = None"
    "invitation_for E key idx_key invited_at expires email i" "s = \<lparr>slot_pubkey = None, slot_invite_id = Some (ii_id i)\<rparr>"
    by (auto simp: party_becomes_def split: option.splits party_input.splits)
  with ro show ?thesis
    by (auto simp: stored_as_def invitation_for_def invitation_of_def new_invitation_row_def)
qed

lemma stored_entries:
  assumes "list_all2 (party_becomes E key idx_key invited_at expires d) ps entries"
    and "list_all2 (\<lambda>entry row. rel_option (\<lambda>i r. \<exists>t. r = invitation_of did t i) (snd entry) row) entries rows"
  shows "list_all2 (stored_as E key idx_key expires did d) ps (zip (map fst entries) rows)"
  using assms
proof (induction ps arbitrary: entries rows)
  case (Cons p ps)
  then obtain s io entries' row rows' where e: "entries = (s, io) # entries'" "rows = row # rows'"
    by (auto simp: list_all2_Cons1)
  with Cons.prems Cons.IH [of entries' rows'] stored_as_becomes [of E key idx_key invited_at expires d p s io did row]
  show ?case by simp
qed simp

text \<open>The entries of the answer: a hint and the time for every party that was invited.\<close>

definition invited_of :: "int \<Rightarrow> party_input \<Rightarrow> party_slot \<Rightarrow> pending_invitation option" where
  "invited_of invited_at p s =
     (case (p, slot_pubkey s) of
        (PartyEmail email, None) \<Rightarrow> Some \<lparr>pi_email_hint = email_hint email, pi_invited_at = invited_at\<rparr>
      | _ \<Rightarrow> None)"

lemma invited_hints:
  assumes "list_all2 (party_becomes E key idx_key invited_at expires d) ps entries"
  shows "map (\<lambda>i. \<lparr>pi_email_hint = ii_email_hint i, pi_invited_at = ii_invited_at i\<rparr>) (List.map_filter snd entries) =
    List.map_filter (\<lambda>(p, s). invited_of invited_at p s) (zip ps (map fst entries))"
  using assms
  by (induction rule: list_all2_induct)
    (auto simp: party_becomes_def invited_of_def invitation_for_def split: option.splits party_input.splits)

text \<open>
  C13 (a stored draft matches the request). When \<open>create_agreement\<close> answers with a draft, exactly one
  draft has been added, owned by the caller, unpaid and waiting for wallets. Its slots stand for the parties of the
  request, one by one and in their order: a party given by its wallet, or by an address a wallet is linked to, has
  that wallet in its slot; any other party has a slot without a wallet that names an invitation, and the invitations
  added are exactly these, in that order, each pending, of that draft, with the blind index and the ciphertext of the
  party's own address, a token of 32 random bytes and the same deadline. The answer lists the masked addresses of the
  invited parties, and no other table has changed.
\<close>

theorem create_agreement_stores_draft:
  assumes "create_agreement E auth req w = (Inr (AwaitingPartyWallets did pend), w')"
  shows "\<exists>key idx_key invited_at slots rows payload sj t.
    decode_hex_key_32 E (encryption_key (cfg E)) = Inr key \<and> decode_hex_key_32 E (encryption_index_key (cfg E)) = Inr idx_key \<and>
    length slots = length (cr_parties req) \<and> length rows = length (cr_parties req) \<and>
    list_all2 (stored_as E key idx_key (wrap_i64 (invited_at + uint (invite_expiry_seconds (cfg E)))) did (db w))
      (cr_parties req) (zip slots rows) \<and>
    slots_to_value (lib E) slots = Some sj \<and>
    payload_to_value (lib E) \<lparr>dp_title = cr_title req, dp_expires_in_secs = cr_expires_in_secs req,
      dp_parties = slots\<rparr> = Some payload \<and>
    db w' = (db w)\<lparr>agreement_drafts := agreement_drafts (db w) @
        [new_draft_row did (aww_pubkey auth) payload sj t],
      party_invitations := party_invitations (db w) @ List.map_filter (\<lambda>r. r) rows\<rparr> \<and>
    pend = List.map_filter (\<lambda>(p, s). invited_of invited_at p s) (zip (cr_parties req) slots)"
proof -
  from assms obtain key idx_key entries slots invs invited_at expires w1
    where keys: "decode_hex_key_32 E (encryption_key (cfg E)) = Inr key" "decode_hex_key_32 E (encryption_index_key (cfg E)) = Inr idx_key"
      and en: "list_all2 (party_becomes E key idx_key invited_at expires (db w)) (cr_parties req) entries"
        "slots = map fst entries" "invs = List.map_filter snd entries"
      and ex: "expires = wrap_i64 (invited_at + uint (invite_expiry_seconds (cfg E)))"
      and w1: "db w1 = db w"
      and st: "store_draft E (aww_pubkey auth) req slots invs w1 = (Inr (AwaitingPartyWallets did pend), w')"
    by (rule create_agreement_Inr) (auto simp: submit_at_once_def act_simps Let_def)
  from store_draft_Inr [OF st] obtain payload sj t news where
    r: "pend = map (\<lambda>i. \<lparr>pi_email_hint = ii_email_hint i, pi_invited_at = ii_invited_at i\<rparr>) invs"
      "payload_to_value (lib E) \<lparr>dp_title = cr_title req, dp_expires_in_secs = cr_expires_in_secs req,
        dp_parties = slots\<rparr> = Some payload" "slots_to_value (lib E) slots = Some sj"
      "db w' = (db w)\<lparr>agreement_drafts := agreement_drafts (db w) @
        [new_draft_row did (aww_pubkey auth) payload sj t],
        party_invitations := party_invitations (db w) @ news\<rparr>"
    and l: "list_all2 (\<lambda>i r. \<exists>t. r = invitation_of did t i) invs news"
    by (auto simp: w1)
  from news_of_entries [OF l [unfolded en(3)]] obtain rows where rows: "length rows = length entries"
      "news = List.map_filter (\<lambda>r. r) rows"
      "list_all2 (\<lambda>entry row. rel_option (\<lambda>i r. \<exists>t. r = invitation_of did t i) (snd entry) row) entries rows" by blast
  have len: "length entries = length (cr_parties req)" using en(1) by (simp add: list_all2_lengthD)
  have "pend = List.map_filter (\<lambda>(p, s). invited_of invited_at p s) (zip (cr_parties req) slots)"
    using r(1) invited_hints [OF en(1)] en(2,3) by simp
  moreover have "list_all2 (stored_as E key idx_key (wrap_i64 (invited_at + uint (invite_expiry_seconds (cfg E)))) did (db w))
      (cr_parties req) (zip slots rows)"
    using stored_entries [OF en(1) rows(3)] en(2) ex by simp
  ultimately show ?thesis
    using keys r(2-4) rows(1,2) len en(2)
    by (intro exI [of _ key] exI [of _ idx_key] exI [of _ invited_at] exI [of _ slots] exI [of _ rows] exI [of _ payload]
        exI [of _ sj] exI [of _ t]) simp
qed

definition sample_caller :: auth_user_with_wallet where
  "sample_caller = \<lparr>aww_user_id = 7, aww_pubkey = ''alice''\<rparr>"

definition sample_request :: create_agreement_request where
  "sample_request = \<lparr>cr_title = ''T'', cr_parties = [PartyPubkey ''alice'', PartyEmail ''bob@x''],
     cr_expires_in_secs = 1000000\<rparr>"

lemma hex_parse_zeros: "hex_parse (replicate (2 * n) (CHR ''0'')) = Some (replicate n 0)"
  by (induction n) (simp_all add: hex_value_def)

lemma sample_key [simp]: "hex_parse (replicate 64 (CHR ''0'')) = Some (replicate 32 0)"
  using hex_parse_zeros [of 32] by simp

lemmas create_defs =
  create_agreement_def resolve_party_def store_draft_def submit_at_once_def insert_draft_def
  insert_invitation_def invitation_of_def new_invitation_row_def new_draft_row_def free_used_of_def wallet_of_email_def
  validate_invite_window_def encrypt_def hmac_index_def as_i32_def i64_try_from_def

theorem create_agreement_stores_draft_witness:
  "\<exists>did pend w' slots r. create_agreement sample_env sample_caller sample_request empty_world =
       (Inr (AwaitingPartyWallets did pend), w') \<and>
     slots = [\<lparr>slot_pubkey = Some ''alice'', slot_invite_id = None\<rparr>, \<lparr>slot_pubkey = None, slot_invite_id = Some (inv_id r)\<rparr>] \<and>
     map dr_party_slots (agreement_drafts (db w')) = [slots_value slots] \<and> party_invitations (db w') = [r] \<and>
     inv_email_enc r = as_bytes ''bob@x''"
proof -
  obtain did pend w' where run: "create_agreement sample_env sample_caller sample_request empty_world =
       (Inr (AwaitingPartyWallets did pend), w')"
    by (simp add: create_defs decode_hex_key_32_def sample_caller_def sample_request_def run_defs sample_defs)
  from create_agreement_stores_draft [OF run] obtain key idx_key x slots rows payload sj t where
    l: "list_all2 (stored_as sample_env key idx_key x did (db empty_world)) (cr_parties sample_request) (zip slots rows)"
    and len: "length slots = length (cr_parties sample_request)" "length rows = length (cr_parties sample_request)"
    and sj: "slots_to_value (lib sample_env) slots = Some sj"
    and d: "db w' = (db empty_world)\<lparr>agreement_drafts := agreement_drafts (db empty_world) @
        [new_draft_row did (aww_pubkey sample_caller) payload sj t],
      party_invitations := party_invitations (db empty_world) @ List.map_filter (\<lambda>r. r) rows\<rparr>" by blast
  from len obtain s1 s2 r1 r2 where two: "slots = [s1, s2]" "rows = [r1, r2]"
    by (auto simp: sample_request_def numeral_2_eq_2 length_Suc_conv)
  have no: "wallet_of_email i (db empty_world) = None" for i by (simp add: wallet_of_email_def empty_world_def empty_db_def)
  from l two no obtain r where "s1 = \<lparr>slot_pubkey = Some ''alice'', slot_invite_id = None\<rparr>" "r1 = None" "r2 = Some r"
      "s2 = \<lparr>slot_pubkey = None, slot_invite_id = Some (inv_id r)\<rparr>" "inv_email_enc r = as_bytes ''bob@x''"
    by (auto simp: sample_request_def stored_as_def sample_env_def sample_libs_def)
  with run two sj d show ?thesis
    by (intro exI [of _ did] exI [of _ pend] exI [of _ w'] exI [of _ slots] exI [of _ r])
      (simp add: new_draft_row_def empty_world_def empty_db_def sample_env_def sample_libs_def)
qed

text \<open>
  An immediate submission is complete and needs only the creator. When \<open>create_agreement\<close> answers
  with a transaction, the caller was within the free tier, no table has changed, and the answer is the
  encoding of a transaction with one \<open>create_agreement\<close> instruction, paid for and signed by the vault,
  that lacks no signature but the creator's; the address in the answer is the agreement account of
  that instruction.
\<close>

theorem create_agreement_submits:
  assumes "create_agreement E auth req w = (Inr (Submitted tx pda), w')"
  shows "db w' = db w \<and>
    free_used_of (aww_user_id auth) (db w) < as_i32 (platform_fee_free_tier (cfg E)) \<and>
    (\<exists>cr t ix. pubkey_from_str (lib E) (aww_pubkey auth) = Some cr \<and> tx_to_base64 (lib E) t = Some tx \<and>
       tx_instructions t = [ix] \<and> take 8 (ix_data ix) = CREATE_AGREEMENT_DISCRIMINATOR \<and>
       tx_payer t = vault_pubkey E \<and> missing_signers t = {cr} - {vault_pubkey E} \<and>
       pda = pubkey_to_string (lib E) (am_pubkey (ix_accounts ix ! 3)))"
proof -
  from assms obtain slots invs w1
    where w1: "db w1 = db w"
      and free: "free_used_of (aww_user_id auth) (db w) < as_i32 (platform_fee_free_tier (cfg E))"
      and sub: "submit_at_once E (aww_pubkey auth) req slots w1 = (Inr (Submitted tx pda), w')"
    by (rule create_agreement_Inr) (auto dest!: store_draft_Inr)
  from sub obtain cr args w2 where cr: "pubkey_from_str (lib E) (aww_pubkey auth) = Some cr"
    and b: "build_create_agreement_tx E args cr w2 = (Inr tx, w')" and w2: "db w2 = db w1"
    and pda: "pda = pubkey_to_string (lib E) (fst (derive_agreement_pda E cr (ca_agreement_id args)))"
    by (auto simp: submit_at_once_def act_simps Let_def)
  from build_create_agreement_tx_Inr [OF b] obtain t a where
    t: "tx_to_base64 (lib E) t = Some tx" "tx_instructions t = [create_agreement_ix E cr
      (fst (derive_agreement_pda E cr (ca_agreement_id args))) (fst (derive_collection_state_pda E cr)) a]"
      "tx_payer t = vault_pubkey E" "missing_signers t = {cr} - {vault_pubkey E}" "db w' = db w2"
    by auto
  have d: "take 8 (ix_data (create_agreement_ix E cr p c a)) = CREATE_AGREEMENT_DISCRIMINATOR" for p c
    by (simp add: create_agreement_ix_def CREATE_AGREEMENT_DISCRIMINATOR_def)
  have "pda = pubkey_to_string (lib E) (am_pubkey (ix_accounts (create_agreement_ix E cr
      (fst (derive_agreement_pda E cr (ca_agreement_id args))) (fst (derive_collection_state_pda E cr)) a) ! 3))"
    unfolding pda agreement_account ..
  with t d cr have "\<exists>cr t ix. pubkey_from_str (lib E) (aww_pubkey auth) = Some cr \<and>
      tx_to_base64 (lib E) t = Some tx \<and> tx_instructions t = [ix] \<and>
      take 8 (ix_data ix) = CREATE_AGREEMENT_DISCRIMINATOR \<and> tx_payer t = vault_pubkey E \<and>
      missing_signers t = {cr} - {vault_pubkey E} \<and>
      pda = pubkey_to_string (lib E) (am_pubkey (ix_accounts ix ! 3))" by blast
  with t(5) w1 w2 free show ?thesis by simp
qed

theorem create_agreement_submits_witness:
  "\<exists>tx pda w'. create_agreement sample_env sample_caller
       (sample_request\<lparr>cr_parties := [PartyPubkey ''alice'']\<rparr>) empty_world = (Inr (Submitted tx pda), w') \<and>
     db w' = db empty_world"
proof -
  obtain tx pda w' where run: "create_agreement sample_env sample_caller
       (sample_request\<lparr>cr_parties := [PartyPubkey ''alice'']\<rparr>) empty_world = (Inr (Submitted tx pda), w')"
    by (simp add: create_defs decode_hex_key_32_def sample_caller_def sample_request_def run_defs sample_defs
        build_create_agreement_tx_def calculate_vault_deposit_def
        build_create_agreement_instruction_def vault_signed_def get_latest_blockhash_def
        try_partial_sign_def encode_tx_def)
  with create_agreement_submits [OF run] show ?thesis by blast
qed

definition on_chain :: "env \<Rightarrow> string \<Rightarrow> world \<Rightarrow> agreement_state_wire \<Rightarrow> bool" where
  "on_chain E pda w ag \<longleftrightarrow> (\<exists>pk bs. pubkey_from_str (lib E) pda = Some pk \<and>
     rpc_account_data (orc E) (tick w) pk = Some bs \<and> 8 \<le> length bs \<and>
     borsh_agreement_state (lib E) (drop 8 bs) = Some ag)"

lemma fetch_agreement_Inr:
  "fetch_agreement E pk err w = (Inr ag, w') \<longleftrightarrow> w' = tick_on w \<and>
     (\<exists>bs. rpc_account_data (orc E) (tick w) pk = Some bs \<and> 8 \<le> length bs \<and>
       borsh_agreement_state (lib E) (drop 8 bs) = Some ag)"
  by (auto simp: fetch_agreement_def act_simps not_less)

lemma contains_pubkey_bytes_iff [simp]: "contains_pubkey_bytes ks k \<longleftrightarrow> k \<in> set ks"
  by (auto simp: contains_pubkey_bytes_def list_ex_iff)

text \<open>
  C14 (who may act on an agreement). A transaction to sign is built only for a party of the agreement
  on chain, one to cancel only for its creator, one to vote for revocation or to take a vote back
  only for a party; the agreement is the one stored at the requested address. The last missing
  signature requires a metadata URI.
\<close>

theorem chain_actions_authorised:
  "(sign_agreement E auth pda m w = (Inr r, w1) \<longrightarrow>
     (\<exists>ag k. on_chain E pda w ag \<and> pubkey_from_str (lib E) (aww_pubkey auth) = Some k \<and> k \<in> set (parties ag) \<and>
        (k \<notin> set (signed_by ag) \<and> length (parties ag) = Suc (length (signed_by ag)) \<longrightarrow> m \<noteq> None))) \<and>
   (cancel_agreement E auth pda w = (Inr j, w2) \<longrightarrow>
     (\<exists>ag. on_chain E pda w ag \<and> pubkey_from_str (lib E) (aww_pubkey auth) = Some (creator ag))) \<and>
   (vote_revoke E auth pda w = (Inr j, w3) \<longrightarrow>
     (\<exists>ag k. on_chain E pda w ag \<and> pubkey_from_str (lib E) (aww_pubkey auth) = Some k \<and> k \<in> set (parties ag))) \<and>
   (retract_revoke_vote E auth pda w = (Inr j, w4) \<longrightarrow>
     (\<exists>ag k. on_chain E pda w ag \<and> pubkey_from_str (lib E) (aww_pubkey auth) = Some k \<and> k \<in> set (parties ag)))"
proof -
  have 1: "\<exists>ag k. on_chain E pda w ag \<and> pubkey_from_str (lib E) (aww_pubkey auth) = Some k \<and> k \<in> set (parties ag) \<and>
        (k \<notin> set (signed_by ag) \<and> length (parties ag) = Suc (length (signed_by ag)) \<longrightarrow> m \<noteq> None)"
    if "sign_agreement E auth pda m w = (Inr r, w1)"
    using that
    by (auto simp: sign_agreement_def on_chain_def act_simps fetch_agreement_Inr is_final_signature_def)
  have 2: "\<exists>ag. on_chain E pda w ag \<and> pubkey_from_str (lib E) (aww_pubkey auth) = Some (creator ag)"
    if "cancel_agreement E auth pda w = (Inr j, w2)"
    using that by (auto simp: cancel_agreement_def on_chain_def act_simps fetch_agreement_Inr)
  have 3: "\<exists>ag k. on_chain E pda w ag \<and> pubkey_from_str (lib E) (aww_pubkey auth) = Some k \<and> k \<in> set (parties ag)"
    if "vote_revoke E auth pda w = (Inr j, w3)"
    using that by (auto simp: vote_revoke_def on_chain_def act_simps fetch_agreement_Inr)
  have 4: "\<exists>ag k. on_chain E pda w ag \<and> pubkey_from_str (lib E) (aww_pubkey auth) = Some k \<and> k \<in> set (parties ag)"
    if "retract_revoke_vote E auth pda w = (Inr j, w4)"
    using that by (auto simp: retract_revoke_vote_def on_chain_def act_simps fetch_agreement_Inr)
  from 1 2 3 4 show ?thesis by blast
qed

definition sample_agreement :: agreement_state_wire where
  "sample_agreement = \<lparr>creator = as_bytes ''alice'', agreement_id = replicate 16 1,
     content_hash = replicate 32 0, title = ''T'', storage_uri = ''ar://x'', storage_backend_of = Arweave,
     parties = [as_bytes ''alice'', as_bytes ''bob''], signed_by = [as_bytes ''bob''], signed_at = [5],
     status = AS_PendingSignatures, created_at = 1, expires_at = 2000, completed_at = None,
     revoked_at = None, nft_asset = None, collection = [], vault_funder = [1], revoke_votes = [],
     revoke_retract_counts = [], bump = 255\<rparr>"

definition sample_chain_env :: env where
  "sample_chain_env = sample_env
     \<lparr>orc := (orc sample_env)\<lparr>rpc_account_data := \<lambda>k p. Some (replicate 8 0)\<rparr>,
      lib := (lib sample_env)\<lparr>borsh_agreement_state := \<lambda>bs. Some sample_agreement\<rparr>\<rparr>"

theorem chain_actions_authorised_witness:
  "\<exists>r w1 ag. sign_agreement sample_chain_env sample_caller ''p'' (Some ''m'') empty_world = (Inr r, w1) \<and>
     on_chain sample_chain_env ''p'' empty_world ag \<and> as_bytes ''alice'' \<in> set (parties ag)"
proof -
  obtain r w1 where run:
    "sign_agreement sample_chain_env sample_caller ''p'' (Some ''m'') empty_world = (Inr r, w1)"
    by (simp add: sign_agreement_def fetch_agreement_def sample_chain_env_def sample_caller_def
        sample_agreement_def build_sign_agreement_tx_def get_latest_blockhash_def encode_tx_def
        contact_email_enc_def run_defs sample_defs)
  have "pubkey_from_str (lib sample_chain_env) (aww_pubkey sample_caller) = Some (as_bytes ''alice'')"
    by (simp add: sample_chain_env_def sample_caller_def sample_defs)
  with chain_actions_authorised [of sample_chain_env sample_caller "''p''" "Some ''m''" empty_world r w1] run
  show ?thesis by auto
qed

lemma uint_min_max_100: "1 \<le> min (max x 1) (100::u32)" "min (max x 1) (100::u32) \<le> 100"
  by (auto simp: min_def max_def word_le_nat_alt)

lemma sanitize_pagination_bounds:
  assumes "sanitize_pagination p l = (page, limit, sql_limit, sql_offset)"
  shows "1 \<le> page \<and> 1 \<le> limit \<and> limit \<le> 100 \<and> sql_limit = uint limit \<and> 0 \<le> sql_offset \<and> sql_offset < 2 ^ 32"
  using assms uint_min_max_100 unsigned_less [where ?'b = 32 and ?'a = int]
  by (auto simp: sanitize_pagination_def Let_def max_def)

lemma sanitize_pagination_page:
  assumes "1 \<le> unat l" and "unat l \<le> 100" and "Suc n * unat l < 2 ^ 32"
  shows "sanitize_pagination (Some (word_of_nat (Suc n))) (Some l) =
    (word_of_nat (Suc n), l, uint l, int (n * unat l))"
proof -
  have n: "Suc n < 2 ^ 32" using assms(1,3) by (metis One_nat_def le_less_trans mult.right_neutral mult_le_mono2)
  then have u: "unat (word_of_nat (Suc n) :: u32) = Suc n" by (simp add: unsigned_of_nat take_bit_nat_eq_self del: of_nat_Suc)
  have un: "unat (word_of_nat n :: u32) = n" using n by (simp add: unsigned_of_nat take_bit_nat_eq_self del: of_nat_Suc)
  have p: "max (word_of_nat (Suc n) :: u32) 1 = word_of_nat (Suc n)"
    using u by (simp add: max_def word_le_nat_alt)
  have nz: "(word_of_nat (Suc n) :: u32) \<noteq> 0" using u by (metis nat.distinct(1) unat_0)
  have m1: "(word_of_nat (Suc n) :: u32) - 1 = word_of_nat n" by simp
  have lim: "min (max l 1) 100 = l" using assms(1,2) by (auto simp: min_def max_def word_le_nat_alt word_unat_eq_iff)
  have prod: "n * unat l < 2 ^ 32" using assms(3) by simp
  have "saturating_mul (word_of_nat n) l = word_of_nat n * l"
    using prod un by (simp add: saturating_mul_def)
  moreover have "uint (word_of_nat n * l :: u32) = int (n * unat l)"
  proof -
    have "unat (word_of_nat n * l :: u32) = n * unat l"
      using prod un by (simp add: unat_mult_lem [THEN iffD1])
    then show ?thesis by (metis uint_nat)
  qed
  ultimately show ?thesis
    unfolding sanitize_pagination_def Let_def option.case p lim by (simp only: nz if_False m1)
qed

text \<open>
  Paging loses and repeats nothing. For every page size the endpoint accepts, the pages
  \<open>1\<close> to \<open>n\<close> of a listing, one after the other, are the first \<open>n\<close> times that many rows of the
  matching rows in descending order of creation, as long as the offsets fit in 32 bits.
\<close>

theorem pages_partition:
  assumes "1 \<le> unat l" and "unat l \<le> 100" and "n * unat l < 2 ^ 32"
  shows "concat (map (\<lambda>p. case sanitize_pagination (Some (word_of_nat p)) (Some l) of
      (page, limit, sql_limit, sql_offset) \<Rightarrow> list_query role pk f sql_limit sql_offset d) [1 ..< Suc n]) =
    take (n * unat l) (sort_key (\<lambda>r. - ap_created_at r)
      (filter (\<lambda>r. role_matches role pk r \<and> status_matches f r) (agreement_parties d)))"
proof -
  define S where "S = sort_key (\<lambda>r. - ap_created_at r)
      (filter (\<lambda>r. role_matches role pk r \<and> status_matches f r) (agreement_parties d))"
  define G where "G = (\<lambda>p. case sanitize_pagination (Some (word_of_nat p)) (Some l) of
      (page, limit, sql_limit, sql_offset) \<Rightarrow> list_query role pk f sql_limit sql_offset d)"
  have "concat (map G [1 ..< Suc n]) = take (n * unat l) S"
    using assms(3)
  proof (induction n)
    case (Suc n)
    have "nat (uint l) = unat l" by (rule nat_uint_eq)
    then have q: "list_query role pk f (uint l) (int (n * unat l)) d = take (unat l) (drop (n * unat l) S)"
      unfolding list_query_def S_def by (simp only: nat_int)
    have "G (Suc n) = take (unat l) (drop (n * unat l) S)"
      unfolding G_def sanitize_pagination_page [OF assms(1,2) Suc.prems] prod.case by (rule q)
    moreover have "concat (map G [1 ..< Suc n]) = take (n * unat l) S" using Suc by simp
    ultimately have "concat (map G [1 ..< Suc (Suc n)]) =
        take (n * unat l) S @ take (unat l) (drop (n * unat l) S)" by simp
    then show ?case unfolding mult_Suc add.commute [of "unat l"] take_add .
  qed simp
  then show ?thesis unfolding G_def S_def .
qed

theorem pages_partition_witness:
  "concat (map (\<lambda>p. case sanitize_pagination (Some (word_of_nat p)) (Some 20) of
      (page, limit, sql_limit, sql_offset) \<Rightarrow> list_query RoleAny ''alice'' None sql_limit sql_offset empty_db) [1 ..< Suc 3]) =
    take (3 * unat (20 :: u32)) (sort_key (\<lambda>r. - ap_created_at r)
      (filter (\<lambda>r. role_matches RoleAny ''alice'' r \<and> status_matches None r) (agreement_parties empty_db)))"
  by (rule pages_partition) simp_all

end
