(* ===== verification/Draft_Handlers.thy ===== *)
theory Draft_Handlers
  imports Agreement
begin

text \<open>
  \<^verbatim>\<open>src/src/handlers/draft.rs\<close>: reading, discarding, re-inviting for and submitting a draft.
  \<open>submit_draft\<close> passes the payment, readiness and e-mail gates in that order before it writes
  anything. The invariant of the tables is \<open>draft_inv\<close> of theory \<open>Agreement\<close>.
\<close>

section \<open>Helpers\<close>

definition ensure_creator_only :: "string option \<Rightarrow> string \<Rightarrow> app_error + unit" where
  "ensure_creator_only auth_pubkey draft_creator =
     (case auth_pubkey of
        Some pk \<Rightarrow> if pk = draft_creator then Inr () else Inl Unauthorized
      | None \<Rightarrow> Inl Unauthorized)"

definition evaluate_submit_gates :: "env \<Rightarrow> bool \<Rightarrow> string \<Rightarrow> bool \<Rightarrow> uuid \<Rightarrow> app_error + unit" where
  "evaluate_submit_gates E paid st has_email draft_id =
     (if \<not> paid then Inl (PaymentRequired (uuid_to_string (lib E) draft_id)
        (''/payment/initiate/'' @ uuid_to_string (lib E) draft_id))
      else if st \<noteq> ''ready_to_submit'' then Inl DraftNotReady
      else if \<not> has_email then Inl (EmailRequired
        ''Add an email address to receive agreement notifications.'' ''/user/contacts'')
      else Inr ())"

definition parse_storage_backend :: "string \<Rightarrow> app_error + storage_backend" where
  "parse_storage_backend raw =
     (let v = to_ascii_lowercase raw in
      if v = ''ipfs'' then Inr Ipfs else if v = ''arweave'' then Inr Arweave else Inl UploadFailed)"

definition validate_content_hash :: "string \<Rightarrow> app_error + unit" where
  "validate_content_hash h =
     (if length h \<noteq> 64 then Inl InvalidHash
      else if \<not> list_all is_ascii_hexdigit h then Inl InvalidHash
      else Inr ())"

section \<open>Queries\<close>

definition find_draft :: "uuid \<Rightarrow> database \<Rightarrow> draft_row option" where
  "find_draft draft_id d = select_first (\<lambda>r. dr_id r = draft_id) (agreement_drafts d)"

definition update_draft :: "uuid \<Rightarrow> (draft_row \<Rightarrow> draft_row) \<Rightarrow> database \<Rightarrow> database" where
  "update_draft draft_id f d =
     d\<lparr>agreement_drafts := upd_where (\<lambda>r. dr_id r = draft_id) f (agreement_drafts d)\<rparr>"

definition get_draft_row :: "env \<Rightarrow> uuid \<Rightarrow> (world, app_error, draft_row) act" where
  "get_draft_row E draft_id =
     bindE (sql_select E InternalError (find_draft draft_id)) (ok_or NotFound)"

definition has_contact_email :: "env \<Rightarrow> uuid \<Rightarrow> (world, app_error, bool) act" where
  "has_contact_email E user_id =
     sql_select E InternalError (\<lambda>d.
       \<exists>r \<in> set (user_contacts d). uc_user_id r = user_id \<and> uc_email_enc r \<noteq> None)"

definition ensure_creator_from_user_id :: "env \<Rightarrow> uuid \<Rightarrow> string \<Rightarrow> (world, app_error, unit) act" where
  "ensure_creator_from_user_id E user_id draft_creator =
     bindE (sql_select E InternalError (user_wallet user_id)) (\<lambda>auth_pubkey.
     liftE (ensure_creator_only auth_pubkey draft_creator))"

section \<open>Handlers\<close>

record get_draft_response =
  gd_id :: uuid
  gd_status :: string
  gd_party_slots :: json
  gd_pending :: "(uuid \<times> string \<times> int) list"

definition pending_of_draft :: "uuid \<Rightarrow> database \<Rightarrow> (uuid \<times> string \<times> int) list" where
  "pending_of_draft draft_id d =
     map (\<lambda>i. (inv_id i, inv_status i, inv_expires_at i))
       (sort_key inv_created_at
         (filter (\<lambda>i. inv_draft_id i = draft_id \<and> inv_status i = ''pending'') (party_invitations d)))"

definition get_draft :: "env \<Rightarrow> uuid \<Rightarrow> (world, app_error, get_draft_response) act" where
  "get_draft E draft_id =
     bindE (get_draft_row E draft_id) (\<lambda>r.
     bindE (sql_select E InternalError (pending_of_draft draft_id)) (\<lambda>pending.
     ret \<lparr>gd_id = dr_id r, gd_status = dr_status r, gd_party_slots = dr_party_slots r,
          gd_pending = pending\<rparr>))"

definition delete_draft :: "env \<Rightarrow> auth_user \<Rightarrow> uuid \<Rightarrow> (world, app_error, unit) act" where
  "delete_draft E auth draft_id =
     bindE (get_draft_row E draft_id) (\<lambda>r.
     thenE (ensure_creator_from_user_id E (au_user_id auth) (dr_creator_pubkey r))
     (sql_update E InternalError (update_draft draft_id (\<lambda>r. r\<lparr>dr_status := ''discarded''\<rparr>))))"

definition find_expired_invitation :: "uuid \<Rightarrow> uuid \<Rightarrow> database \<Rightarrow> invitation_row option" where
  "find_expired_invitation i draft_id d =
     select_first (\<lambda>r. inv_id r = i \<and> inv_draft_id r = draft_id \<and> inv_status r = ''expired'')
       (party_invitations d)"

definition reinvite_draft :: "env \<Rightarrow> auth_user \<Rightarrow> uuid \<Rightarrow> uuid \<Rightarrow> (world, app_error, uuid \<times> int) act" where
  "reinvite_draft E auth draft_id invitation_id =
     bindE (get_draft_row E draft_id) (\<lambda>r.
     thenE (ensure_creator_from_user_id E (au_user_id auth) (dr_creator_pubkey r))
     (bindE (sql_select E InternalError (find_expired_invitation invitation_id draft_id)) (\<lambda>row.
      bindE (ok_or NotFound row) (\<lambda>old.
      bindE (fill_bytes E 32) (\<lambda>token_bytes.
      bindE (current_unix_timestamp E) (\<lambda>t0.
      bindE (ok_or InternalError (i64_try_from (invite_expiry_seconds (cfg E)))) (\<lambda>window.
      let expires = wrap_i64 (t0 + window) in
      bindE (sql E InternalError (\<lambda>t g d.
        map_option (\<lambda>(_, d'). (g, d')) (insert_invitation
          (new_invitation_row g draft_id (inv_email_index old) (inv_email_enc old) (inv_email_nonce old)
            (hex_encode (lib E) token_bytes) expires t) d))) (\<lambda>new_id.
      ret (new_id, expires)))))))))"

record submit_draft_request =
  sd_content_hash :: string
  sd_storage_uri :: string
  sd_storage_backend :: string

definition decode_content_hash :: "env \<Rightarrow> string \<Rightarrow> app_error + byte list" where
  "decode_content_hash E h =
     (case hex_decode (lib E) h of
        None \<Rightarrow> Inl InvalidHash
      | Some bs \<Rightarrow> if length bs = 32 then Inr bs else Inl InvalidHash)"

text \<open>The validations and gates at the head of \<open>submit_draft\<close>.\<close>

definition submit_checks ::
    "env \<Rightarrow> auth_user_with_wallet \<Rightarrow> uuid \<Rightarrow> submit_draft_request \<Rightarrow> (world, app_error, storage_backend \<times> draft_row) act" where
  "submit_checks E auth draft_id req =
     thenE (liftE (validate_content_hash (sd_content_hash req)))
     (bindE (liftE (parse_storage_backend (sd_storage_backend req))) (\<lambda>backend.
      bindE (get_draft_row E draft_id) (\<lambda>draft.
      thenE (liftE (ensure_creator_only (Some (aww_pubkey auth)) (dr_creator_pubkey draft)))
      (bindE (has_contact_email E (aww_user_id auth)) (\<lambda>has_email.
      thenE (liftE (evaluate_submit_gates E (dr_paid draft) (dr_status draft) has_email draft_id))
      (ret (backend, draft)))))))"

text \<open>The parties of the transaction come from the payload stored at creation.\<close>

definition submit_args ::
    "env \<Rightarrow> submit_draft_request \<Rightarrow> storage_backend \<Rightarrow> draft_payload \<Rightarrow> byte list \<Rightarrow> byte list \<Rightarrow> create_agreement_args" where
  "submit_args E req backend payload aid_bytes hash =
     \<lparr>ca_agreement_id = aid_bytes, ca_title = dp_title payload, ca_content_hash = hash,
      ca_storage_uri = sd_storage_uri req, ca_storage_backend = backend,
      ca_parties = slot_keys E (dp_parties payload),
      ca_expires_in_secs = as_i64 (dp_expires_in_secs payload)\<rparr>"

definition store_uri :: "uuid \<Rightarrow> string \<Rightarrow> database \<Rightarrow> database" where
  "store_uri draft_id uri =
     update_draft draft_id (\<lambda>r. r\<lparr>dr_storage_uri := Some uri, dr_storage_uploaded := True\<rparr>)"

definition store_pda :: "uuid \<Rightarrow> string \<Rightarrow> byte list \<Rightarrow> database \<Rightarrow> database" where
  "store_pda draft_id pda aid_bytes =
     update_draft draft_id (\<lambda>r. r\<lparr>dr_agreement_pda := Some pda, dr_agreement_id := Some aid_bytes\<rparr>)"

definition confirmed_pda :: "uuid \<Rightarrow> string \<Rightarrow> database \<Rightarrow> database" where
  "confirmed_pda draft_id pda d = d\<lparr>agreement_payments :=
     upd_where (\<lambda>p. pay_draft_id p = draft_id \<and> pay_status p = ''confirmed'')
       (\<lambda>p. p\<lparr>pay_agreement_pda := Some pda\<rparr>) (agreement_payments d)\<rparr>"

definition submit_draft ::
    "env \<Rightarrow> auth_user_with_wallet \<Rightarrow> uuid \<Rightarrow> submit_draft_request \<Rightarrow> (world, app_error, string \<times> string) act" where
  "submit_draft E auth draft_id req =
     bindE (submit_checks E auth draft_id req) (\<lambda>(backend, draft).
     thenE (sql_update E InternalError (store_uri draft_id (sd_storage_uri req)))
     (bindE (ok_or InternalError (payload_from_value (lib E) (dr_draft_payload draft))) (\<lambda>payload.
      bindE (ok_or InternalError (pubkey_from_str (lib E) (aww_pubkey auth))) (\<lambda>creator_pubkey.
      bindE (new_v4 E) (\<lambda>aid.
      bindE (liftE (decode_content_hash E (sd_content_hash req))) (\<lambda>hash.
      bindE (build_create_agreement_tx E
        (submit_args E req backend payload (uuid_bytes (lib E) aid) hash) creator_pubkey) (\<lambda>tx.
      let pda = pubkey_to_string (lib E) (fst (derive_agreement_pda E creator_pubkey (uuid_bytes (lib E) aid))) in
      thenE (sql_update E InternalError (store_pda draft_id pda (uuid_bytes (lib E) aid)))
      (thenE (sql_update E InternalError (confirmed_pda draft_id pda))
      (ret (tx, pda))))))))))"

section \<open>What the handlers keep\<close>

lemma keeps_get_draft_row [keeps_intros]: "frame R \<Longrightarrow> keeps R (get_draft_row E i)"
  unfolding get_draft_row_def by (intro keeps_intros)

lemma keeps_has_contact_email [keeps_intros]: "frame R \<Longrightarrow> keeps R (has_contact_email E u)"
  unfolding has_contact_email_def by (intro keeps_intros)

lemma keeps_ensure_creator [keeps_intros]: "frame R \<Longrightarrow> keeps R (ensure_creator_from_user_id E u c)"
  unfolding ensure_creator_from_user_id_def by (intro keeps_intros)

lemma keeps_get_draft [keeps_intros]: "frame R \<Longrightarrow> keeps R (get_draft E i)"
  unfolding get_draft_def by (intro keeps_intros)

lemma draft_inv_update_draft:
  assumes "draft_inv E d" and "\<And>r. dr_id (f r) = dr_id r" and "\<And>r. draft_ok E r \<Longrightarrow> draft_ok E (f r)"
  shows "draft_inv E (update_draft i f d)"
proof -
  have "map dr_id (upd_where (\<lambda>r. dr_id r = i) f (agreement_drafts d)) = map dr_id (agreement_drafts d)"
    by (rule map_upd_where) (simp add: assms(2))
  then have ids: "map dr_id (agreement_drafts (update_draft i f d)) = map dr_id (agreement_drafts d)"
    by (simp add: update_draft_def)
  then have "dr_id ` set (agreement_drafts (update_draft i f d)) = dr_id ` set (agreement_drafts d)"
    by (metis list.set_map)
  with ids assms(1,3) show ?thesis
    by (auto simp: draft_inv_def update_draft_def in_upd_where)
qed

lemma draft_inv_payments [simp]: "draft_inv E (d\<lparr>agreement_payments := q\<rparr>) = draft_inv E d"
  by (simp add: draft_inv_def)

lemma keeps_draft_inv_draft_handlers:
  "keeps (db_frame (draft_inv E)) (delete_draft E auth i)"
  "keeps (db_frame (draft_inv E)) (reinvite_draft E auth i j)"
  "keeps (db_frame (draft_inv E)) (submit_draft E wauth i req)"
proof -
  show "keeps (db_frame (draft_inv E)) (delete_draft E auth i)"
    unfolding delete_draft_def
    by (intro keeps_intros keeps_db_frame_update draft_inv_update_draft) (auto simp: draft_ok_def)
  show "keeps (db_frame (draft_inv E)) (reinvite_draft E auth i j)"
    unfolding reinvite_draft_def
    by (intro keeps_intros keeps_db_frame_sql)
      (auto intro: draft_inv_insert_invitation simp: new_invitation_row_def)
  show "keeps (db_frame (draft_inv E)) (submit_draft E wauth i req)"
    unfolding submit_draft_def submit_checks_def store_uri_def store_pda_def confirmed_pda_def
    by (intro keeps_intros keeps_db_frame_update draft_inv_update_draft; simp add: draft_ok_def)
qed

text \<open>A property that does not look at drafts, invitations and payments is kept.\<close>

lemma keeps_draft_handlers_other:
  assumes "\<And>d q. P (d\<lparr>agreement_drafts := q\<rparr>) = P d" and "\<And>d q. P (d\<lparr>party_invitations := q\<rparr>) = P d"
    and "\<And>d q. P (d\<lparr>agreement_payments := q\<rparr>) = P d"
  shows "keeps (db_frame P) (delete_draft E auth i)"
    "keeps (db_frame P) (reinvite_draft E auth i j)"
    "keeps (db_frame P) (submit_draft E wauth i req)"
  unfolding delete_draft_def reinvite_draft_def submit_draft_def submit_checks_def store_uri_def
    store_pda_def confirmed_pda_def update_draft_def
  by (intro keeps_intros keeps_db_frame_update keeps_db_frame_sql;
      auto simp: assms insert_invitation_def split: if_splits)+

section \<open>Properties\<close>

lemma validate_content_hash_Inr_iff:
  "validate_content_hash h = Inr () \<longleftrightarrow> length h = 64 \<and> (\<forall>c \<in> set h. is_ascii_hexdigit c)"
  by (auto simp: validate_content_hash_def list_all_iff)

text \<open>After the check, decoding the hash cannot fail.\<close>

lemma decode_content_hash_valid:
  assumes "hex_law (lib E)" and "validate_content_hash h = Inr ()"
  shows "\<exists>bs. decode_content_hash E h = Inr bs \<and> length bs = 32"
  using hex_decode_64 [OF assms(1)] assms(2)
  by (fastforce simp: validate_content_hash_Inr_iff decode_content_hash_def)

lemma ensure_creator_only_Inr_iff: "Inr () = ensure_creator_only a c \<longleftrightarrow> a = Some c"
  by (auto simp: ensure_creator_only_def split: option.splits)

lemma evaluate_submit_gates_Inr_iff:
  "Inr () = evaluate_submit_gates E paid st he i \<longleftrightarrow> paid \<and> st = ''ready_to_submit'' \<and> he"
  by (auto simp: evaluate_submit_gates_def)

lemma get_draft_row_Inr_iff:
  "get_draft_row E i w = (Inr r, w') \<longleftrightarrow>
     \<not> db_fault (orc E) (tick w) \<and> find_draft i (db w) = Some r \<and> w' = tick_on w"
  by (auto simp: get_draft_row_def act_simps)

definition has_email_row :: "uuid \<Rightarrow> database \<Rightarrow> bool" where
  "has_email_row u d \<longleftrightarrow> (\<exists>r \<in> set (user_contacts d). uc_user_id r = u \<and> uc_email_enc r \<noteq> None)"

text \<open>
  C15 (a draft is submitted only when it may be). If \<open>submit_draft\<close> returns a transaction, the caller is
  the draft's creator and has an e-mail address on file, the draft is paid and ready, and the content
  hash has 64 hexadecimal digits; the transaction carries one \<open>create_agreement\<close> instruction for the
  returned address and lacks at most the creator's signature; and the tables have changed exactly in
  the storage location, the address and identifier of the draft, and the address of its confirmed payments.
\<close>

theorem submit_draft_sound:
  assumes "submit_draft E auth i req w = (Inr (tx, pda), w')"
  shows "\<exists>r cr t ix aid. find_draft i (db w) = Some r \<and> dr_creator_pubkey r = aww_pubkey auth \<and>
    dr_paid r \<and> dr_status r = ''ready_to_submit'' \<and> has_email_row (aww_user_id auth) (db w) \<and>
    length (sd_content_hash req) = 64 \<and> (\<forall>c \<in> set (sd_content_hash req). is_ascii_hexdigit c) \<and>
    pubkey_from_str (lib E) (aww_pubkey auth) = Some cr \<and> tx_to_base64 (lib E) t = Some tx \<and>
    tx_instructions t = [ix] \<and> take 8 (ix_data ix) = CREATE_AGREEMENT_DISCRIMINATOR \<and>
    missing_signers t \<subseteq> {cr} \<and> pda = pubkey_to_string (lib E) (am_pubkey (ix_accounts ix ! 3)) \<and>
    db w' = confirmed_pda i pda (store_pda i pda aid (store_uri i (sd_storage_uri req) (db w)))"
proof -
  from assms obtain backend r w0 where chk: "submit_checks E auth i req w = (Inr (backend, r), w0)"
    by (auto simp: submit_draft_def act_simps)
  then have row: "find_draft i (db w) = Some r" "dr_creator_pubkey r = aww_pubkey auth" "dr_paid r"
      "dr_status r = ''ready_to_submit''" "has_email_row (aww_user_id auth) (db w)" "db w0 = db w"
    and h: "Inr () = validate_content_hash (sd_content_hash req)"
    by (auto simp: submit_checks_def act_simps get_draft_row_Inr_iff has_contact_email_def
        ensure_creator_only_Inr_iff evaluate_submit_gates_Inr_iff has_email_row_def)
  from assms chk obtain cr payload aid hash w1 w2 where
    cr: "pubkey_from_str (lib E) (aww_pubkey auth) = Some cr"
    and b: "build_create_agreement_tx E (submit_args E req backend payload aid hash) cr w1 = (Inr tx, w2)"
    and w1: "db w1 = store_uri i (sd_storage_uri req) (db w0)"
    and pda: "pda = pubkey_to_string (lib E) (fst (derive_agreement_pda E cr aid))"
    and w': "db w' = confirmed_pda i pda (store_pda i pda aid (db w2))"
    by (auto simp: submit_draft_def act_simps Let_def)
  define args where "args = submit_args E req backend payload aid hash"
  have aid: "ca_agreement_id args = aid" by (simp add: args_def submit_args_def)
  note pda = pda [folded aid] and b = b [folded args_def] and w1 = w1 [unfolded row(6)]
  from build_create_agreement_tx_Inr [OF b] obtain t a where
    t: "tx_to_base64 (lib E) t = Some tx" "tx_instructions t = [create_agreement_ix E cr
      (fst (derive_agreement_pda E cr (ca_agreement_id args))) (fst (derive_collection_state_pda E cr)) a]"
      "missing_signers t = {cr} - {vault_pubkey E}" "db w2 = db w1"
    by auto
  let ?ix = "create_agreement_ix E cr
      (fst (derive_agreement_pda E cr (ca_agreement_id args))) (fst (derive_collection_state_pda E cr)) a"
  have "take 8 (ix_data ?ix) = CREATE_AGREEMENT_DISCRIMINATOR"
    by (simp add: create_agreement_ix_def CREATE_AGREEMENT_DISCRIMINATOR_def)
  moreover have "pda = pubkey_to_string (lib E) (am_pubkey (ix_accounts ?ix ! 3))"
    unfolding pda agreement_account ..
  moreover have "missing_signers t \<subseteq> {cr}" using t(3) by blast
  moreover have "length (sd_content_hash req) = 64 \<and> (\<forall>c \<in> set (sd_content_hash req). is_ascii_hexdigit c)"
    using h [symmetric] by (simp add: validate_content_hash_Inr_iff)
  ultimately show ?thesis using row(1-5) cr t(1,2) w' [unfolded t(4) w1] by blast
qed

text \<open>
  The gates of a submission, in order. For the creator of an existing draft and a well-formed
  request, when the database answers: without payment the answer is \<open>PaymentRequired\<close>, else without
  readiness \<open>DraftNotReady\<close>, else without an e-mail address \<open>EmailRequired\<close>; in each case no table changes.
\<close>

theorem submit_draft_refused:
  assumes "\<And>k. \<not> db_fault (orc E) k" and "validate_content_hash (sd_content_hash req) = Inr ()"
    and "parse_storage_backend (sd_storage_backend req) = Inr backend"
    and "find_draft i (db w) = Some r" and "dr_creator_pubkey r = aww_pubkey auth"
    and "\<not> (dr_paid r \<and> dr_status r = ''ready_to_submit'' \<and> has_email_row (aww_user_id auth) (db w))"
  shows "\<exists>e w'. submit_draft E auth i req w = (Inl e, w') \<and> db w' = db w \<and>
    e = (if \<not> dr_paid r then PaymentRequired (uuid_to_string (lib E) i) (''/payment/initiate/'' @ uuid_to_string (lib E) i)
         else if dr_status r \<noteq> ''ready_to_submit'' then DraftNotReady
         else EmailRequired ''Add an email address to receive agreement notifications.'' ''/user/contacts'')"
  using assms
  by (simp add: submit_draft_def submit_checks_def run_defs get_draft_row_def has_contact_email_def has_email_row_def
      ensure_creator_only_def evaluate_submit_gates_def)

definition sample_draft_world :: "bool \<Rightarrow> string \<Rightarrow> world" where
  "sample_draft_world paid st = empty_world\<lparr>db := empty_db
     \<lparr>agreement_drafts := [(new_draft_row 1 ''alice'' (payload_value \<lparr>dp_title = ''T'',
          dp_expires_in_secs = 1000000, dp_parties = []\<rparr>) (slots_value []) 0)\<lparr>dr_paid := paid, dr_status := st\<rparr>],
      user_contacts := [\<lparr>uc_user_id = 7, uc_email_enc = Some [], uc_email_nonce = None, uc_email_index = None,
        uc_phone_enc = None, uc_phone_nonce = None, uc_push_token_enc = None, uc_push_token_nonce = None,
        uc_updated_at = 0\<rparr>]\<rparr>\<rparr>"

definition sample_submit :: submit_draft_request where
  "sample_submit = \<lparr>sd_content_hash = replicate 64 (CHR ''0''), sd_storage_uri = ''ipfs://x'',
     sd_storage_backend = ''IPFS''\<rparr>"

lemma sample_backend: "parse_storage_backend ''IPFS'' = Inr Ipfs"
  by code_simp

lemma sample_hash: "validate_content_hash (replicate 64 (CHR ''0'')) = Inr ()"
  by (simp add: validate_content_hash_Inr_iff is_ascii_hexdigit_def)

lemmas build_create_defs =
  build_create_agreement_tx_def calculate_vault_deposit_def build_create_agreement_instruction_def
  vault_signed_def get_latest_blockhash_def try_partial_sign_def encode_tx_def

theorem submit_draft_sound_witness:
  "\<exists>tx pda w'. submit_draft sample_env sample_caller 1 sample_submit
       (sample_draft_world True ''ready_to_submit'') = (Inr (tx, pda), w') \<and>
     (\<exists>r. find_draft 1 (db (sample_draft_world True ''ready_to_submit'')) = Some r \<and> dr_paid r)"
proof -
  obtain tx pda w' where run: "submit_draft sample_env sample_caller 1 sample_submit
       (sample_draft_world True ''ready_to_submit'') = (Inr (tx, pda), w')"
    by (simp add: submit_draft_def submit_checks_def get_draft_row_def has_contact_email_def find_draft_def
        ensure_creator_only_def evaluate_submit_gates_def decode_content_hash_def sample_submit_def
        sample_hash sample_backend sample_draft_world_def sample_caller_def new_draft_row_def
        payload_of_payload_value build_create_defs run_defs sample_defs)
  from submit_draft_sound [OF run] run show ?thesis by blast
qed

theorem submit_draft_refused_witness:
  "\<exists>w'. submit_draft sample_env sample_caller 1 sample_submit
       (sample_draft_world True ''awaiting_party_wallets'') = (Inl DraftNotReady, w')"
proof -
  have "\<exists>r. find_draft 1 (db (sample_draft_world True ''awaiting_party_wallets'')) = Some r \<and>
     dr_creator_pubkey r = aww_pubkey sample_caller \<and> dr_paid r \<and> dr_status r = ''awaiting_party_wallets''"
    by (simp add: find_draft_def sample_draft_world_def new_draft_row_def sample_caller_def sample_defs)
  then obtain r where "find_draft 1 (db (sample_draft_world True ''awaiting_party_wallets'')) = Some r"
     "dr_creator_pubkey r = aww_pubkey sample_caller" "dr_paid r" "dr_status r = ''awaiting_party_wallets''" by blast
  with submit_draft_refused [of sample_env sample_submit Ipfs 1 "sample_draft_world True ''awaiting_party_wallets''" r sample_caller]
  show ?thesis by (auto simp: sample_hash sample_backend sample_submit_def sample_defs)
qed

end
