(* ===== verification/Notification.thy ===== *)
theory Notification
  imports Ws_Handler
begin

text \<open>
  \<^verbatim>\<open>src/src/services/notification.rs\<close>: the notification queue, the events and their e-mails. The
  queue is the table \<open>notification_queue\<close>. A job's \<open>agreement_pda\<close> is declared \<open>NOT NULL\<close> in the
  schema, so enqueueing without one is rejected. \<open>mark_sent\<close> names a column \<open>sent_at\<close> that
  \<^verbatim>\<open>src/migrations\<close> does not create; the model checks the columns a statement names.
\<close>

section \<open>Events\<close>

datatype notification_event =
    NE_AgreementCreated | NE_Signed | NE_Completed | NE_Cancelled | NE_Expired | NE_RevokeVote
  | NE_Revoked | NE_DraftReadyToSubmit | NE_InvitationExpired | NE_InvitationReminder
  | NE_PaymentConfirmed | NE_RefundInitiated | NE_RefundCompleted

text \<open>The dash the subjects contain, in UTF-8.\<close>

definition em_dash :: string where
  "em_dash = utf8_of [226, 128, 148]"

fun as_str :: "notification_event \<Rightarrow> string" where
  \<open>as_str NE_AgreementCreated = ''AgreementCreated''\<close>
| \<open>as_str NE_Signed = ''Signed''\<close>
| \<open>as_str NE_Completed = ''Completed''\<close>
| \<open>as_str NE_Cancelled = ''Cancelled''\<close>
| \<open>as_str NE_Expired = ''Expired''\<close>
| \<open>as_str NE_RevokeVote = ''RevokeVote''\<close>
| \<open>as_str NE_Revoked = ''Revoked''\<close>
| \<open>as_str NE_DraftReadyToSubmit = ''DraftReadyToSubmit''\<close>
| \<open>as_str NE_InvitationExpired = ''InvitationExpired''\<close>
| \<open>as_str NE_InvitationReminder = ''InvitationReminder''\<close>
| \<open>as_str NE_PaymentConfirmed = ''PaymentConfirmed''\<close>
| \<open>as_str NE_RefundInitiated = ''RefundInitiated''\<close>
| \<open>as_str NE_RefundCompleted = ''RefundCompleted''\<close>

fun subject :: "notification_event \<Rightarrow> string" where
  \<open>subject NE_AgreementCreated = ''You've been invited to sign an agreement''\<close>
| \<open>subject NE_Signed = ''Agreement partially signed''\<close>
| \<open>subject NE_Completed = ''Agreement fully signed '' @ em_dash @ '' credential minted''\<close>
| \<open>subject NE_Cancelled = ''Agreement cancelled''\<close>
| \<open>subject NE_Expired = ''Agreement expired unsigned''\<close>
| \<open>subject NE_RevokeVote = ''A party voted to revoke the credential''\<close>
| \<open>subject NE_Revoked = ''Credential revoked by unanimous consent''\<close>
| \<open>subject NE_DraftReadyToSubmit = ''All parties have joined '' @ em_dash @ '' your agreement is ready to submit''\<close>
| \<open>subject NE_InvitationExpired = ''A party hasn't responded to your agreement invitation''\<close>
| \<open>subject NE_InvitationReminder = ''Reminder: you've been invited to sign an agreement''\<close>
| \<open>subject NE_PaymentConfirmed = ''Payment confirmed '' @ em_dash @ '' your agreement is ready to submit''\<close>
| \<open>subject NE_RefundInitiated = ''Your refund is being processed''\<close>
| \<open>subject NE_RefundCompleted = ''Your refund has been sent to your wallet''\<close>

fun email_main_content :: "notification_event \<Rightarrow> string \<Rightarrow> string" where
  \<open>email_main_content NE_AgreementCreated pda_display = ''<p>You've been invited to sign an agreement.</p>
            <p>Agreement ID: <code>'' @ pda_display @ ''</code></p>
            <p><a href="https://app.pactum.app/agreement/'' @ pda_display @ ''" style="background:#4F46E5;color:white;padding:12px 24px;text-decoration:none;border-radius:6px;">View Agreement</a></p>''\<close>
| \<open>email_main_content NE_Signed pda_display = ''<p>A party has signed the agreement.</p>
            <p>Agreement ID: <code>'' @ pda_display @ ''</code></p>''\<close>
| \<open>email_main_content NE_Completed pda_display = ''<p>Congratulations! The agreement has been fully signed and the credential has been minted.</p>
            <p>Agreement ID: <code>'' @ pda_display @ ''</code></p>
            <p><a href="https://app.pactum.app/agreement/'' @ pda_display @ ''" style="background:#10B981;color:white;padding:12px 24px;text-decoration:none;border-radius:6px;">View Credential</a></p>''\<close>
| \<open>email_main_content NE_Cancelled pda_display = ''<p>The agreement has been cancelled.</p>
            <p>Agreement ID: <code>'' @ pda_display @ ''</code></p>''\<close>
| \<open>email_main_content NE_Expired pda_display = ''<p>The agreement has expired unsigned.</p>
            <p>Agreement ID: <code>'' @ pda_display @ ''</code></p>''\<close>
| \<open>email_main_content NE_RevokeVote pda_display = ''<p>A party has voted to revoke the credential.</p>
            <p>Agreement ID: <code>'' @ pda_display @ ''</code></p>''\<close>
| \<open>email_main_content NE_Revoked pda_display = ''<p>The credential has been revoked by unanimous consent.</p>
            <p>Agreement ID: <code>'' @ pda_display @ ''</code></p>''\<close>
| \<open>email_main_content NE_DraftReadyToSubmit pda_display = ''<p>All parties have joined your agreement draft and it's ready to submit.</p>
            <p><a href="https://app.pactum.app/drafts" style="background:#4F46E5;color:white;padding:12px 24px;text-decoration:none;border-radius:6px;">Submit Agreement</a></p>''\<close>
| \<open>email_main_content NE_InvitationExpired pda_display = ''<p>A party hasn't responded to your agreement invitation within the time limit.</p>
            <p>You can resend the invitation or discard the draft.</p>''\<close>
| \<open>email_main_content NE_InvitationReminder pda_display = ''<p>This is a reminder that you've been invited to sign an agreement.</p>
            <p>Agreement ID: <code>'' @ pda_display @ ''</code></p>''\<close>
| \<open>email_main_content NE_PaymentConfirmed pda_display = ''<p>Your payment has been confirmed and your agreement is ready to submit.</p>
            <p><a href="https://app.pactum.app/drafts" style="background:#4F46E5;color:white;padding:12px 24px;text-decoration:none;border-radius:6px;">Submit Agreement</a></p>''\<close>
| \<open>email_main_content NE_RefundInitiated pda_display = ''<p>Your refund is being processed.</p>
            <p>This may take a few minutes to complete.</p>''\<close>
| \<open>email_main_content NE_RefundCompleted pda_display = ''<p>Your refund has been sent to your wallet.</p>
            <p>The funds should appear in your account shortly.</p>''\<close>

definition render_email_html :: "notification_event \<Rightarrow> string option \<Rightarrow> string" where
  \<open>render_email_html event agreement_pda =
     (let pda_display = (case agreement_pda of None \<Rightarrow> ''N/A'' | Some p \<Rightarrow> p);
          main_content = email_main_content event pda_display in
      ''<!DOCTYPE html>
<html>
<head>
    <meta charset="UTF-8">
    <meta name="viewport" content="width=device-width, initial-scale=1.0">
    <title>'' @ subject event @ ''</title>
</head>
<body style="font-family:system-ui,-apple-system,sans-serif;line-height:1.5;color:#1f2937;max-width:600px;margin:0 auto;padding:24px;">
    <div style="background:#f9fafb;padding:24px;border-radius:8px;margin-bottom:24px;">
        <h1 style="color:#111827;margin:0 0 16px 0;font-size:24px;">Pactum</h1>
        <h2 style="color:#4b5563;margin:0;font-size:18px;font-weight:normal;">'' @ subject event @ ''</h2>
    </div>
    <div style="background:white;padding:24px;border-radius:8px;border:1px solid #e5e7eb;">
        '' @ main_content @ ''
    </div>
    <div style="margin-top:24px;padding-top:24px;border-top:1px solid #e5e7eb;color:#6b7280;font-size:14px;">
        <p>This is an automated message from Pactum. Please do not reply to this email.</p>
    </div>
</body>
</html>'')\<close>

fun email_text_content :: "notification_event \<Rightarrow> string \<Rightarrow> string" where
  \<open>email_text_content NE_AgreementCreated pda_display = ''You've been invited to sign an agreement.

Agreement ID: '' @ pda_display @ ''

View at: https://app.pactum.app/agreement/'' @ pda_display\<close>
| \<open>email_text_content NE_Signed pda_display = ''A party has signed the agreement.

Agreement ID: '' @ pda_display\<close>
| \<open>email_text_content NE_Completed pda_display = ''Congratulations! The agreement has been fully signed and the credential has been minted.

Agreement ID: '' @ pda_display @ ''

View at: https://app.pactum.app/agreement/'' @ pda_display\<close>
| \<open>email_text_content NE_Cancelled pda_display = ''The agreement has been cancelled.

Agreement ID: '' @ pda_display\<close>
| \<open>email_text_content NE_Expired pda_display = ''The agreement has expired unsigned.

Agreement ID: '' @ pda_display\<close>
| \<open>email_text_content NE_RevokeVote pda_display = ''A party has voted to revoke the credential.

Agreement ID: '' @ pda_display\<close>
| \<open>email_text_content NE_Revoked pda_display = ''The credential has been revoked by unanimous consent.

Agreement ID: '' @ pda_display\<close>
| \<open>email_text_content NE_DraftReadyToSubmit pda_display = ''All parties have joined your agreement draft and it's ready to submit.

Submit at: https://app.pactum.app/drafts''\<close>
| \<open>email_text_content NE_InvitationExpired pda_display = ''A party hasn't responded to your agreement invitation within the time limit.

You can resend the invitation or discard the draft.''\<close>
| \<open>email_text_content NE_InvitationReminder pda_display = ''This is a reminder that you've been invited to sign an agreement.

Agreement ID: '' @ pda_display\<close>
| \<open>email_text_content NE_PaymentConfirmed pda_display = ''Your payment has been confirmed and your agreement is ready to submit.

Submit at: https://app.pactum.app/drafts''\<close>
| \<open>email_text_content NE_RefundInitiated pda_display = ''Your refund is being processed.

This may take a few minutes to complete.''\<close>
| \<open>email_text_content NE_RefundCompleted pda_display = ''Your refund has been sent to your wallet.

The funds should appear in your account shortly.''\<close>

definition render_email_text :: "notification_event \<Rightarrow> string option \<Rightarrow> string" where
  "render_email_text event agreement_pda =
     email_text_content event (case agreement_pda of None \<Rightarrow> ''N/A'' | Some p \<Rightarrow> p)"

section \<open>The queue\<close>

definition insert_job :: "string \<Rightarrow> string option \<Rightarrow> string \<Rightarrow> int \<Rightarrow> int \<Rightarrow> uuid \<Rightarrow> database \<Rightarrow> (unit \<times> database) option" where
  "insert_job event_type agreement_pda recipient sched t g d =
     (case agreement_pda of
        None \<Rightarrow> None
      | Some pda \<Rightarrow>
          if g \<in> set (map nq_id (notification_queue d)) then None
          else Some ((), d\<lparr>notification_queue := notification_queue d @
            [\<lparr>nq_id = g, nq_event_type = event_type, nq_agreement_pda = pda,
              nq_recipient_pubkey = recipient, nq_status = ''pending'', nq_attempts = 0,
              nq_created_at = t, nq_scheduled_at = sched\<rparr>]\<rparr>))"

definition enqueue_notification ::
    "env \<Rightarrow> string \<Rightarrow> string option \<Rightarrow> string \<Rightarrow> (world, app_error, unit) act" where
  "enqueue_notification E event_type agreement_pda recipient =
     bindE (now E) (\<lambda>t.
     sql E InternalError (insert_job event_type agreement_pda recipient t))"

definition due :: "int \<Rightarrow> notification_row \<Rightarrow> bool" where
  "due t r \<longleftrightarrow> nq_status r = ''pending'' \<and> nq_scheduled_at r \<le> t"

text \<open>Rows scheduled at the same second come in scan order.\<close>

definition pending_jobs :: "int \<Rightarrow> nat \<Rightarrow> database \<Rightarrow> notification_row list" where
  "pending_jobs t n d = take n (sort_key nq_scheduled_at (filter (due t) (notification_queue d)))"

definition fetch_pending_jobs :: "env \<Rightarrow> nat \<Rightarrow> (world, app_error, notification_row list) act" where
  "fetch_pending_jobs E n = bindE (now E) (\<lambda>t. sql_select E InternalError (pending_jobs t n))"

definition mark_sent :: "env \<Rightarrow> uuid \<Rightarrow> (world, app_error, unit) act" where
  "mark_sent E jid =
     bindE (now E) (\<lambda>_.
     sql E InternalError (\<lambda>_ _ d.
       if names_columns [''status'', ''sent_at'', ''id''] notification_queue_columns
       then Some ((), d\<lparr>notification_queue :=
         upd_where (\<lambda>r. nq_id r = jid) (\<lambda>r. r\<lparr>nq_status := ''sent''\<rparr>) (notification_queue d)\<rparr>)
       else None))"

text \<open>\<open>attempts\<close> is a 32-bit column; the addition is rejected when it overflows.\<close>

definition bump_attempts :: "uuid \<Rightarrow> database \<Rightarrow> (unit \<times> database) option" where
  "bump_attempts jid d =
     (if \<exists>r \<in> set (notification_queue d). nq_id r = jid \<and> nq_attempts r + 1 > 2147483647 then None
      else Some ((), d\<lparr>notification_queue :=
        upd_where (\<lambda>r. nq_id r = jid) (\<lambda>r. r\<lparr>nq_attempts := nq_attempts r + 1\<rparr>) (notification_queue d)\<rparr>))"

definition increment_attempts :: "env \<Rightarrow> uuid \<Rightarrow> (world, app_error, unit) act" where
  "increment_attempts E jid = sql E InternalError (\<lambda>_ _. bump_attempts jid)"

definition build_ws_event :: "notification_row \<Rightarrow> ws_event" where
  "build_ws_event job =
     (let ty = nq_event_type job; pda = nq_agreement_pda job in
      if ty = ''AgreementCreated'' then AgreementCreated pda
      else if ty = ''Signed'' then AgreementSigned pda
      else if ty = ''Completed'' then AgreementCompleted pda
      else if ty = ''Cancelled'' then AgreementCancelled pda
      else if ty = ''Expired'' then AgreementExpired pda
      else if ty = ''RevokeVote'' then AgreementRevokeVote pda
      else if ty = ''Revoked'' then AgreementRevoked pda
      else if ty = ''DraftReadyToSubmit'' then DraftReady pda
      else if ty = ''InvitationExpired'' then DraftInvitationExpired pda
      else if ty = ''PaymentConfirmed'' then PaymentConfirmed pda
      else if ty = ''RefundCompleted'' then RefundCompleted pda
      else GenericNotification (''Event: '' @ ty))"

definition send_email ::
    "env \<Rightarrow> string \<Rightarrow> notification_event \<Rightarrow> string option \<Rightarrow> (world, app_error, unit) act" where
  "send_email E recipient_email event agreement_pda =
     bindE (ask (email_ok (orc E))) (\<lambda>ok.
     thenE (guardE ok InternalError)
     (emit (Email recipient_email (subject event) (render_email_html event agreement_pda)
       (render_email_text event agreement_pda))))"

section \<open>Lemmas\<close>

lemma mark_sent_rejected: "fst (mark_sent E jid w) = Inl InternalError"
  by (simp add: mark_sent_def run_defs names_columns_def notification_queue_columns_def)

lemma mark_sent_db: "db (snd (mark_sent E jid w)) = db w" "outbox (snd (mark_sent E jid w)) = outbox w"
  by (simp_all add: mark_sent_def run_defs names_columns_def notification_queue_columns_def)

lemma keeps_mark_sent [keeps_intros]: "frame R \<Longrightarrow> keeps R (mark_sent E jid)"
  unfolding mark_sent_def
  by (intro keeps_intros keeps_sql) (simp_all add: names_columns_def notification_queue_columns_def)

lemma keeps_fetch_pending_jobs [keeps_intros]: "frame R \<Longrightarrow> keeps R (fetch_pending_jobs E n)"
  unfolding fetch_pending_jobs_def by (intro keeps_intros)

lemma insert_job_Some_iff:
  "insert_job ev pda r s t g d = Some (x, d') \<longleftrightarrow>
     (\<exists>p. pda = Some p \<and> g \<notin> nq_id ` set (notification_queue d) \<and>
       d' = d\<lparr>notification_queue := notification_queue d @
            [\<lparr>nq_id = g, nq_event_type = ev, nq_agreement_pda = p, nq_recipient_pubkey = r,
              nq_status = ''pending'', nq_attempts = 0, nq_created_at = t, nq_scheduled_at = s\<rparr>]\<rparr>)"
  by (auto simp: insert_job_def split: option.splits)

text \<open>An action that leaves every table but the queue alone keeps what is said about the others.\<close>

lemma keeps_enqueue:
  assumes "\<And>d q. P (d\<lparr>notification_queue := q\<rparr>) = P d"
  shows "keeps (db_frame P) (enqueue_notification E ev pda r)"
  unfolding enqueue_notification_def
  by (intro keeps_intros keeps_db_frame_sql) (auto simp: insert_job_Some_iff assms)

lemma keeps_send_email [keeps_intros]:
  assumes "frame R" and "\<And>w x. R w (w\<lparr>outbox := outbox w @ x\<rparr>)"
  shows "keeps R (send_email E to ev pda)"
  unfolding send_email_def emit_def using assms
  by (intro keeps_intros) (auto intro!: keepsI simp: act_simps)

lemma pending_jobs_sound:
  assumes "r \<in> set (pending_jobs t n d)"
  shows "r \<in> set (notification_queue d) \<and> due t r"
  using in_set_takeD [OF assms [unfolded pending_jobs_def]] by simp

lemma length_pending_jobs: "length (pending_jobs t n d) \<le> n"
  by (simp add: pending_jobs_def)

lemma sorted_pending_jobs: "sorted (map nq_scheduled_at (pending_jobs t n d))"
  by (simp add: pending_jobs_def sorted_wrt_take flip: take_map)

text \<open>No due job is passed over for one scheduled later.\<close>

lemma pending_jobs_earliest:
  assumes "r \<in> set (notification_queue d)" and "due t r" and "r \<notin> set (pending_jobs t n d)"
    and "x \<in> set (pending_jobs t n d)"
  shows "nq_scheduled_at x \<le> nq_scheduled_at r"
proof -
  let ?s = "sort_key nq_scheduled_at (filter (due t) (notification_queue d))"
  have s: "?s = take n ?s @ drop n ?s" by simp
  have "r \<in> set ?s" using assms(1,2) by simp
  then have "r \<in> set (take n ?s) \<or> r \<in> set (drop n ?s)" using s by (metis Un_iff set_append)
  then have "r \<in> set (drop n ?s)" using assms(3) by (simp add: pending_jobs_def)
  moreover have "x \<in> set (take n ?s)" using assms(4) by (simp add: pending_jobs_def)
  moreover have "sorted (map nq_scheduled_at (take n ?s @ drop n ?s))"
    unfolding s [symmetric] by (rule sorted_sort_key)
  ultimately show ?thesis unfolding map_append sorted_append by simp
qed

end
