(* ===== verification/Lifecycle.thy ===== *)
theory Lifecycle
  imports Schema
begin

text \<open>
  Rows with a status column. \<open>evolves\<close> compares two states of the tables: every row of the first is
  still there under its key, and its status has moved only along the allowed transitions. The
  locale \<open>lifecycle\<close> is the contract of such a column: which statuses there are, which of them are
  final, and that no transition leaves a final one. The components interpret it for invitations and
  for payments.
\<close>

definition evolves ::
    "(database \<Rightarrow> 'r list) \<Rightarrow> ('r \<Rightarrow> 'k) \<Rightarrow> ('r \<Rightarrow> 's) \<Rightarrow> ('s \<Rightarrow> 's \<Rightarrow> bool) \<Rightarrow> database \<Rightarrow> database \<Rightarrow> bool" where
  "evolves rows key stat step d d' \<longleftrightarrow>
     (\<forall>r \<in> set (rows d). \<exists>r' \<in> set (rows d'). key r' = key r \<and> step\<^sup>*\<^sup>* (stat r) (stat r'))"

lemma evolves_refl: "evolves rows key stat step d d"
  by (auto simp: evolves_def)

lemma evolves_trans:
  assumes "evolves rows key stat step d d1" and "evolves rows key stat step d1 d2"
  shows "evolves rows key stat step d d2"
  unfolding evolves_def
proof
  fix r assume "r \<in> set (rows d)"
  with assms(1) obtain r1 where r1: "r1 \<in> set (rows d1)" "key r1 = key r" "step\<^sup>*\<^sup>* (stat r) (stat r1)"
    by (auto simp: evolves_def)
  with assms(2) obtain r2 where "r2 \<in> set (rows d2)" "key r2 = key r1" "step\<^sup>*\<^sup>* (stat r1) (stat r2)"
    by (auto simp: evolves_def)
  with r1 show "\<exists>r2 \<in> set (rows d2). key r2 = key r \<and> step\<^sup>*\<^sup>* (stat r) (stat r2)"
    by (metis rtranclp_trans)
qed

lemma evolves_same: "rows d' = rows d \<Longrightarrow> evolves rows key stat step d d'"
  by (auto simp: evolves_def)

lemma evolves_append: "rows d' = rows d @ new \<Longrightarrow> evolves rows key stat step d d'"
  by (auto simp: evolves_def)

text \<open>An \<open>UPDATE\<close> that keeps the key and makes an allowed transition on the rows it selects.\<close>

lemma evolves_update:
  assumes "rows d' = upd_where P f (rows d)"
    and "\<And>r. r \<in> set (rows d) \<Longrightarrow> P r \<Longrightarrow> key (f r) = key r \<and> step\<^sup>*\<^sup>* (stat r) (stat (f r))"
  shows "evolves rows key stat step d d'"
  using assms by (auto simp: evolves_def upd_where_def)

text \<open>From a fixed starting point, having evolved is a property of the tables that actions keep.\<close>

lemma keeps_evolves_sql:
  assumes "\<And>t g d x d'. stmt t g d = Some (x, d') \<Longrightarrow> evolves rows key stat step d d'"
  shows "keeps (db_frame (evolves rows key stat step d0)) (sql E e stmt)"
  by (rule keeps_db_frame_sql) (metis assms evolves_trans)

lemma keeps_evolves_update:
  assumes "\<And>d. evolves rows key stat step d (u d)"
  shows "keeps (db_frame (evolves rows key stat step d0)) (sql_update E e u)"
  by (rule keeps_db_frame_update) (metis assms evolves_trans)

locale lifecycle =
  fixes rows :: "database \<Rightarrow> 'r list" and key :: "'r \<Rightarrow> 'k" and stat :: "'r \<Rightarrow> 's"
    and step :: "'s \<Rightarrow> 's \<Rightarrow> bool" and final :: "'s \<Rightarrow> bool"
  assumes final_stuck: "final s \<Longrightarrow> \<not> step s s'"
begin

lemma final_steps: "step\<^sup>*\<^sup>* s s' \<Longrightarrow> final s \<Longrightarrow> s' = s"
  by (induction rule: converse_rtranclp_induct) (auto dest: final_stuck)

lemma final_stays:
  assumes "evolves rows key stat step d d'" and "distinct (map key (rows d'))"
    and "r \<in> set (rows d)" and "final (stat r)" and "r' \<in> set (rows d')" and "key r' = key r"
  shows "stat r' = stat r"
proof -
  from assms(1,3) obtain x where x: "x \<in> set (rows d')" "key x = key r" "step\<^sup>*\<^sup>* (stat r) (stat x)"
    by (auto simp: evolves_def)
  then have "x = r'" using assms(2,5,6) by (metis distinct_map inj_onD)
  with x assms(4) show ?thesis using final_steps by blast
qed

lemma never_back:
  assumes "evolves rows key stat step d d'" and "distinct (map key (rows d'))"
    and "r \<in> set (rows d)" and "r' \<in> set (rows d')" and "key r' = key r"
  shows "step\<^sup>*\<^sup>* (stat r) (stat r')"
proof -
  from assms(1,3) obtain x where x: "x \<in> set (rows d')" "key x = key r" "step\<^sup>*\<^sup>* (stat r) (stat x)"
    by (auto simp: evolves_def)
  then have "x = r'" using assms(2,4,5) by (metis distinct_map inj_onD)
  with x show ?thesis by simp
qed

end

end
