(* ===== verification/Invite.thy ===== *)
theory Invite
  imports Draft_Handlers Notification Lifecycle
begin

text \<open>
  \<^verbatim>\<open>src/src/handlers/invite.rs\<close>: reading an invitation, behind a per-address rate limit kept in
  memory, and accepting it in one database transaction that resolves the slot of the draft. The rate
  limiter is the map \<open>invite_limiter\<close> of the world.
\<close>

section \<open>Rate limit\<close>

definition RATE_LIMIT_MAX_REQUESTS :: nat where "RATE_LIMIT_MAX_REQUESTS = 5"
definition RATE_LIMIT_WINDOW_SECS :: int where "RATE_LIMIT_WINDOW_SECS = 60"

definition parse_ip_header :: "string option \<Rightarrow> string option" where
  "parse_ip_header v =
     (case v of
        None \<Rightarrow> None
      | Some raw \<Rightarrow> (let x = trim (split_next (CHR '','') raw) in if x = [] then None else Some x))"

definition extract_request_ip :: "headers \<Rightarrow> string" where
  "extract_request_ip hs =
     (case parse_ip_header (hs ''x-forwarded-for'') of
        Some ip \<Rightarrow> ip
      | None \<Rightarrow> (case parse_ip_header (hs ''x-real-ip'') of Some ip \<Rightarrow> ip | None \<Rightarrow> ''unknown''))"

text \<open>The entry is pruned whether or not the request is let through.\<close>

definition enforce_get_invite_rate_limit :: "headers \<Rightarrow> int \<Rightarrow> (world, app_error, unit) act" where
  "enforce_get_invite_rate_limit hs t =
     (let ip = extract_request_ip hs in
      bindE get_world (\<lambda>w.
      let entry = filter (\<lambda>ts. t - ts < RATE_LIMIT_WINDOW_SECS) (invite_limiter w ip) in
      if length entry \<ge> RATE_LIMIT_MAX_REQUESTS
      then thenE (modify (\<lambda>w. w\<lparr>invite_limiter := (invite_limiter w)(ip := entry)\<rparr>)) (fail RateLimited)
      else modify (\<lambda>w. w\<lparr>invite_limiter := (invite_limiter w)(ip := entry @ [t])\<rparr>)))"

section \<open>Slots\<close>

definition validate_pending_invitation :: "string \<Rightarrow> int \<Rightarrow> int \<Rightarrow> app_error + unit" where
  "validate_pending_invitation st expires t =
     (if st \<noteq> ''pending'' \<or> expires < t then Inl NotFound else Inr ())"

fun resolve_party_slot_pubkey :: "party_slot list \<Rightarrow> uuid \<Rightarrow> string \<Rightarrow> app_error + party_slot list" where
  "resolve_party_slot_pubkey [] invite_id pk = Inl NotFound"
| "resolve_party_slot_pubkey (s # ss) invite_id pk =
     (if slot_invite_id s = Some invite_id
      then Inr (s\<lparr>slot_pubkey := Some pk, slot_invite_id := None\<rparr> # ss)
      else case resolve_party_slot_pubkey ss invite_id pk of
        Inl e \<Rightarrow> Inl e | Inr ss' \<Rightarrow> Inr (s # ss'))"

definition all_pubkeys_resolved :: "party_slot list \<Rightarrow> bool" where
  "all_pubkeys_resolved slots \<longleftrightarrow> list_all (\<lambda>s. slot_pubkey s \<noteq> None) slots"

section \<open>Handlers\<close>

record get_invite_response =
  gi_agreement_title :: string
  gi_creator_display :: string
  gi_expires_at :: int
  gi_has_account :: bool
  gi_has_wallet :: bool

record invite_view_row =
  iv_status :: string
  iv_expires_at :: int
  iv_agreement_title :: "string option"
  iv_creator_display :: "string option"
  iv_has_account :: bool
  iv_has_wallet :: bool

definition find_invitation :: "string \<Rightarrow> database \<Rightarrow> invitation_row option" where
  "find_invitation tok d = select_first (\<lambda>r. inv_token r = tok) (party_invitations d)"

text \<open>The operator \<open>->>\<close> of PostgreSQL on a JSONB value.\<close>

definition json_field_text :: "env \<Rightarrow> string \<Rightarrow> json \<Rightarrow> string option" where
  "json_field_text E k v =
     (case json_get k v of
        None \<Rightarrow> None | Some JNull \<Rightarrow> None | Some (JStr s) \<Rightarrow> Some s | Some x \<Rightarrow> Some (json_text (lib E) x))"

definition creator_display_of :: "string \<Rightarrow> database \<Rightarrow> string option" where
  "creator_display_of pk d =
     Option.bind (wallet_owner pk d) (\<lambda>u.
       Option.bind (select_first (\<lambda>r. ua_id r = u) (user_accounts d)) ua_display_name)"

definition invite_view :: "env \<Rightarrow> string \<Rightarrow> database \<Rightarrow> invite_view_row option" where
  "invite_view E tok d =
     Option.bind (find_invitation tok d) (\<lambda>i.
     map_option (\<lambda>r.
       \<lparr>iv_status = inv_status i, iv_expires_at = inv_expires_at i,
        iv_agreement_title = json_field_text E ''title'' (dr_draft_payload r),
        iv_creator_display = creator_display_of (dr_creator_pubkey r) d,
        iv_has_account = (\<exists>c \<in> set (user_contacts d). uc_email_index c = Some (inv_email_index i)),
        iv_has_wallet = (\<exists>c \<in> set (user_contacts d). \<exists>a \<in> set (auth_wallet d).
          aw_user_id a = uc_user_id c \<and> uc_email_index c = Some (inv_email_index i))\<rparr>)
       (find_draft (inv_draft_id i) d))"

definition get_invite :: "env \<Rightarrow> headers \<Rightarrow> string \<Rightarrow> (world, app_error, get_invite_response) act" where
  "get_invite E hs tok =
     bindE (current_unix_timestamp E) (\<lambda>t0.
     thenE (enforce_get_invite_rate_limit hs t0)
     (bindE (sql_select E InternalError (invite_view E tok)) (\<lambda>r.
      bindE (ok_or NotFound r) (\<lambda>row.
      bindE (current_unix_timestamp E) (\<lambda>t1.
      thenE (liftE (validate_pending_invitation (iv_status row) (iv_expires_at row) t1))
      (ret \<lparr>gi_agreement_title = (case iv_agreement_title row of None \<Rightarrow> [] | Some s \<Rightarrow> s),
           gi_creator_display = (case iv_creator_display row of None \<Rightarrow> ''Unknown creator'' | Some s \<Rightarrow> s),
           gi_expires_at = iv_expires_at row, gi_has_account = iv_has_account row,
           gi_has_wallet = iv_has_wallet row\<rparr>))))))"

text \<open>\<open>begin\<close> and \<open>commit\<close> are statements that may fail.\<close>

definition tx_statement :: "env \<Rightarrow> (world, app_error, unit) act" where
  "tx_statement E = sql_select E InternalError (\<lambda>_. ())"

definition mark_accepted :: "uuid \<Rightarrow> database \<Rightarrow> database" where
  "mark_accepted i d = d\<lparr>party_invitations :=
     upd_where (\<lambda>r. inv_id r = i) (\<lambda>r. r\<lparr>inv_status := ''accepted''\<rparr>) (party_invitations d)\<rparr>"

definition store_slots :: "uuid \<Rightarrow> json \<Rightarrow> bool \<Rightarrow> int \<Rightarrow> database \<Rightarrow> database" where
  "store_slots draft_id v all_resolved t =
     update_draft draft_id (\<lambda>r.
       if all_resolved
       then r\<lparr>dr_party_slots := v, dr_status := ''ready_to_submit'', dr_ready_at := Some t\<rparr>
       else r\<lparr>dr_party_slots := v\<rparr>)"

text \<open>The database transaction of \<open>accept_invite\<close>, from \<open>begin\<close> to \<open>commit\<close>.\<close>

definition accept_tx :: "env \<Rightarrow> string \<Rightarrow> string \<Rightarrow> int \<Rightarrow> (world, app_error, invitation_row \<times> draft_row \<times> bool) act" where
  "accept_tx E pk tok t =
     transaction_of
     (thenE (tx_statement E)
     (bindE (sql_select E InternalError (find_invitation tok)) (\<lambda>row.
      bindE (ok_or NotFound row) (\<lambda>invite.
      thenE (liftE (validate_pending_invitation (inv_status invite) (inv_expires_at invite) t))
      (bindE (get_draft_row E (inv_draft_id invite)) (\<lambda>draft.
      bindE (ok_or InternalError (slots_from_value (lib E) (dr_party_slots draft))) (\<lambda>slots0.
      bindE (liftE (resolve_party_slot_pubkey slots0 (inv_id invite) pk)) (\<lambda>slots.
      let all_resolved = all_pubkeys_resolved slots in
      bindE (ok_or InternalError (slots_to_value (lib E) slots)) (\<lambda>slots_json.
      thenE (sql_update E InternalError (mark_accepted (inv_id invite)))
      (thenE (sql_update E InternalError (store_slots (inv_draft_id invite) slots_json all_resolved t))
      (thenE (tx_statement E)
      (ret (invite, draft, all_resolved)))))))))))))"

text \<open>What follows the commit when the last slot was resolved.\<close>

definition notify_draft_ready :: "env \<Rightarrow> uuid \<Rightarrow> string \<Rightarrow> (world, app_error, unit) act" where
  "notify_draft_ready E draft_id creator_pubkey =
     (let draft_id_string = uuid_to_string (lib E) draft_id in
      bindE (sql_select E InternalError (wallet_owner creator_pubkey)) (\<lambda>creator_user_id.
      case creator_user_id of
        None \<Rightarrow> ret ()
      | Some user_id \<Rightarrow>
          bindE (send_to_user E user_id (DraftReady draft_id_string)) (\<lambda>delivered.
          if delivered then ret ()
          else enqueue_notification E ''DraftReadyToSubmit'' (Some draft_id_string) creator_pubkey)))"

definition accept_invite :: "env \<Rightarrow> auth_user_with_wallet \<Rightarrow> string \<Rightarrow> (world, app_error, nat) act" where
  "accept_invite E auth tok =
     bindE (current_unix_timestamp E) (\<lambda>t.
     bindE (accept_tx E (aww_pubkey auth) tok t) (\<lambda>(invite, draft, all_resolved).
     thenE (if all_resolved then notify_draft_ready E (inv_draft_id invite) (dr_creator_pubkey draft) else ret ())
     (ret 204)))"

section \<open>Lemmas on slots\<close>

lemma resolve_slot_Inr:
  assumes "resolve_party_slot_pubkey ss i pk = Inr ss'"
  shows "\<exists>xs s ys. ss = xs @ s # ys \<and> slot_invite_id s = Some i \<and> i \<notin> set (List.map_filter slot_invite_id xs) \<and>
    ss' = xs @ s\<lparr>slot_pubkey := Some pk, slot_invite_id := None\<rparr> # ys"
  using assms
proof (induction ss arbitrary: ss')
  case (Cons a ss)
  show ?case
  proof (cases "slot_invite_id a = Some i")
    case True
    with Cons.prems have "ss' = a\<lparr>slot_pubkey := Some pk, slot_invite_id := None\<rparr> # ss" by simp
    with True show ?thesis by (intro exI [of _ "[]"] exI [of _ a] exI [of _ ss]) simp
  next
    case False
    with Cons.prems obtain ss1 where r: "resolve_party_slot_pubkey ss i pk = Inr ss1" and ss': "ss' = a # ss1"
      by (auto split: sum.splits)
    from Cons.IH [OF r] obtain xs s ys where "ss = xs @ s # ys" "slot_invite_id s = Some i"
      "i \<notin> set (List.map_filter slot_invite_id xs)"
      "ss1 = xs @ s\<lparr>slot_pubkey := Some pk, slot_invite_id := None\<rparr> # ys" by blast
    with False ss' show ?thesis
      by (intro exI [of _ "a # xs"] exI [of _ s] exI [of _ ys]) (auto split: option.splits)
  qed
qed simp

lemma resolve_slot_Inl_iff:
  "(\<exists>e. resolve_party_slot_pubkey ss i pk = Inl e) \<longleftrightarrow> i \<notin> set (List.map_filter slot_invite_id ss)"
  by (induction ss) (auto split: sum.splits option.splits)

lemma resolve_slot_error: "resolve_party_slot_pubkey ss i pk = Inl e \<Longrightarrow> e = NotFound"
  by (induction ss) (auto split: sum.splits if_splits)

lemma resolve_slot_wf:
  "resolve_party_slot_pubkey ss i pk = Inr ss' \<Longrightarrow> \<forall>s \<in> set ss. slot_wf s \<Longrightarrow> \<forall>s \<in> set ss'. slot_wf s"
  by (auto dest!: resolve_slot_Inr simp: slot_wf_def)

text \<open>Exactly one unresolved slot fewer.\<close>

lemma resolve_slot_count:
  assumes "resolve_party_slot_pubkey ss i pk = Inr ss'" and "\<forall>s \<in> set ss. slot_wf s"
  shows "Suc (length (filter (\<lambda>s. slot_pubkey s = None) ss')) = length (filter (\<lambda>s. slot_pubkey s = None) ss)"
  using resolve_slot_Inr [OF assms(1)] assms(2) by (auto simp: slot_wf_def)

lemma all_pubkeys_resolved_iff [simp]:
  "all_pubkeys_resolved ss \<longleftrightarrow> (\<forall>s \<in> set ss. slot_pubkey s \<noteq> None)"
  by (simp add: all_pubkeys_resolved_def list_all_iff)

section \<open>The transaction\<close>

lemma accept_tx_Inl: "accept_tx E pk tok t w = (Inl e, w') \<Longrightarrow> db w' = db w"
  by (auto simp: accept_tx_def act_simps)

lemma validate_pending_Inr_iff: "Inr () = validate_pending_invitation st x t \<longleftrightarrow> st = ''pending'' \<and> t \<le> x"
  by (auto simp: validate_pending_invitation_def)

lemma accept_tx_Inr:
  assumes "accept_tx E pk tok t w = (Inr (i, r, b), w')"
  shows "\<exists>slots slots' v. find_invitation tok (db w) = Some i \<and> inv_status i = ''pending'' \<and> t \<le> inv_expires_at i \<and>
    find_draft (inv_draft_id i) (db w) = Some r \<and>
    slots_from_value (lib E) (dr_party_slots r) = Some slots \<and>
    resolve_party_slot_pubkey slots (inv_id i) pk = Inr slots' \<and> slots_to_value (lib E) slots' = Some v \<and>
    b = (\<forall>s \<in> set slots'. slot_pubkey s \<noteq> None) \<and>
    db w' = store_slots (inv_draft_id i) v b t (mark_accepted (inv_id i) (db w)) \<and> outbox w' = outbox w"
  using assms
  by (force simp: accept_tx_def tx_statement_def act_simps Let_def get_draft_row_Inr_iff validate_pending_Inr_iff)

lemma draft_inv_mark_accepted: "draft_inv E d \<Longrightarrow> draft_inv E (mark_accepted i d)"
proof -
  let ?u = "upd_where (\<lambda>r. inv_id r = i) (\<lambda>r. r\<lparr>inv_status := ''accepted''\<rparr>) (party_invitations d)"
  have "map inv_id ?u = map inv_id (party_invitations d)"
    "map inv_token ?u = map inv_token (party_invitations d)" by (simp_all add: map_upd_where)
  then show "draft_inv E d \<Longrightarrow> draft_inv E (mark_accepted i d)"
    by (simp add: draft_inv_def mark_accepted_def ball_upd_where)
qed

lemma find_draft_Some: "find_draft i d = Some r \<Longrightarrow> r \<in> set (agreement_drafts d) \<and> dr_id r = i"
  unfolding find_draft_def by (auto dest: select_first_SomeD)

lemma find_draft_unique:
  assumes "draft_inv E d" and "find_draft i d = Some r" and "x \<in> set (agreement_drafts d)" and "dr_id x = i"
  shows "x = r"
  using assms find_draft_Some [OF assms(2)] inj_onD [of dr_id "set (agreement_drafts d)" x r]
  by (auto simp: draft_inv_def distinct_map)

lemma draft_inv_store_slots:
  assumes "draft_inv E d" and "slots_from_value (lib E) v = Some slots" and "\<forall>s \<in> set slots. slot_wf s"
    and "b = (\<forall>s \<in> set slots. slot_pubkey s \<noteq> None)"
    and "\<forall>r \<in> set (agreement_drafts d). dr_id r = i \<and> dr_status r = ''ready_to_submit'' \<longrightarrow> b"
  shows "draft_inv E (store_slots i v b t d)"
proof -
  let ?f = "\<lambda>r. if b then r\<lparr>dr_party_slots := v, dr_status := ''ready_to_submit'', dr_ready_at := Some t\<rparr>
      else r\<lparr>dr_party_slots := v\<rparr>"
  let ?u = "upd_where (\<lambda>r. dr_id r = i) ?f (agreement_drafts d)"
  have ids: "map dr_id ?u = map dr_id (agreement_drafts d)" by (rule map_upd_where) simp
  have "dr_id ` set ?u = dr_id ` set (agreement_drafts d)"
    using arg_cong [OF ids, of set] unfolding list.set_map .
  moreover have "\<forall>r \<in> set ?u. draft_ok E r"
    unfolding ball_upd_where
  proof (intro ballI)
    fix r assume r: "r \<in> set (agreement_drafts d)"
    then have ok: "draft_ok E r" using assms(1) by (simp add: draft_inv_def)
    have "draft_ok E (?f r)" if "dr_id r = i"
      using ok that r assms(2-5) by (auto simp: draft_ok_def)
    with ok show "if dr_id r = i then draft_ok E (?f r) else draft_ok E r" by simp
  qed
  ultimately show ?thesis
    using ids assms(1) by (simp add: draft_inv_def store_slots_def update_draft_def)
qed

lemma draft_inv_accept_tx:
  assumes law: "serde_law (lib E)" and inv: "draft_inv E (db w)" and run: "accept_tx E pk tok t w = (res, w')"
  shows "draft_inv E (db w')"
proof (cases res)
  case (Inl e)
  with run accept_tx_Inl inv show ?thesis by metis
next
  case (Inr x)
  obtain i r b where x: "x = (i, r, b)" by (cases x)
  from accept_tx_Inr [OF run [unfolded Inr x]] obtain slots slots' v where
    fd: "find_draft (inv_draft_id i) (db w) = Some r"
    and sl: "slots_from_value (lib E) (dr_party_slots r) = Some slots"
    and rs: "resolve_party_slot_pubkey slots (inv_id i) pk = Inr slots'"
    and v: "slots_to_value (lib E) slots' = Some v" and b: "b = (\<forall>s \<in> set slots'. slot_pubkey s \<noteq> None)"
    and w': "db w' = store_slots (inv_draft_id i) v b t (mark_accepted (inv_id i) (db w))" by blast
  have ok: "draft_ok E r" using inv find_draft_Some [OF fd] by (simp add: draft_inv_def)
  then have wf: "\<forall>s \<in> set slots. slot_wf s" using sl by (simp add: draft_ok_def)
  have ready: "b" if "dr_status r = ''ready_to_submit''"
  proof -
    have "\<forall>s \<in> set slots. slot_pubkey s \<noteq> None" using ok sl that by (simp add: draft_ok_def)
    then show ?thesis using resolve_slot_Inr [OF rs] b by auto
  qed
  have sv: "slots_from_value (lib E) v = Some slots'" using law v by (auto simp: serde_law_def)
  show ?thesis unfolding w'
  proof (rule draft_inv_store_slots [OF draft_inv_mark_accepted [OF inv] sv resolve_slot_wf [OF rs wf] b])
    show "\<forall>x \<in> set (agreement_drafts (mark_accepted (inv_id i) (db w))).
        dr_id x = inv_draft_id i \<and> dr_status x = ''ready_to_submit'' \<longrightarrow> b"
      using find_draft_unique [OF inv fd] ready by (auto simp: mark_accepted_def)
  qed
qed

lemma keeps_draft_inv_accept_tx:
  "serde_law (lib E) \<Longrightarrow> keeps (db_frame (draft_inv E)) (accept_tx E pk tok t)"
  by (rule keepsI) (auto simp: db_frame_def intro: draft_inv_accept_tx)

lemma keeps_accept_tx_other:
  assumes "\<And>d q. P (d\<lparr>agreement_drafts := q\<rparr>) = P d" and "\<And>d q. P (d\<lparr>party_invitations := q\<rparr>) = P d"
  shows "keeps (db_frame P) (accept_tx E pk tok t)"
proof (rule keepsI)
  fix w res w' assume run: "accept_tx E pk tok t w = (res, w')"
  show "db_frame P w w'"
  proof (cases res)
    case (Inl e)
    with run accept_tx_Inl show ?thesis by (metis db_frame_def)
  next
    case (Inr x)
    obtain i r b where x: "x = (i, r, b)" by (cases x)
    from accept_tx_Inr [OF run [unfolded Inr x]] show ?thesis
      by (auto simp: db_frame_def store_slots_def mark_accepted_def update_draft_def assms)
  qed
qed

lemma keeps_accept_invite:
  assumes "\<And>pk t. keeps (db_frame P) (accept_tx E pk tok t)" and "\<And>d q. P (d\<lparr>notification_queue := q\<rparr>) = P d"
  shows "keeps (db_frame P) (accept_invite E auth tok)"
  unfolding accept_invite_def notify_draft_ready_def
  by (intro keeps_intros assms(1) keeps_enqueue assms(2))

lemma draft_inv_queue [simp]: "draft_inv E (d\<lparr>notification_queue := q\<rparr>) = draft_inv E d"
  by (simp add: draft_inv_def)

lemma keeps_draft_inv_accept_invite:
  "serde_law (lib E) \<Longrightarrow> keeps (db_frame (draft_inv E)) (accept_invite E auth tok)"
  by (intro keeps_accept_invite keeps_draft_inv_accept_tx) simp_all

lemma keeps_get_invite:
  assumes "frame R" and "\<And>w q. R w (w\<lparr>invite_limiter := q\<rparr>)"
  shows "keeps R (get_invite E hs tok)"
proof -
  have "keeps R (enforce_get_invite_rate_limit hs t)" for t
    unfolding enforce_get_invite_rate_limit_def Let_def using assms
    by (intro keeps_intros) (auto intro!: keepsI simp: act_simps)
  then show ?thesis unfolding get_invite_def using assms(1) by (intro keeps_intros)
qed

section \<open>Life of an invitation\<close>

definition invitation_step :: "string \<Rightarrow> string \<Rightarrow> bool" where
  "invitation_step s s' \<longleftrightarrow> s = ''pending'' \<and> (s' = ''accepted'' \<or> s' = ''expired'')"

text \<open>The columns that identify an invitation for good.\<close>

definition inv_key :: "invitation_row \<Rightarrow> uuid \<times> string" where
  "inv_key r = (inv_id r, inv_token r)"

interpretation invitation: lifecycle party_invitations inv_key inv_status invitation_step
  "\<lambda>s. s = ''accepted'' \<or> s = ''expired''"
  by unfold_locales (auto simp: invitation_step_def)

abbreviation invitations_evolve :: "database \<Rightarrow> database \<Rightarrow> bool" where
  "invitations_evolve \<equiv> evolves party_invitations inv_key inv_status invitation_step"

lemma find_invitation_Some: "find_invitation tok d = Some i \<Longrightarrow> i \<in> set (party_invitations d) \<and> inv_token i = tok"
  unfolding find_invitation_def by (auto dest: select_first_SomeD)

lemma invitation_unique:
  assumes "draft_inv E d" and "i \<in> set (party_invitations d)" and "j \<in> set (party_invitations d)"
    and "inv_id i = inv_id j"
  shows "i = j"
  using assms by (auto simp: draft_inv_def distinct_map dest: inj_onD)

lemma invitations_evolve_accept:
  assumes "draft_inv E d" and "find_invitation tok d = Some i" and "inv_status i = ''pending''"
  shows "invitations_evolve d (store_slots did v b t (mark_accepted (inv_id i) d))"
proof (rule evolves_update)
  show "party_invitations (store_slots did v b t (mark_accepted (inv_id i) d)) =
      upd_where (\<lambda>r. inv_id r = inv_id i) (\<lambda>r. r\<lparr>inv_status := ''accepted''\<rparr>) (party_invitations d)"
    by (simp add: store_slots_def update_draft_def mark_accepted_def)
  fix r assume "r \<in> set (party_invitations d)" and "inv_id r = inv_id i"
  then have "r = i" using invitation_unique [OF assms(1)] find_invitation_Some [OF assms(2)] by blast
  then show "inv_key (r\<lparr>inv_status := ''accepted''\<rparr>) = inv_key r \<and>
      invitation_step\<^sup>*\<^sup>* (inv_status r) (inv_status (r\<lparr>inv_status := ''accepted''\<rparr>))"
    using assms(3) by (auto simp: invitation_step_def inv_key_def)
qed

lemma distinct_inv_key: "draft_inv E d \<Longrightarrow> distinct (map inv_key (party_invitations d))"
  by (auto simp: draft_inv_def distinct_map inj_on_def inv_key_def)

lemma find_invitation_token:
  assumes "draft_inv E d" and "i \<in> set (party_invitations d)"
  shows "find_invitation (inv_token i) d = Some i"
  using assms unfolding find_invitation_def by (intro select_first_unique) (auto simp: draft_inv_def)

lemma notify_draft_ready_db:
  assumes "notify_draft_ready E i pk w = (res, w')"
  shows "\<exists>q. db w' = (db w)\<lparr>notification_queue := notification_queue (db w) @ q\<rparr> \<and> length q \<le> 1"
proof -
  have no: "\<exists>q. db w = (db w)\<lparr>notification_queue := notification_queue (db w) @ q\<rparr> \<and> length q \<le> 1"
    by (intro exI [of _ "[]"]) simp
  have enq: "\<exists>q. db u' = (db u)\<lparr>notification_queue := notification_queue (db u) @ q\<rparr> \<and> length q \<le> 1"
    if "enqueue_notification E ev pda r u = (x, u')" for ev pda r u x u'
  proof (cases x)
    case Inl
    with that show ?thesis
      by (intro exI [of _ "[]"]) (auto simp: enqueue_notification_def act_simps)
  next
    case Inr
    with that show ?thesis by (auto simp: enqueue_notification_def act_simps insert_job_Some_iff)
  qed
  show ?thesis
  proof (cases "db_fault (orc E) (tick w)")
    case True
    with assms no show ?thesis by (auto simp: notify_draft_ready_def run_defs)
  next
    case False
    show ?thesis
    proof (cases "wallet_owner pk (db w)")
      case None
      with assms False no show ?thesis by (auto simp: notify_draft_ready_def run_defs)
    next
      case (Some u)
      obtain y :: "app_error + bool" and w1 where s: "send_to_user E u (DraftReady (uuid_to_string (lib E) i)) (tick_on w) = (y, w1)"
        by (metis surj_pair)
      from send_to_user_result [OF s] obtain b where y: "y = Inr b" by auto
      have d: "db w1 = db w" using send_to_user_db [OF s] by simp
      have q: "sql_select E InternalError (wallet_owner pk) w = (Inr (Some u), tick_on w)"
        using False Some by (simp add: act_simps)
      have "(if b then ret () else enqueue_notification E ''DraftReadyToSubmit''
          (Some (uuid_to_string (lib E) i)) pk) w1 = (res, w')"
        using assms q s y by (simp add: notify_draft_ready_def Let_def)
      then show ?thesis using enq [of _ _ _ w1] no d by (auto simp: act_simps split: if_splits)
    qed
  qed
qed

section \<open>Properties\<close>

lemma accept_invite_Inr:
  assumes "accept_invite E auth tok w = (Inr c, w')"
  shows "\<exists>i r xs s ys v q. find_invitation tok (db w) = Some i \<and> inv_status i = ''pending'' \<and>
    max 0 (clock (orc E) (tick w)) \<le> inv_expires_at i \<and> find_draft (inv_draft_id i) (db w) = Some r \<and>
    slots_from_value (lib E) (dr_party_slots r) = Some (xs @ s # ys) \<and>
    slot_invite_id s = Some (inv_id i) \<and> inv_id i \<notin> set (List.map_filter slot_invite_id xs) \<and>
    slots_to_value (lib E) (xs @ s\<lparr>slot_pubkey := Some (aww_pubkey auth), slot_invite_id := None\<rparr> # ys) = Some v \<and>
    db w' = (store_slots (inv_draft_id i) v (\<forall>x \<in> set (xs @ ys). slot_pubkey x \<noteq> None) (max 0 (clock (orc E) (tick w)))
      (mark_accepted (inv_id i) (db w)))\<lparr>notification_queue := notification_queue (db w) @ q\<rparr> \<and> length q \<le> 1"
proof -
  let ?t = "max 0 (clock (orc E) (tick w))"
  from assms obtain i r b w0 w1 where tx: "accept_tx E (aww_pubkey auth) tok ?t w0 = (Inr (i, r, b), w1)"
    and w0: "db w0 = db w" and rest: "\<exists>q. db w' = (db w1)\<lparr>notification_queue := notification_queue (db w1) @ q\<rparr> \<and> length q \<le> 1"
  proof -
    from assms obtain i r b w1 where tx: "accept_tx E (aww_pubkey auth) tok (max 0 (clock (orc E) (tick w))) (tick_on w)
        = (Inr (i, r, b), w1)"
      and n: "(if b then notify_draft_ready E (inv_draft_id i) (dr_creator_pubkey r) else ret ()) w1 = (Inr (), w')"
      by (auto simp: accept_invite_def act_simps)
    have "\<exists>q. db w' = (db w1)\<lparr>notification_queue := notification_queue (db w1) @ q\<rparr> \<and> length q \<le> 1"
    proof (cases b)
      case True
      with n notify_draft_ready_db show ?thesis by simp
    next
      case False
      with n show ?thesis by (intro exI [of _ "[]"]) (simp add: act_simps)
    qed
    with that tx show ?thesis by (metis tick_on_simps(1))
  qed
  from accept_tx_Inr [OF tx] obtain slots slots' v where
    f: "find_invitation tok (db w) = Some i" "inv_status i = ''pending''" "?t \<le> inv_expires_at i"
      "find_draft (inv_draft_id i) (db w) = Some r"
    and sl: "slots_from_value (lib E) (dr_party_slots r) = Some slots"
    and rs: "resolve_party_slot_pubkey slots (inv_id i) (aww_pubkey auth) = Inr slots'"
    and v: "slots_to_value (lib E) slots' = Some v" and b: "b = (\<forall>s \<in> set slots'. slot_pubkey s \<noteq> None)"
    and w1: "db w1 = store_slots (inv_draft_id i) v b ?t (mark_accepted (inv_id i) (db w))"
    unfolding w0 by blast
  from resolve_slot_Inr [OF rs] obtain xs s ys where sp: "slots = xs @ s # ys" "slot_invite_id s = Some (inv_id i)"
    "inv_id i \<notin> set (List.map_filter slot_invite_id xs)"
    "slots' = xs @ s\<lparr>slot_pubkey := Some (aww_pubkey auth), slot_invite_id := None\<rparr> # ys" by blast
  have b': "b = (\<forall>x \<in> set (xs @ ys). slot_pubkey x \<noteq> None)" using b sp(4) by auto
  have nq: "notification_queue (db w1) = notification_queue (db w)"
    unfolding w1 by (simp add: store_slots_def mark_accepted_def update_draft_def)
  from rest obtain q where q: "db w' = (db w1)\<lparr>notification_queue := notification_queue (db w1) @ q\<rparr>"
    "length q \<le> 1" by blast
  note d = q(1) [unfolded nq, unfolded w1, unfolded b']
  show ?thesis using f sl [unfolded sp(1)] sp(2,3) v [unfolded sp(4)] d q(2) by blast
qed

text \<open>
  C16 (accepting an invitation). If \<open>accept_invite\<close> succeeds, the token names a pending invitation that
  has not expired; in the draft it belongs to, the first slot that carries the invitation's identifier,
  and no other, now names the caller's wallet; the invitation is accepted; the draft is ready to submit
  if and only if that was the last open slot, in which case its ready time is recorded; nothing else in
  the tables changes except that a notification for the creator may have been queued.
\<close>

theorem accept_invite_effect:
  assumes "accept_invite E auth tok w = (Inr c, w')"
  shows "\<exists>i r xs s ys v q. find_invitation tok (db w) = Some i \<and> inv_status i = ''pending'' \<and>
    max 0 (clock (orc E) (tick w)) \<le> inv_expires_at i \<and> find_draft (inv_draft_id i) (db w) = Some r \<and>
    slots_from_value (lib E) (dr_party_slots r) = Some (xs @ s # ys) \<and>
    slot_invite_id s = Some (inv_id i) \<and> inv_id i \<notin> set (List.map_filter slot_invite_id xs) \<and>
    slots_to_value (lib E) (xs @ s\<lparr>slot_pubkey := Some (aww_pubkey auth), slot_invite_id := None\<rparr> # ys) = Some v \<and>
    db w' = (store_slots (inv_draft_id i) v (\<forall>x \<in> set (xs @ ys). slot_pubkey x \<noteq> None) (max 0 (clock (orc E) (tick w)))
      (mark_accepted (inv_id i) (db w)))\<lparr>notification_queue := notification_queue (db w) @ q\<rparr> \<and> length q \<le> 1"
  using assms by (rule accept_invite_Inr)

lemma accept_invite_not_pending:
  assumes "find_invitation tok (db w) = Some i" and "inv_status i \<noteq> ''pending''"
  shows "\<exists>e w'. accept_invite E auth tok w = (Inl e, w') \<and> e \<in> {NotFound, InternalError} \<and> db w' = db w"
  using assms
  by (auto simp: accept_invite_def accept_tx_def tx_statement_def validate_pending_invitation_def run_defs)

text \<open>
  After a successful \<open>accept_invite\<close>, in every later state in which invitations have only moved along their
  life cycle, accepting with the same token is refused, whoever asks, and changes no table.
\<close>

lemma invitation_used_up:
  assumes inv: "draft_inv E (db w)" and law: "serde_law (lib E)"
    and run: "accept_invite E auth tok w = (Inr c, w1)"
    and later: "invitations_evolve (db w1) (db w2)" and inv2: "draft_inv E (db w2)"
  shows "\<exists>e w3. accept_invite E auth' tok w2 = (Inl e, w3) \<and> e \<in> {NotFound, InternalError} \<and> db w3 = db w2"
proof -
  from accept_invite_Inr [OF run] obtain i v b t q did where
    f: "find_invitation tok (db w) = Some i"
    and w1: "db w1 = (store_slots did v b t (mark_accepted (inv_id i) (db w)))
      \<lparr>notification_queue := notification_queue (db w) @ q\<rparr>" by blast
  let ?i = "i\<lparr>inv_status := ''accepted''\<rparr>"
  have "i \<in> set (party_invitations (db w))" using find_invitation_Some [OF f] by simp
  then have "?i \<in> set (party_invitations (db w1))"
    unfolding w1 by (force simp: store_slots_def mark_accepted_def update_draft_def in_upd_where)
  then obtain i2 where i2: "i2 \<in> set (party_invitations (db w2))" "inv_key i2 = inv_key ?i"
    using later unfolding evolves_def by blast
  then have "inv_status i2 = ''accepted''"
    using invitation.final_stays [OF later distinct_inv_key [OF inv2] \<open>?i \<in> _\<close> _ i2] by simp
  moreover have "inv_token i2 = tok" using i2(2) find_invitation_Some [OF f] by (simp add: inv_key_def)
  then have "find_invitation tok (db w2) = Some i2" using find_invitation_token [OF inv2 i2(1)] by simp
  ultimately show ?thesis using accept_invite_not_pending [of tok w2 i2] by simp
qed

definition sample_invite_world :: world where
  "sample_invite_world = empty_world\<lparr>db := empty_db
     \<lparr>agreement_drafts := [new_draft_row 1 ''alice'' (payload_value \<lparr>dp_title = ''T'',
          dp_expires_in_secs = 1000000, dp_parties = [\<lparr>slot_pubkey = None, slot_invite_id = Some 2\<rparr>]\<rparr>)
          (slots_value [\<lparr>slot_pubkey = None, slot_invite_id = Some 2\<rparr>]) 0],
      party_invitations := [new_invitation_row 2 1 [] [] [] ''tok'' 5000 0]\<rparr>\<rparr>"

lemmas accept_defs =
  accept_invite_def accept_tx_def tx_statement_def find_invitation_def validate_pending_invitation_def
  get_draft_row_def find_draft_def all_pubkeys_resolved_def mark_accepted_def store_slots_def
  update_draft_def notify_draft_ready_def wallet_owner_def

lemma sample_invite_inv: "draft_inv sample_env (db sample_invite_world)"
  by (simp add: draft_inv_def draft_ok_def slot_wf_def sample_invite_world_def new_draft_row_def
      new_invitation_row_def sample_defs slots_of_slots_value)

lemma sample_accept:
  "\<exists>w1. accept_invite sample_env sample_caller ''tok'' sample_invite_world = (Inr 204, w1) \<and>
     draft_inv sample_env (db w1)"
proof -
  obtain w1 where run: "accept_invite sample_env sample_caller ''tok'' sample_invite_world = (Inr 204, w1)"
    by (simp add: accept_defs run_defs sample_invite_world_def new_draft_row_def new_invitation_row_def
        sample_caller_def sample_defs slots_of_slots_value)
  then show ?thesis
    using keepsD [OF keeps_draft_inv_accept_invite [OF sample_laws(1)] run] sample_invite_inv
    by (simp add: db_frame_def)
qed

theorem accept_invite_effect_witness:
  "\<exists>w1 i. accept_invite sample_env sample_caller ''tok'' sample_invite_world = (Inr 204, w1) \<and>
     find_invitation ''tok'' (db sample_invite_world) = Some i \<and> inv_status i = ''pending''"
proof -
  from sample_accept obtain w1 where
    run: "accept_invite sample_env sample_caller ''tok'' sample_invite_world = (Inr 204, w1)" by blast
  from accept_invite_effect [OF run] run show ?thesis by blast
qed

section \<open>The rate limit over time\<close>

text \<open>The requests let through, with the address they came from, when the requests \<open>rs\<close> arrive in order.\<close>

fun limiter_run :: "(headers \<times> int) list \<Rightarrow> world \<Rightarrow> (string \<times> int) list" where
  "limiter_run [] w = []"
| "limiter_run ((hs, t) # rs) w =
     (case enforce_get_invite_rate_limit hs t w of
        (Inr _, w') \<Rightarrow> (extract_request_ip hs, t) # limiter_run rs w'
      | (Inl _, w') \<Rightarrow> limiter_run rs w')"

definition recent :: "int \<Rightarrow> int list \<Rightarrow> int list" where
  "recent t ts = filter (\<lambda>x. t - x < 60) ts"

definition times_of :: "string \<Rightarrow> (string \<times> int) list \<Rightarrow> int list" where
  "times_of ip H = map snd (filter (\<lambda>x. fst x = ip) H)"

text \<open>The limiter remembers what matters of the history \<open>H\<close> from time \<open>T\<close> on.\<close>

definition remembers :: "(string \<times> int) list \<Rightarrow> int \<Rightarrow> world \<Rightarrow> bool" where
  "remembers H T w \<longleftrightarrow> (\<forall>ip t. T \<le> t \<longrightarrow> recent t (invite_limiter w ip) = recent t (times_of ip H))"

definition window_ok :: "(string \<times> int) list \<Rightarrow> bool" where
  "window_ok H \<longleftrightarrow> (\<forall>ip t0. length (filter (\<lambda>t. t0 \<le> t \<and> t < t0 + 60) (times_of ip H)) \<le> 5)"

lemma recent_recent: "t \<le> t' \<Longrightarrow> recent t' (recent t ts) = recent t' ts"
  by (auto simp: recent_def intro: filter_cong)

lemma times_of_append [simp]: "times_of ip (H @ [(ip', t)]) = times_of ip H @ (if ip' = ip then [t] else [])"
  by (simp add: times_of_def)

lemma recent_Nil [simp]: "recent t [] = []"
  by (simp add: recent_def)

lemma recent_append [simp]: "recent t (xs @ ys) = recent t xs @ recent t ys"
  by (simp add: recent_def)

lemma enforce_cases:
  assumes "enforce_get_invite_rate_limit hs t w = (r, w')" and "remembers H T w" and "T \<le> t"
  shows "(case r of Inl _ \<Rightarrow> remembers H t w'
    | Inr _ \<Rightarrow> length (recent t (times_of (extract_request_ip hs) H)) < 5 \<and>
        remembers (H @ [(extract_request_ip hs, t)]) t w')"
proof -
  let ?ip = "extract_request_ip hs" and ?entry = "recent t (times_of (extract_request_ip hs) H)"
  have e: "filter (\<lambda>ts. t - ts < RATE_LIMIT_WINDOW_SECS) (invite_limiter w ?ip) = ?entry"
    using assms(2,3) by (simp add: remembers_def recent_def RATE_LIMIT_WINDOW_SECS_def)
  have other: "recent t' (invite_limiter w ip) = recent t' (times_of ip H)" if "t \<le> t'" for t' ip
    using assms(2,3) that by (simp add: remembers_def)
  show ?thesis
  proof (cases "length ?entry \<ge> 5")
    case True
    then have "r = Inl RateLimited" "w' = w\<lparr>invite_limiter := (invite_limiter w)(?ip := ?entry)\<rparr>"
      using assms(1) e by (auto simp: enforce_get_invite_rate_limit_def RATE_LIMIT_MAX_REQUESTS_def run_defs)
    then show ?thesis using other by (simp add: remembers_def recent_recent)
  next
    case False
    then have "r = Inr ()" "w' = w\<lparr>invite_limiter := (invite_limiter w)(?ip := ?entry @ [t])\<rparr>"
      using assms(1) e by (auto simp: enforce_get_invite_rate_limit_def RATE_LIMIT_MAX_REQUESTS_def run_defs)
    then show ?thesis using other False by (simp add: remembers_def recent_recent)
  qed
qed

lemma window_ok_append:
  assumes "window_ok H" and "length (recent t (times_of ip H)) < 5"
  shows "window_ok (H @ [(ip, t)])"
  unfolding window_ok_def
proof (intro allI)
  fix ip' t0
  let ?in = "\<lambda>x::int. t0 \<le> x \<and> x < t0 + 60"
  have old: "length (filter ?in (times_of ip' H)) \<le> 5" using assms(1) by (simp add: window_ok_def)
  show "length (filter ?in (times_of ip' (H @ [(ip, t)]))) \<le> 5"
  proof (cases "ip = ip' \<and> ?in t")
    case True
    then have "filter ?in (times_of ip' H) = filter ?in (recent t (times_of ip H))"
      by (auto simp: recent_def intro: filter_cong)
    then have "length (filter ?in (times_of ip' H)) < 5"
      using le_less_trans [OF length_filter_le [of ?in "recent t (times_of ip H)"] assms(2)] by simp
    then show ?thesis using True by simp
  next
    case False
    then show ?thesis using old by auto
  qed
qed

lemma limiter_run_window:
  assumes "remembers H T w" and "window_ok H" and "sorted (map snd rs)" and "\<forall>x \<in> set rs. T \<le> snd x"
  shows "window_ok (H @ limiter_run rs w)"
  using assms
proof (induction rs arbitrary: H T w)
  case (Cons x rs)
  obtain hs t where x: "x = (hs, t)" by (cases x)
  obtain r w' where run: "enforce_get_invite_rate_limit hs t w = (r, w')"
    by (cases "enforce_get_invite_rate_limit hs t w")
  note c = enforce_cases [OF run Cons.prems(1)]
  have T: "T \<le> t" and s: "sorted (map snd rs)" "\<forall>y \<in> set rs. t \<le> snd y"
    using Cons.prems(3,4) x by auto
  show ?case
  proof (cases r)
    case (Inl e)
    then show ?thesis using Cons.IH [OF _ Cons.prems(2) s] c [OF T] run x by simp
  next
    case (Inr u)
    then have "window_ok (H @ [(extract_request_ip hs, t)])"
      using c [OF T] window_ok_append [OF Cons.prems(2)] by simp
    then show ?thesis using Cons.IH [OF _ _ s] c [OF T] run x Inr by force
  qed
qed simp

text \<open>
  C21 (five requests a minute). Starting from a fresh limiter and with a clock that does not run backwards,
  at most five requests from one address are let through in any window of sixty seconds, however the
  requests of different addresses interleave.
\<close>

theorem invite_rate_limit:
  assumes "sorted (map snd rs)" and "invite_limiter w = (\<lambda>_. [])"
  shows "length (filter (\<lambda>(ip', t). ip' = ip \<and> t0 \<le> t \<and> t < t0 + 60) (limiter_run rs w)) \<le> 5"
proof -
  have "\<exists>T. \<forall>x \<in> set rs. T \<le> snd x"
  proof (cases rs)
    case (Cons y ys)
    with assms(1) show ?thesis by (intro exI [of _ "snd y"]) auto
  qed simp
  then obtain T where "\<forall>x \<in> set rs. T \<le> snd x" by blast
  moreover have "remembers [] T w" "window_ok []"
    using assms(2) by (simp_all add: remembers_def window_ok_def times_of_def)
  ultimately have "window_ok ([] @ limiter_run rs w)" using limiter_run_window assms(1) by blast
  then have "length (filter (\<lambda>t. t0 \<le> t \<and> t < t0 + 60) (times_of ip (limiter_run rs w))) \<le> 5"
    by (simp add: window_ok_def)
  then show ?thesis
    by (simp add: times_of_def filter_map comp_def conj_commute case_prod_unfold)
qed

definition sample_headers :: headers where
  "sample_headers = (\<lambda>_. None)"

definition sample_requests :: "(headers \<times> int) list" where
  "sample_requests = map (\<lambda>t. (sample_headers, t)) [1, 2, 3, 4, 5, 6]"

theorem invite_rate_limit_witness:
  "sorted (map snd sample_requests) \<and> length (filter (\<lambda>(ip', t). ip' = ''unknown'' \<and> 0 \<le> t \<and> t < 0 + 60)
     (limiter_run sample_requests empty_world)) \<le> 5"
proof -
  have s: "sorted (map snd sample_requests)" by (simp add: sample_requests_def)
  have "invite_limiter empty_world = (\<lambda>_. [])" by (simp add: empty_world_def)
  from s invite_rate_limit [OF s this] show ?thesis by blast
qed

end
