(* ===== verification/Payment.thy ===== *)
theory Payment
  imports Draft_Handlers Lifecycle "HOL-Library.Signed_Division"
begin

text \<open>
  Payments: \<^verbatim>\<open>src/src/handlers/payment.rs\<close> and \<^verbatim>\<open>src/src/services/solana_pay.rs\<close>. Amounts are
  \<open>i64\<close> values; integer division truncates toward zero, which is \<open>sdiv\<close> and \<open>smod\<close> of the library.
  A payment row is one of the table \<open>agreement_payments\<close>; its status moves along \<open>payment_step\<close>.
\<close>

section \<open>Solana Pay\<close>

definition generate_payment_reference :: "env \<Rightarrow> (world, 'e, pubkey) act" where
  "generate_payment_reference E = ask (new_keypair (orc E))"

text \<open>Formatting of signed integers, plain and with \<open>{:06}\<close>.\<close>

definition fmt_int :: "int \<Rightarrow> string" where
  "fmt_int n = (if n < 0 then ''-'' else []) @ dec_digits (nat \<bar>n\<bar>)"

definition fmt_06 :: "int \<Rightarrow> string" where
  "fmt_06 n =
     (let sign = (if n < 0 then ''-'' else []); ds = dec_digits (nat \<bar>n\<bar>) in
      sign @ replicate (6 - length sign - length ds) (CHR ''0'') @ ds)"

definition pop_zeros :: "string \<Rightarrow> string" where
  "pop_zeros s = rev (dropWhile (\<lambda>c. c = CHR ''0'') (rev s))"

definition format_amount_6dp :: "int \<Rightarrow> string" where
  "format_amount_6dp amount_units =
     (let sign = (if amount_units < 0 then ''-'' else []);
          ab = wrap_i64 \<bar>amount_units\<bar>;
          whole = ab sdiv 1000000;
          fractional = ab smod 1000000 in
      if fractional = 0 then sign @ fmt_int whole
      else sign @ fmt_int whole @ ''.'' @ pop_zeros (fmt_06 fractional))"

definition is_unreserved :: "char \<Rightarrow> bool" where
  "is_unreserved c \<longleftrightarrow> is_ascii_alphanumeric c \<or> c \<in> {CHR ''-'', CHR ''_'', CHR ''.'', CHR ''~''}"

definition hex_digit_upper :: "nat \<Rightarrow> char" where
  "hex_digit_upper n = char_of (if n < 10 then 48 + n else 55 + n)"

definition percent_encode_byte :: "char \<Rightarrow> string" where
  "percent_encode_byte c =
     (if is_unreserved c then [c]
      else [CHR ''%'', hex_digit_upper (of_char c div 16), hex_digit_upper (of_char c mod 16)])"

definition percent_encode_minimal :: "string \<Rightarrow> string" where
  "percent_encode_minimal input = concat (map percent_encode_byte input)"

definition build_solana_pay_url :: "string \<Rightarrow> int \<Rightarrow> string \<Rightarrow> string \<Rightarrow> string \<Rightarrow> string \<Rightarrow> string" where
  "build_solana_pay_url treasury_ata amount_units mint_key reference label memo =
     ''solana:'' @ treasury_ata @ ''?amount='' @ format_amount_6dp amount_units @ ''&spl-token='' @ mint_key @
     ''&reference='' @ reference @ ''&label='' @ percent_encode_minimal label @
     ''&memo='' @ percent_encode_minimal memo"

text \<open>
  The \<open>UPDATE\<close> of \<open>confirm_payment_atomic\<close>. The unique index on \<open>token_tx_signature\<close> rejects it when the
  signature would occur twice.
\<close>

definition confirm_stmt ::
    "string \<Rightarrow> string \<Rightarrow> string \<Rightarrow> int \<Rightarrow> int \<Rightarrow> database \<Rightarrow> (bool \<times> database) option" where
  "confirm_stmt reference sig mint_key amount t d =
     (let P = (\<lambda>p. pay_token_reference_pubkey p = Some reference \<and> pay_status p = ''pending'');
          hit = filter P (agreement_payments d) in
      if hit \<noteq> [] \<and> (length hit > 1 \<or>
           (\<exists>p \<in> set (agreement_payments d). \<not> P p \<and> pay_token_tx_signature p = Some sig)) then None
      else Some (hit \<noteq> [], d\<lparr>agreement_payments := upd_where P (\<lambda>p. p\<lparr>pay_status := ''confirmed'',
        pay_token_tx_signature := Some sig, pay_token_mint := Some mint_key, pay_token_amount := Some amount,
        pay_confirmed_at := Some t\<rparr>) (agreement_payments d)\<rparr>))"

definition confirm_payment_atomic ::
    "env \<Rightarrow> string \<Rightarrow> string \<Rightarrow> string \<Rightarrow> int \<Rightarrow> (world, app_error, bool) act" where
  "confirm_payment_atomic E reference sig mint_key amount =
     sql E InternalError (\<lambda>t _. confirm_stmt reference sig mint_key amount t)"

definition poll_payment_confirmation :: "env \<Rightarrow> pubkey \<Rightarrow> (string \<times> string \<times> int) option" where
  "poll_payment_confirmation E reference = None"

section \<open>Handlers\<close>

definition cents_to_token_units :: "u32 \<Rightarrow> u8 \<Rightarrow> int" where
  "cents_to_token_units cents decs =
     (let factor = wrap_i64 (10 ^ unat decs) in wrap_i64 (uint cents * factor) sdiv 100)"

datatype initiate_payment_response =
    Free
  | Pending string string string int real string string

definition mark_paid :: "uuid \<Rightarrow> database \<Rightarrow> database" where
  "mark_paid draft_id = update_draft draft_id (\<lambda>r. r\<lparr>dr_paid := True\<rparr>)"

text \<open>\<open>INSERT ... ON CONFLICT (user_id) DO UPDATE SET free_used = free_used + 1\<close>\<close>

definition bump_free_used :: "uuid \<Rightarrow> database \<Rightarrow> (unit \<times> database) option" where
  "bump_free_used u d =
     (if u \<in> set (map cnt_user_id (user_agreement_counts d)) then
        if \<exists>r \<in> set (user_agreement_counts d). cnt_user_id r = u \<and> cnt_free_used r + 1 > 2147483647 then None
        else Some ((), d\<lparr>user_agreement_counts := upd_where (\<lambda>r. cnt_user_id r = u)
          (\<lambda>r. r\<lparr>cnt_free_used := cnt_free_used r + 1\<rparr>) (user_agreement_counts d)\<rparr>)
      else if u \<notin> set (map ua_id (user_accounts d)) then None
      else Some ((), d\<lparr>user_agreement_counts := user_agreement_counts d @
        [\<lparr>cnt_user_id = u, cnt_total_submitted = 0, cnt_free_used = 1\<rparr>]\<rparr>))"

text \<open>
  An \<open>INSERT\<close> into \<open>agreement_payments\<close> that names the columns \<open>cols\<close>; the row holds the defaults of the
  columns it does not name.
\<close>

definition insert_payment :: "string list \<Rightarrow> payment_row \<Rightarrow> database \<Rightarrow> (unit \<times> database) option" where
  "insert_payment cols p d =
     (if names_columns cols agreement_payments_columns \<and> names_columns agreement_payments_required cols \<and>
         pay_id p \<notin> set (map pay_id (agreement_payments d)) \<and>
         pay_draft_id p \<in> set (map dr_id (agreement_drafts d)) \<and>
         pay_user_id p \<in> set (map ua_id (user_accounts d)) \<and>
         (pay_token_reference_pubkey p = None \<or>
          pay_token_reference_pubkey p \<notin> set (map pay_token_reference_pubkey (agreement_payments d)))
      then Some ((), d\<lparr>agreement_payments := agreement_payments d @ [p]\<rparr>) else None)"

definition initiate_columns :: "string list" where
  "initiate_columns = [''id'', ''draft_id'', ''method'', ''creator_pubkey'', ''token_mint'', ''token_amount'',
     ''token_reference_pubkey'', ''treasury_ata'', ''status'']"

definition initiate_row :: "uuid \<Rightarrow> uuid \<Rightarrow> string \<Rightarrow> string \<Rightarrow> int \<Rightarrow> string \<Rightarrow> int \<Rightarrow> payment_row" where
  "initiate_row pid draft_id method mint_key amount reference t =
     \<lparr>pay_id = pid, pay_draft_id = draft_id, pay_user_id = 0, pay_method = method, pay_status = ''pending'',
      pay_usd_amount_cents = 0, pay_token_reference_pubkey = Some reference, pay_token_mint = Some mint_key,
      pay_token_amount = Some amount, pay_token_tx_signature = None, pay_token_source_ata = None,
      pay_refund_amount = None, pay_refund_usd_cents = None, pay_refund_tx_signature = None,
      pay_refund_initiated_at = None, pay_refund_completed_at = None, pay_created_at = t,
      pay_confirmed_at = None, pay_agreement_pda = None\<rparr>"

definition pay_free :: "env \<Rightarrow> uuid \<Rightarrow> uuid \<Rightarrow> (world, app_error, initiate_payment_response) act" where
  "pay_free E draft_id user_id =
     thenE (sql_update E InternalError (mark_paid draft_id))
     (thenE (sql E InternalError (\<lambda>_ _. bump_free_used user_id))
     (ret Free))"

definition pay_stablecoin ::
    "env \<Rightarrow> uuid \<Rightarrow> string \<Rightarrow> (world, app_error, initiate_payment_response) act" where
  "pay_stablecoin E draft_id method =
     bindE (ok_or PaymentMethodUnsupported (resolve (stablecoin_registry (cfg E)) method)) (\<lambda>token_info.
     bindE (generate_payment_reference E) (\<lambda>kp.
     let reference = pubkey_to_string (lib E) kp;
         amount = cents_to_token_units (platform_fee_usd_cents (cfg E)) (decimals token_info);
         url = build_solana_pay_url (ata token_info) amount (mint token_info) reference ''Pactum Pro''
           (uuid_to_string (lib E) draft_id @ ''/1'') in
     bindE (new_v4 E) (\<lambda>pid.
     thenE (sql E InternalError (\<lambda>t _. insert_payment initiate_columns
       (initiate_row pid draft_id method (mint token_info) amount reference t)))
     (ret (Pending method (mint token_info) (ata token_info) amount
       (round_f64 (lib E) (real_of_int (uint (platform_fee_usd_cents (cfg E))) / 100)) reference url)))))"

definition initiate_payment ::
    "env \<Rightarrow> auth_user_with_wallet \<Rightarrow> uuid \<Rightarrow> string \<Rightarrow> (world, app_error, initiate_payment_response) act" where
  "initiate_payment E auth draft_id method =
     bindE (get_draft_row E draft_id) (\<lambda>draft.
     thenE (guardE (dr_creator_pubkey draft = aww_pubkey auth) Unauthorized)
     (bindE (sql_select E InternalError (free_used_of (aww_user_id auth))) (\<lambda>free_used.
      if free_used < as_i32 (platform_fee_free_tier (cfg E))
      then pay_free E draft_id (aww_user_id auth)
      else pay_stablecoin E draft_id method)))"

record payment_status_response =
  ps_status :: string
  ps_method :: "string option"
  ps_confirmed_at :: "int option"

definition latest_payment :: "uuid \<Rightarrow> database \<Rightarrow> payment_row option" where
  "latest_payment draft_id d =
     (case sort_key (\<lambda>p. - pay_created_at p) (filter (\<lambda>p. pay_draft_id p = draft_id) (agreement_payments d)) of
        [] \<Rightarrow> None | p # _ \<Rightarrow> Some p)"

definition payment_status :: "env \<Rightarrow> uuid \<Rightarrow> (world, app_error, payment_status_response) act" where
  "payment_status E draft_id =
     bindE (sql_select E InternalError (latest_payment draft_id)) (\<lambda>r.
     bindE (ok_or NotFound r) (\<lambda>p.
     ret \<lparr>ps_status = pay_status p, ps_method = Some (pay_method p), ps_confirmed_at = pay_confirmed_at p\<rparr>))"

section \<open>Amounts and URLs\<close>

text \<open>Reading back what the formatters print.\<close>

definition digit_val :: "char \<Rightarrow> nat" where
  "digit_val c = of_char c - 48"

definition read_nat :: "string \<Rightarrow> nat" where
  "read_nat s = foldl (\<lambda>n c. 10 * n + digit_val c) 0 s"

definition read_amount :: "string \<Rightarrow> nat" where
  "read_amount s =
     (case split_once (CHR ''.'') s of
        None \<Rightarrow> read_nat s * 1000000
      | Some (w, f) \<Rightarrow> read_nat w * 1000000 + read_nat (f @ replicate (6 - length f) (CHR ''0'')))"

lemma digit_val_char: "n < 10 \<Longrightarrow> digit_val (char_of (48 + n)) = n"
  by (simp add: digit_val_def)

lemma read_nat_append: "read_nat (s @ [c]) = 10 * read_nat s + digit_val c"
  by (simp add: read_nat_def)

lemma read_dec_digits: "read_nat (dec_digits n) = n"
proof (induction n rule: dec_digits.induct)
  case (1 n)
  then show ?case
    by (subst dec_digits.simps) (auto simp: read_nat_append digit_val_char read_nat_def)
qed

lemma dec_digits_are_digits: "c \<in> set (dec_digits n) \<Longrightarrow> 48 \<le> (of_char c :: nat) \<and> (of_char c :: nat) < 58"
proof (induction n rule: dec_digits.induct)
  case (1 n)
  show ?case
  proof (cases "n < 10")
    case True
    with 1(2) have "c = char_of (48 + n)" by (subst (asm) dec_digits.simps) simp
    with True show ?thesis by simp
  next
    case False
    with 1(2) consider "c \<in> set (dec_digits (n div 10))" | "c = char_of (48 + n mod 10)"
      by (subst (asm) dec_digits.simps) auto
    then show ?thesis
    proof cases
      case 1
      with "1.IH" [OF False] show ?thesis .
    next
      case 2
      moreover have "n mod 10 < 10" by simp
      ultimately show ?thesis by simp
    qed
  qed
qed

lemma dec_digits_no_dot: "CHR ''.'' \<notin> set (dec_digits n)"
  using dec_digits_are_digits [of "CHR ''.''" n] by auto

lemma length_dec_digits: "n < 10 ^ Suc k \<Longrightarrow> length (dec_digits n) \<le> Suc k"
proof (induction k arbitrary: n)
  case 0
  then show ?case by (subst dec_digits.simps) simp
next
  case (Suc k)
  have "length (dec_digits (n div 10)) \<le> Suc k"
    by (rule Suc.IH) (use Suc.prems in \<open>simp add: div_less_iff_less_mult\<close>)
  then show ?case by (subst dec_digits.simps) simp
qed

lemma read_nat_zeros: "read_nat (replicate k (CHR ''0'') @ s) = read_nat s"
  by (induction k) (simp_all add: read_nat_def digit_val_def)

lemma dropWhile_replicate_prefix: "\<exists>k. xs = replicate k c @ dropWhile (\<lambda>x. x = c) xs"
proof (induction xs)
  case (Cons a xs)
  then obtain k where k: "xs = replicate k c @ dropWhile (\<lambda>x. x = c) xs" by blast
  show ?case
  proof (cases "a = c")
    case True
    with k show ?thesis by (intro exI [of _ "Suc k"]) simp
  next
    case False
    then show ?thesis by (intro exI [of _ 0]) simp
  qed
qed simp

lemma pop_zeros_padding: "\<exists>k. s = pop_zeros s @ replicate k (CHR ''0'')"
proof -
  obtain k where k: "rev s = replicate k (CHR ''0'') @ dropWhile (\<lambda>c. c = CHR ''0'') (rev s)"
    using dropWhile_replicate_prefix [of "rev s" "CHR ''0''"] by (elim exE)
  from arg_cong [OF k, of rev] show ?thesis
    unfolding pop_zeros_def rev_rev_ident rev_append rev_replicate by (rule exI)
qed

lemma read_fraction:
  assumes "0 < f" and "f < 1000000"
  shows "read_nat (pop_zeros (fmt_06 f) @ replicate (6 - length (pop_zeros (fmt_06 f))) (CHR ''0'')) = nat f"
proof -
  have "length (dec_digits (nat f)) \<le> Suc 5"
    by (rule length_dec_digits) (use assms in \<open>simp add: nat_less_iff\<close>)
  then have len: "length (fmt_06 f) = 6" using assms by (simp add: fmt_06_def Let_def)
  obtain k where k: "fmt_06 f = pop_zeros (fmt_06 f) @ replicate k (CHR ''0'')"
    using pop_zeros_padding [of "fmt_06 f"] by (elim exE)
  then have "length (pop_zeros (fmt_06 f)) + k = 6" using len by (metis length_append length_replicate)
  then have "pop_zeros (fmt_06 f) @ replicate (6 - length (pop_zeros (fmt_06 f))) (CHR ''0'') = fmt_06 f"
    using k by (metis add_diff_cancel_left')
  moreover have "read_nat (fmt_06 f) = nat f"
    using assms by (simp add: fmt_06_def Let_def read_nat_zeros read_dec_digits)
  ultimately show ?thesis by simp
qed

lemma split_once_dot: "CHR ''.'' \<notin> set a \<Longrightarrow> split_once (CHR ''.'') (a @ CHR ''.'' # b) = Some (a, b)"
  by (simp add: split_once_def takeWhile_append dropWhile_append)

text \<open>
  The amount in the payment link is exact. For every amount a payment can have, reading the decimal in the
  Solana Pay URL as a number with six decimals gives back the amount in token units.
\<close>

theorem format_amount_roundtrip:
  assumes "0 \<le> a" and "a < 2 ^ 63"
  shows "read_amount (format_amount_6dp a) = nat a"
proof -
  have w: "wrap_i64 \<bar>a\<bar> = a" using assms by (simp add: wrap_i64_id)
  have d: "a sdiv 1000000 = a div 1000000" "a smod 1000000 = a mod 1000000"
    using assms by (cases "a = 0"; simp add: signed_divide_int_def signed_modulo_int_def)+
  have whole: "fmt_int (a div 1000000) = dec_digits (nat (a div 1000000))"
    using assms by (simp add: fmt_int_def pos_imp_zdiv_neg_iff)
  have dm: "nat (a div 1000000) * 1000000 + nat (a mod 1000000) = nat a"
    using assms by (simp add: nat_div_distrib nat_mod_distrib)
  show ?thesis
  proof (cases "a mod 1000000 = 0")
    case True
    then have "format_amount_6dp a = dec_digits (nat (a div 1000000))"
      using assms w d whole by (simp add: format_amount_6dp_def Let_def)
    then show ?thesis
      using True dm by (simp add: read_amount_def split_once_def dec_digits_no_dot read_dec_digits)
  next
    case False
    then have f: "0 < a mod 1000000" "a mod 1000000 < 1000000"
      using pos_mod_bound [of 1000000 a] pos_mod_sign [of 1000000 a] by linarith+
    have "format_amount_6dp a =
        dec_digits (nat (a div 1000000)) @ CHR ''.'' # pop_zeros (fmt_06 (a mod 1000000))"
      using False assms w d whole by (simp add: format_amount_6dp_def Let_def)
    then have "split_once (CHR ''.'') (format_amount_6dp a) =
        Some (dec_digits (nat (a div 1000000)), pop_zeros (fmt_06 (a mod 1000000)))"
      by (simp only: split_once_dot [OF dec_digits_no_dot])
    then show ?thesis
      using dm by (simp add: read_amount_def read_fraction [OF f] read_dec_digits)
  qed
qed

theorem format_amount_roundtrip_witness: "read_amount (format_amount_6dp 1990000) = 1990000"
  using format_amount_roundtrip [of 1990000] by simp

fun percent_decode :: "string \<Rightarrow> string" where
  "percent_decode [] = []"
| "percent_decode (c # s) =
     (if c = CHR ''%'' then
        (case s of
           a # b # s' \<Rightarrow>
             char_of (16 * (if of_char a \<le> (57::nat) then of_char a - 48 else of_char a - 55) +
               (if of_char b \<le> (57::nat) then of_char b - 48 else of_char b - (55::nat))) # percent_decode s'
         | _ \<Rightarrow> [])
      else c # percent_decode s)"

lemma not_unreserved_percent: "\<not> is_unreserved (CHR ''%'')"
  by (simp add: is_unreserved_def is_ascii_alphanumeric_def)

lemma hex_digit_upper_value:
  "n < 16 \<Longrightarrow> (if of_char (hex_digit_upper n) \<le> (57::nat) then of_char (hex_digit_upper n) - 48
     else of_char (hex_digit_upper n) - 55) = n"
  by (simp add: hex_digit_upper_def)

lemma percent_decode_byte: "percent_decode (percent_encode_byte c @ s) = c # percent_decode s"
proof (cases "is_unreserved c")
  case True
  then have "c \<noteq> CHR ''%''" using not_unreserved_percent by auto
  with True show ?thesis by (simp add: percent_encode_byte_def)
next
  case False
  have n: "of_char c < (256::nat)" by (rule nat_of_char_less_256)
  have "char_of (16 * (of_char c div 16) + of_char c mod (16::nat)) = c" by simp
  then show ?thesis
    using False n hex_digit_upper_value [of "of_char c div 16"] hex_digit_upper_value [of "of_char c mod 16"]
    by (simp add: percent_encode_byte_def div_less_iff_less_mult del: of_char_eq_iff)
qed

text \<open>
  Labels and memos survive the link. Decoding the percent-encoded text gives back the text, byte for byte,
  and the encoded text holds only unreserved characters, percent signs and the hexadecimal digits after
  them, so it cannot end the parameter or start another one.
\<close>

theorem percent_encode_roundtrip:
  "percent_decode (percent_encode_minimal s) = s \<and>
   list_all (\<lambda>c. is_unreserved c \<or> c = CHR ''%'') (percent_encode_minimal s)"
proof -
  have 1: "percent_decode (percent_encode_minimal s) = s"
    by (induction s) (simp_all add: percent_encode_minimal_def percent_decode_byte)
  have "is_unreserved (hex_digit_upper n)" if "n < 16" for n
    using that by (auto simp: is_unreserved_def is_ascii_alphanumeric_def hex_digit_upper_def)
  moreover have "of_char c div 16 < (16::nat)" for c
    using nat_of_char_less_256 [of c] by (simp add: div_less_iff_less_mult)
  ultimately have "list_all (\<lambda>c. is_unreserved c \<or> c = CHR ''%'') (percent_encode_minimal s)"
    by (induction s) (auto simp: percent_encode_minimal_def percent_encode_byte_def)
  with 1 show ?thesis by blast
qed

section \<open>Life of a payment\<close>

definition payment_step :: "string \<Rightarrow> string \<Rightarrow> bool" where
  "payment_step s s' \<longleftrightarrow>
     s = ''pending'' \<and> s' \<in> {''confirmed'', ''expired''} \<or>
     s \<in> {''confirmed'', ''expired''} \<and> s' = ''refund_pending'' \<or>
     s = ''refund_pending'' \<and> s' = ''refunded''"

definition pay_key :: "payment_row \<Rightarrow> uuid \<times> string option" where
  "pay_key p = (pay_id p, pay_token_reference_pubkey p)"

interpretation payment: lifecycle agreement_payments pay_key pay_status payment_step "\<lambda>s. s = ''refunded''"
  by unfold_locales (simp add: payment_step_def)

lemma payment_not_pending_again: "payment_step\<^sup>*\<^sup>* s s' \<Longrightarrow> s \<noteq> ''pending'' \<Longrightarrow> s' \<noteq> ''pending''"
  by (induction rule: rtranclp_induct) (auto simp: payment_step_def)

abbreviation payments_evolve :: "database \<Rightarrow> database \<Rightarrow> bool" where
  "payments_evolve \<equiv> evolves agreement_payments pay_key pay_status payment_step"

text \<open>The primary key and the two unique indexes of the table.\<close>

definition pay_inv :: "database \<Rightarrow> bool" where
  "pay_inv d \<longleftrightarrow>
     distinct (map pay_id (agreement_payments d)) \<and>
     distinct (List.map_filter pay_token_reference_pubkey (agreement_payments d)) \<and>
     distinct (List.map_filter pay_token_tx_signature (agreement_payments d))"

lemma pay_inv_cong:
  "agreement_payments d' = agreement_payments d \<Longrightarrow> pay_inv d' = pay_inv d"
  by (simp add: pay_inv_def)

lemma distinct_pay_key: "pay_inv d \<Longrightarrow> distinct (map pay_key (agreement_payments d))"
  unfolding pay_inv_def pay_key_def by (auto simp: distinct_map inj_on_def)

lemma map_filter_upd_where:
  "(\<And>r. r \<in> set rs \<Longrightarrow> P r \<Longrightarrow> g (f r) = g r) \<Longrightarrow> List.map_filter g (upd_where P f rs) = List.map_filter g rs"
  by (induction rs) (auto simp: List.map_filter_simps split: option.splits)

lemma map_filter_in: "x \<in> set rs \<Longrightarrow> g x = Some y \<Longrightarrow> y \<in> set (List.map_filter g rs)"
  by (force simp: List.map_filter_def)

lemma map_filter_unique:
  "distinct (List.map_filter g rs) \<Longrightarrow> x \<in> set rs \<Longrightarrow> y \<in> set rs \<Longrightarrow> g x = Some v \<Longrightarrow> g y = Some v \<Longrightarrow> x = y"
proof (induction rs)
  case (Cons r rs)
  then show ?case
    by (cases "g r") (auto simp: List.map_filter_simps dest: map_filter_in [of _ _ g])
qed simp

text \<open>Payments with distinct references: at most one row is waiting for a reference.\<close>

lemma pending_unique:
  assumes "distinct (List.map_filter pay_token_reference_pubkey rs)"
  shows "filter (\<lambda>p. pay_token_reference_pubkey p = Some ref \<and> Q p) rs = [] \<or>
    (\<exists>p. filter (\<lambda>p. pay_token_reference_pubkey p = Some ref \<and> Q p) rs = [p])"
  using assms
proof (induction rs)
  case (Cons r rs)
  show ?case
  proof (cases "pay_token_reference_pubkey r = Some ref")
    case True
    with Cons.prems have "\<forall>p \<in> set rs. pay_token_reference_pubkey p \<noteq> Some ref"
      by (auto simp: List.map_filter_simps dest: map_filter_in [of _ _ pay_token_reference_pubkey])
    then have "filter (\<lambda>p. pay_token_reference_pubkey p = Some ref \<and> Q p) rs = []"
      by (auto simp: filter_empty_conv)
    then show ?thesis by auto
  next
    case False
    moreover have "distinct (List.map_filter pay_token_reference_pubkey rs)"
      using Cons.prems by (auto simp: List.map_filter_simps split: option.splits)
    ultimately show ?thesis using Cons.IH by simp
  qed
qed simp

text \<open>Giving one row a value no other row has keeps the values distinct.\<close>

lemma map_filter_upd_one:
  assumes "distinct (List.map_filter g rs)" and "filter P rs = [p]" and "g (f p) = Some v"
    and "\<And>r. r \<in> set rs \<Longrightarrow> \<not> P r \<Longrightarrow> g r \<noteq> Some v"
  shows "distinct (List.map_filter g (upd_where P f rs))"
  using assms
proof (induction rs)
  case (Cons r rs)
  have IHd: "distinct (List.map_filter g rs)"
    using Cons.prems(1) by (auto simp: List.map_filter_simps split: option.splits)
  show ?case
  proof (cases "P r")
    case True
    then have p: "r = p" and none: "filter P rs = []" using Cons.prems(2) by auto
    then have same: "upd_where P f rs = rs" by (intro upd_where_no_match) (auto simp: filter_empty_conv)
    have "v \<notin> set (List.map_filter g rs)"
      using Cons.prems(4) none by (force simp: List.map_filter_def filter_empty_conv)
    then show ?thesis using IHd True p same Cons.prems(3) by (simp add: List.map_filter_simps)
  next
    case False
    then have IH: "distinct (List.map_filter g (upd_where P f rs))"
      using Cons.IH [OF IHd] Cons.prems(2-4) by simp
    have sub: "set (List.map_filter g (upd_where P f rs)) \<subseteq> insert v (set (List.map_filter g rs))"
    proof
      fix y assume "y \<in> set (List.map_filter g (upd_where P f rs))"
      then obtain x where x: "x \<in> set rs" "g (if P x then f x else x) = Some y"
        by (auto simp: List.map_filter_def upd_where_def)
      have "filter P rs = [p]" using Cons.prems(2) False by simp
      from arg_cong [OF this, of set] have "{x \<in> set rs. P x} = {p}" by simp
      then have "x = p" if "P x" using that x(1) by blast
      then show "y \<in> insert v (set (List.map_filter g rs))"
        using x Cons.prems(3) by (cases "P x") (auto dest: map_filter_in)
    qed
    have "g r \<noteq> Some v" using Cons.prems(4) False by simp
    then show ?thesis
      using IH sub False Cons.prems(1)
      by (cases "g r") (auto simp: List.map_filter_simps)
  qed
qed simp

lemma if_None_SomeD: "(if c then None else Some x) = Some y \<Longrightarrow> \<not> c \<and> x = y"
  by (cases c) simp_all

text \<open>The update of a confirmation, on tables that satisfy the indexes.\<close>

lemma confirm_stmt_Some:
  assumes inv: "pay_inv d" and run: "confirm_stmt ref sig mk amt t d = Some (b, d')"
  shows "pay_inv d' \<and> payments_evolve d d' \<and>
    (if b then \<exists>p xs ys. agreement_payments d = xs @ p # ys \<and>
         pay_token_reference_pubkey p = Some ref \<and> pay_status p = ''pending'' \<and>
         d' = d\<lparr>agreement_payments := xs @ p\<lparr>pay_status := ''confirmed'', pay_token_tx_signature := Some sig,
           pay_token_mint := Some mk, pay_token_amount := Some amt, pay_confirmed_at := Some t\<rparr> # ys\<rparr>
     else d' = d \<and>
       (\<forall>p \<in> set (agreement_payments d). pay_token_reference_pubkey p = Some ref \<longrightarrow> pay_status p \<noteq> ''pending''))"
proof -
  let ?P = "\<lambda>p. pay_token_reference_pubkey p = Some ref \<and> pay_status p = ''pending''"
  let ?f = "\<lambda>p. p\<lparr>pay_status := ''confirmed'', pay_token_tx_signature := Some sig, pay_token_mint := Some mk,
    pay_token_amount := Some amt, pay_confirmed_at := Some t\<rparr>"
  let ?rs = "agreement_payments d"
  note st = if_None_SomeD [OF run [unfolded confirm_stmt_def Let_def]]
  from conjunct2 [OF st] have d': "d' = d\<lparr>agreement_payments := upd_where ?P ?f ?rs\<rparr>" and b: "b \<longleftrightarrow> filter ?P ?rs \<noteq> []"
    by (simp_all only: prod.inject)
  have ev: "payments_evolve d d'"
    by (rule evolves_update [where P = ?P and f = ?f]) (auto simp: d' pay_key_def payment_step_def)
  from inv have refs: "distinct (List.map_filter pay_token_reference_pubkey ?rs)" by (simp add: pay_inv_def)
  show ?thesis
  proof (cases "filter ?P ?rs = []")
    case True
    then have none: "\<forall>p \<in> set ?rs. \<not> ?P p" by (simp add: filter_empty_conv)
    then have "upd_where ?P ?f ?rs = ?rs" by (intro upd_where_no_match) blast
    then have same: "d' = d" using d' by simp
    have "\<not> b" using True b by simp
    then show ?thesis using none inv by (simp add: same evolves_refl)
  next
    case False
    with pending_unique [OF refs, of ref "\<lambda>p. pay_status p = ''pending''"]
    obtain p where p: "filter ?P ?rs = [p]" by (elim disjE exE) simp_all
    then obtain xs ys where sp: "?rs = xs @ p # ys" "\<forall>x \<in> set xs. \<not> ?P x" "?P p" "filter ?P ys = []"
      unfolding filter_eq_Cons_iff by (elim exE conjE) (metis (lifting))
    have "upd_where ?P ?f xs = xs" using sp(2) by (intro upd_where_no_match) blast
    moreover have "upd_where ?P ?f ys = ys" using sp(4) by (intro upd_where_no_match) (auto simp: filter_empty_conv)
    ultimately have new: "upd_where ?P ?f ?rs = xs @ ?f p # ys"
      unfolding sp(1) using sp(3) by (simp add: upd_where_def)
    have sigs: "\<not> ?P r \<Longrightarrow> pay_token_tx_signature r \<noteq> Some sig" if "r \<in> set ?rs" for r
      using conjunct1 [OF st] that False by blast
    have "distinct (List.map_filter pay_token_tx_signature (upd_where ?P ?f ?rs))"
      by (rule map_filter_upd_one [OF _ p, of _ _ sig]) (use inv sigs in \<open>auto simp: pay_inv_def\<close>)
    moreover have "map pay_id (upd_where ?P ?f ?rs) = map pay_id ?rs" by (rule map_upd_where) simp
    moreover have "List.map_filter pay_token_reference_pubkey (upd_where ?P ?f ?rs) =
        List.map_filter pay_token_reference_pubkey ?rs" by (rule map_filter_upd_where) simp
    ultimately have "pay_inv d'" using inv by (simp add: pay_inv_def d')
    moreover have "d' = d\<lparr>agreement_payments := xs @ ?f p # ys\<rparr>" using d' new by simp
    moreover have "b" using False b by simp
    ultimately show ?thesis using ev sp(1,3) by (simp only: if_True) blast
  qed
qed

lemma keeps_pay_inv_confirm:
  "keeps (db_frame (\<lambda>d. pay_inv d \<and> payments_evolve d0 d)) (confirm_payment_atomic E ref sig mk amt)"
  unfolding confirm_payment_atomic_def
  by (rule keeps_db_frame_sql) (metis confirm_stmt_Some evolves_trans)

lemma confirm_not_True:
  assumes "\<And>w'. confirm_payment_atomic E ref sig mk amt w \<noteq> (Inr True, w')"
  shows "fst (confirm_payment_atomic E ref sig mk amt w) \<in> {Inr False, Inl InternalError}"
proof (cases "confirm_payment_atomic E ref sig mk amt w")
  case (Pair r w')
  then have "r \<noteq> Inr True" using assms by auto
  moreover have "\<And>e. r = Inl e \<Longrightarrow> e = InternalError"
    using Pair by (auto simp: confirm_payment_atomic_def act_simps)
  ultimately show ?thesis using Pair by (cases r) auto
qed

text \<open>A reference whose payment is no longer pending confirms nothing; nor does a signature that is recorded already.\<close>

lemma confirm_reference_again:
  assumes "\<And>r. r \<in> set (agreement_payments (db w)) \<Longrightarrow> pay_token_reference_pubkey r = Some ref \<Longrightarrow> pay_status r \<noteq> ''pending''"
  shows "fst (confirm_payment_atomic E ref sig mk amt w) \<in> {Inr False, Inl InternalError} \<and>
    db (snd (confirm_payment_atomic E ref sig mk amt w)) = db w"
proof -
  have "filter (\<lambda>p. pay_token_reference_pubkey p = Some ref \<and> pay_status p = ''pending'') (agreement_payments (db w)) = []"
    using assms by (auto simp: filter_empty_conv)
  moreover have "upd_where (\<lambda>p. pay_token_reference_pubkey p = Some ref \<and> pay_status p = ''pending'') f
      (agreement_payments (db w)) = agreement_payments (db w)" for f
    using assms by (intro upd_where_no_match) auto
  ultimately show ?thesis by (simp add: confirm_payment_atomic_def confirm_stmt_def run_defs)
qed

lemma confirm_signature_again:
  assumes "q \<in> set (agreement_payments (db w))" and "pay_status q \<noteq> ''pending''" and "pay_token_tx_signature q = Some sig"
  shows "fst (confirm_payment_atomic E ref sig mk amt w) \<in> {Inr False, Inl InternalError}"
proof (rule confirm_not_True)
  show "confirm_payment_atomic E ref sig mk amt w \<noteq> (Inr True, w3)" for w3
  proof
    assume "confirm_payment_atomic E ref sig mk amt w = (Inr True, w3)"
    then obtain d3 where st: "confirm_stmt ref sig mk amt (clock (orc E) (tick w)) (db w) = Some (True, d3)"
      by (auto simp: confirm_payment_atomic_def act_simps)
    have "\<not> (pay_token_reference_pubkey q = Some ref \<and> pay_status q = ''pending'')" using assms(2) by simp
    then show "False" using if_None_SomeD [OF st [unfolded confirm_stmt_def Let_def]] assms(1,3) by blast
  qed
qed

text \<open>
  A payment is confirmed once. If \<open>confirm_payment_atomic\<close> reports that it confirmed a payment, exactly
  one row changed, the one with that reference, which was pending, and it carries the transaction's
  signature, mint and amount; the unique indexes still hold. In every later state in which payments have
  only moved along their life cycle, confirming the same reference again, with whatever signature and
  amount, confirms nothing and changes no table; and right after it the same signature confirms no other
  payment.
\<close>

theorem payment_confirmed_once:
  assumes inv: "pay_inv (db w)" and run: "confirm_payment_atomic E ref sig mk amt w = (Inr True, w1)"
    and later: "payments_evolve (db w1) (db w2)" and inv2: "pay_inv (db w2)"
  shows "(\<exists>p xs ys. agreement_payments (db w) = xs @ p # ys \<and> pay_token_reference_pubkey p = Some ref \<and>
      pay_status p = ''pending'' \<and>
      db w1 = (db w)\<lparr>agreement_payments := xs @ p\<lparr>pay_status := ''confirmed'', pay_token_tx_signature := Some sig,
        pay_token_mint := Some mk, pay_token_amount := Some amt,
        pay_confirmed_at := Some (clock (orc E) (tick w))\<rparr> # ys\<rparr>) \<and> pay_inv (db w1) \<and>
    fst (confirm_payment_atomic E ref sig' mk' amt' w2) \<in> {Inr False, Inl InternalError} \<and>
    db (snd (confirm_payment_atomic E ref sig' mk' amt' w2)) = db w2 \<and>
    fst (confirm_payment_atomic E ref' sig mk' amt' w1) \<in> {Inr False, Inl InternalError}"
proof -
  from run obtain d' where st: "confirm_stmt ref sig mk amt (clock (orc E) (tick w)) (db w) = Some (True, d')"
    and w1: "w1 = (tick_on w)\<lparr>db := d'\<rparr>" by (auto simp: confirm_payment_atomic_def act_simps)
  from confirm_stmt_Some [OF inv st] obtain p xs ys where
    inv1: "pay_inv d'" and p: "agreement_payments (db w) = xs @ p # ys" "pay_token_reference_pubkey p = Some ref"
      "pay_status p = ''pending''"
    and d': "d' = (db w)\<lparr>agreement_payments := xs @ p\<lparr>pay_status := ''confirmed'', pay_token_tx_signature := Some sig,
        pay_token_mint := Some mk, pay_token_amount := Some amt,
        pay_confirmed_at := Some (clock (orc E) (tick w))\<rparr> # ys\<rparr>"
    by (simp only: if_True) blast
  define q where "q = p\<lparr>pay_status := ''confirmed'', pay_token_tx_signature := Some sig, pay_token_mint := Some mk,
    pay_token_amount := Some amt, pay_confirmed_at := Some (clock (orc E) (tick w))\<rparr>"
  have q1: "q \<in> set (agreement_payments (db w1))" by (simp add: w1 d' q_def)
  have notpending: "pay_status r \<noteq> ''pending''"
    if r: "r \<in> set (agreement_payments (db w2))" "pay_token_reference_pubkey r = Some ref" for r
  proof -
    from later q1 obtain r' where r': "r' \<in> set (agreement_payments (db w2))" "pay_key r' = pay_key q"
      "payment_step\<^sup>*\<^sup>* (pay_status q) (pay_status r')" unfolding evolves_def by blast
    then have "r' = r"
      using map_filter_unique [of pay_token_reference_pubkey "agreement_payments (db w2)" r' r ref] inv2 r p(2)
      by (simp add: pay_inv_def pay_key_def q_def)
    with r'(3) show ?thesis using payment_not_pending_again by (simp add: q_def)
  qed
  have "fst (confirm_payment_atomic E ref' sig mk' amt' w1) \<in> {Inr False, Inl InternalError}"
    by (rule confirm_signature_again [OF q1]) (simp_all add: q_def)
  with confirm_reference_again [OF notpending] p d' inv1 show ?thesis unfolding w1 by (auto simp: q_def)
qed

definition sample_payment_world :: world where
  "sample_payment_world = empty_world\<lparr>db := empty_db
     \<lparr>agreement_payments := [initiate_row 7 1 ''usdc'' ''mint'' 1990000 ''ref'' 900]\<rparr>\<rparr>"

theorem payment_confirmed_once_witness:
  "\<exists>w1. confirm_payment_atomic sample_env ''ref'' ''sig'' ''mint'' 5 sample_payment_world = (Inr True, w1) \<and>
     fst (confirm_payment_atomic sample_env ''ref'' ''sig2'' ''mint'' 6 w1) \<in> {Inr False, Inl InternalError}"
proof -
  have inv: "pay_inv (db sample_payment_world)"
    by (simp add: pay_inv_def sample_payment_world_def sample_defs initiate_row_def List.map_filter_simps)
  obtain w1 where run: "confirm_payment_atomic sample_env ''ref'' ''sig'' ''mint'' 5 sample_payment_world = (Inr True, w1)"
    by (simp add: confirm_payment_atomic_def confirm_stmt_def run_defs sample_payment_world_def sample_defs initiate_row_def)
  have "pay_inv (db w1)"
    using keepsD [OF keeps_pay_inv_confirm [of "db sample_payment_world"] run] inv
    by (simp add: db_frame_def evolves_refl)
  with payment_confirmed_once [OF inv run evolves_refl] run show ?thesis by blast
qed

section \<open>The fee\<close>

text \<open>
  The fee in token units is exact. For every fee and every token with at most nine decimals (the
  configured stablecoins have six) no multiplication overflows: the result is the number of cents times
  ten to the decimals, divided by one hundred, rounded down, and it is a valid amount. For a token with
  at least two decimals nothing is lost.
\<close>

theorem cents_to_token_units_exact:
  assumes "unat decs \<le> 9"
  shows "cents_to_token_units cents decs = uint cents * 10 ^ unat decs div 100 \<and>
    0 \<le> cents_to_token_units cents decs \<and> cents_to_token_units cents decs < 2 ^ 63 \<and>
    (2 \<le> unat decs \<longrightarrow> cents_to_token_units cents decs * 100 = uint cents * 10 ^ unat decs)"
proof -
  have c: "0 \<le> uint cents" "uint cents < 2 ^ 32" using uint_bounded [of cents] by simp_all
  have p: "(10::int) ^ unat decs \<le> 10 ^ 9" using assms by (intro power_increasing) auto
  have p0: "0 < (10::int) ^ unat decs" by simp
  have "uint cents * 10 ^ unat decs \<le> 2 ^ 32 * 10 ^ 9"
    using c p by (intro mult_mono) auto
  then have b: "uint cents * 10 ^ unat decs < 2 ^ 63" by simp
  have b0: "0 \<le> uint cents * 10 ^ unat decs" using c(1) by simp
  have "wrap_i64 (10 ^ unat decs) = 10 ^ unat decs"
    using p by (intro wrap_i64_id) (auto intro: order_trans [of _ 0])
  moreover have "wrap_i64 (uint cents * 10 ^ unat decs) = uint cents * 10 ^ unat decs"
    using b by (intro wrap_i64_id) (auto intro: order_trans [OF _ b0])
  ultimately have "cents_to_token_units cents decs = (uint cents * 10 ^ unat decs) sdiv 100"
    by (simp add: cents_to_token_units_def Let_def)
  also have "\<dots> = uint cents * 10 ^ unat decs div 100"
    using c(1) by (cases "uint cents = 0") (auto simp: signed_divide_int_def sgn_mult sgn_1_pos)
  finally have eq: "cents_to_token_units cents decs = uint cents * 10 ^ unat decs div 100" .
  have "uint cents * 10 ^ unat decs div 100 < 2 ^ 63"
    using b b0 by (simp add: div_less_iff_less_mult)
  moreover have "(uint cents * 10 ^ unat decs div 100) * 100 = uint cents * 10 ^ unat decs" if "2 \<le> unat decs"
  proof -
    have "(10::int) ^ unat decs = 10 ^ 2 * 10 ^ (unat decs - 2)" using that by (simp only: power_add [symmetric] le_add_diff_inverse)
    then have "100 dvd uint cents * 10 ^ unat decs" by simp
    then show ?thesis by simp
  qed
  moreover have "0 \<le> uint cents * 10 ^ unat decs div 100" using b0 by (rule pos_imp_zdiv_nonneg_iff [THEN iffD2, rotated]) simp
  ultimately show ?thesis unfolding eq by blast
qed

theorem cents_to_token_units_exact_witness: "cents_to_token_units 199 6 = 1990000"
  using cents_to_token_units_exact [of 6 199] by simp

lemma bump_free_used_count:
  assumes "bump_free_used uid d = Some (x, d')"
  shows "free_used_of uid d' = free_used_of uid d + 1 \<and> agreement_drafts d' = agreement_drafts d"
proof (cases "uid \<in> set (map cnt_user_id (user_agreement_counts d))")
  case True
  then have d': "d' = d\<lparr>user_agreement_counts := upd_where (\<lambda>r. cnt_user_id r = uid)
      (\<lambda>r. r\<lparr>cnt_free_used := cnt_free_used r + 1\<rparr>) (user_agreement_counts d)\<rparr>"
    using assms unfolding bump_free_used_def by (simp only: if_True option.inject prod.inject option.distinct split: if_splits)
  have "select_first (\<lambda>r. cnt_user_id r = uid) (user_agreement_counts d) \<noteq> None"
    using True by (auto simp: select_first_None_iff)
  then show ?thesis by (auto simp: d' free_used_of_def select_first_upd)
next
  case False
  then have d': "d' = d\<lparr>user_agreement_counts := user_agreement_counts d @
      [\<lparr>cnt_user_id = uid, cnt_total_submitted = 0, cnt_free_used = 1\<rparr>]\<rparr>"
    using assms unfolding bump_free_used_def by (simp only: if_False option.inject prod.inject option.distinct split: if_splits)
  have "select_first (\<lambda>r. cnt_user_id r = uid) (user_agreement_counts d) = None"
    using False by (auto simp: select_first_None_iff)
  then show ?thesis by (simp add: d' free_used_of_def select_first_append)
qed

lemma mark_paid_counts: "free_used_of u (mark_paid i d) = free_used_of u d"
  by (simp add: mark_paid_def update_draft_def free_used_of_def)

text \<open>
  C23 (what initiating a payment does). A successful \<open>initiate_payment\<close> always answers \<open>Free\<close>: the caller created
  the draft and has free agreements left, the draft is now paid, and the caller's counter of free
  agreements went up by exactly one. The paid branch never succeeds, because its \<open>INSERT\<close> names two columns
  the table \<open>agreement_payments\<close> does not have and leaves out two required ones; it changes no table.
\<close>

theorem initiate_payment_outcome:
  "case initiate_payment E auth draft_id method w of
     (Inr resp, w') \<Rightarrow> resp = Free \<and>
       (\<exists>r. find_draft draft_id (db w) = Some r \<and> dr_creator_pubkey r = aww_pubkey auth) \<and>
       free_used_of (aww_user_id auth) (db w) < as_i32 (platform_fee_free_tier (cfg E)) \<and>
       agreement_drafts (db w') = agreement_drafts (mark_paid draft_id (db w)) \<and>
       free_used_of (aww_user_id auth) (db w') = free_used_of (aww_user_id auth) (db w) + 1
   | (Inl e, w') \<Rightarrow> db w' = db w \<or> e = InternalError \<and> db w' = mark_paid draft_id (db w)"
proof -
  have rej: "insert_payment initiate_columns p d = None" for p d
    by (simp add: insert_payment_def names_columns_def initiate_columns_def agreement_payments_columns_def)
  have paid: "pay_stablecoin E draft_id method u = (res, u') \<Longrightarrow> (\<exists>e. res = Inl e) \<and> db u' = db u" for u res u'
    by (cases res) (auto simp: pay_stablecoin_def act_simps rej Let_def generate_payment_reference_def)
  obtain res w' where run: "initiate_payment E auth draft_id method w = (res, w')" by fastforce
  show ?thesis
  proof (cases res)
    case (Inr resp)
    show ?thesis
      unfolding run Inr prod.case sum.case using run [unfolded Inr] paid bump_free_used_count
      by (auto simp: initiate_payment_def pay_free_def get_draft_row_def act_simps mark_paid_counts split: if_splits)
  next
    case (Inl e)
    show ?thesis
      unfolding run Inl prod.case sum.case using run [unfolded Inl] paid
      by (auto simp: initiate_payment_def pay_free_def get_draft_row_def act_simps split: if_splits)
  qed
qed

section \<open>Frame\<close>

lemma keeps_initiate_payment:
  assumes "\<And>d i. P d \<Longrightarrow> P (mark_paid i d)" and "\<And>d q. P (d\<lparr>user_agreement_counts := q\<rparr>) = P d"
  shows "keeps (db_frame P) (initiate_payment E auth draft_id method)"
proof -
  have ins: "keeps (db_frame P) (sql E e (\<lambda>t _. insert_payment initiate_columns (p t)))" for e :: app_error and p
    by (rule keeps_db_frame_sql)
      (simp add: insert_payment_def names_columns_def initiate_columns_def agreement_payments_columns_def)
  have bump: "keeps (db_frame P) (sql E e (\<lambda>_ _. bump_free_used u))" for e :: app_error and u
    by (rule keeps_db_frame_sql) (auto simp: bump_free_used_def assms(2) split: if_splits)
  show ?thesis
    unfolding initiate_payment_def pay_free_def pay_stablecoin_def generate_payment_reference_def get_draft_row_def Let_def
    by (intro keeps_intros ins bump keeps_db_frame_update assms(1))
qed

lemma keeps_payment_status [keeps_intros]: "frame R \<Longrightarrow> keeps R (payment_status E draft_id)"
  unfolding payment_status_def by (intro keeps_intros)

end
