(* ===== verification/Worker_Loop.thy ===== *)
theory Worker_Loop
  imports Schema
begin

text \<open>
  What the background workers have in common: the loop of \<open>run\<close> in \<^verbatim>\<open>src/src/workers/refund_worker.rs\<close>,
  \<^verbatim>\<open>src/src/workers/expiry_worker.rs\<close> and \<^verbatim>\<open>src/src/workers/keeper.rs\<close> (a cycle per tick of the interval
  unless the worker is disabled), and \<open>report_degraded\<close> with \<open>status_for_reason\<close>, which the refund and
  the expiry worker share word for word. Logging is left out.

  The locale \<open>worker\<close> is the contract of a cycle: it returns a status whatever fails inside, and what it does
  to the process health is at most to mark it degraded.
\<close>

named_theorems total_intros "composition rules of total_act"

section \<open>Actions that always return\<close>

definition total_act :: "('w, 'e, 'a) act \<Rightarrow> bool" where
  "total_act m \<longleftrightarrow> (\<forall>w. \<exists>x w'. m w = (Inr x, w'))"

lemma total_ret [total_intros]: "total_act (ret x)"
  by (auto simp: total_act_def ret_def)

lemma total_attempt [total_intros]: "total_act (attempt m)"
  by (auto simp: total_act_def attempt_def split: prod.splits)

lemma total_ask [total_intros]: "total_act (ask f)"
  by (auto simp: total_act_def ask_def)

lemma total_now [total_intros]: "total_act (now E)"
  by (simp add: now_def total_ask)

lemma total_modify [total_intros]: "total_act (modify f)"
  by (auto simp: total_act_def modify_def)

lemma total_bindE [total_intros]: "total_act m \<Longrightarrow> (\<And>x. total_act (k x)) \<Longrightarrow> total_act (bindE m k)"
  unfolding total_act_def bindE_def by (metis (mono_tags, lifting) case_prod_conv sum.simps(6))

lemma total_thenE [total_intros]: "total_act m \<Longrightarrow> total_act k \<Longrightarrow> total_act (thenE m k)"
  unfolding thenE_def by (rule total_bindE)

lemma total_for_each [total_intros]: "(\<And>x. total_act (f x)) \<Longrightarrow> total_act (for_each xs f)"
  by (induction xs) (auto intro: total_intros)

lemma total_if [total_intros]: "total_act a \<Longrightarrow> total_act b \<Longrightarrow> total_act (if c then a else b)"
  by simp

lemma total_case_option [total_intros]:
  "total_act a \<Longrightarrow> (\<And>x. total_act (f x)) \<Longrightarrow> total_act (case v of None \<Rightarrow> a | Some x \<Rightarrow> f x)"
  by (cases v) auto

lemma total_case_sum [total_intros]:
  "(\<And>x. total_act (f x)) \<Longrightarrow> (\<And>x. total_act (g x)) \<Longrightarrow> total_act (case v of Inl x \<Rightarrow> f x | Inr x \<Rightarrow> g x)"
  by (cases v) auto

lemma total_case_prod [total_intros]:
  "(\<And>x y. total_act (f x y)) \<Longrightarrow> total_act (case v of (x, y) \<Rightarrow> f x y)"
  by (cases v) auto

lemma total_Let [total_intros]: "total_act (f x) \<Longrightarrow> total_act (let y = x in f y)"
  by simp

text \<open>A query whose result a \<open>match\<close> inspects.\<close>

lemma attempt_select [simp]:
  "\<not> db_fault (orc E) (tick w) \<Longrightarrow> attempt (sql_select E e q) w = (Inr (Inr (q (db w))), tick_on w)"
  "db_fault (orc E) (tick w) \<Longrightarrow> attempt (sql_select E e q) w = (Inr (Inl e), tick_on w)"
  by (simp_all add: attempt_def sql_select_def sql_def tick_on_def)

lemma attempt_spawn [simp]:
  "\<not> join_fault (orc E) (tick w) \<Longrightarrow> attempt (spawn_blocking E je f) w = (Inr (Inr (f (Suc (tick w)))), tick_on (tick_on w))"
  "join_fault (orc E) (tick w) \<Longrightarrow> attempt (spawn_blocking E je f) w = (Inr (Inl je), tick_on w)"
  by (simp_all add: attempt_def spawn_blocking_def thenE_def guardE_def ask_def ret_def fail_def bindE_def)

section \<open>Degradation\<close>

definition status_for_reason :: "degradation_reason \<Rightarrow> (world, 'e, worker_status) act" where
  "status_for_reason reason =
     (let st = suggested_status reason in
      thenE (if st = WS_Degraded then modify (\<lambda>w. w\<lparr>health := mark_degraded (health w)\<rparr>) else ret ())
        (ret st))"

definition report_degraded :: "degradation_reason \<Rightarrow> (world, 'e, worker_status) act" where
  "report_degraded reason = bindE (status_for_reason reason) ret"

text \<open>\<open>if let Err(e) = ... { report_degraded(...); }\<close> inside a loop: the status is dropped.\<close>

definition degraded_mark :: "degradation_reason \<Rightarrow> (world, 'e, unit) act" where
  "degraded_mark reason = bindE (report_degraded reason) (\<lambda>_. ret ())"

lemmas degraded_defs = status_for_reason_def report_degraded_def degraded_mark_def

lemma total_degraded [total_intros]: "total_act (report_degraded r)" "total_act (degraded_mark r)"
  unfolding degraded_defs by (intro total_intros)+

lemma degraded_mark_iff [act_simps]:
  "degraded_mark r w = (res, w') \<longleftrightarrow> res = Inr () \<and>
     w' = (if suggested_status r = WS_Degraded then w\<lparr>health := mark_degraded (health w)\<rparr> else w)"
  by (auto simp: degraded_defs act_defs)

lemma keeps_degraded:
  assumes "frame R" and "\<And>w. R w (w\<lparr>health := mark_degraded (health w)\<rparr>)"
  shows "keeps R (report_degraded r)" "keeps R (degraded_mark r)"
  unfolding degraded_defs Let_def using assms
  by (intro keeps_intros; auto intro!: keepsI simp: act_simps)+

lemma keeps_db_frame_degraded [keeps_intros]:
  "keeps (db_frame P) (report_degraded r)" "keeps (db_frame P) (degraded_mark r)"
  by (rule keeps_degraded; auto simp: db_frame_def frame_db_frame)+

text \<open>\<open>health_degrades\<close>: the process health is as before, or marked degraded.\<close>

definition health_degrades :: "world \<Rightarrow> world \<Rightarrow> bool" where
  "health_degrades w w' \<longleftrightarrow> health w' = health w \<or> health w' = mark_degraded (health w)"

lemma mark_degraded_idem [simp]: "mark_degraded (mark_degraded s) = mark_degraded s"
  by (simp add: mark_degraded_def)

lemma frame_health_degrades [keeps_intros]: "frame health_degrades"
  by (auto simp: frame_def health_degrades_def reflp_def transp_def)

lemma health_degrades_simps [simp]:
  "health_degrades w (w\<lparr>health := mark_degraded (health w)\<rparr>)"
  "health_degrades w (w\<lparr>outbox := x\<rparr>)" "health_degrades w (w\<lparr>db := d\<rparr>)"
  by (simp_all add: health_degrades_def)

lemma keeps_health_sql [keeps_intros]: "keeps health_degrades (sql E e stmt)"
  by (rule keeps_sql [OF frame_health_degrades]) (simp add: health_degrades_def)

lemma keeps_health_sql_update [keeps_intros]: "keeps health_degrades (sql_update E e u)"
  unfolding sql_update_def by (rule keeps_health_sql)

lemma keeps_health_emit [keeps_intros]: "keeps health_degrades (emit x)"
  by (auto intro!: keepsI simp: act_simps health_degrades_def)

lemma keeps_health_degraded [keeps_intros]:
  "keeps health_degrades (report_degraded r)" "keeps health_degrades (degraded_mark r)"
  by (rule keeps_degraded; simp add: frame_health_degrades)+

section \<open>The loop\<close>

text \<open>
  \<open>n\<close> ticks of the interval: a disabled worker skips its cycle. The second equation's error case does not
  arise for a cycle that satisfies the contract below.
\<close>

fun worker_run :: "(world, app_error, worker_status) act \<Rightarrow> nat \<Rightarrow> worker_status \<Rightarrow> world \<Rightarrow> worker_status \<times> world" where
  "worker_run c 0 st w = (st, w)"
| "worker_run c (Suc n) st w =
     (if st = WS_Disabled then worker_run c n st w
      else (case c w of (Inr st', w') \<Rightarrow> worker_run c n st' w' | (Inl e, w') \<Rightarrow> worker_run c n st w'))"

locale worker =
  fixes cycle :: "env \<Rightarrow> (world, app_error, worker_status) act"
  assumes returns: "total_act (cycle E)"
    and degrades: "keeps health_degrades (cycle E)"
begin

lemma cycle_returns: "\<exists>st w'. cycle E w = (Inr st, w')"
  using returns by (auto simp: total_act_def)

lemma disabled_stays: "worker_run (cycle E) n WS_Disabled w = (WS_Disabled, w)"
  by (induction n) simp_all

lemma run_keeps:
  assumes "reflp R" and "transp R" and "keeps R (cycle E)"
  shows "R w (snd (worker_run (cycle E) n st w))"
proof (induction n arbitrary: st w)
  case 0
  then show ?case using assms(1) by (simp add: reflpD)
next
  case (Suc n)
  obtain s' w1 where c: "cycle E w = (Inr s', w1)" using cycle_returns by blast
  then have "R w w1" using keepsD [OF assms(3)] by blast
  with c Suc show ?case using assms(2) by (auto dest: transpD)
qed

lemma run_health: "health_degrades w (snd (worker_run (cycle E) n st w))"
  by (rule run_keeps [OF frame_reflp [OF frame_health_degrades] frame_transp [OF frame_health_degrades] degrades])

text \<open>A tripped breaker at tick \<open>n\<close> freezes the world the worker sees, for every later tick.\<close>

lemma run_after_disabled:
  assumes "worker_run (cycle E) n st w = (WS_Disabled, w1)"
  shows "worker_run (cycle E) (n + m) st w = (WS_Disabled, w1)"
  using assms
proof (induction n arbitrary: st w)
  case 0
  then show ?case by (simp add: disabled_stays)
next
  case (Suc n)
  obtain s' u where c: "cycle E w = (Inr s', u)" using cycle_returns by blast
  show ?case
  proof (cases "st = WS_Disabled")
    case True
    with Suc.prems have "w1 = w" using disabled_stays [of E n w] by simp
    with True disabled_stays show ?thesis by simp
  next
    case False
    with Suc c show ?thesis by simp
  qed
qed

end

end
