(* ===== verification/Refund.thy ===== *)
theory Refund
  imports Payment Worker_Loop
begin

text \<open>
  Refunds: \<^verbatim>\<open>src/src/services/refund.rs\<close> and \<^verbatim>\<open>src/src/workers/refund_worker.rs\<close>. A transfer the RPC node
  accepted is recorded in the outbox as \<open>SplTransfer\<close> with the two token accounts and the amount.
\<close>

section \<open>Service\<close>

text \<open>The product is a \<open>u64\<close> and wraps in the release profile.\<close>

definition calculate_refund_amount :: "u64 \<Rightarrow> u32 \<Rightarrow> u32 \<Rightarrow> u64" where
  "calculate_refund_amount paid_units nonrefundable_cents total_fee_cents =
     (if total_fee_cents = 0 \<or> paid_units = 0 then 0
      else
        let refundable_cents =
              (if nonrefundable_cents \<le> total_fee_cents then total_fee_cents - nonrefundable_cents else 0) in
        paid_units * ucast refundable_cents div ucast total_fee_cents)"

definition signed_transfer :: "env \<Rightarrow> instruction \<Rightarrow> byte list \<Rightarrow> transaction" where
  "signed_transfer E ix recent_blockhash =
     (new_unsigned ix (treasury_pubkey E))
       \<lparr>tx_blockhash := Some recent_blockhash, tx_signed_by := [treasury_pubkey E]\<rparr>"

definition execute_refund :: "env \<Rightarrow> string \<Rightarrow> string \<Rightarrow> u64 \<Rightarrow> (world, app_error, string) act" where
  "execute_refund E creator_pubkey_str token_mint_str amount =
     bindE (ok_or InternalError (pubkey_from_str (lib E) creator_pubkey_str)) (\<lambda>creator_pubkey.
     bindE (ok_or InternalError (pubkey_from_str (lib E) token_mint_str)) (\<lambda>token_mint.
     let source_ata = get_associated_token_address (lib E) (treasury_pubkey E) token_mint;
         destination_ata = get_associated_token_address (lib E) creator_pubkey token_mint in
     bindE (spawn_blocking E InternalError (\<lambda>k. rpc_account_exists (orc E) k destination_ata)) (\<lambda>r.
     bindE (ok_or SolanaRpcError r) (\<lambda>destination_exists.
     thenE (guardE destination_exists NotFound)
     (bindE (ok_or TransactionSigningFailed
        (spl_transfer_ix (lib E) source_ata destination_ata (treasury_pubkey E) amount)) (\<lambda>transfer_ix.
      bindE (spawn_blocking E InternalError (rpc_blockhash (orc E))) (\<lambda>b.
      bindE (ok_or SolanaRpcError b) (\<lambda>recent_blockhash.
      bindE (ok_or TransactionSigningFailed (tx_to_base64 (lib E) (signed_transfer E transfer_ix recent_blockhash)))
        (\<lambda>encoded_tx.
      bindE (spawn_blocking E InternalError (rpc_send_transaction (orc E))) (\<lambda>s.
      bindE (ok_or SolanaRpcError s) (\<lambda>signature.
      thenE (emit (SplTransfer source_ata destination_ata amount))
      (ret signature))))))))))))"

section \<open>Worker\<close>

text \<open>
  The join of \<open>process_pending_refunds\<close>: a row for each pair of a payment and a party of its agreement.
  In ascending order \<open>NULL\<close> comes last.
\<close>

definition refund_rows :: "database \<Rightarrow> (payment_row \<times> agreement_party_row) list" where
  "refund_rows d =
     [(p, a). p \<leftarrow> agreement_payments d, a \<leftarrow> agreement_parties d,
        pay_agreement_pda p = Some (ap_agreement_pda a) \<and> pay_status p = ''refund_pending'']"

definition pending_refunds :: "database \<Rightarrow> (payment_row \<times> agreement_party_row) list" where
  "pending_refunds d =
     (let rows = refund_rows d;
          dated = filter (\<lambda>(p, a). pay_refund_initiated_at p \<noteq> None) rows;
          undated = filter (\<lambda>(p, a). pay_refund_initiated_at p = None) rows in
      take 10 (sort_key (\<lambda>(p, a). the (pay_refund_initiated_at p)) dated @ undated))"

definition mark_refunded :: "uuid \<Rightarrow> string \<Rightarrow> int \<Rightarrow> database \<Rightarrow> database" where
  "mark_refunded pid sig t d =
     d\<lparr>agreement_payments := upd_where (\<lambda>p. pay_id p = pid \<and> pay_status p = ''refund_pending'')
       (\<lambda>p. p\<lparr>pay_status := ''refunded'', pay_refund_tx_signature := Some sig,
         pay_refund_completed_at := Some t\<rparr>) (agreement_payments d)\<rparr>"

definition refund_amount_of :: "payment_row \<Rightarrow> u64" where
  "refund_amount_of p = word_of_int (case pay_refund_amount p of Some n \<Rightarrow> n | None \<Rightarrow> 0)"

definition refund_mint_of :: "payment_row \<Rightarrow> string" where
  "refund_mint_of p = (case pay_token_mint p of Some m \<Rightarrow> m | None \<Rightarrow> [])"

definition refund_one :: "env \<Rightarrow> payment_row \<times> agreement_party_row \<Rightarrow> (world, app_error, unit) act" where
  "refund_one E row =
     (case row of (p, a) \<Rightarrow>
      let creator_pubkey = ap_creator_pubkey a in
      if creator_pubkey = [] then ret ()
      else
        bindE (attempt (execute_refund E creator_pubkey (refund_mint_of p) (refund_amount_of p))) (\<lambda>refund_result.
        case refund_result of
          Inr sig \<Rightarrow>
            bindE (now E) (\<lambda>t.
            bindE (attempt (sql_update E InternalError (mark_refunded (pay_id p) sig t))) (\<lambda>u.
            case u of Inl e \<Rightarrow> degraded_mark RetryBackoff | Inr _ \<Rightarrow> ret ()))
        | Inl e \<Rightarrow> degraded_mark RetryBackoff))"

definition process_pending_refunds :: "env \<Rightarrow> (world, app_error, worker_status) act" where
  "process_pending_refunds E =
     bindE (attempt (sql_select E InternalError pending_refunds)) (\<lambda>rows.
     case rows of
       Inl e \<Rightarrow> report_degraded RpcUnavailable
     | Inr rows \<Rightarrow>
         if rows = [] then ret WS_Healthy
         else thenE (for_each rows (refund_one E)) (ret WS_Healthy))"

definition refund_run :: "env \<Rightarrow> nat \<Rightarrow> world \<Rightarrow> worker_status \<times> world" where
  "refund_run E n = worker_run (process_pending_refunds E) n WS_Healthy"

section \<open>Amounts\<close>

lemma refund_share:
  fixes paid :: u64 and R fee :: u32
  assumes "R \<le> fee"
  shows "paid * ucast R div ucast fee \<le> paid"
    "uint paid * uint fee < 2 ^ 64 \<Longrightarrow> uint (paid * ucast R div (ucast fee :: u64)) = uint paid * uint R div uint fee"
proof -
  have u: "uint (ucast R :: u64) = uint R" "uint (ucast fee :: u64) = uint fee"
    by (simp_all add: uint_up_ucast is_up)
  have rf: "uint R \<le> uint fee" using assms by (simp add: word_le_def)
  have pos: "0 \<le> uint paid" "0 \<le> uint R" by simp_all
  have eq: "uint (paid * ucast R div (ucast fee :: u64)) = (uint paid * uint R) mod 2 ^ 64 div uint fee"
    by (simp add: uint_div uint_word_ariths u)
  have "(uint paid * uint R) mod 2 ^ 64 \<le> uint paid * uint R" using pos by (simp add: zmod_le_nonneg_dividend)
  also have "\<dots> \<le> uint paid * uint fee" using rf pos(1) by (rule mult_left_mono)
  finally have le: "(uint paid * uint R) mod 2 ^ 64 \<le> uint paid * uint fee" .
  have "(uint paid * uint R) mod 2 ^ 64 div uint fee \<le> uint paid"
  proof (cases "uint fee = 0")
    case False
    then have "0 < uint fee" by (simp add: less_le)
    from zdiv_mono1 [OF le this] show ?thesis
      unfolding nonzero_mult_div_cancel_right [OF False] .
  qed simp
  then show "paid * ucast R div ucast fee \<le> paid" by (simp add: word_le_def eq)
  assume "uint paid * uint fee < 2 ^ 64"
  then have "uint paid * uint R < 2 ^ 64" using mult_left_mono [OF rf pos(1)] by linarith
  then show "uint (paid * ucast R div (ucast fee :: u64)) = uint paid * uint R div uint fee"
    using pos by (simp add: eq)
qed

text \<open>
  A refund never exceeds the payment. Whatever the fee settings, and even where the \<open>u64\<close> product wraps, the
  computed refund is at most what was paid. Where the product does not wrap, which holds for every payment
  below \<open>2^32\<close> units, it is exactly the paid amount times the refundable share of the fee, rounded down;
  with no non-refundable part it is the whole payment, and with a non-refundable part of the whole fee or
  more it is zero.
\<close>

theorem refund_amount_bounds:
  "calculate_refund_amount paid non fee \<le> paid \<and>
   (fee \<noteq> 0 \<and> uint paid * uint fee < 2 ^ 64 \<longrightarrow>
      uint (calculate_refund_amount paid non fee) = uint paid * max 0 (uint fee - uint non) div uint fee) \<and>
   (uint paid < 2 ^ 32 \<longrightarrow> uint paid * uint fee < 2 ^ 64) \<and>
   (fee \<le> non \<longrightarrow> calculate_refund_amount paid non fee = 0)"
proof (intro conjI impI)
  define R where "R = (if non \<le> fee then fee - non else 0)"
  have R: "R \<le> fee" by (simp add: R_def word_sub_le)
  have uR: "uint R = max 0 (uint fee - uint non)"
    by (simp add: R_def uint_sub_if' word_le_def max_def)
  have def: "calculate_refund_amount paid non fee = (if fee = 0 \<or> paid = 0 then 0 else paid * ucast R div ucast fee)"
    by (simp add: calculate_refund_amount_def R_def Let_def)
  show "calculate_refund_amount paid non fee \<le> paid" using refund_share(1) [OF R] by (simp add: def)
  show "uint (calculate_refund_amount paid non fee) = uint paid * max 0 (uint fee - uint non) div uint fee"
    if "fee \<noteq> 0 \<and> uint paid * uint fee < 2 ^ 64"
    using that refund_share(2) [OF R, of paid] by (auto simp: def uR)
  show "uint paid * uint fee < 2 ^ 64" if "uint paid < 2 ^ 32"
  proof -
    have "uint fee < 2 ^ 32" using uint_bounded [of fee] by simp
    then have "uint paid * uint fee < 2 ^ 32 * 2 ^ 32" using that by (intro mult_strict_mono') simp_all
    then show ?thesis by simp
  qed
  show "calculate_refund_amount paid non fee = 0" if "fee \<le> non"
    using that by (auto simp: calculate_refund_amount_def Let_def)
qed

theorem refund_amount_bounds_witness:
  "calculate_refund_amount 1990000 10 199 = 1890000 \<and> calculate_refund_amount 1990000 10 199 \<le> 1990000"
proof -
  have "uint (calculate_refund_amount 1990000 10 199) = 1890000"
    using refund_amount_bounds [of 1990000 10 199] by simp
  then have "calculate_refund_amount 1990000 10 199 = 1890000" by (simp add: word_uint_eq_iff)
  then show ?thesis by simp
qed

section \<open>The worker as an interpretation of the contract\<close>

lemma execute_refund_Inr:
  assumes "execute_refund E c m n w = (Inr sig, w')"
  shows "\<exists>cr mk. pubkey_from_str (lib E) c = Some cr \<and> pubkey_from_str (lib E) m = Some mk \<and> db w' = db w \<and>
    outbox w' = outbox w @ [SplTransfer (get_associated_token_address (lib E) (treasury_pubkey E) mk)
      (get_associated_token_address (lib E) cr mk) n]"
  using assms by (auto simp: execute_refund_def act_simps Let_def)

lemma execute_refund_Inl:
  assumes "execute_refund E c m n w = (Inl e, w')"
  shows "db w' = db w \<and> outbox w' = outbox w"
  using assms by (auto simp: execute_refund_def act_simps Let_def)

lemma keeps_execute_refund [keeps_intros]:
  assumes "frame R" and "\<And>x. keeps R (emit x :: (world, app_error, unit) act)"
  shows "keeps R (execute_refund E c m n)"
  unfolding execute_refund_def Let_def using assms by (intro keeps_intros)

lemma keeps_db_frame_emit [keeps_intros]: "keeps (db_frame P) (emit x)"
  by (auto intro!: keepsI simp: act_simps db_frame_def)

lemma keeps_process_refunds:
  assumes "\<And>d i sig t. P d \<Longrightarrow> P (mark_refunded i sig t d)"
  shows "keeps (db_frame P) (process_pending_refunds E)"
  unfolding process_pending_refunds_def refund_one_def Let_def
  by (intro keeps_intros keeps_db_frame_update assms)

interpretation refund_worker: worker process_pending_refunds
proof unfold_locales
  fix E :: env
  show "total_act (process_pending_refunds E)"
    unfolding process_pending_refunds_def refund_one_def Let_def by (intro total_intros)
  show "keeps health_degrades (process_pending_refunds E)"
    unfolding process_pending_refunds_def refund_one_def Let_def by (intro keeps_intros)
qed

section \<open>What a cycle pays\<close>

definition transfer_of :: "env \<Rightarrow> payment_row \<times> agreement_party_row \<Rightarrow> external_effect" where
  "transfer_of E row = (case row of (p, a) \<Rightarrow>
     let cr = the (pubkey_from_str (lib E) (ap_creator_pubkey a)); mk = the (pubkey_from_str (lib E) (refund_mint_of p)) in
     SplTransfer (get_associated_token_address (lib E) (treasury_pubkey E) mk)
       (get_associated_token_address (lib E) cr mk) (refund_amount_of p))"

lemma refund_one_cases:
  assumes "refund_one E row u = (res, u')"
  shows "res = Inr () \<and>
    (db u' = db u \<and> outbox u' = outbox u \<or>
     outbox u' = outbox u @ [transfer_of E row] \<and>
     (db u' = db u \<or> (\<exists>sig t. db u' = mark_refunded (pay_id (fst row)) sig t (db u))))"
proof (cases row)
  case (Pair p a)
  show ?thesis
  proof (cases "ap_creator_pubkey a = []")
    case True
    with assms Pair show ?thesis by (simp add: refund_one_def act_simps)
  next
    case False
    obtain r u1 where ex: "execute_refund E (ap_creator_pubkey a) (refund_mint_of p) (refund_amount_of p) u = (r, u1)"
      by fastforce
    show ?thesis
    proof (cases r)
      case (Inl e)
      with ex execute_refund_Inl [of E _ _ _ u e u1] assms Pair False show ?thesis
        by (auto simp: refund_one_def bindE_def attempt_def degraded_mark_iff Let_def)
    next
      case (Inr sig)
      note e = execute_refund_Inr [OF ex [unfolded Inr]]
      have "outbox u1 = outbox u @ [transfer_of E row]" "db u1 = db u"
        using e by (auto simp: transfer_of_def Pair Let_def)
      with ex Inr assms Pair False show ?thesis
        by (auto simp: refund_one_def bindE_def attempt_def degraded_mark_iff Let_def now_def ask_def
            sql_update_def sql_def ret_def split: if_splits) blast+
    qed
  qed
qed

definition refund_trace :: "env \<Rightarrow> world \<Rightarrow> (payment_row \<times> agreement_party_row) list \<Rightarrow> world \<Rightarrow> bool" where
  "refund_trace E w rows u \<longleftrightarrow>
     outbox u = outbox w @ map (transfer_of E) rows \<and>
     (\<exists>q. db u = (db w)\<lparr>agreement_payments := q\<rparr>) \<and> payments_evolve (db w) (db u) \<and>
     (\<forall>p' \<in> set (agreement_payments (db u)). p' \<in> set (agreement_payments (db w)) \<or>
        pay_status p' = ''refunded'' \<and> (\<exists>row \<in> set rows. pay_id (fst row) = pay_id p'))"

lemma payments_evolve_refunded: "payments_evolve d (mark_refunded i sig t d)"
  by (rule evolves_update [where P = "\<lambda>p. pay_id p = i \<and> pay_status p = ''refund_pending''"
      and f = "\<lambda>p. p\<lparr>pay_status := ''refunded'', pay_refund_tx_signature := Some sig, pay_refund_completed_at := Some t\<rparr>"])
    (auto simp: mark_refunded_def pay_key_def payment_step_def)

lemma refund_trace_step:
  assumes "refund_trace E w rows u" and "refund_one E row u = (res, u')"
  shows "\<exists>rows'. set rows' \<subseteq> insert row (set rows) \<and> length rows' \<le> Suc (length rows) \<and> refund_trace E w rows' u'"
proof -
  from refund_one_cases [OF assms(2)]
  consider (none) "db u' = db u" "outbox u' = outbox u"
    | (paid) "outbox u' = outbox u @ [transfer_of E row]" "db u' = db u"
    | (marked) sig t where "outbox u' = outbox u @ [transfer_of E row]"
        "db u' = mark_refunded (pay_id (fst row)) sig t (db u)" by blast
  then show ?thesis
  proof cases
    case none
    with assms(1) show ?thesis by (intro exI [of _ rows]) (auto simp: refund_trace_def)
  next
    case paid
    with assms(1) show ?thesis by (intro exI [of _ "rows @ [row]"]) (auto simp: refund_trace_def)
  next
    case marked
    have "payments_evolve (db w) (db u')"
      using assms(1) evolves_trans [OF _ payments_evolve_refunded] by (simp add: refund_trace_def marked(2))
    moreover have "\<forall>p' \<in> set (agreement_payments (db u')). p' \<in> set (agreement_payments (db w)) \<or>
        pay_status p' = ''refunded'' \<and> (\<exists>x \<in> set (rows @ [row]). pay_id (fst x) = pay_id p')"
      using assms(1) unfolding marked(2) mark_refunded_def refund_trace_def
      by (simp add: ball_upd_where) (metis (no_types, lifting))
    ultimately show ?thesis
      using assms(1) marked(1)
      by (intro exI [of _ "rows @ [row]"]) (auto simp: refund_trace_def marked(2) mark_refunded_def)
  qed
qed

lemma refund_trace_loop:
  assumes "for_each xs (refund_one E) u = (res, u')" and "refund_trace E w rows u"
  shows "\<exists>rows'. set rows' \<subseteq> set rows \<union> set xs \<and> length rows' \<le> length rows + length xs \<and> refund_trace E w rows' u'"
  using assms
proof (induction xs arbitrary: u rows)
  case Nil
  then show ?case by (intro exI [of _ rows]) (simp add: act_simps)
next
  case (Cons x xs)
  obtain r1 u1 where one: "refund_one E x u = (r1, u1)" by fastforce
  then have "r1 = Inr ()" using refund_one_cases by blast
  with one Cons.prems(1) have rest: "for_each xs (refund_one E) u1 = (res, u')"
    by (simp add: thenE_def)
  from refund_trace_step [OF Cons.prems(2) one] obtain rows1 where
    r1: "set rows1 \<subseteq> insert x (set rows)" "length rows1 \<le> Suc (length rows)" "refund_trace E w rows1 u1" by blast
  from Cons.IH [OF rest r1(3)] obtain rows2 where "set rows2 \<subseteq> set rows1 \<union> set xs"
    "length rows2 \<le> length rows1 + length xs" "refund_trace E w rows2 u'" by blast
  with r1(1,2) show ?case by (intro exI [of _ rows2]) auto
qed

lemma pending_refunds_sound: "set (pending_refunds d) \<subseteq> set (refund_rows d)" "length (pending_refunds d) \<le> 10"
proof -
  show "set (pending_refunds d) \<subseteq> set (refund_rows d)"
    unfolding pending_refunds_def Let_def by (rule order_trans [OF set_take_subset]) auto
  show "length (pending_refunds d) \<le> 10" by (simp add: pending_refunds_def Let_def)
qed

lemma refund_trace_refl: "refund_trace E w [] w"
  by (auto simp: refund_trace_def evolves_refl intro: exI [of _ "agreement_payments (db w)"])

lemma refund_cycle_trace:
  assumes run: "process_pending_refunds E w = (r, w')"
  shows "\<exists>rows. set rows \<subseteq> set (pending_refunds (db w)) \<and> length rows \<le> length (pending_refunds (db w)) \<and>
    refund_trace E w rows w'"
proof (cases "db_fault (orc E) (tick w) \<or> pending_refunds (db w) = []")
  case True
  then have "outbox w' = outbox w \<and> db w' = db w"
    using run by (cases "db_fault (orc E) (tick w)"; cases r)
      (auto simp: process_pending_refunds_def degraded_defs act_simps Let_def)
  with refund_trace_refl [of E w] show ?thesis by (intro exI [of _ "[]"]) (auto simp: refund_trace_def)
next
  case False
  obtain st where "r = Inr st" using refund_worker.cycle_returns run by (metis prod.inject)
  then have loop: "for_each (pending_refunds (db w)) (refund_one E) (tick_on w) = (Inr (), w')"
    using False run by (simp add: process_pending_refunds_def act_simps)
  have "refund_trace E w [] (tick_on w)" using refund_trace_refl [of E w] by (simp add: refund_trace_def)
  from refund_trace_loop [OF loop this] show ?thesis by simp
qed

text \<open>
  C25 (what a refund cycle pays and records). A cycle of the refund worker always returns a status. What it sends
  are at most ten token transfers, each from the treasury's account to the account of the agreement's
  creator, in the mint and the amount of a payment that was waiting for its refund. It changes no other
  table than the payments; a payment changes only from waiting to refunded, and only if a transfer for it
  was sent in this cycle.
\<close>

theorem refund_cycle_sound:
  "\<exists>st w' rows. process_pending_refunds E w = (Inr st, w') \<and> length rows \<le> 10 \<and>
     (\<forall>(p, a) \<in> set rows. p \<in> set (agreement_payments (db w)) \<and> pay_status p = ''refund_pending'' \<and>
        a \<in> set (agreement_parties (db w)) \<and> pay_agreement_pda p = Some (ap_agreement_pda a)) \<and>
     outbox w' = outbox w @ map (transfer_of E) rows \<and>
     (\<exists>q. db w' = (db w)\<lparr>agreement_payments := q\<rparr>) \<and> payments_evolve (db w) (db w') \<and>
     (\<forall>p' \<in> set (agreement_payments (db w')). p' \<in> set (agreement_payments (db w)) \<or>
        pay_status p' = ''refunded'' \<and> (\<exists>row \<in> set rows. pay_id (fst row) = pay_id p'))"
proof -
  obtain st w' where run: "process_pending_refunds E w = (Inr st, w')"
    using refund_worker.cycle_returns by blast
  from refund_cycle_trace [OF run] obtain rows where rows: "set rows \<subseteq> set (pending_refunds (db w))"
    "length rows \<le> length (pending_refunds (db w))" and tr: "refund_trace E w rows w'" by blast
  have "length rows \<le> 10" using rows(2) pending_refunds_sound(2) by (rule order_trans)
  moreover have "\<forall>(p, a) \<in> set rows. p \<in> set (agreement_payments (db w)) \<and> pay_status p = ''refund_pending'' \<and>
      a \<in> set (agreement_parties (db w)) \<and> pay_agreement_pda p = Some (ap_agreement_pda a)"
    using subsetD [OF order_trans [OF rows(1) pending_refunds_sound(1)]] by (auto simp: refund_rows_def)
  ultimately show ?thesis using run tr unfolding refund_trace_def by blast
qed

definition sample_refund_world :: world where
  "sample_refund_world = empty_world\<lparr>db := empty_db
     \<lparr>agreement_payments := [(initiate_row 7 1 ''usdc'' ''mint'' 1990000 ''ref'' 900)
        \<lparr>pay_status := ''refund_pending'', pay_agreement_pda := Some ''pda'', pay_refund_amount := Some 100\<rparr>],
      agreement_parties := map (\<lambda>k. \<lparr>ap_party_pubkey = k, ap_agreement_pda = ''pda'', ap_creator_pubkey = ''alice'',
        ap_status = ''Cancelled'', ap_signed_at = None, ap_created_at = 0, ap_expires_at = 0, ap_title = ''T''\<rparr>)
        [''bob'', ''carol'']\<rparr>\<rparr>"

theorem refund_cycle_sound_witness:
  "\<exists>st w' rows. process_pending_refunds sample_env sample_refund_world = (Inr st, w') \<and>
     outbox w' = outbox sample_refund_world @ map (transfer_of sample_env) rows \<and> length rows \<le> 10"
  using refund_cycle_sound [of sample_env sample_refund_world] by blast

section \<open>One refund for each party\<close>

text \<open>No call fails: the database answers, tasks join, the RPC node answers and accepts, the account exists.\<close>

definition no_faults :: "env \<Rightarrow> bool" where
  "no_faults E \<longleftrightarrow>
     (\<forall>k. \<not> db_fault (orc E) k \<and> \<not> join_fault (orc E) k \<and> rpc_blockhash (orc E) k \<noteq> None \<and>
        rpc_send_transaction (orc E) k \<noteq> None \<and> (\<forall>p. rpc_account_exists (orc E) k p = Some True)) \<and>
     (\<forall>tx. tx_to_base64 (lib E) tx \<noteq> None) \<and> (\<forall>s d k n. spl_transfer_ix (lib E) s d k n \<noteq> None)"

lemma execute_refund_no_faults:
  assumes "no_faults E" and "pubkey_from_str (lib E) c = Some cr" and "pubkey_from_str (lib E) m = Some mk"
  shows "\<exists>sig w'. execute_refund E c m n w = (Inr sig, w')"
proof -
  have "\<not> join_fault (orc E) k" "rpc_account_exists (orc E) k q = Some True" "\<not> db_fault (orc E) k" for k q
    using assms(1) by (auto simp: no_faults_def)
  moreover have "\<exists>b. rpc_blockhash (orc E) k = Some b" "\<exists>s. rpc_send_transaction (orc E) k = Some s"
    "\<exists>t. tx_to_base64 (lib E) tx = Some t" "\<exists>ix. spl_transfer_ix (lib E) x y z v = Some ix" for k tx x y z v
    using assms(1) unfolding no_faults_def by (metis option.exhaust)+
  ultimately show ?thesis
    using assms(2,3) unfolding execute_refund_def Let_def by (simp add: act_simps)
qed

lemma refund_one_no_faults:
  assumes "no_faults E" and "pubkey_from_str (lib E) (ap_creator_pubkey a) = Some cr"
    and "pubkey_from_str (lib E) (refund_mint_of p) = Some mk" and "ap_creator_pubkey a \<noteq> []"
    and "refund_one E (p, a) u = (res, u')"
  shows "outbox u' = outbox u @ [transfer_of E (p, a)]"
proof -
  from execute_refund_no_faults [OF assms(1-3)] obtain sig u1 where
    ex: "execute_refund E (ap_creator_pubkey a) (refund_mint_of p) (refund_amount_of p) u = (Inr sig, u1)" by blast
  from execute_refund_Inr [OF ex] have "outbox u1 = outbox u @ [transfer_of E (p, a)]"
    by (auto simp: transfer_of_def Let_def)
  with ex assms(1,4,5) show ?thesis
    by (auto simp: refund_one_def bindE_def attempt_def Let_def now_def ask_def sql_update_def sql_def ret_def no_faults_def)
qed

text \<open>
  One transfer for each party. The worker joins payments with the parties of the agreement, so when no call
  fails a single payment of an agreement with \<open>n\<close> parties (up to ten) is refunded \<open>n\<close> times in one cycle:
  the same transfer is sent once for each party.
\<close>

theorem refund_repeated_per_party:
  assumes "no_faults E" and "agreement_payments (db w) = [p]" and "pay_status p = ''refund_pending''"
    and "pay_agreement_pda p = Some pda" and "as = filter (\<lambda>a. ap_agreement_pda a = pda) (agreement_parties (db w))"
    and "length as \<le> 10" and "\<forall>a \<in> set as. ap_creator_pubkey a = c" and "c \<noteq> []"
    and "pubkey_from_str (lib E) c = Some cr" and "pubkey_from_str (lib E) (refund_mint_of p) = Some mk"
  shows "outbox (snd (process_pending_refunds E w)) = outbox w @ replicate (length as)
    (SplTransfer (get_associated_token_address (lib E) (treasury_pubkey E) mk)
      (get_associated_token_address (lib E) cr mk) (refund_amount_of p))"
proof -
  let ?t = "SplTransfer (get_associated_token_address (lib E) (treasury_pubkey E) mk)
    (get_associated_token_address (lib E) cr mk) (refund_amount_of p)"
  have t: "transfer_of E (p, a) = ?t" if "a \<in> set as" for a
    using that assms(7,9,10) by (simp add: transfer_of_def Let_def)
  have join: "concat (map (\<lambda>a. if pda = ap_agreement_pda a then [(p, a)] else []) xs) =
      map (Pair p) (filter (\<lambda>a. ap_agreement_pda a = pda) xs)" for xs by (induction xs) auto
  have "refund_rows (db w) = map (Pair p) as"
    unfolding refund_rows_def assms(2,5) using assms(3,4) by (simp add: join)
  then have rows: "pending_refunds (db w) = map (Pair p) as"
  proof (cases "pay_refund_initiated_at p")
    case None
    with \<open>refund_rows (db w) = _\<close> show ?thesis using assms(6) by (simp add: pending_refunds_def comp_def)
  next
    case (Some t)
    have "sort_key (\<lambda>(p, a). the (pay_refund_initiated_at p)) (map (Pair p) as) = map (Pair p) as"
      by (intro sort_key_id_if_sorted) (simp add: comp_def map_replicate_const)
    with Some \<open>refund_rows (db w) = _\<close> show ?thesis using assms(6) by (simp add: pending_refunds_def comp_def)
  qed
  have db: "\<not> db_fault (orc E) (tick w)" using assms(1) by (simp add: no_faults_def)
  show ?thesis
  proof (cases "as = []")
    case True
    with db rows show ?thesis by (simp add: process_pending_refunds_def ret_def)
  next
    case False
    obtain st w' where run: "process_pending_refunds E w = (Inr st, w')"
      using refund_worker.cycle_returns by blast
    then have loop: "for_each (map (Pair p) as) (refund_one E) (tick_on w) = (Inr (), w')"
      using False db rows by (simp add: process_pending_refunds_def act_simps)
    have "outbox w' = outbox w @ map (transfer_of E) ([] @ map (Pair p) as)"
      by (rule for_each_invariant [OF loop, of "\<lambda>zs u. outbox u = outbox w @ map (transfer_of E) zs"])
        (use assms in \<open>auto dest!: refund_one_no_faults [rotated 4]\<close>)
    moreover have "map (transfer_of E) (map (Pair p) as) = replicate (length as) ?t"
      using t by (induction as) auto
    ultimately show ?thesis using run by simp
  qed
qed

theorem refund_repeated_per_party_witness:
  "outbox (snd (process_pending_refunds sample_env sample_refund_world)) =
     [SplTransfer ([2] @ as_bytes ''mint'') (as_bytes ''alice'' @ as_bytes ''mint'') 100,
      SplTransfer ([2] @ as_bytes ''mint'') (as_bytes ''alice'' @ as_bytes ''mint'') 100]"
proof -
  have "no_faults sample_env" by (simp add: no_faults_def sample_defs)
  from refund_repeated_per_party [OF this _ _ _ refl, of sample_refund_world _ "''pda''" "''alice''" "as_bytes ''alice''" "as_bytes ''mint''"]
  show ?thesis
    by (simp add: sample_refund_world_def sample_defs initiate_row_def refund_mint_of_def refund_amount_of_def)
qed

end
