(* ===== verification/Expiry_Worker.thy ===== *)
theory Expiry_Worker
  imports Solana_Tx Worker_Loop Sample_World
begin

text \<open>
  \<^verbatim>\<open>src/src/workers/expiry_worker.rs\<close>: every five minutes the worker looks for agreements whose signing
  deadline has passed, locks their rows by moving them to \<open>expiring\<close>, submits \<open>expire_agreement\<close>, and
  unlocks them when the submission fails. A transaction the RPC node accepted is recorded in the outbox as
  \<open>SubmitTx\<close>. A failed statement of \<open>sqlx\<close> is \<open>InternalError\<close> here: the worker only logs it.
\<close>

definition SCAN_INTERVAL_SECONDS :: u64 where
  "SCAN_INTERVAL_SECONDS = 300"

text \<open>\<open>SELECT DISTINCT agreement_pda, creator_pubkey ... WHERE status = 'PendingSignatures' AND expires_at < $1\<close>\<close>

definition overdue :: "int \<Rightarrow> agreement_party_row \<Rightarrow> bool" where
  "overdue t r \<longleftrightarrow> ap_status r = ''PendingSignatures'' \<and> ap_expires_at r < t"

definition due_agreements :: "int \<Rightarrow> database \<Rightarrow> (string \<times> string) list" where
  "due_agreements t d =
     remdups (map (\<lambda>r. (ap_agreement_pda r, ap_creator_pubkey r)) (filter (overdue t) (agreement_parties d)))"

definition move_parties :: "string \<Rightarrow> string \<Rightarrow> string \<Rightarrow> database \<Rightarrow> database" where
  "move_parties pda from_status to_status d =
     d\<lparr>agreement_parties := upd_where (\<lambda>r. ap_agreement_pda r = pda \<and> ap_status r = from_status)
       (\<lambda>r. r\<lparr>ap_status := to_status\<rparr>) (agreement_parties d)\<rparr>"

definition lock_agreement_for_expiry :: "env \<Rightarrow> string \<Rightarrow> (world, app_error, bool) act" where
  "lock_agreement_for_expiry E pda =
     sql E InternalError (\<lambda>_ _ d.
       Some (\<exists>r \<in> set (agreement_parties d). ap_agreement_pda r = pda \<and> ap_status r = ''PendingSignatures'',
         move_parties pda ''PendingSignatures'' ''expiring'' d))"

definition unlock_agreement_from_expiry :: "env \<Rightarrow> string \<Rightarrow> (world, app_error, unit) act" where
  "unlock_agreement_from_expiry E pda =
     sql_update E InternalError (move_parties pda ''expiring'' ''PendingSignatures'')"

definition submit_transaction_rpc :: "env \<Rightarrow> transaction \<Rightarrow> (world, app_error, byte list) act" where
  "submit_transaction_rpc E tx =
     bindE (ok_or InternalError (tx_to_base64 (lib E) tx)) (\<lambda>encoded.
     bindE (spawn_blocking E InternalError (rpc_send_transaction (orc E))) (\<lambda>s.
     bindE (ok_or SolanaRpcError s) (\<lambda>sig_str.
     thenE (emit (SubmitTx tx))
     (ok_or InternalError (signature_from_str (lib E) sig_str)))))"

text \<open>The bytes the worker takes for the agreement's identifier: \<open>data[32..48]\<close>.\<close>

definition expiry_id_bytes :: "byte list \<Rightarrow> byte list option" where
  "expiry_id_bytes data = (if 48 \<le> length data then Some (take 16 (drop 32 data)) else None)"

definition submit_expire_transaction :: "env \<Rightarrow> string \<Rightarrow> string \<Rightarrow> (world, app_error, byte list) act" where
  "submit_expire_transaction E agreement_pda creator_pubkey =
     bindE (ok_or InternalError (pubkey_from_str (lib E) creator_pubkey)) (\<lambda>cr.
     bindE (ok_or InternalError (pubkey_from_str (lib E) agreement_pda)) (\<lambda>pda.
     bindE (spawn_blocking E InternalError (\<lambda>k. rpc_account_data (orc E) k pda)) (\<lambda>r.
     bindE (ok_or SolanaRpcError r) (\<lambda>data.
     bindE (ok_or InternalError (expiry_id_bytes data)) (\<lambda>aid.
     bindE (build_expire_agreement_tx E cr aid) (\<lambda>tx.
     bindE (ok_or InternalError (tx_from_base64 (lib E) tx)) (submit_transaction_rpc E)))))))"

definition expire_one :: "env \<Rightarrow> string \<times> string \<Rightarrow> (world, app_error, unit) act" where
  "expire_one E row =
     (case row of (agreement_pda, creator_pubkey) \<Rightarrow>
      bindE (attempt (lock_agreement_for_expiry E agreement_pda)) (\<lambda>locked.
      case locked of
        Inr got \<Rightarrow>
          if got then
            bindE (attempt (submit_expire_transaction E agreement_pda creator_pubkey)) (\<lambda>r.
            case r of
              Inr _ \<Rightarrow> ret ()
            | Inl e \<Rightarrow>
                thenE (degraded_mark RetryBackoff)
                (bindE (attempt (unlock_agreement_from_expiry E agreement_pda)) (\<lambda>u.
                 case u of Inr _ \<Rightarrow> ret () | Inl e \<Rightarrow> degraded_mark RetryBackoff)))
          else ret ()
      | Inl e \<Rightarrow> degraded_mark RetryBackoff))"

definition expire_due_agreements :: "env \<Rightarrow> (world, app_error, worker_status) act" where
  "expire_due_agreements E =
     bindE (now E) (\<lambda>t.
     bindE (attempt (sql_select E InternalError (due_agreements t))) (\<lambda>rows.
     case rows of
       Inl e \<Rightarrow> report_degraded RpcUnavailable
     | Inr rows \<Rightarrow>
         if rows = [] then ret WS_Healthy
         else thenE (for_each rows (expire_one E)) (ret WS_Healthy)))"

definition expiry_run :: "env \<Rightarrow> nat \<Rightarrow> world \<Rightarrow> worker_status \<times> world" where
  "expiry_run E n = worker_run (expire_due_agreements E) n WS_Healthy"

section \<open>The worker as an interpretation of the contract\<close>

lemma keeps_submit_expire [keeps_intros]:
  assumes "frame R" and "\<And>x. keeps R (emit x :: (world, app_error, unit) act)"
  shows "keeps R (submit_expire_transaction E pda cr)"
  unfolding submit_expire_transaction_def submit_transaction_rpc_def by (intro keeps_intros assms)

lemma keeps_expire_due:
  assumes "\<And>d pda a b. {a, b} \<subseteq> {''PendingSignatures'', ''expiring''} \<Longrightarrow> P d \<Longrightarrow> P (move_parties pda a b d)"
  shows "keeps (db_frame P) (expire_due_agreements E)"
proof -
  have e: "keeps (db_frame P) (emit x)" for x :: external_effect
    by (auto intro!: keepsI simp: act_simps db_frame_def)
  have "keeps (db_frame P) (lock_agreement_for_expiry E pda)" "keeps (db_frame P) (unlock_agreement_from_expiry E pda)" for pda
    unfolding lock_agreement_for_expiry_def unlock_agreement_from_expiry_def
    by (auto intro!: keeps_db_frame_sql keeps_db_frame_update assms)
  then show ?thesis
    unfolding expire_due_agreements_def expire_one_def by (intro keeps_intros e)
qed

interpretation expiry_worker: worker expire_due_agreements
proof unfold_locales
  fix E :: env
  show "total_act (expire_due_agreements E)"
    unfolding expire_due_agreements_def expire_one_def by (intro total_intros)
  show "keeps health_degrades (expire_due_agreements E)"
    unfolding expire_due_agreements_def expire_one_def lock_agreement_for_expiry_def unlock_agreement_from_expiry_def
    by (intro keeps_intros)
qed

section \<open>What a cycle submits\<close>

definition expire_tx :: "env \<Rightarrow> transaction \<Rightarrow> pubkey \<Rightarrow> byte list \<Rightarrow> bool" where
  "expire_tx E tx cr aid \<longleftrightarrow> (\<exists>s. tx_to_base64 (lib E) tx = Some s) \<and>
     tx_instructions tx = [expire_agreement_ix E cr aid] \<and> tx_payer tx = vault_pubkey E \<and> missing_signers tx = {}"

text \<open>\<open>bincode::deserialize\<close> is a left inverse of \<open>bincode::serialize\<close>; base64 likewise.\<close>

definition tx_codec_law :: "libs \<Rightarrow> bool" where
  "tx_codec_law L \<longleftrightarrow> (\<forall>tx s. tx_to_base64 L tx = Some s \<longrightarrow> tx_from_base64 L s = Some tx)"

lemma submit_rpc_outcome:
  assumes "submit_transaction_rpc E tx w = (res, w')"
  shows "db w' = db w \<and> (outbox w' = outbox w \<and> (\<exists>e. res = Inl e) \<or> outbox w' = outbox w @ [SubmitTx tx])"
  using assms by (cases res) (auto simp: submit_transaction_rpc_def act_simps)

lemma submit_expire_outcome:
  assumes "tx_codec_law (lib E)" and "submit_expire_transaction E pda c w = (res, w')"
  shows "db w' = db w \<and>
    (outbox w' = outbox w \<and> (\<exists>e. res = Inl e) \<or>
     (\<exists>tx cr aid. pubkey_from_str (lib E) c = Some cr \<and> expire_tx E tx cr aid \<and> outbox w' = outbox w @ [SubmitTx tx]))"
proof -
  have build: "db u' = db u \<and> outbox u' = outbox u" if "build_expire_agreement_tx E cr aid u = (r, u')" for cr aid u r u'
    using that by (cases r) (auto simp: build_expire_agreement_tx_def vault_signed_def get_latest_blockhash_def
        encode_tx_def act_simps)
  have key: "expire_tx E tx cr aid"
    if b: "build_expire_agreement_tx E cr aid u = (Inr s, u')" and d: "tx_from_base64 (lib E) s = Some tx" for cr aid u u' s tx
  proof -
    from vault_signed_Inr [OF b [unfolded build_expire_agreement_tx_def]] obtain tx' where
      t: "tx_to_base64 (lib E) tx' = Some s" "tx_instructions tx' = [expire_agreement_ix E cr aid]"
      "tx_payer tx' = vault_pubkey E" "missing_signers tx' = {}" by auto
    with assms(1) d have "tx' = tx" by (auto simp: tx_codec_law_def)
    with t show ?thesis by (auto simp: expire_tx_def)
  qed
  have full: "db u' = db u \<and> outbox u' = outbox u \<and>
      (\<forall>s tx. r = Inr s \<and> tx_from_base64 (lib E) s = Some tx \<longrightarrow> expire_tx E tx cr aid)"
    if "build_expire_agreement_tx E cr aid u = (r, u')" for cr aid u r u'
    using build [OF that] key that by blast
  from assms(2) show ?thesis
    unfolding submit_expire_transaction_def
    by (cases res) (auto simp: act_simps dest!: full submit_rpc_outcome)
qed

text \<open>
  The rows of \<open>agreement_parties\<close> before and after: only the status of a row changes, only for the
  agreements in \<open>S\<close>, and only between waiting and locked.
\<close>

definition moved :: "string set \<Rightarrow> agreement_party_row \<Rightarrow> agreement_party_row \<Rightarrow> bool" where
  "moved S r r' \<longleftrightarrow>
     (\<exists>s. r' = r\<lparr>ap_status := s\<rparr> \<and>
        (s = ap_status r \<or>
         ap_agreement_pda r \<in> S \<and> {ap_status r, s} = {''PendingSignatures'', ''expiring''}))"

definition parties_moved :: "string set \<Rightarrow> database \<Rightarrow> database \<Rightarrow> bool" where
  "parties_moved S d d' \<longleftrightarrow>
     (\<exists>rs. d' = d\<lparr>agreement_parties := rs\<rparr> \<and> list_all2 (moved S) (agreement_parties d) rs)"

lemma moved_refl: "moved S r r"
  unfolding moved_def by (intro exI [of _ "ap_status r"]) simp

lemma parties_moved_refl: "parties_moved S d d"
  unfolding parties_moved_def
  by (intro exI [of _ "agreement_parties d"]) (simp add: list_all2_same moved_refl)

lemma moved_step:
  assumes "moved S r r'" and "pda \<in> S" and "{a, b} = {''PendingSignatures'', ''expiring''}"
  shows "moved S r (if ap_agreement_pda r' = pda \<and> ap_status r' = a then r'\<lparr>ap_status := b\<rparr> else r')"
proof -
  from assms(1) obtain s where r': "r' = r\<lparr>ap_status := s\<rparr>"
    and s: "s = ap_status r \<or> ap_agreement_pda r \<in> S \<and> {ap_status r, s} = {''PendingSignatures'', ''expiring''}"
    unfolding moved_def by blast
  show ?thesis
  proof (cases "ap_agreement_pda r' = pda \<and> ap_status r' = a")
    case True
    then have "ap_agreement_pda r = pda" "s = a" by (simp_all add: r')
    moreover have "b = ap_status r \<or> {ap_status r, b} = {''PendingSignatures'', ''expiring''}"
      using s assms(3) \<open>s = a\<close> by (auto simp: doubleton_eq_iff)
    ultimately have "moved S r (r\<lparr>ap_status := b\<rparr>)"
      using assms(2) unfolding moved_def by blast
    with True show ?thesis by (simp add: r')
  next
    case False
    with assms(1) show ?thesis by (simp only: if_False)
  qed
qed

lemma parties_moved_step:
  assumes "parties_moved S d d1" and "pda \<in> S" and "{a, b} = {''PendingSignatures'', ''expiring''}"
  shows "parties_moved S d (move_parties pda a b d1)"
proof -
  from assms(1) obtain rs where d1: "d1 = d\<lparr>agreement_parties := rs\<rparr>"
    and all: "list_all2 (moved S) (agreement_parties d) rs" unfolding parties_moved_def by blast
  let ?f = "\<lambda>r. if ap_agreement_pda r = pda \<and> ap_status r = a then r\<lparr>ap_status := b\<rparr> else r"
  have "list_all2 (moved S) (agreement_parties d) (map ?f rs)"
    unfolding list_all2_map2 using all by (rule list_all2_mono) (rule moved_step [OF _ assms(2,3)])
  then show ?thesis
    unfolding parties_moved_def move_parties_def d1 by (intro exI [of _ "map ?f rs"]) (simp add: upd_where_def)
qed

definition expiry_trace :: "env \<Rightarrow> (string \<times> string) set \<Rightarrow> world \<Rightarrow> (string \<times> string) list \<Rightarrow> world \<Rightarrow> bool" where
  "expiry_trace E S w done u \<longleftrightarrow>
     parties_moved (fst ` S) (db w) (db u) \<and>
     (\<exists>txs. outbox u = outbox w @ map SubmitTx txs \<and> length txs \<le> length done \<and>
        (\<forall>tx \<in> set txs. \<exists>pda c cr aid. (pda, c) \<in> S \<and> pubkey_from_str (lib E) c = Some cr \<and> expire_tx E tx cr aid))"

lemma lock_outcome:
  assumes "lock_agreement_for_expiry E pda u = (l, u1)"
  shows "outbox u1 = outbox u \<and>
    (db u1 = db u \<and> (\<exists>e. l = Inl e) \<or>
     db u1 = move_parties pda ''PendingSignatures'' ''expiring'' (db u) \<and> (\<exists>got. l = Inr got))"
  using assms by (cases l) (auto simp: lock_agreement_for_expiry_def act_simps)

lemma unlock_outcome:
  assumes "unlock_agreement_from_expiry E pda u = (l, u1)"
  shows "outbox u1 = outbox u \<and> (db u1 = db u \<or> db u1 = move_parties pda ''expiring'' ''PendingSignatures'' (db u))"
  using assms by (cases l) (auto simp: unlock_agreement_from_expiry_def act_simps)

text \<open>How one turn of the loop can end.\<close>

lemma expire_one_outcome:
  assumes law: "tx_codec_law (lib E)" and run: "expire_one E (pda, c) u = (res, u')"
  shows "res = Inr () \<and>
    (db u' = db u \<or> db u' = move_parties pda ''PendingSignatures'' ''expiring'' (db u) \<or>
     db u' = move_parties pda ''expiring'' ''PendingSignatures'' (move_parties pda ''PendingSignatures'' ''expiring'' (db u))) \<and>
    (outbox u' = outbox u \<or>
     (\<exists>tx cr aid. pubkey_from_str (lib E) c = Some cr \<and> expire_tx E tx cr aid \<and> outbox u' = outbox u @ [SubmitTx tx]))"
proof -
  obtain l u1 where l: "lock_agreement_for_expiry E pda u = (l, u1)" by fastforce
  show ?thesis
  proof (cases "l = Inr True")
    case False
    with l run lock_outcome [OF l] show ?thesis
      by (cases l) (auto simp: expire_one_def bindE_def attempt_def act_simps)
  next
    case True
    obtain r u2 where r: "submit_expire_transaction E pda c u1 = (r, u2)" by fastforce
    note o = lock_outcome [OF l] submit_expire_outcome [OF law r]
    show ?thesis
    proof (cases r)
      case (Inr sig)
      with l True r run o show ?thesis by (auto simp: expire_one_def bindE_def attempt_def act_simps)
    next
      case (Inl e)
      obtain x u3 where x: "unlock_agreement_from_expiry E pda (u2\<lparr>health := mark_degraded (health u2)\<rparr>) = (x, u3)" by fastforce
      from l True r Inl x run have "res = Inr ()" "db u' = db u3" "outbox u' = outbox u3"
        by (cases x; auto simp: expire_one_def bindE_def thenE_def attempt_def degraded_defs act_defs Let_def)+
      with o unlock_outcome [OF x] True show ?thesis by auto
    qed
  qed
qed

lemma expire_one_trace:
  assumes law: "tx_codec_law (lib E)" and tr: "expiry_trace E S w done u" and "row \<in> S"
    and run: "expire_one E row u = (res, u')"
  shows "expiry_trace E S w (done @ [row]) u'"
proof -
  obtain pda c where row: "row = (pda, c)" by (cases row)
  with assms(3) have inS: "(pda, c) \<in> S" "pda \<in> fst ` S" by (auto intro: rev_image_eqI)
  note o = expire_one_outcome [OF law run [unfolded row]]
  have base: "parties_moved (fst ` S) (db w) (db u)" using tr by (simp add: expiry_trace_def)
  note lock = parties_moved_step [OF base inS(2), of "''PendingSignatures''" "''expiring''", OF refl]
  note unlock = parties_moved_step [OF lock inS(2), of "''expiring''" "''PendingSignatures''", OF insert_commute]
  have "parties_moved (fst ` S) (db w) (db u')" using o base lock unlock by auto
  moreover obtain txs where txs: "outbox u = outbox w @ map SubmitTx txs" "length txs \<le> length done"
    "\<forall>tx \<in> set txs. \<exists>pda c cr aid. (pda, c) \<in> S \<and> pubkey_from_str (lib E) c = Some cr \<and> expire_tx E tx cr aid"
    using tr unfolding expiry_trace_def by blast
  have "\<exists>txs. outbox u' = outbox w @ map SubmitTx txs \<and> length txs \<le> length (done @ [row]) \<and>
        (\<forall>tx \<in> set txs. \<exists>pda c cr aid. (pda, c) \<in> S \<and> pubkey_from_str (lib E) c = Some cr \<and> expire_tx E tx cr aid)"
  proof (cases "outbox u' = outbox u")
    case True
    with txs show ?thesis by (intro exI [of _ txs]) auto
  next
    case False
    with o obtain tx cr aid where "pubkey_from_str (lib E) c = Some cr" "expire_tx E tx cr aid"
      "outbox u' = outbox u @ [SubmitTx tx]" by blast
    with txs inS(1) show ?thesis by (intro exI [of _ "txs @ [tx]"]) auto
  qed
  ultimately show ?thesis unfolding expiry_trace_def by blast
qed

text \<open>
  C29 (what an expiry cycle does). A cycle of the expiry worker always returns a status. It submits at most one
  transaction for each overdue agreement: an \<open>expire_agreement\<close> instruction for the creator of an agreement that was
  waiting for signatures past its deadline when the cycle read the table, paid and fully signed by the
  vault. It changes nothing in the tables but the status of rows of those agreements, and that only
  between waiting and locked: a row in any other status, and an agreement that is not overdue, is untouched.
\<close>

theorem expiry_cycle_sound:
  assumes "tx_codec_law (lib E)"
  shows "\<exists>st w' txs. expire_due_agreements E w = (Inr st, w') \<and>
    outbox w' = outbox w @ map SubmitTx txs \<and>
    length txs \<le> length (due_agreements (clock (orc E) (tick w)) (db w)) \<and>
    (\<forall>tx \<in> set txs. \<exists>r cr aid. r \<in> set (agreement_parties (db w)) \<and> overdue (clock (orc E) (tick w)) r \<and>
       pubkey_from_str (lib E) (ap_creator_pubkey r) = Some cr \<and> expire_tx E tx cr aid) \<and>
    parties_moved {ap_agreement_pda r | r. r \<in> set (agreement_parties (db w)) \<and> overdue (clock (orc E) (tick w)) r}
      (db w) (db w')"
proof -
  let ?t = "clock (orc E) (tick w)"
  let ?due = "due_agreements ?t (db w)"
  obtain st w' where run: "expire_due_agreements E w = (Inr st, w')" using expiry_worker.cycle_returns by blast
  have "expiry_trace E (set ?due) w ?due w'"
  proof (cases "db_fault (orc E) (Suc (tick w)) \<or> ?due = []")
    case True
    then have "outbox w' = outbox w \<and> db w' = db w"
      using run by (cases "db_fault (orc E) (Suc (tick w))")
        (auto simp: expire_due_agreements_def degraded_defs act_simps Let_def now_def ask_def)
    then show ?thesis by (auto simp: expiry_trace_def parties_moved_refl)
  next
    case False
    then have loop: "for_each ?due (expire_one E) (tick_on (tick_on w)) = (Inr (), w')"
      using run by (simp add: expire_due_agreements_def act_simps now_def ask_def)
    have "expiry_trace E (set ?due) w [] (tick_on (tick_on w))"
      by (auto simp: expiry_trace_def parties_moved_refl)
    from for_each_invariant [where I = "expiry_trace E (set ?due) w", OF loop this] show ?thesis
      using expire_one_trace [OF assms] by simp
  qed
  then obtain txs where txs: "outbox w' = outbox w @ map SubmitTx txs" "length txs \<le> length ?due"
    "\<forall>tx \<in> set txs. \<exists>pda c cr aid. (pda, c) \<in> set ?due \<and> pubkey_from_str (lib E) c = Some cr \<and> expire_tx E tx cr aid"
    and moved: "parties_moved (fst ` set ?due) (db w) (db w')" unfolding expiry_trace_def by blast
  have due: "(pda, c) \<in> set ?due \<longleftrightarrow>
      (\<exists>r \<in> set (agreement_parties (db w)). overdue ?t r \<and> ap_agreement_pda r = pda \<and> ap_creator_pubkey r = c)" for pda c
    by (auto simp: due_agreements_def)
  have "fst ` set ?due = {ap_agreement_pda r | r. r \<in> set (agreement_parties (db w)) \<and> overdue ?t r}"
    by (auto simp: due_agreements_def image_iff)
  with run txs moved due show ?thesis by (intro exI [of _ st] exI [of _ w'] exI [of _ txs]) (simp, blast)
qed

definition sample_expire_tx :: transaction where
  "sample_expire_tx = (new_unsigned (expire_agreement_ix sample_env (as_bytes ''alice'') (replicate 16 7)) [1])
     \<lparr>tx_blockhash := Some [], tx_signed_by := [[1]]\<rparr>"

definition sample_expiry_env :: env where
  "sample_expiry_env = sample_env
     \<lparr>lib := sample_libs\<lparr>tx_to_base64 := (\<lambda>tx. if tx = sample_expire_tx then Some ''tx'' else None),
        tx_from_base64 := (\<lambda>s. if s = ''tx'' then Some sample_expire_tx else None)\<rparr>,
      orc := sample_outside\<lparr>rpc_account_data := (\<lambda>k p. Some (replicate 48 7))\<rparr>\<rparr>"

definition sample_overdue_world :: world where
  "sample_overdue_world = empty_world\<lparr>db := empty_db\<lparr>agreement_parties :=
     [\<lparr>ap_party_pubkey = ''bob'', ap_agreement_pda = ''pda'', ap_creator_pubkey = ''alice'',
       ap_status = ''PendingSignatures'', ap_signed_at = None, ap_created_at = 0, ap_expires_at = 500, ap_title = ''T''\<rparr>]\<rparr>\<rparr>"

lemma sample_codec: "tx_codec_law (lib sample_expiry_env)"
  by (auto simp: tx_codec_law_def sample_expiry_env_def split: if_splits)

lemma sample_submit_expire: "\<exists>sig u'. submit_expire_transaction sample_expiry_env ''pda'' ''alice'' u = (Inr sig, u')"
proof -
  have data: "expiry_id_bytes (replicate 48 7) = Some (replicate 16 7)" by (simp add: expiry_id_bytes_def)
  have ix: "expire_agreement_ix sample_expiry_env cr aid = expire_agreement_ix sample_env cr aid" for cr aid
    by (simp add: expire_agreement_ix_def derive_agreement_pda_def sample_expiry_env_def sample_env_def sample_libs_def)
  show ?thesis
    using data ix [of "as_bytes ''alice''" "replicate 16 7"]
    by (simp add: submit_expire_transaction_def submit_transaction_rpc_def build_expire_agreement_tx_def vault_signed_def
        get_latest_blockhash_def try_partial_sign_def encode_tx_def new_unsigned_def act_simps)
      (simp add: sample_expiry_env_def sample_defs sample_expire_tx_def new_unsigned_def as_bytes_def)
qed

theorem expiry_cycle_sound_witness:
  "\<exists>st w' txs. expire_due_agreements sample_expiry_env sample_overdue_world = (Inr st, w') \<and>
     outbox w' = map SubmitTx txs \<and> length txs \<le> 1"
proof -
  have "due_agreements (clock (orc sample_expiry_env) (tick sample_overdue_world)) (db sample_overdue_world) = [(''pda'', ''alice'')]"
    by (simp add: due_agreements_def overdue_def sample_overdue_world_def sample_expiry_env_def sample_defs)
  with expiry_cycle_sound [OF sample_codec, of sample_overdue_world] show ?thesis
    by (auto simp: sample_overdue_world_def empty_world_def)
qed

section \<open>Nothing overdue is left behind\<close>

definition locked_rows :: "string set \<Rightarrow> agreement_party_row list \<Rightarrow> agreement_party_row list" where
  "locked_rows S rs = map (\<lambda>r. if ap_agreement_pda r \<in> S \<and> ap_status r = ''PendingSignatures''
     then r\<lparr>ap_status := ''expiring''\<rparr> else r) rs"

lemma move_locked_rows:
  "upd_where (\<lambda>r. ap_agreement_pda r = pda \<and> ap_status r = ''PendingSignatures'')
     (\<lambda>r. r\<lparr>ap_status := ''expiring''\<rparr>) (locked_rows S rs) = locked_rows (insert pda S) rs"
  by (induction rs) (auto simp: locked_rows_def)

text \<open>After the agreements in \<open>zs\<close>: their waiting rows are locked, and one transaction was submitted for each.\<close>

definition locked_so_far :: "world \<Rightarrow> (string \<times> string) list \<Rightarrow> world \<Rightarrow> bool" where
  "locked_so_far w zs u \<longleftrightarrow> agreement_parties (db u) = locked_rows (fst ` set zs) (agreement_parties (db w)) \<and>
     length (outbox u) = length (outbox w) + card (fst ` set zs)"

lemma expire_one_locks:
  assumes law: "tx_codec_law (lib E)" and db: "\<And>k. \<not> db_fault (orc E) k"
    and sub: "\<And>u. \<exists>sig u'. submit_expire_transaction E (fst x) (snd x) u = (Inr sig, u')"
    and xd: "x \<in> set (due_agreements t (db w))" and I: "locked_so_far w zs u" and run: "expire_one E x u = (Inr (), u')"
  shows "locked_so_far w (zs @ [x]) u'"
proof -
  obtain pda c where x: "x = (pda, c)" by (cases x)
  have lock: "lock_agreement_for_expiry E pda u = (Inr (\<exists>r \<in> set (agreement_parties (db u)).
      ap_agreement_pda r = pda \<and> ap_status r = ''PendingSignatures''),
      (tick_on u)\<lparr>db := move_parties pda ''PendingSignatures'' ''expiring'' (db u)\<rparr>)"
    using db by (simp add: lock_agreement_for_expiry_def sql_def)
  have moved: "agreement_parties (move_parties pda ''PendingSignatures'' ''expiring'' (db u)) =
      locked_rows (insert pda (fst ` set zs)) (agreement_parties (db w))"
    using I by (simp add: move_parties_def locked_so_far_def move_locked_rows)
  show ?thesis
  proof (cases "\<exists>r \<in> set (agreement_parties (db u)). ap_agreement_pda r = pda \<and> ap_status r = ''PendingSignatures''")
    case True
    then have new: "pda \<notin> fst ` set zs" using I by (auto simp: locked_so_far_def locked_rows_def split: if_splits)
    obtain sig u2 where s: "submit_expire_transaction E pda c ((tick_on u)\<lparr>db := move_parties pda ''PendingSignatures'' ''expiring'' (db u)\<rparr>)
        = (Inr sig, u2)" using sub [unfolded x fst_conv snd_conv] by blast
    with run x lock True have "u' = u2" by (simp add: expire_one_def attempt_def act_simps)
    with submit_expire_outcome [OF law s] moved new I show ?thesis by (auto simp: locked_so_far_def x)
  next
    case False
    have "pda \<in> fst ` set zs"
    proof (rule ccontr)
      assume "pda \<notin> fst ` set zs"
      moreover obtain r where "r \<in> set (agreement_parties (db w))" "ap_agreement_pda r = pda" "ap_status r = ''PendingSignatures''"
        using xd x by (auto simp: due_agreements_def overdue_def)
      ultimately have "r \<in> set (agreement_parties (db u))" using I by (force simp: locked_so_far_def locked_rows_def)
      with False \<open>ap_agreement_pda r = pda\<close> \<open>ap_status r = _\<close> show "False" by blast
    qed
    moreover have "u' = (tick_on u)\<lparr>db := move_parties pda ''PendingSignatures'' ''expiring'' (db u)\<rparr>"
      using run x lock False by (simp add: expire_one_def attempt_def act_simps)
    ultimately show ?thesis using moved I by (simp add: locked_so_far_def x insert_absorb)
  qed
qed

text \<open>
  C30 (every overdue agreement is expired). When the database answers and the submissions for the overdue agreements
  succeed, one cycle submits exactly one transaction for each overdue agreement and locks all its rows that
  were waiting, so no overdue row is left; every other row is unchanged.
\<close>

theorem expiry_cycle_complete:
  assumes law: "tx_codec_law (lib E)" and db: "\<And>k. \<not> db_fault (orc E) k"
    and sub: "\<And>pda c u. (pda, c) \<in> set (due_agreements (clock (orc E) (tick w)) (db w)) \<Longrightarrow>
      \<exists>sig u'. submit_expire_transaction E pda c u = (Inr sig, u')"
    and S: "S = {ap_agreement_pda r | r. r \<in> set (agreement_parties (db w)) \<and> overdue (clock (orc E) (tick w)) r}"
  shows "\<exists>w'. expire_due_agreements E w = (Inr WS_Healthy, w') \<and>
    agreement_parties (db w') = locked_rows S (agreement_parties (db w)) \<and>
    (\<forall>r \<in> set (agreement_parties (db w')). \<not> overdue (clock (orc E) (tick w)) r) \<and>
    length (outbox w') = length (outbox w) + card S"
proof -
  let ?t = "clock (orc E) (tick w)" and ?rs = "agreement_parties (db w)"
  let ?due = "due_agreements ?t (db w)"
  have fd: "fst ` set ?due = S" by (auto simp: S due_agreements_def image_iff)
  have step: "locked_so_far w (zs @ [x]) u'" if "x \<in> set ?due" "locked_so_far w zs u" "expire_one E x u = (Inr (), u')" for zs x u u'
    using expire_one_locks [OF law db _ that] sub [of "fst x" "snd x"] that(1) by simp
  obtain st w' where run: "expire_due_agreements E w = (Inr st, w')" using expiry_worker.cycle_returns by blast
  have "st = WS_Healthy \<and> locked_so_far w ?due w'"
  proof (cases "?due = []")
    case True
    with run db show ?thesis
      by (auto simp: expire_due_agreements_def act_simps now_def ask_def locked_so_far_def locked_rows_def)
  next
    case False
    then have st: "st = WS_Healthy" and loop: "for_each ?due (expire_one E) (tick_on (tick_on w)) = (Inr (), w')"
      using run db by (simp_all add: expire_due_agreements_def act_simps now_def ask_def)
    have "locked_so_far w [] (tick_on (tick_on w))" by (simp add: locked_so_far_def locked_rows_def)
    from for_each_invariant [where I = "locked_so_far w", OF loop this step] st show ?thesis by simp
  qed
  moreover have "\<not> overdue ?t r" if "r \<in> set (locked_rows S ?rs)" for r
    using that by (auto simp: locked_rows_def S overdue_def split: if_splits)
  ultimately show ?thesis using run by (auto simp: locked_so_far_def fd)
qed

theorem expiry_cycle_complete_witness:
  "\<exists>w'. expire_due_agreements sample_expiry_env sample_overdue_world = (Inr WS_Healthy, w') \<and>
     length (outbox w') = 1"
proof -
  have due: "due_agreements (clock (orc sample_expiry_env) (tick sample_overdue_world)) (db sample_overdue_world) = [(''pda'', ''alice'')]"
    by (simp add: due_agreements_def overdue_def sample_overdue_world_def sample_expiry_env_def sample_defs)
  have S: "{''pda''} = {ap_agreement_pda r | r. r \<in> set (agreement_parties (db sample_overdue_world)) \<and>
      overdue (clock (orc sample_expiry_env) (tick sample_overdue_world)) r}"
    by (auto simp: overdue_def sample_overdue_world_def sample_expiry_env_def sample_defs)
  have "\<not> db_fault (orc sample_expiry_env) k" for k by (simp add: sample_expiry_env_def sample_defs)
  from expiry_cycle_complete [OF sample_codec this _ S] sample_submit_expire
  show ?thesis unfolding due by (auto simp: sample_overdue_world_def empty_world_def)
qed

section \<open>Which agreement is expired\<close>

text \<open>
  The identifier the worker reads. An agreement account holds the eight bytes of Anchor's discriminator, the
  creator's key and the identifier, in this order. The sixteen bytes the worker takes for the identifier
  are the last eight of the creator's key followed by the first eight of the identifier: they are the
  identifier only when they happen to coincide.
\<close>

theorem expiry_reads_creator_bytes:
  assumes "length disc = 8" and "length cr = 32" and "length aid = 16"
  shows "expiry_id_bytes (disc @ cr @ aid @ rest) = Some (drop 24 cr @ take 8 aid)"
  using assms by (simp add: expiry_id_bytes_def)

theorem expiry_reads_creator_bytes_witness:
  "expiry_id_bytes (replicate 8 0 @ replicate 32 1 @ replicate 16 2 @ []) = Some (replicate 8 1 @ replicate 8 2)"
  using expiry_reads_creator_bytes [of "replicate 8 0" "replicate 32 1" "replicate 16 2" "[]"] by simp

end
