(* ===== verification/Keeper.thy ===== *)
theory Keeper
  imports Invite Payment Worker_Loop
begin

text \<open>
  \<^verbatim>\<open>src/src/workers/keeper.rs\<close>: the seven scans of the housekeeping cycle and the circuit breaker. What a scan
  only logs (balances, sweep amounts) is left out, but the calls it makes are there. \<open>f64\<close> arithmetic is
  real arithmetic rounded by the parameter \<open>round_f64\<close>.
\<close>

section \<open>Invitations\<close>

text \<open>
  Scan 1. The join finds the invitation's draft, the account whose (first) wallet created it, and its
  contact row; only the invitation's identifier is used.
\<close>

definition reminder_rows :: "int \<Rightarrow> database \<Rightarrow> uuid list" where
  "reminder_rows threshold d =
     [inv_id i. i \<leftarrow> party_invitations d, r \<leftarrow> agreement_drafts d, u \<leftarrow> user_accounts d, c \<leftarrow> user_contacts d,
        inv_draft_id i = dr_id r \<and> user_wallet (ua_id u) d = Some (dr_creator_pubkey r) \<and>
        ua_id u = uc_user_id c \<and> inv_status i = ''pending'' \<and> inv_reminder_count i = 0 \<and>
        inv_created_at i < threshold \<and> uc_email_enc c \<noteq> None]"

definition mark_reminded :: "uuid \<Rightarrow> int \<Rightarrow> database \<Rightarrow> (unit \<times> database) option" where
  "mark_reminded iid t d =
     (if \<exists>i \<in> set (party_invitations d). inv_id i = iid \<and> inv_reminder_count i + 1 > 2147483647 then None
      else Some ((), d\<lparr>party_invitations := upd_where (\<lambda>i. inv_id i = iid)
        (\<lambda>i. i\<lparr>inv_reminder_sent_at := Some t, inv_reminder_count := inv_reminder_count i + 1\<rparr>) (party_invitations d)\<rparr>))"

definition remind_one :: "env \<Rightarrow> uuid \<Rightarrow> (world, app_error, unit) act" where
  "remind_one E iid =
     bindE (attempt (send_email E ''invited@example.com'' NE_InvitationReminder None)) (\<lambda>r.
     case r of
       Inl e \<Rightarrow> ret ()
     | Inr _ \<Rightarrow>
         bindE (now E) (\<lambda>t.
         bindE (attempt (sql E InternalError (\<lambda>_ _. mark_reminded iid t))) (\<lambda>_. ret ())))"

definition send_invitation_reminders :: "env \<Rightarrow> (world, app_error, unit) act" where
  "send_invitation_reminders E =
     bindE (now E) (\<lambda>t.
     let threshold = wrap_i64 (t - as_i64 (invite_reminder_after_seconds (cfg E))) in
     bindE (attempt (sql_select E InternalError (reminder_rows threshold))) (\<lambda>result.
     case result of
       Inl e \<Rightarrow> ret ()
     | Inr rows \<Rightarrow> for_each rows (remind_one E)))"

text \<open>Scan 2.\<close>

definition expire_invitations :: "int \<Rightarrow> database \<Rightarrow> database" where
  "expire_invitations t d =
     d\<lparr>party_invitations := upd_where (\<lambda>i. inv_status i = ''pending'' \<and> inv_expires_at i < t)
       (\<lambda>i. i\<lparr>inv_status := ''expired''\<rparr>) (party_invitations d)\<rparr>"

definition expire_stale_invitations :: "env \<Rightarrow> (world, app_error, unit) act" where
  "expire_stale_invitations E =
     bindE (now E) (\<lambda>t.
     bindE (attempt (sql_update E InternalError (expire_invitations t))) (\<lambda>_. ret ()))"

section \<open>Wallets and treasury\<close>

definition circuit_breaker_status :: "real \<Rightarrow> real \<Rightarrow> (worker_status \<times> degradation_reason) option" where
  "circuit_breaker_status vault_sol vault_min_sol =
     (if vault_sol < vault_min_sol
      then let reason = CircuitBreakerTripped in Some (suggested_status reason, reason)
      else None)"

text \<open>\<open>vault_sol as f64 / 1_000_000_000.0\<close>\<close>

definition sol_of_lamports :: "env \<Rightarrow> u64 \<Rightarrow> real" where
  "sol_of_lamports E lamports = round_f64 (lib E) (round_f64 (lib E) (real_of_int (uint lamports)) / 1000000000)"

text \<open>Scan 3. After the breaker the function only logs; it returns \<open>Healthy\<close> on each of its paths.\<close>

definition check_treasury :: "env \<Rightarrow> (world, app_error, worker_status) act" where
  "check_treasury E =
     (case pubkey_from_str (lib E) (mint (usdc (stablecoin_registry (cfg E)))) of
        None \<Rightarrow> ret WS_Healthy
      | Some usdc_mint \<Rightarrow>
          let usdc_ata = get_associated_token_address (lib E) (treasury_pubkey E) usdc_mint in
          bindE (attempt (spawn_blocking E InternalError (\<lambda>k. rpc_token_balance (orc E) k usdc_ata))) (\<lambda>_.
          ret WS_Healthy))"

definition check_hot_wallet_balances :: "env \<Rightarrow> (world, app_error, worker_status) act" where
  "check_hot_wallet_balances E =
     bindE (attempt (spawn_blocking E InternalError (\<lambda>k. rpc_balance (orc E) k (vault_pubkey E)))) (\<lambda>r.
     case r of
       Inl e \<Rightarrow> ret WS_Healthy
     | Inr None \<Rightarrow> ret WS_Healthy
     | Inr (Some vault_sol) \<Rightarrow>
         (case circuit_breaker_status (sol_of_lamports E vault_sol) (vault_min_sol_circuit_breaker (cfg E)) of
            Some (st, reason) \<Rightarrow>
              thenE (modify (\<lambda>w. w\<lparr>health := mark_degraded (health w)\<rparr>)) (ret st)
          | None \<Rightarrow> check_treasury E))"

text \<open>Scan 4. The transfers themselves are not implemented in the source: it only logs the amounts.\<close>

definition should_sweep :: "int \<Rightarrow> database \<Rightarrow> bool" where
  "should_sweep t d \<longleftrightarrow> \<not> (\<exists>x \<in> set (sweep_config d). snd x > t - 86400)"

definition mark_swept :: "int \<Rightarrow> database \<Rightarrow> database" where
  "mark_swept t d =
     d\<lparr>sweep_config :=
       (if 1 \<in> set (map fst (sweep_config d))
        then upd_where (\<lambda>x. fst x = 1) (\<lambda>x. (1, t)) (sweep_config d)
        else sweep_config d @ [(1, t)])\<rparr>"

definition sweep_one :: "env \<Rightarrow> stablecoin_info \<Rightarrow> (world, app_error, unit) act" where
  "sweep_one E stablecoin =
     (case pubkey_from_str (lib E) (mint stablecoin) of
        None \<Rightarrow> ret ()
      | Some m \<Rightarrow>
          let a = get_associated_token_address (lib E) (treasury_pubkey E) m in
          bindE (attempt (spawn_blocking E InternalError (\<lambda>k. rpc_token_balance (orc E) k a))) (\<lambda>_. ret ()))"

definition should_sweep_from_query_result :: "app_error + bool \<Rightarrow> bool option" where
  "should_sweep_from_query_result r = (case r of Inr should \<Rightarrow> Some should | Inl e \<Rightarrow> None)"

definition sweep_treasury_excess :: "env \<Rightarrow> (world, app_error, unit) act" where
  "sweep_treasury_excess E =
     bindE (attempt (sql E InternalError (\<lambda>t _ d. Some (should_sweep t d, d)))) (\<lambda>result.
     case should_sweep_from_query_result result of
       None \<Rightarrow> ret ()
     | Some b \<Rightarrow>
         if \<not> b then ret ()
         else
           (case pubkey_from_str (lib E) (treasury_sweep_dest (cfg E)) of
              None \<Rightarrow> ret ()
            | Some sweep_dest \<Rightarrow>
                let reg = stablecoin_registry (cfg E) in
                thenE (for_each [usdc reg, usdt reg, pyusd reg] (sweep_one E))
                (bindE (now E) (\<lambda>t.
                 bindE (attempt (sql_update E InternalError (mark_swept t))) (\<lambda>_. ret ())))))"

section \<open>Payments\<close>

text \<open>Scan 5.\<close>

definition expire_payments :: "int \<Rightarrow> database \<Rightarrow> database" where
  "expire_payments threshold d =
     d\<lparr>agreement_payments := upd_where (\<lambda>p. pay_status p = ''pending'' \<and> pay_created_at p < threshold)
       (\<lambda>p. p\<lparr>pay_status := ''expired''\<rparr>) (agreement_payments d)\<rparr>"

definition expire_timed_out_payments :: "env \<Rightarrow> (world, app_error, unit) act" where
  "expire_timed_out_payments E =
     bindE (now E) (\<lambda>t.
     bindE (attempt (sql_update E InternalError (expire_payments (wrap_i64 (t - 900))))) (\<lambda>_. ret ()))"

text \<open>Scan 6.\<close>

definition late_payments :: "int \<Rightarrow> database \<Rightarrow> (uuid \<times> string) list" where
  "late_payments threshold d =
     List.map_filter (\<lambda>p. map_option (Pair (pay_id p)) (pay_token_reference_pubkey p))
       (filter (\<lambda>p. pay_status p = ''expired'' \<and> pay_created_at p > threshold) (agreement_payments d))"

definition mark_refund_pending :: "uuid \<Rightarrow> int \<Rightarrow> database \<Rightarrow> database" where
  "mark_refund_pending pid t d =
     d\<lparr>agreement_payments := upd_where (\<lambda>p. pay_id p = pid)
       (\<lambda>p. p\<lparr>pay_status := ''refund_pending'', pay_refund_initiated_at := Some t\<rparr>) (agreement_payments d)\<rparr>"

definition reconcile_one :: "env \<Rightarrow> uuid \<times> string \<Rightarrow> (world, app_error, unit) act" where
  "reconcile_one E row =
     (case row of (payment_id, reference) \<Rightarrow>
      case pubkey_from_str (lib E) reference of
        None \<Rightarrow> ret ()
      | Some ref_pubkey \<Rightarrow>
          bindE (attempt (spawn_blocking E InternalError (\<lambda>k. rpc_account_data (orc E) k ref_pubkey \<noteq> None))) (\<lambda>r.
          case r of
            Inl e \<Rightarrow> ret ()
          | Inr found \<Rightarrow>
              if found
              then bindE (attempt (sql E InternalError (\<lambda>t _ d. Some ((), mark_refund_pending payment_id t d)))) (\<lambda>_. ret ())
              else ret ()))"

definition reconcile_late_payments :: "env \<Rightarrow> (world, app_error, unit) act" where
  "reconcile_late_payments E =
     bindE (now E) (\<lambda>t.
     bindE (attempt (sql_select E InternalError (late_payments (wrap_i64 (t - 3600))))) (\<lambda>r.
     for_each (case r of Inl e \<Rightarrow> [] | Inr payments \<Rightarrow> payments) (reconcile_one E)))"

section \<open>Authentication records\<close>

text \<open>Scan 7.\<close>

definition drop_old_nonces :: "int \<Rightarrow> database \<Rightarrow> database" where
  "drop_old_nonces threshold d = d\<lparr>siws_nonces := del_where (\<lambda>r. sn_created_at r < threshold) (siws_nonces d)\<rparr>"

definition drop_old_tokens :: "int \<Rightarrow> database \<Rightarrow> database" where
  "drop_old_tokens t d = d\<lparr>refresh_tokens := del_where (\<lambda>r. rt_expires_at r < t) (refresh_tokens d)\<rparr>"

definition cleanup_expired_auth_records :: "env \<Rightarrow> (world, app_error, unit) act" where
  "cleanup_expired_auth_records E =
     bindE (now E) (\<lambda>t.
     bindE (attempt (sql_update E InternalError (drop_old_nonces (wrap_i64 (t - 300))))) (\<lambda>_.
     bindE (now E) (\<lambda>t'.
     bindE (attempt (sql_update E InternalError (drop_old_tokens t'))) (\<lambda>_. ret ()))))"

section \<open>Cycle\<close>

definition keeper_tail :: "env \<Rightarrow> (world, app_error, unit) act" where
  "keeper_tail E =
     thenE (sweep_treasury_excess E)
     (thenE (expire_timed_out_payments E)
     (thenE (reconcile_late_payments E)
     (cleanup_expired_auth_records E)))"

definition keeper_cycle :: "env \<Rightarrow> (world, app_error, worker_status) act" where
  "keeper_cycle E =
     thenE (send_invitation_reminders E)
     (thenE (expire_stale_invitations E)
     (bindE (check_hot_wallet_balances E) (\<lambda>st.
      if st = WS_Disabled then ret st
      else thenE (keeper_tail E) (ret st))))"

definition keeper_run :: "env \<Rightarrow> nat \<Rightarrow> world \<Rightarrow> worker_status \<times> world" where
  "keeper_run E n = worker_run (keeper_cycle E) n WS_Healthy"

lemmas keeper_defs =
  keeper_cycle_def keeper_tail_def send_invitation_reminders_def remind_one_def expire_stale_invitations_def
  check_hot_wallet_balances_def check_treasury_def sweep_treasury_excess_def sweep_one_def expire_timed_out_payments_def
  reconcile_late_payments_def reconcile_one_def cleanup_expired_auth_records_def

interpretation keeper: worker keeper_cycle
proof unfold_locales
  fix E :: env
  show "total_act (keeper_cycle E)" unfolding keeper_defs Let_def by (intro total_intros)
  have m: "keeps health_degrades (modify (\<lambda>w. w\<lparr>health := mark_degraded (health w)\<rparr>) :: (world, app_error, unit) act)"
    by (auto intro!: keepsI simp: act_simps)
  show "keeps health_degrades (keeper_cycle E)"
    unfolding keeper_defs Let_def by (intro keeps_intros m) simp
qed

section \<open>What the cycle keeps\<close>

text \<open>Rows selected by \<open>late_payments\<close> are expired; marking them one after the other is a step of their life.\<close>

lemma late_payments_expired:
  assumes "pay_inv d" and "i \<in> fst ` set (late_payments t d)" and "p \<in> set (agreement_payments d)" and "pay_id p = i"
  shows "pay_status p = ''expired''"
proof -
  from assms(2) obtain q where q: "q \<in> set (agreement_payments d)" "pay_id q = i" "pay_status q = ''expired''"
    by (auto simp: late_payments_def List.map_filter_def)
  with assms(1,3,4) have "q = p" by (auto simp: pay_inv_def distinct_map dest: inj_onD)
  with q show ?thesis by simp
qed

lemma pay_inv_status_update:
  assumes "\<And>p. pay_id (f p) = pay_id p" and "\<And>p. pay_token_reference_pubkey (f p) = pay_token_reference_pubkey p"
    and "\<And>p. pay_token_tx_signature (f p) = pay_token_tx_signature p"
  shows "pay_inv (d\<lparr>agreement_payments := upd_where P f (agreement_payments d)\<rparr>) = pay_inv d"
  by (simp add: pay_inv_def map_upd_where map_filter_upd_where assms)

text \<open>Sending a payment to the refund queue is a step of its life if it is expired, confirmed or there already.\<close>

lemma payments_marked:
  assumes "pay_inv d"
    and "\<And>p. p \<in> set (agreement_payments d) \<Longrightarrow> pay_id p = i \<Longrightarrow> pay_status p \<in> {''expired'', ''confirmed'', ''refund_pending''}"
  shows "payments_evolve d (mark_refund_pending i t d)" "pay_inv (mark_refund_pending i t d)"
proof -
  have "payment_step\<^sup>*\<^sup>* s ''refund_pending''" if "s \<in> {''expired'', ''confirmed'', ''refund_pending''}" for s
    using that by (auto simp: payment_step_def)
  then show "payments_evolve d (mark_refund_pending i t d)"
    using assms(2) by (intro evolves_update [where P = "\<lambda>p. pay_id p = i"
          and f = "\<lambda>p. p\<lparr>pay_status := ''refund_pending'', pay_refund_initiated_at := Some t\<rparr>"])
      (simp_all add: mark_refund_pending_def pay_key_def)
  show "pay_inv (mark_refund_pending i t d)"
    using assms(1) unfolding mark_refund_pending_def by (subst pay_inv_status_update) auto
qed

lemma keeps_reconcile:
  "keeps (db_frame (\<lambda>d. pay_inv d \<and> payments_evolve d0 d)) (reconcile_late_payments E)"
proof (rule keepsI)
  fix w r w' assume run: "reconcile_late_payments E w = (r, w')"
  let ?rows = "if db_fault (orc E) (Suc (tick w)) then [] else late_payments (wrap_i64 (clock (orc E) (tick w) - 3600)) (db w)"
  define Q where "Q = (\<lambda>d. (pay_inv d \<and> payments_evolve d0 d) \<and>
    (\<forall>p \<in> set (agreement_payments d). pay_id p \<in> fst ` set ?rows \<longrightarrow> pay_status p \<in> {''expired'', ''refund_pending''}))"
  have loop: "for_each ?rows (reconcile_one E) (tick_on (tick_on w)) = (r, w')"
    using run by (cases "db_fault (orc E) (Suc (tick w))")
      (simp_all add: reconcile_late_payments_def now_def ask_def)
  have mark: "Q (mark_refund_pending i t d)" if i: "i \<in> fst ` set ?rows" and Q: "Q d" for i t d
  proof -
    have "pay_inv d" "\<And>p. p \<in> set (agreement_payments d) \<Longrightarrow> pay_id p = i \<Longrightarrow>
        pay_status p \<in> {''expired'', ''confirmed'', ''refund_pending''}"
      using Q i unfolding Q_def by blast+
    from payments_marked [OF this] have "payments_evolve d0 (mark_refund_pending i t d)" "pay_inv (mark_refund_pending i t d)"
      using Q evolves_trans unfolding Q_def by blast+
    moreover have "\<forall>p \<in> set (agreement_payments (mark_refund_pending i t d)).
        pay_id p \<in> fst ` set ?rows \<longrightarrow> pay_status p \<in> {''expired'', ''refund_pending''}"
      using Q unfolding mark_refund_pending_def Q_def by (simp add: ball_upd_where)
    ultimately show ?thesis by (simp add: Q_def)
  qed
  have "keeps (db_frame Q) (reconcile_one E x)" if "x \<in> set ?rows" for x
    unfolding reconcile_one_def using that
    by (auto intro!: keeps_intros keeps_db_frame_sql mark intro: rev_image_eqI split: prod.splits)
  then have "keeps (db_frame Q) (for_each ?rows (reconcile_one E))"
    by (intro keeps_for_each frame_reflp frame_transp frame_db_frame)
  from keepsD [OF this loop] have "Q (db w) \<longrightarrow> Q (db w')" by (simp add: db_frame_def)
  moreover have "pay_inv (db w) \<and> payments_evolve d0 (db w) \<longrightarrow> Q (db w)"
    unfolding Q_def using late_payments_expired [of "db w" _ "wrap_i64 (clock (orc E) (tick w) - 3600)"] by simp
  ultimately show "db_frame (\<lambda>d. pay_inv d \<and> payments_evolve d0 d) w w'"
    unfolding db_frame_def Q_def by blast
qed

text \<open>Each scan keeps what its statement keeps.\<close>

lemma keeps_mark_health [keeps_intros]:
  "keeps (db_frame P) (modify (\<lambda>w. w\<lparr>health := mark_degraded (health w)\<rparr>))"
  by (auto intro!: keepsI simp: act_simps db_frame_def)

lemma keeps_reminders:
  assumes "\<And>d i t x d'. mark_reminded i t d = Some (x, d') \<Longrightarrow> P d \<Longrightarrow> P d'"
  shows "keeps (db_frame P) (send_invitation_reminders E)"
proof -
  have mail: "keeps (db_frame P) (send_email E a b c)" for a b c
    by (rule keeps_send_email) (simp_all add: frame_db_frame db_frame_def)
  have "keeps (db_frame P) (remind_one E i)" for i
    unfolding remind_one_def by (intro keeps_intros mail keeps_db_frame_sql) (use assms in auto)
  then show ?thesis unfolding send_invitation_reminders_def Let_def by (intro keeps_intros)
qed

lemma keeps_stale:
  "(\<And>d t. P d \<Longrightarrow> P (expire_invitations t d)) \<Longrightarrow> keeps (db_frame P) (expire_stale_invitations E)"
  unfolding expire_stale_invitations_def by (intro keeps_intros keeps_db_frame_update)

lemma keeps_check: "keeps (db_frame P) (check_hot_wallet_balances E)"
  unfolding check_hot_wallet_balances_def check_treasury_def Let_def by (intro keeps_intros)

lemma keeps_sweep:
  "(\<And>d t. P d \<Longrightarrow> P (mark_swept t d)) \<Longrightarrow> keeps (db_frame P) (sweep_treasury_excess E)"
  unfolding sweep_treasury_excess_def sweep_one_def Let_def
  by (intro keeps_intros keeps_db_frame_update keeps_db_frame_sql) auto

lemma keeps_timed_out:
  "(\<And>d t. P d \<Longrightarrow> P (expire_payments t d)) \<Longrightarrow> keeps (db_frame P) (expire_timed_out_payments E)"
  unfolding expire_timed_out_payments_def by (intro keeps_intros keeps_db_frame_update)

lemma keeps_reconcile_all:
  "(\<And>d i t. P d \<Longrightarrow> P (mark_refund_pending i t d)) \<Longrightarrow> keeps (db_frame P) (reconcile_late_payments E)"
  unfolding reconcile_late_payments_def reconcile_one_def by (intro keeps_intros keeps_db_frame_sql) auto

lemma keeps_cleanup:
  "(\<And>d t. P d \<Longrightarrow> P (drop_old_nonces t d)) \<Longrightarrow> (\<And>d t. P d \<Longrightarrow> P (drop_old_tokens t d)) \<Longrightarrow>
   keeps (db_frame P) (cleanup_expired_auth_records E)"
  unfolding cleanup_expired_auth_records_def by (intro keeps_intros keeps_db_frame_update)

lemma keeps_keeper_cycle:
  assumes "\<And>d i t x d'. mark_reminded i t d = Some (x, d') \<Longrightarrow> P d \<Longrightarrow> P d'" and "\<And>d t. P d \<Longrightarrow> P (expire_invitations t d)"
    and "\<And>d t. P d \<Longrightarrow> P (mark_swept t d)" and "\<And>d t. P d \<Longrightarrow> P (expire_payments t d)"
    and "\<And>d t. P d \<Longrightarrow> P (drop_old_nonces t d)" and "\<And>d t. P d \<Longrightarrow> P (drop_old_tokens t d)"
    and "keeps (db_frame P) (reconcile_late_payments E)"
  shows "keeps (db_frame P) (keeper_cycle E)"
proof -
  have "keeps (db_frame P) (send_invitation_reminders E)" by (rule keeps_reminders) (rule assms(1))
  moreover have "keeps (db_frame P) (expire_stale_invitations E)" by (rule keeps_stale) (rule assms(2))
  moreover have "keeps (db_frame P) (sweep_treasury_excess E)" by (rule keeps_sweep) (rule assms(3))
  moreover have "keeps (db_frame P) (expire_timed_out_payments E)" by (rule keeps_timed_out) (rule assms(4))
  moreover have "keeps (db_frame P) (cleanup_expired_auth_records E)" by (rule keeps_cleanup; fact assms(5,6))
  ultimately show ?thesis
    unfolding keeper_cycle_def keeper_tail_def by (intro keeps_intros keeps_check assms(7))
qed

text \<open>The statements of the scans as steps of the life cycles.\<close>

lemma payments_timed_out:
  assumes "pay_inv d"
  shows "payments_evolve d (expire_payments t d)" "pay_inv (expire_payments t d)"
proof -
  show "payments_evolve d (expire_payments t d)"
    by (rule evolves_update [where P = "\<lambda>p. pay_status p = ''pending'' \<and> pay_created_at p < t"
          and f = "\<lambda>p. p\<lparr>pay_status := ''expired''\<rparr>"])
      (auto simp: expire_payments_def pay_key_def payment_step_def)
  show "pay_inv (expire_payments t d)"
    using assms unfolding expire_payments_def by (subst pay_inv_status_update) auto
qed

lemma invitations_evolve_reminded: "mark_reminded i t d = Some (x, d') \<Longrightarrow> invitations_evolve d d'"
  by (intro evolves_update [where P = "\<lambda>j. inv_id j = i"
        and f = "\<lambda>j. j\<lparr>inv_reminder_sent_at := Some t, inv_reminder_count := inv_reminder_count j + 1\<rparr>"])
    (auto simp: mark_reminded_def inv_key_def split: if_splits)

lemma invitations_evolve_stale: "invitations_evolve d (expire_invitations t d)"
  by (rule evolves_update [where P = "\<lambda>i. inv_status i = ''pending'' \<and> inv_expires_at i < t"
        and f = "\<lambda>i. i\<lparr>inv_status := ''expired''\<rparr>"])
    (auto simp: expire_invitations_def inv_key_def invitation_step_def)

lemma keeps_pay_inv_keeper: "keeps (db_frame (\<lambda>d. pay_inv d \<and> payments_evolve d0 d)) (keeper_cycle E)"
proof (rule keeps_keeper_cycle [OF _ _ _ _ _ _ keeps_reconcile])
  fix d t assume h: "pay_inv d \<and> payments_evolve d0 d"
  then show "pay_inv (expire_payments t d) \<and> payments_evolve d0 (expire_payments t d)"
    using payments_timed_out [of d t] evolves_trans by blast
qed (auto simp: pay_inv_def evolves_def mark_reminded_def expire_invitations_def mark_swept_def drop_old_nonces_def
      drop_old_tokens_def split: if_splits)

lemma keeps_invitations_keeper: "keeps (db_frame (invitations_evolve d0)) (keeper_cycle E)"
proof (rule keeps_keeper_cycle)
  show "invitations_evolve d0 d'" if "mark_reminded i t d = Some (x, d')" "invitations_evolve d0 d" for d i t x d'
    using that invitations_evolve_reminded evolves_trans by blast
  show "invitations_evolve d0 (expire_invitations t d)" if "invitations_evolve d0 d" for d t
    using that invitations_evolve_stale evolves_trans by blast
  show "keeps (db_frame (invitations_evolve d0)) (reconcile_late_payments E)"
    unfolding reconcile_late_payments_def reconcile_one_def
    by (intro keeps_intros keeps_db_frame_sql) (auto simp: mark_refund_pending_def evolves_def)
qed (auto simp: evolves_def mark_swept_def expire_payments_def drop_old_nonces_def drop_old_tokens_def)

lemmas keeper_statements =
  mark_reminded_def expire_invitations_def mark_swept_def expire_payments_def mark_refund_pending_def
  drop_old_nonces_def drop_old_tokens_def

lemma draft_inv_invitations:
  assumes "draft_inv E d" and "\<And>i. inv_id (f i) = inv_id i \<and> inv_token (f i) = inv_token i \<and> inv_draft_id (f i) = inv_draft_id i"
    and "\<And>i. inv_status i \<in> {''pending'', ''accepted'', ''expired''} \<Longrightarrow> inv_status (f i) \<in> {''pending'', ''accepted'', ''expired''}"
  shows "draft_inv E (d\<lparr>party_invitations := upd_where P f (party_invitations d)\<rparr>)"
proof -
  have "map inv_id (upd_where P f (party_invitations d)) = map inv_id (party_invitations d)"
    "map inv_token (upd_where P f (party_invitations d)) = map inv_token (party_invitations d)"
    by (rule map_upd_where; simp add: assms(2))+
  then show ?thesis using assms(1,3) by (auto simp: draft_inv_def ball_upd_where assms(2))
qed

lemma draft_inv_reminded: "mark_reminded i t d = Some (x, d') \<Longrightarrow> draft_inv E d \<Longrightarrow> draft_inv E d'"
  by (auto simp: mark_reminded_def intro: draft_inv_invitations split: if_splits)

lemma draft_inv_stale: "draft_inv E d \<Longrightarrow> draft_inv E (expire_invitations t d)"
  unfolding expire_invitations_def by (rule draft_inv_invitations) auto

lemma keeps_draft_inv_keeper: "keeps (db_frame (draft_inv E)) (keeper_cycle E')"
proof (rule keeps_keeper_cycle)
  show "keeps (db_frame (draft_inv E)) (reconcile_late_payments E')"
    by (rule keeps_reconcile_all) (simp add: draft_inv_def mark_refund_pending_def)
qed (rule draft_inv_reminded draft_inv_stale; assumption | simp add: draft_inv_def keeper_statements)+

lemma keeps_auth_inv_keeper: "keeps (db_frame auth_inv) (keeper_cycle E)"
proof (rule keeps_keeper_cycle)
  show "keeps (db_frame auth_inv) (reconcile_late_payments E)"
    by (rule keeps_reconcile_all) (simp add: auth_inv_def mark_refund_pending_def)
qed (auto simp: auth_inv_def keeper_statements distinct_del_where sql_list split: if_splits)

section \<open>The circuit breaker\<close>

lemma check_treasury_healthy: "check_treasury E w = (r, w') \<Longrightarrow> r = Inr WS_Healthy"
  by (auto simp: check_treasury_def Let_def bindE_def attempt_def ret_def split: option.splits prod.splits)

lemma check_disabled:
  assumes "check_hot_wallet_balances E w = (Inr WS_Disabled, w')"
  shows "(\<exists>k b. rpc_balance (orc E) k (vault_pubkey E) = Some b \<and>
      sol_of_lamports E b < vault_min_sol_circuit_breaker (cfg E)) \<and>
    db w' = db w \<and> health w' = mark_degraded (health w)"
proof (cases "join_fault (orc E) (tick w)")
  case True
  with assms show ?thesis by (simp add: check_hot_wallet_balances_def ret_def)
next
  case False
  with assms show ?thesis
    by (auto simp: check_hot_wallet_balances_def circuit_breaker_status_def act_simps Let_def
        split: option.splits if_splits dest: check_treasury_healthy)
qed

lemma check_trips:
  assumes "\<And>k. \<not> join_fault (orc E) k"
    and "\<And>k. \<exists>b. rpc_balance (orc E) k (vault_pubkey E) = Some b \<and> sol_of_lamports E b < vault_min_sol_circuit_breaker (cfg E)"
  shows "\<exists>w'. check_hot_wallet_balances E w = (Inr WS_Disabled, w')"
proof -
  from assms(2) obtain b where b: "rpc_balance (orc E) (Suc (tick w)) (vault_pubkey E) = Some b"
    "sol_of_lamports E b < vault_min_sol_circuit_breaker (cfg E)" by blast
  then show ?thesis using assms(1)
    by (simp add: check_hot_wallet_balances_def circuit_breaker_status_def thenE_def modify_def ret_def)
qed

text \<open>
  C31 (the circuit breaker latches). A keeper cycle ends disabled only if a reading of the vault's balance was below the
  configured minimum; then the process is marked degraded, of all tables only the invitations may have
  changed, because the scans for the treasury, the payments and the authentication records were skipped, and
  every later tick leaves the world as it is: the keeper does nothing more until the process restarts.
  Conversely, when every reading is below the minimum and no task is lost, the first cycle trips the
  breaker.
\<close>

theorem keeper_breaker_latches:
  "(\<forall>w'. keeper_cycle E w = (Inr WS_Disabled, w') \<longrightarrow>
      (\<exists>k b. rpc_balance (orc E) k (vault_pubkey E) = Some b \<and>
        sol_of_lamports E b < vault_min_sol_circuit_breaker (cfg E)) \<and>
      health w' \<noteq> HEALTHY \<and> (\<exists>q. db w' = (db w)\<lparr>party_invitations := q\<rparr>) \<and>
      (\<forall>n. worker_run (keeper_cycle E) n WS_Disabled w' = (WS_Disabled, w'))) \<and>
   ((\<forall>k. \<not> join_fault (orc E) k) \<and>
    (\<forall>k. \<exists>b. rpc_balance (orc E) k (vault_pubkey E) = Some b \<and>
       sol_of_lamports E b < vault_min_sol_circuit_breaker (cfg E)) \<longrightarrow>
    (\<exists>w'. keeper_cycle E w = (Inr WS_Disabled, w')))"
proof (intro conjI allI impI)
  fix w' assume "keeper_cycle E w = (Inr WS_Disabled, w')"
  then obtain w1 w2 where w1: "send_invitation_reminders E w = (Inr (), w1)"
    and w2: "expire_stale_invitations E w1 = (Inr (), w2)"
    and ch: "check_hot_wallet_balances E w2 = (Inr WS_Disabled, w')"
    by (auto simp: keeper_cycle_def act_simps split: if_splits)
  note c = check_disabled [OF ch]
  from c show "\<exists>k b. rpc_balance (orc E) k (vault_pubkey E) = Some b \<and>
      sol_of_lamports E b < vault_min_sol_circuit_breaker (cfg E)" by blast
  from c show "health w' \<noteq> HEALTHY" by (simp add: mark_degraded_def)
  define P where "P = (\<lambda>d. \<exists>q. d = (db w)\<lparr>party_invitations := q\<rparr>)"
  have k1: "keeps (db_frame P) (send_invitation_reminders E)"
    by (rule keeps_reminders) (auto simp: P_def mark_reminded_def split: if_splits)
  have k2: "keeps (db_frame P) (expire_stale_invitations E)"
    by (rule keeps_stale) (auto simp: P_def expire_invitations_def)
  have "P (db w)" unfolding P_def by (intro exI [of _ "party_invitations (db w)"]) simp
  then have "P (db w2)" using keepsD [OF k1 w1] keepsD [OF k2 w2] by (simp add: db_frame_def)
  with c show "\<exists>q. db w' = (db w)\<lparr>party_invitations := q\<rparr>" by (simp add: P_def)
  show "worker_run (keeper_cycle E) n WS_Disabled w' = (WS_Disabled, w')" for n by (rule keeper.disabled_stays)
next
  assume h: "(\<forall>k. \<not> join_fault (orc E) k) \<and>
    (\<forall>k. \<exists>b. rpc_balance (orc E) k (vault_pubkey E) = Some b \<and> sol_of_lamports E b < vault_min_sol_circuit_breaker (cfg E))"
  have "total_act (send_invitation_reminders E)" "total_act (expire_stale_invitations E)"
    unfolding keeper_defs Let_def by (intro total_intros)+
  then obtain w1 w2 where w1: "send_invitation_reminders E w = (Inr (), w1)"
    and w2: "expire_stale_invitations E w1 = (Inr (), w2)" unfolding total_act_def by (metis old.unit.exhaust)
  from check_trips [of E w2] h obtain w3 where "check_hot_wallet_balances E w2 = (Inr WS_Disabled, w3)" by blast
  with w1 w2 show "\<exists>w'. keeper_cycle E w = (Inr WS_Disabled, w')"
    by (simp add: keeper_cycle_def thenE_def ret_def)
qed

theorem keeper_breaker_latches_witness:
  "\<exists>w'. keeper_cycle sample_env empty_world = (Inr WS_Disabled, w') \<and> health w' \<noteq> HEALTHY"
proof -
  have "\<forall>k. \<not> join_fault (orc sample_env) k" by (simp add: sample_defs)
  moreover have "\<forall>k. \<exists>b. rpc_balance (orc sample_env) k (vault_pubkey sample_env) = Some b \<and>
      sol_of_lamports sample_env b < vault_min_sol_circuit_breaker (cfg sample_env)"
    by (simp add: sample_defs sol_of_lamports_def)
  ultimately show ?thesis using keeper_breaker_latches [of sample_env empty_world] by blast
qed

section \<open>What a full cycle leaves\<close>

definition none_stale :: "int \<Rightarrow> database \<Rightarrow> bool" where
  "none_stale T d \<longleftrightarrow> (\<forall>i \<in> set (party_invitations d). inv_status i = ''pending'' \<longrightarrow> T \<le> inv_expires_at i)"

definition none_timed_out :: "int \<Rightarrow> database \<Rightarrow> bool" where
  "none_timed_out T d \<longleftrightarrow> (\<forall>p \<in> set (agreement_payments d). pay_status p = ''pending'' \<longrightarrow> T - 900 \<le> pay_created_at p)"

definition none_old :: "int \<Rightarrow> database \<Rightarrow> bool" where
  "none_old T d \<longleftrightarrow> (\<forall>r \<in> set (siws_nonces d). T - 300 \<le> sn_created_at r) \<and>
     (\<forall>r \<in> set (refresh_tokens d). T \<le> rt_expires_at r)"

lemma keeps_tail_stale: "keeps (db_frame (none_stale T)) (keeper_tail E)"
  unfolding keeper_tail_def
  by (intro keeps_intros keeps_sweep keeps_timed_out keeps_reconcile_all keeps_cleanup)
    (simp_all add: none_stale_def keeper_statements)

lemma statements_clean:
  "T \<le> t \<Longrightarrow> none_stale T (expire_invitations t d)"
  "T - 900 \<le> t \<Longrightarrow> none_timed_out T (expire_payments t d)"
  "T - 300 \<le> t \<Longrightarrow> T \<le> t' \<Longrightarrow> none_old T (drop_old_tokens t' (drop_old_nonces t d))"
  by (auto simp: none_stale_def expire_invitations_def none_timed_out_def expire_payments_def ball_upd_where none_old_def
      drop_old_tokens_def drop_old_nonces_def in_del_where)

lemma stale_after:
  assumes "\<not> db_fault (orc E) (Suc (tick w))" and "T \<le> clock (orc E) (tick w)"
    and "expire_stale_invitations E w = (r, w')"
  shows "none_stale T (db w')"
proof -
  have "db w' = expire_invitations (clock (orc E) (tick w)) (db w)"
    using assms(1,3) by (auto simp: expire_stale_invitations_def run_defs)
  with statements_clean(1) [OF assms(2)] show ?thesis by simp
qed

lemma wrap_clock:
  assumes "- (2 ^ 62) \<le> t \<and> t < 2 ^ 62" and "0 \<le> n" and "n < 2 ^ 62"
  shows "wrap_i64 (t - n) = t - n"
  using assms by (intro wrap_i64_id) simp_all

lemma timed_out_after:
  assumes "\<not> db_fault (orc E) (Suc (tick w))" and "T \<le> clock (orc E) (tick w)"
    and "- (2 ^ 62) \<le> clock (orc E) (tick w) \<and> clock (orc E) (tick w) < 2 ^ 62"
    and "expire_timed_out_payments E w = (r, w')"
  shows "none_timed_out T (db w')"
proof -
  have "db w' = expire_payments (clock (orc E) (tick w) - 900) (db w)"
    using assms(1,4) by (auto simp: expire_timed_out_payments_def run_defs wrap_clock [OF assms(3)])
  then show ?thesis using assms(2) by (simp add: statements_clean(2))
qed

lemma old_after:
  assumes "\<And>k. \<not> db_fault (orc E) k" and "\<And>k. T \<le> clock (orc E) k"
    and "\<And>k. - (2 ^ 62) \<le> clock (orc E) k \<and> clock (orc E) k < 2 ^ 62"
    and "cleanup_expired_auth_records E w = (r, w')"
  shows "none_old T (db w')"
proof -
  have "db w' = drop_old_tokens (clock (orc E) (tick w + 2)) (drop_old_nonces (clock (orc E) (tick w) - 300) (db w))"
    using assms(1,4) by (auto simp: cleanup_expired_auth_records_def run_defs wrap_clock [OF assms(3)])
  then show ?thesis using assms(2) by (simp add: statements_clean(3))
qed

text \<open>
  A full cycle cleans up. When the database answers and the breaker does not trip, a keeper cycle that runs at or
  after time \<open>T\<close> leaves no pending invitation whose deadline was before \<open>T\<close>, no pending payment older than
  fifteen minutes, no login nonce older than five minutes and no refresh token that expired before \<open>T\<close>.
\<close>

theorem keeper_cycle_cleans:
  assumes db: "\<And>k. \<not> db_fault (orc E) k" and T: "\<And>k. T \<le> clock (orc E) k"
    and i64: "\<And>k. - (2 ^ 62) \<le> clock (orc E) k \<and> clock (orc E) k < 2 ^ 62"
    and run: "keeper_cycle E w = (Inr st, w')" and "st \<noteq> WS_Disabled"
  shows "none_stale T (db w') \<and> none_timed_out T (db w') \<and> none_old T (db w')"
proof -
  from run assms(5) obtain w1 w2 w3 where "expire_stale_invitations E w1 = (Inr (), w2)"
    and ch: "check_hot_wallet_balances E w2 = (Inr st, w3)" and tail: "keeper_tail E w3 = (Inr (), w')"
    by (auto simp: keeper_cycle_def act_simps split: if_splits)
  then have "none_stale T (db w2)" using stale_after [OF db T] by blast
  then have "none_stale T (db w3)"
    using keepsD [OF keeps_check ch, of "none_stale T"] by (simp add: db_frame_def)
  then have stale: "none_stale T (db w')"
    using keepsD [OF keeps_tail_stale tail] by (simp add: db_frame_def)
  from tail obtain w4 w5 w6 where pay: "expire_timed_out_payments E w4 = (Inr (), w5)"
    and rec: "reconcile_late_payments E w5 = (Inr (), w6)" and cl: "cleanup_expired_auth_records E w6 = (Inr (), w')"
    by (auto simp: keeper_tail_def act_simps)
  have "none_timed_out T (db w5)" by (rule timed_out_after [OF db T i64 pay])
  moreover have k1: "keeps (db_frame (none_timed_out T)) (reconcile_late_payments E)"
    by (rule keeps_reconcile_all) (simp add: none_timed_out_def mark_refund_pending_def ball_upd_where)
  ultimately have "none_timed_out T (db w6)" using keepsD [OF k1 rec] by (simp add: db_frame_def)
  moreover have k2: "keeps (db_frame (none_timed_out T)) (cleanup_expired_auth_records E)"
    by (rule keeps_cleanup) (simp_all add: none_timed_out_def drop_old_nonces_def drop_old_tokens_def)
  ultimately have "none_timed_out T (db w')" using keepsD [OF k2 cl] by (simp add: db_frame_def)
  with stale old_after [OF db T i64 cl] show ?thesis by blast
qed

definition rich_env :: env where
  "rich_env = sample_env\<lparr>orc := sample_outside\<lparr>rpc_balance := (\<lambda>k p. Some 5000000000)\<rparr>\<rparr>"

definition sample_keeper_world :: world where
  "sample_keeper_world = empty_world\<lparr>db := empty_db\<lparr>siws_nonces := [\<lparr>sn_nonce = ''n'', sn_created_at = 100\<rparr>],
     agreement_payments := [initiate_row 7 1 ''usdc'' ''mint'' 1990000 ''ref'' 50]\<rparr>\<rparr>"

theorem keeper_cycle_cleans_witness:
  "\<exists>w'. keeper_cycle rich_env sample_keeper_world = (Inr WS_Healthy, w') \<and> none_timed_out 1000 (db w') \<and>
     none_old 1000 (db w') \<and> \<not> none_timed_out 1000 (db sample_keeper_world) \<and> \<not> none_old 1000 (db sample_keeper_world)"
proof -
  have nojoin: "\<not> join_fault (orc rich_env) k" for k by (simp add: rich_env_def sample_defs)
  have sol: "sol_of_lamports rich_env 5000000000 = 5" by (simp add: sol_of_lamports_def rich_env_def sample_defs)
  have never: "\<not> check_hot_wallet_balances rich_env u = (Inr WS_Disabled, u')" for u u'
    using check_disabled [of rich_env u u'] sol by (auto simp: rich_env_def sample_defs)
  obtain st w' where run: "keeper_cycle rich_env sample_keeper_world = (Inr st, w')" using keeper.cycle_returns by blast
  have st: "st = WS_Healthy"
  proof -
    from run obtain u u' where "check_hot_wallet_balances rich_env u = (Inr st, u')"
      by (auto simp: keeper_cycle_def act_simps split: if_splits)
    with nojoin sol show ?thesis
      by (auto simp: check_hot_wallet_balances_def circuit_breaker_status_def rich_env_def sample_defs
          split: if_splits dest: check_treasury_healthy)
  qed
  have "none_stale 1000 (db w') \<and> none_timed_out 1000 (db w') \<and> none_old 1000 (db w')"
    by (rule keeper_cycle_cleans [OF _ _ _ run]) (simp_all add: st rich_env_def sample_defs)
  moreover have "\<not> none_timed_out 1000 (db sample_keeper_world)" "\<not> none_old 1000 (db sample_keeper_world)"
    by (simp_all add: none_timed_out_def none_old_def sample_keeper_world_def sample_defs initiate_row_def)
  ultimately show ?thesis using run st by blast
qed

text \<open>
  The clean-up removes only what is dead. Removing old authentication records never touches a nonce or a refresh
  token that a later request could still use: for every time not before the worker's clock, the records
  that count as live are the same before and after, whichever of the two statements fails.
\<close>

theorem cleanup_keeps_live:
  assumes i64: "\<And>k. - (2 ^ 62) \<le> clock (orc E) k \<and> clock (orc E) k < 2 ^ 62"
    and later: "\<And>k. clock (orc E) k \<le> t"
    and run: "cleanup_expired_auth_records E w = (r, w')"
  shows "filter (live_nonce t n) (siws_nonces (db w')) = filter (live_nonce t n) (siws_nonces (db w)) \<and>
    filter (live_token t h) (refresh_tokens (db w')) = filter (live_token t h) (refresh_tokens (db w))"
proof -
  define P where "P = (\<lambda>d :: database. filter (live_nonce t n) (siws_nonces d) = filter (live_nonce t n) (siws_nonces (db w)) \<and>
    filter (live_token t h) (refresh_tokens d) = filter (live_token t h) (refresh_tokens (db w)))"
  have n: "filter (live_nonce t n) (del_where (\<lambda>r. sn_created_at r < s - 300) rs) = filter (live_nonce t n) rs"
    if "s \<le> t" for s rs using that by (induction rs) (auto simp: live_nonce_def)
  have tk: "filter (live_token t h) (del_where (\<lambda>r. rt_expires_at r < s) rs) = filter (live_token t h) rs"
    if "s \<le> t" for s rs using that by (induction rs) (auto simp: live_token_def)
  have "P (db w')"
    using run later
    by (cases "db_fault (orc E) (Suc (tick w))"; cases "db_fault (orc E) (tick w + 3)")
      (auto simp: cleanup_expired_auth_records_def run_defs wrap_clock [OF i64] P_def drop_old_nonces_def
        drop_old_tokens_def n tk eval_nat_numeral split: if_splits)
  then show ?thesis by (simp add: P_def)
qed

theorem cleanup_keeps_live_witness:
  "\<exists>w'. cleanup_expired_auth_records sample_env sample_keeper_world = (Inr (), w') \<and> siws_nonces (db w') = [] \<and>
     filter (live_nonce 1000 ''n'') (siws_nonces (db w')) = filter (live_nonce 1000 ''n'') (siws_nonces (db sample_keeper_world))"
proof -
  have w: "wrap_i64 700 = 700" using wrap_i64_id [of 700] by simp
  obtain w' where run: "cleanup_expired_auth_records sample_env sample_keeper_world = (Inr (), w')"
    and "siws_nonces (db w') = []"
    by (simp add: cleanup_expired_auth_records_def run_defs sample_keeper_world_def sample_defs drop_old_nonces_def
        drop_old_tokens_def w)
  moreover have "filter (live_nonce 1000 ''n'') (siws_nonces (db w')) =
      filter (live_nonce 1000 ''n'') (siws_nonces (db sample_keeper_world)) \<and>
      filter (live_token 1000 []) (refresh_tokens (db w')) = filter (live_token 1000 []) (refresh_tokens (db sample_keeper_world))"
    by (rule cleanup_keeps_live [OF _ _ run]) (simp_all add: sample_defs)
  ultimately show ?thesis by blast
qed

end
