(* ===== verification/Program_Log.thy ===== *)
theory Program_Log
  imports Sample_World
begin

text \<open>
  \<^verbatim>\<open>src/src/services/program_log.rs\<close>: reading the instruction and its data from the log lines of a
  transaction. \<open>serde_json::from_str::<LogData>\<close> is the parameter \<open>log_data_from_str\<close>.
\<close>

datatype instruction_type = CreateAgreement | SignAgreement | CancelAgreement | ExpireAgreement | VoteRevoke

definition instruction_from_str :: "string \<Rightarrow> instruction_type option" where
  "instruction_from_str s =
     (if s = ''CreateAgreement'' then Some CreateAgreement
      else if s = ''SignAgreement'' then Some SignAgreement
      else if s = ''CancelAgreement'' then Some CancelAgreement
      else if s = ''ExpireAgreement'' then Some ExpireAgreement
      else if s = ''VoteRevoke'' then Some VoteRevoke
      else None)"

record parsed_event =
  ev_instruction :: instruction_type
  ev_agreement_pda :: string
  ev_creator :: "string option"
  ev_signer :: "string option"
  ev_parties :: "string list"

text \<open>The variables of the loop.\<close>

record parse_state =
  ps_instruction :: "instruction_type option"
  ps_agreement_pda :: "string option"
  ps_creator :: "string option"
  ps_signer :: "string option"
  ps_parties :: "string list"

definition parse_init :: parse_state where
  "parse_init = \<lparr>ps_instruction = None, ps_agreement_pda = None, ps_creator = None, ps_signer = None, ps_parties = []\<rparr>"

definition or_keep :: "'a option \<Rightarrow> 'a option \<Rightarrow> 'a option" where
  "or_keep new old = (case new of Some x \<Rightarrow> Some x | None \<Rightarrow> old)"

definition take_json :: "env \<Rightarrow> string \<Rightarrow> parse_state \<Rightarrow> parse_state" where
  "take_json E line s =
     (if starts_with ''Program log: {'' line then
        (case log_data_from_str (lib E) (trim_start_matches ''Program log: '' line) of
           None \<Rightarrow> s
         | Some data \<Rightarrow>
             s\<lparr>ps_agreement_pda := or_keep (ld_agreement_pda data) (ps_agreement_pda s),
               ps_creator := or_keep (ld_creator data) (ps_creator s),
               ps_signer := or_keep (ld_signer data) (ps_signer s),
               ps_parties := (case ld_parties data of Some p \<Rightarrow> p | None \<Rightarrow> ps_parties s)\<rparr>)
      else s)"

definition take_key_value :: "string \<Rightarrow> parse_state \<Rightarrow> parse_state" where
  "take_key_value line s =
     (case strip_prefix ''Program log: '' line of
        None \<Rightarrow> s
      | Some kv \<Rightarrow>
          if starts_with ''agreement_pda='' kv then s\<lparr>ps_agreement_pda := Some (trim_start_matches ''agreement_pda='' kv)\<rparr>
          else if starts_with ''creator='' kv then s\<lparr>ps_creator := Some (trim_start_matches ''creator='' kv)\<rparr>
          else if starts_with ''signer='' kv then s\<lparr>ps_signer := Some (trim_start_matches ''signer='' kv)\<rparr>
          else s)"

definition parse_line :: "env \<Rightarrow> string \<Rightarrow> parse_state \<Rightarrow> parse_state" where
  "parse_line E line s =
     (case strip_prefix ''Program log: Instruction: '' line of
        Some instr_str \<Rightarrow> s\<lparr>ps_instruction := instruction_from_str (trim instr_str)\<rparr>
      | None \<Rightarrow> take_key_value line (take_json E line s))"

definition parse_logs :: "env \<Rightarrow> string \<Rightarrow> u64 \<Rightarrow> string list \<Rightarrow> parsed_event option" where
  "parse_logs E signature slot logs =
     (let s = fold (parse_line E) logs parse_init in
      map_option (\<lambda>instr.
        \<lparr>ev_instruction = instr,
         ev_agreement_pda = (case ps_agreement_pda s of Some p \<Rightarrow> p | None \<Rightarrow> signature),
         ev_creator = ps_creator s, ev_signer = ps_signer s, ev_parties = ps_parties s\<rparr>) (ps_instruction s))"

section \<open>Instruction names as a code table\<close>

fun instruction_name :: "instruction_type \<Rightarrow> string" where
  "instruction_name CreateAgreement = ''CreateAgreement''"
| "instruction_name SignAgreement = ''SignAgreement''"
| "instruction_name CancelAgreement = ''CancelAgreement''"
| "instruction_name ExpireAgreement = ''ExpireAgreement''"
| "instruction_name VoteRevoke = ''VoteRevoke''"

interpretation instruction_code: code_table instruction_name instruction_from_str
proof unfold_locales
  fix x show "instruction_from_str (instruction_name x) = Some x"
    by (cases x) (simp_all add: instruction_from_str_def)
qed

lemma whitespace_not_alphanumeric:
  assumes "p \<in> set whitespace_encodings"
  shows "p \<noteq> [] \<and> \<not> is_ascii_alphanumeric (hd p) \<and> \<not> is_ascii_alphanumeric (last p)"
proof -
  have "\<forall>p \<in> set whitespace_encodings. p \<noteq> [] \<and> \<not> is_ascii_alphanumeric (hd p) \<and> \<not> is_ascii_alphanumeric (last p)"
    by (simp add: whitespace_encodings_def utf8_of_def is_ascii_alphanumeric_def upt_rec)
  with assms show ?thesis by blast
qed

text \<open>A string that begins and ends with a letter or a digit has nothing to trim.\<close>

lemma trim_alphanumeric:
  assumes "s \<noteq> []" and "is_ascii_alphanumeric (hd s)" and "is_ascii_alphanumeric (last s)"
  shows "trim s = s"
proof -
  have "\<not> starts_with p s" if "p \<in> set whitespace_encodings" for p
  proof
    assume "starts_with p s"
    then have "hd p = hd (take (length p) s)" by (simp add: starts_with_def)
    also have "\<dots> = hd s" using whitespace_not_alphanumeric [OF that] by (intro hd_take) auto
    finally have "hd p = hd s" .
    then show False using assms(2) whitespace_not_alphanumeric [OF that] by simp
  qed
  then have "find (\<lambda>p. starts_with p s) whitespace_encodings = None" by (simp add: find_None_iff)
  then have start: "trim_start s = s" by (subst trim_start.simps) simp
  have "\<not> (p \<noteq> [] \<and> length p \<le> length s \<and> drop (length s - length p) s = p)" if "p \<in> set whitespace_encodings" for p
  proof
    assume h: "p \<noteq> [] \<and> length p \<le> length s \<and> drop (length s - length p) s = p"
    then have "length s - length p < length s" using assms(1) by (intro diff_less) auto
    from last_drop [OF this] h have "last p = last s" by (elim conjE) (simp only:)
    then show False using assms(3) whitespace_not_alphanumeric [OF that] by simp
  qed
  then have "find (\<lambda>p. p \<noteq> [] \<and> length p \<le> length s \<and> drop (length s - length p) s = p) whitespace_encodings = None"
    by (simp add: find_None_iff)
  then have "trim_end s = s" by (subst trim_end.simps) simp
  with start show ?thesis by (simp add: trim_def)
qed

lemma trim_instruction_name: "trim (instruction_name i) = instruction_name i"
  by (cases i) (simp_all add: trim_alphanumeric is_ascii_alphanumeric_def)

section \<open>What the lines of a log say\<close>

text \<open>
  The kinds of line the parser tells apart, with the text after the fixed part: the name of an instruction, a JSON
  object, an address given as \<open>key=value\<close>, and any other line.
\<close>

datatype log_item =
    InstructionLine string
  | JsonLine string
  | PdaLine string
  | CreatorLine string
  | SignerLine string
  | OtherLine string

fun render :: "log_item \<Rightarrow> string" where
  "render (InstructionLine t) = ''Program log: Instruction: '' @ t"
| "render (JsonLine j) = ''Program log: '' @ j"
| "render (PdaLine v) = ''Program log: agreement_pda='' @ v"
| "render (CreatorLine v) = ''Program log: creator='' @ v"
| "render (SignerLine v) = ''Program log: signer='' @ v"
| "render (OtherLine l) = l"

definition marked_text :: "string \<Rightarrow> bool" where
  "marked_text t \<longleftrightarrow>
     (\<exists>p \<in> {''Instruction: '', ''{'', ''agreement_pda='', ''creator='', ''signer=''}. starts_with p t)"

fun item_ok :: "log_item \<Rightarrow> bool" where
  "item_ok (JsonLine j) = starts_with ''{'' j"
| "item_ok (OtherLine l) = (\<forall>t. strip_prefix ''Program log: '' l = Some t \<longrightarrow> \<not> marked_text t)"
| "item_ok _ = True"

text \<open>
  What an item says of each part of the event. JSON may say several things at once, in the members serde reads into
  \<open>LogData\<close>; a key is removed from the front of a value as often as it stands there.
\<close>

definition json_says :: "env \<Rightarrow> (log_data \<Rightarrow> 'a option) \<Rightarrow> string \<Rightarrow> 'a option" where
  "json_says E f j = Option.bind (log_data_from_str (lib E) j) f"

fun says_pda :: "env \<Rightarrow> log_item \<Rightarrow> string option" where
  "says_pda E (JsonLine j) = json_says E ld_agreement_pda j"
| "says_pda E (PdaLine v) = Some (trim_start_matches ''agreement_pda='' v)"
| "says_pda E _ = None"

fun says_creator :: "env \<Rightarrow> log_item \<Rightarrow> string option" where
  "says_creator E (JsonLine j) = json_says E ld_creator j"
| "says_creator E (CreatorLine v) = Some (trim_start_matches ''creator='' v)"
| "says_creator E _ = None"

fun says_signer :: "env \<Rightarrow> log_item \<Rightarrow> string option" where
  "says_signer E (JsonLine j) = json_says E ld_signer j"
| "says_signer E (SignerLine v) = Some (trim_start_matches ''signer='' v)"
| "says_signer E _ = None"

fun says_parties :: "env \<Rightarrow> log_item \<Rightarrow> string list option" where
  "says_parties E (JsonLine j) = json_says E ld_parties j"
| "says_parties E _ = None"

fun says_instruction :: "log_item \<Rightarrow> instruction_type option option" where
  "says_instruction (InstructionLine t) = Some (instruction_from_str (trim t))"
| "says_instruction _ = None"

text \<open>The last item that says something.\<close>

definition last_said :: "('i \<Rightarrow> 'a option) \<Rightarrow> 'i list \<Rightarrow> 'a option" where
  "last_said f is = (case filter (\<lambda>i. f i \<noteq> None) (rev is) of [] \<Rightarrow> None | i # _ \<Rightarrow> f i)"

definition event_of_items :: "env \<Rightarrow> string \<Rightarrow> log_item list \<Rightarrow> parsed_event option" where
  "event_of_items E signature is =
     (case last_said says_instruction is of
        Some (Some instr) \<Rightarrow> Some
          \<lparr>ev_instruction = instr,
           ev_agreement_pda = (case last_said (says_pda E) is of None \<Rightarrow> signature | Some p \<Rightarrow> p),
           ev_creator = last_said (says_creator E) is,
           ev_signer = last_said (says_signer E) is,
           ev_parties = (case last_said (says_parties E) is of None \<Rightarrow> [] | Some ps \<Rightarrow> ps)\<rparr>
      | _ \<Rightarrow> None)"

lemma last_said_snoc: "last_said f (is @ [i]) = or_keep (f i) (last_said f is)"
  by (auto simp: last_said_def or_keep_def split: option.splits)

lemma strip_prefix_append [simp]: "strip_prefix p (p @ s) = Some s"
  by (simp add: strip_prefix_def)

lemma strip_prefix_Some_iff: "strip_prefix p l = Some t \<longleftrightarrow> l = p @ t"
  by (auto simp: strip_prefix_def) (metis append_take_drop_id)

lemma starts_with_iff: "starts_with p l \<longleftrightarrow> (\<exists>t. l = p @ t)"
  by (auto simp: starts_with_def) (metis append_take_drop_id)

lemma trim_start_prefix: "p \<noteq> [] \<Longrightarrow> trim_start_matches p (p @ s) = trim_start_matches p s"
  by (subst trim_start_matches.simps) (simp add: starts_with_def)

lemma trim_start_stop: "\<not> starts_with p s \<Longrightarrow> trim_start_matches p s = s"
  by (subst trim_start_matches.simps) simp

text \<open>One line changes the variables of the loop by what it says.\<close>

definition hear :: "env \<Rightarrow> log_item \<Rightarrow> parse_state \<Rightarrow> parse_state" where
  "hear E i s =
     \<lparr>ps_instruction = (case says_instruction i of None \<Rightarrow> ps_instruction s | Some x \<Rightarrow> x),
      ps_agreement_pda = or_keep (says_pda E i) (ps_agreement_pda s),
      ps_creator = or_keep (says_creator E i) (ps_creator s),
      ps_signer = or_keep (says_signer E i) (ps_signer s),
      ps_parties = (case says_parties E i of None \<Rightarrow> ps_parties s | Some ps \<Rightarrow> ps)\<rparr>"

lemma parse_key_line:
  "parse_line E (render (PdaLine v)) s = hear E (PdaLine v) s"
  "parse_line E (render (CreatorLine v)) s = hear E (CreatorLine v) s"
  "parse_line E (render (SignerLine v)) s = hear E (SignerLine v) s"
  using trim_start_prefix [of "''agreement_pda=''" v] trim_start_prefix [of "''creator=''" v] trim_start_prefix [of "''signer=''" v]
  by (simp_all add: parse_line_def take_json_def take_key_value_def strip_prefix_def starts_with_def hear_def or_keep_def)

lemma parse_json_line:
  assumes "item_ok (JsonLine j)"
  shows "parse_line E (render (JsonLine j)) s = hear E (JsonLine j) s"
proof -
  from assms obtain r where j: "j = CHR ''{'' # r" by (auto simp: starts_with_iff)
  have "trim_start_matches ''Program log: '' (''Program log: '' @ j) = trim_start_matches ''Program log: '' j"
    by (rule trim_start_prefix) simp
  also have "\<dots> = j" by (rule trim_start_stop) (simp add: starts_with_def j)
  finally have "trim_start_matches ''Program log: '' (''Program log: '' @ j) = j" .
  then show ?thesis
    by (simp add: parse_line_def take_json_def take_key_value_def strip_prefix_def starts_with_def hear_def json_says_def or_keep_def j
        split: option.splits)
qed

lemma parse_other_line:
  assumes "item_ok (OtherLine l)"
  shows "parse_line E (render (OtherLine l)) s = hear E (OtherLine l) s"
proof (cases "strip_prefix ''Program log: '' l")
  case None
  then have "\<And>q. \<not> starts_with (''Program log: '' @ q) l" by (auto simp: starts_with_iff strip_prefix_def)
  from this [of "''Instruction: ''"] this [of "''{''"] None show ?thesis
    by (simp add: parse_line_def take_json_def take_key_value_def hear_def or_keep_def strip_prefix_def starts_with_def)
next
  case (Some t)
  then have l: "l = ''Program log: '' @ t" by (simp add: strip_prefix_Some_iff)
  have "\<not> marked_text t" using assms Some by simp
  then show ?thesis
    by (simp add: l marked_text_def parse_line_def take_json_def take_key_value_def hear_def or_keep_def strip_prefix_def starts_with_def)
qed

lemma parse_item: "item_ok i \<Longrightarrow> parse_line E (render i) s = hear E i s"
proof (cases i)
  case (InstructionLine t)
  then show ?thesis by (simp add: parse_line_def strip_prefix_def hear_def or_keep_def)
qed (use parse_key_line parse_json_line parse_other_line in \<open>simp_all only:\<close>)

lemma parse_items:
  assumes "list_all item_ok is"
  shows "fold (parse_line E) (map render is) parse_init =
    \<lparr>ps_instruction = (case last_said says_instruction is of None \<Rightarrow> None | Some x \<Rightarrow> x),
     ps_agreement_pda = last_said (says_pda E) is, ps_creator = last_said (says_creator E) is,
     ps_signer = last_said (says_signer E) is,
     ps_parties = (case last_said (says_parties E) is of None \<Rightarrow> [] | Some ps \<Rightarrow> ps)\<rparr>"
  using assms
proof (induction "is" rule: rev_induct)
  case Nil
  show ?case by (simp add: parse_init_def last_said_def)
next
  case (snoc i "is")
  then show ?case by (simp add: parse_item hear_def last_said_snoc) (simp add: or_keep_def split: option.splits)
qed

text \<open>Every line is one of them.\<close>

lemma line_is_item: "\<exists>i. item_ok i \<and> render i = l"
proof (cases "\<exists>t. strip_prefix ''Program log: '' l = Some t \<and> marked_text t")
  case True
  then obtain t p where l: "l = ''Program log: '' @ t" and t: "starts_with p t"
    and p: "p \<in> {''Instruction: '', ''{'', ''agreement_pda='', ''creator='', ''signer=''}"
    by (auto simp: strip_prefix_Some_iff marked_text_def)
  from t obtain u where u: "t = p @ u" by (auto simp: starts_with_iff)
  from p consider "p = ''Instruction: ''" | "p = ''{''" | "p = ''agreement_pda=''" | "p = ''creator=''" | "p = ''signer=''" by auto
  then show ?thesis
  proof cases
    case 1 then show ?thesis using l u by (intro exI [of _ "InstructionLine u"]) simp
  next
    case 2 then show ?thesis using l u by (intro exI [of _ "JsonLine t"]) (simp add: starts_with_def)
  next
    case 3 then show ?thesis using l u by (intro exI [of _ "PdaLine u"]) simp
  next
    case 4 then show ?thesis using l u by (intro exI [of _ "CreatorLine u"]) simp
  next
    case 5 then show ?thesis using l u by (intro exI [of _ "SignerLine u"]) simp
  qed
qed (auto intro: exI [of _ "OtherLine l"])


text \<open>The log of a creation in the repository's tests, with the JSON it holds.\<close>

definition create_json :: string where
  \<open>create_json = ''{"agreement_pda": "ABC123", "creator": "C1", "parties": ["P1", "P2"]}''\<close>

definition sample_log_env :: env where
  "sample_log_env = sample_env\<lparr>lib := sample_libs\<lparr>log_data_from_str := (\<lambda>j.
     if j = create_json
     then Some \<lparr>ld_agreement_pda = Some ''ABC123'', ld_creator = Some ''C1'', ld_signer = None, ld_parties = Some [''P1'', ''P2'']\<rparr>
     else None)\<rparr>\<rparr>"


end
