(* ===== verification/Event_Listener.thy ===== *)
theory Event_Listener
  imports Program_Log Notification Keeper
begin

text \<open>
  \<^verbatim>\<open>src/src/workers/event_listener.rs\<close>: the handlers of on-chain events and the reconnection loop, with the
  constructor of \<^verbatim>\<open>src/src/services/solana_logs.rs\<close>. The log stream of a connection is the list of logs it
  delivers before it closes. \<open>Box<dyn Error>\<close> is \<open>InternalError\<close>: the loop only logs it.
\<close>

section \<open>Shared steps\<close>

definition lookup_user_id :: "env \<Rightarrow> string \<Rightarrow> (world, app_error, uuid option) act" where
  "lookup_user_id E pubkey =
     bindE (attempt (sql_select E InternalError (wallet_owner pubkey))) (\<lambda>r.
     ret (case r of Inr (Some u) \<Rightarrow> Some u | _ \<Rightarrow> None))"

definition push_to :: "env \<Rightarrow> ws_event \<Rightarrow> string \<Rightarrow> (world, app_error, unit) act" where
  "push_to E ev party =
     bindE (lookup_user_id E party) (\<lambda>u.
     case u of None \<Rightarrow> ret () | Some user_id \<Rightarrow> bindE (send_to_user E user_id ev) (\<lambda>_. ret ()))"

definition enqueue_quietly :: "env \<Rightarrow> string \<Rightarrow> string \<Rightarrow> string \<Rightarrow> (world, app_error, unit) act" where
  "enqueue_quietly E event_type agreement_pda party =
     bindE (attempt (enqueue_notification E event_type (Some agreement_pda) party)) (\<lambda>_. ret ())"

definition parties_of :: "string \<Rightarrow> database \<Rightarrow> string list" where
  "parties_of pda d = map ap_party_pubkey (filter (\<lambda>r. ap_agreement_pda r = pda) (agreement_parties d))"

definition or_unknown :: "string option \<Rightarrow> string" where
  "or_unknown v = (case v of Some s \<Rightarrow> s | None \<Rightarrow> ''unknown'')"

section \<open>Create\<close>

text \<open>\<open>INSERT ... ON CONFLICT (party_pubkey, agreement_pda) DO NOTHING\<close>\<close>

definition insert_party :: "string \<Rightarrow> string \<Rightarrow> string \<Rightarrow> int \<Rightarrow> database \<Rightarrow> database" where
  "insert_party party pda cr t d =
     (if \<exists>r \<in> set (agreement_parties d). ap_party_pubkey r = party \<and> ap_agreement_pda r = pda then d
      else d\<lparr>agreement_parties := agreement_parties d @
        [\<lparr>ap_party_pubkey = party, ap_agreement_pda = pda, ap_creator_pubkey = cr, ap_status = ''PendingSignatures'',
          ap_signed_at = None, ap_created_at = t, ap_expires_at = t + 2592000, ap_title = ''Agreement''\<rparr>]\<rparr>)"

definition handle_create_agreement :: "env \<Rightarrow> parsed_event \<Rightarrow> (world, app_error, unit) act" where
  "handle_create_agreement E event =
     (let agreement_pda = ev_agreement_pda event; cr = or_unknown (ev_creator event) in
      thenE (for_each (ev_parties event) (\<lambda>party.
        sql E InternalError (\<lambda>t _ d. Some ((), insert_party party agreement_pda cr t d))))
      (thenE (for_each (ev_parties event) (enqueue_quietly E ''AgreementCreated'' agreement_pda))
      (for_each (ev_parties event) (push_to E (AgreementCreated agreement_pda)))))"

section \<open>Sign\<close>

definition record_signature :: "string \<Rightarrow> string \<Rightarrow> int \<Rightarrow> database \<Rightarrow> database" where
  "record_signature pda signer t d =
     d\<lparr>agreement_parties := upd_where (\<lambda>r. ap_agreement_pda r = pda \<and> ap_party_pubkey r = signer)
       (\<lambda>r. r\<lparr>ap_signed_at := Some t\<rparr>) (agreement_parties d)\<rparr>"

definition unsigned_count :: "string \<Rightarrow> database \<Rightarrow> nat" where
  "unsigned_count pda d = length (filter (\<lambda>r. ap_agreement_pda r = pda \<and> ap_signed_at r = None) (agreement_parties d))"

definition announce_signature :: "env \<Rightarrow> string \<Rightarrow> string \<Rightarrow> (world, app_error, unit) act" where
  "announce_signature E agreement_pda signer =
     bindE (sql_select E InternalError (unsigned_count agreement_pda)) (\<lambda>n.
     let is_fully_signed = (n = 0);
         event_type = (if is_fully_signed then ''Completed'' else ''Signed'');
         ws_event = (if is_fully_signed then AgreementCompleted agreement_pda else AgreementSigned agreement_pda) in
     thenE (enqueue_quietly E event_type agreement_pda signer)
     (bindE (sql_select E InternalError (parties_of agreement_pda)) (\<lambda>parties.
      for_each parties (push_to E ws_event))))"

definition handle_sign_agreement :: "env \<Rightarrow> parsed_event \<Rightarrow> (world, app_error, unit) act" where
  "handle_sign_agreement E event =
     (let agreement_pda = ev_agreement_pda event; signer = or_unknown (ev_signer event) in
      bindE (sql E InternalError (\<lambda>t _ d.
        Some (signer \<in> set (parties_of agreement_pda d), record_signature agreement_pda signer t d))) (\<lambda>found.
      if \<not> found then ret ()
      else announce_signature E agreement_pda signer))"

section \<open>Cancel and expire\<close>

definition set_agreement_status :: "string \<Rightarrow> string \<Rightarrow> database \<Rightarrow> database" where
  "set_agreement_status st pda d =
     d\<lparr>agreement_parties := upd_where (\<lambda>r. ap_agreement_pda r = pda) (\<lambda>r. r\<lparr>ap_status := st\<rparr>) (agreement_parties d)\<rparr>"

definition confirmed_payment :: "string \<Rightarrow> database \<Rightarrow> uuid option" where
  "confirmed_payment pda d =
     map_option pay_id (select_first (\<lambda>p. pay_agreement_pda p = Some pda \<and> pay_status p = ''confirmed'') (agreement_payments d))"

definition initiate_refund_if_eligible :: "env \<Rightarrow> string \<Rightarrow> (world, app_error, unit) act" where
  "initiate_refund_if_eligible E agreement_pda =
     bindE (sql_select E InternalError (confirmed_payment agreement_pda)) (\<lambda>payment_id.
     case payment_id of
       None \<Rightarrow> ret ()
     | Some i \<Rightarrow> sql E InternalError (\<lambda>t _ d. Some ((), mark_refund_pending i t d)))"

definition handle_cancellation :: "env \<Rightarrow> parsed_event \<Rightarrow> string \<Rightarrow> (world, app_error, unit) act" where
  "handle_cancellation E event st =
     (let agreement_pda = ev_agreement_pda event in
      thenE (sql_update E InternalError (set_agreement_status st agreement_pda))
      (bindE (sql_select E InternalError (parties_of agreement_pda)) (\<lambda>parties.
       let event_type = (if st = ''Cancelled'' then ''Cancelled'' else ''Expired'');
           ws_event = (if st = ''Cancelled'' then AgreementCancelled agreement_pda else AgreementExpired agreement_pda) in
       thenE (for_each parties (enqueue_quietly E event_type agreement_pda))
       (thenE (for_each parties (push_to E ws_event))
       (bindE (attempt (initiate_refund_if_eligible E agreement_pda)) (\<lambda>_. ret ()))))))"

definition handle_cancel_agreement :: "env \<Rightarrow> parsed_event \<Rightarrow> (world, app_error, unit) act" where
  "handle_cancel_agreement E event = handle_cancellation E event ''Cancelled''"

definition handle_expire_agreement :: "env \<Rightarrow> parsed_event \<Rightarrow> (world, app_error, unit) act" where
  "handle_expire_agreement E event = handle_cancellation E event ''Expired''"

section \<open>Revoke votes, dispatch\<close>

definition handle_vote_revoke :: "env \<Rightarrow> parsed_event \<Rightarrow> (world, app_error, unit) act" where
  "handle_vote_revoke E event =
     (let agreement_pda = ev_agreement_pda event; signer = or_unknown (ev_signer event) in
      thenE (enqueue_quietly E ''RevokeVote'' agreement_pda signer)
      (bindE (sql_select E InternalError (parties_of agreement_pda)) (\<lambda>parties.
       for_each parties (push_to E (AgreementRevokeVote agreement_pda)))))"

definition handle_event :: "env \<Rightarrow> parsed_event \<Rightarrow> (world, app_error, unit) act" where
  "handle_event E event =
     (case ev_instruction event of
        CreateAgreement \<Rightarrow> handle_create_agreement E event
      | SignAgreement \<Rightarrow> handle_sign_agreement E event
      | CancelAgreement \<Rightarrow> handle_cancel_agreement E event
      | ExpireAgreement \<Rightarrow> handle_expire_agreement E event
      | VoteRevoke \<Rightarrow> handle_vote_revoke E event)"

section \<open>Connection and loop\<close>

record program_log =
  pl_signature :: string
  pl_slot :: u64
  pl_logs :: "string list"

definition transition_to_degraded :: "worker_status \<Rightarrow> (world, 'e, worker_status) act" where
  "transition_to_degraded st =
     (if st = WS_Degraded then ret st
      else thenE (modify (\<lambda>w. w\<lparr>health := mark_degraded (health w)\<rparr>)) (ret WS_Degraded))"

definition transition_to_healthy :: "worker_status \<Rightarrow> worker_status" where
  "transition_to_healthy st = (if st = WS_Healthy then st else WS_Healthy)"

text \<open>\<open>SolanaLogsService::new\<close> refuses a program identifier that is not a key; subscribing always succeeds.\<close>

definition logs_service_new :: "env \<Rightarrow> string \<Rightarrow> pubkey option" where
  "logs_service_new E program_id_str = pubkey_from_str (lib E) program_id_str"

definition process_log :: "env \<Rightarrow> program_log \<Rightarrow> (world, app_error, unit) act" where
  "process_log E entry =
     (case parse_logs E (pl_signature entry) (pl_slot entry) (pl_logs entry) of
        None \<Rightarrow> ret ()
      | Some event \<Rightarrow> bindE (attempt (handle_event E event)) (\<lambda>_. ret ()))"

definition connect_and_listen :: "env \<Rightarrow> program_log list \<Rightarrow> worker_status \<Rightarrow> (world, app_error, bool \<times> worker_status) act" where
  "connect_and_listen E received st =
     (case logs_service_new E (program_id (cfg E)) of
        None \<Rightarrow> ret (False, st)
      | Some _ \<Rightarrow>
          let st' = transition_to_healthy st in
          thenE (for_each received (process_log E)) (ret (True, st')))"

text \<open>One connection after the other, each ended by the stream or by an error.\<close>

fun listener_run :: "env \<Rightarrow> program_log list list \<Rightarrow> worker_status \<Rightarrow> (world, app_error, worker_status) act" where
  "listener_run E [] st = ret st"
| "listener_run E (session # sessions) st =
     bindE (connect_and_listen E session st) (\<lambda>(_, st').
     bindE (transition_to_degraded st') (\<lambda>st''. listener_run E sessions st''))"

lemmas event_defs =
  handle_event_def handle_create_agreement_def handle_sign_agreement_def announce_signature_def handle_cancel_agreement_def
  handle_expire_agreement_def handle_cancellation_def initiate_refund_if_eligible_def handle_vote_revoke_def
  enqueue_quietly_def push_to_def lookup_user_id_def

section \<open>What the handlers keep\<close>

lemma keeps_push_to [keeps_intros]: "keeps (db_frame P) (push_to E ev party)"
  unfolding push_to_def lookup_user_id_def by (intro keeps_intros)

lemma keeps_enqueue_quietly:
  "(\<And>d q. P (d\<lparr>notification_queue := q\<rparr>) = P d) \<Longrightarrow> keeps (db_frame P) (enqueue_quietly E ty pda party)"
  unfolding enqueue_quietly_def by (intro keeps_intros keeps_enqueue)

lemma keeps_handle_event:
  assumes "\<And>d q. P (d\<lparr>notification_queue := q\<rparr>) = P d"
    and "\<And>d x pda c t. P d \<Longrightarrow> P (insert_party x pda c t d)" and "\<And>d pda x t. P d \<Longrightarrow> P (record_signature pda x t d)"
    and "\<And>d st pda. st \<in> {''Cancelled'', ''Expired''} \<Longrightarrow> P d \<Longrightarrow> P (set_agreement_status st pda d)"
    and refund: "\<And>pda. keeps (db_frame P) (initiate_refund_if_eligible E pda)"
  shows "keeps (db_frame P) (handle_event E event)"
proof -
  note q = keeps_enqueue_quietly [of P, OF assms(1)]
  have sg: "keeps (db_frame P) (announce_signature E pda x)" for pda x
    unfolding announce_signature_def Let_def by (intro keeps_intros q)
  have cr: "keeps (db_frame P) (handle_create_agreement E event)"
    unfolding handle_create_agreement_def Let_def by (intro keeps_intros q keeps_db_frame_sql) (auto intro: assms(2))
  have si: "keeps (db_frame P) (handle_sign_agreement E event)"
    unfolding handle_sign_agreement_def Let_def by (intro keeps_intros sg keeps_db_frame_sql) (auto intro: assms(3))
  have ca: "keeps (db_frame P) (handle_cancellation E event st)" if "st \<in> {''Cancelled'', ''Expired''}" for st
    unfolding handle_cancellation_def Let_def
    by (intro keeps_intros q refund keeps_db_frame_update assms(4) [OF that])
  have vo: "keeps (db_frame P) (handle_vote_revoke E event)"
    unfolding handle_vote_revoke_def Let_def by (intro keeps_intros q)
  show ?thesis
    unfolding handle_event_def handle_cancel_agreement_def handle_expire_agreement_def using cr si ca vo
    by (cases "ev_instruction event") simp_all
qed

lemma keeps_refund_all:
  "(\<And>d i t. P d \<Longrightarrow> P (mark_refund_pending i t d)) \<Longrightarrow> keeps (db_frame P) (initiate_refund_if_eligible E pda)"
  unfolding initiate_refund_if_eligible_def by (intro keeps_intros keeps_db_frame_sql) auto

text \<open>The refund marks a payment that was confirmed when it was read.\<close>

lemma confirmed_payment_status:
  assumes "pay_inv d" and "confirmed_payment pda d = Some i" and "q \<in> set (agreement_payments d)" and "pay_id q = i"
  shows "pay_status q = ''confirmed''"
proof -
  from assms(2) obtain p where p: "p \<in> set (agreement_payments d)" "pay_id p = i" "pay_status p = ''confirmed''"
    unfolding confirmed_payment_def by (auto dest: select_first_SomeD)
  with assms(1,3,4) have "q = p" by (auto simp: pay_inv_def distinct_map dest: inj_onD)
  with p show ?thesis by simp
qed

lemma keeps_pay_inv_refund:
  "keeps (db_frame (\<lambda>d. pay_inv d \<and> payments_evolve d0 d)) (initiate_refund_if_eligible E pda)"
proof (rule keepsI)
  fix w r w' assume run: "initiate_refund_if_eligible E pda w = (r, w')"
  show "db_frame (\<lambda>d. pay_inv d \<and> payments_evolve d0 d) w w'"
  proof (cases "db w' = db w")
    case True
    then show ?thesis by (simp add: db_frame_def)
  next
    case False
    then obtain i t where i: "confirmed_payment pda (db w) = Some i" and w': "db w' = mark_refund_pending i t (db w)"
      using run by (cases r) (auto simp: initiate_refund_if_eligible_def act_simps split: option.splits)
    have "payments_evolve (db w) (db w')" "pay_inv (db w')" if inv: "pay_inv (db w)"
      unfolding w' using payments_marked [OF inv] confirmed_payment_status [OF inv i] by simp_all
    then show ?thesis using evolves_trans unfolding db_frame_def by blast
  qed
qed

lemmas party_statements = insert_party_def record_signature_def set_agreement_status_def

lemma keeps_pay_inv_event: "keeps (db_frame (\<lambda>d. pay_inv d \<and> payments_evolve d0 d)) (handle_event E event)"
  by (rule keeps_handle_event [OF _ _ _ _ keeps_pay_inv_refund])
    (auto simp: pay_inv_def evolves_def party_statements)

text \<open>What does not look at the queue, the parties and the payments is kept.\<close>

lemma keeps_event_other:
  assumes "\<And>d q. P (d\<lparr>notification_queue := q\<rparr>) = P d" and "\<And>d q. P (d\<lparr>agreement_parties := q\<rparr>) = P d"
    and "\<And>d q. P (d\<lparr>agreement_payments := q\<rparr>) = P d"
  shows "keeps (db_frame P) (handle_event E event)"
  by (rule keeps_handle_event [OF _ _ _ _ keeps_refund_all])
    (auto simp: assms party_statements mark_refund_pending_def)

section \<open>Broadcasts\<close>

lemma push_to_outcome:
  assumes "push_to E ev p w = (r, w')"
  shows "r = Inr () \<and> db w' = db w \<and>
    (outbox w' = outbox w \<or>
     (\<exists>u c. wallet_owner p (db w) = Some u \<and> outbox w' = outbox w @ [WsPush u c ev]))"
proof (cases "db_fault (orc E) (tick w)")
  case True
  with assms show ?thesis by (auto simp: push_to_def lookup_user_id_def ret_def)
next
  case False
  show ?thesis
  proof (cases "wallet_owner p (db w)")
    case None
    with False assms show ?thesis by (auto simp: push_to_def lookup_user_id_def ret_def)
  next
    case (Some u)
    obtain b :: "app_error + bool" and w1 where s: "send_to_user E u ev (tick_on w) = (b, w1)" by fastforce
    from send_to_user_result [OF s] obtain b' where b: "b = Inr b'" by blast
    with False Some assms s have "r = Inr ()" "w' = w1" by (simp_all add: push_to_def lookup_user_id_def ret_def)
    with send_to_user_result [OF s] Some show ?thesis by auto
  qed
qed

lemma push_all:
  assumes "for_each ps (push_to E ev) w = (r, w')"
  shows "r = Inr () \<and> db w' = db w \<and>
    (\<exists>xs. outbox w' = outbox w @ xs \<and> length xs \<le> length ps \<and>
       (\<forall>x \<in> set xs. \<exists>p u c. p \<in> set ps \<and> wallet_owner p (db w) = Some u \<and> x = WsPush u c ev))"
  using assms
proof (induction ps arbitrary: w)
  case Nil
  then show ?case by (simp add: act_simps)
next
  case (Cons p ps)
  obtain r1 w1 where one: "push_to E ev p w = (r1, w1)" by fastforce
  note o = push_to_outcome [OF one]
  with one Cons.prems have "for_each ps (push_to E ev) w1 = (r, w')" by (simp add: thenE_def)
  from Cons.IH [OF this] o obtain xs where xs: "r = Inr ()" "db w' = db w" "outbox w' = outbox w1 @ xs"
    "length xs \<le> length ps" "\<forall>x \<in> set xs. \<exists>p u c. p \<in> set ps \<and> wallet_owner p (db w) = Some u \<and> x = WsPush u c ev"
    by auto
  have more: "\<forall>x \<in> set xs. \<exists>q u c. q \<in> set (p # ps) \<and> wallet_owner q (db w) = Some u \<and> x = WsPush u c ev"
    using xs(5) by (meson list.set_intros(2))
  from o have "outbox w1 = outbox w \<or> (\<exists>u c. wallet_owner p (db w) = Some u \<and> outbox w1 = outbox w @ [WsPush u c ev])"
    by blast
  then show ?case
  proof
    assume "outbox w1 = outbox w"
    with xs more show ?thesis by (intro conjI exI [of _ xs]) simp_all
  next
    assume "\<exists>u c. wallet_owner p (db w) = Some u \<and> outbox w1 = outbox w @ [WsPush u c ev]"
    then obtain u c where "wallet_owner p (db w) = Some u" "outbox w1 = outbox w @ [WsPush u c ev]" by blast
    with xs more show ?thesis by (intro conjI exI [of _ "WsPush u c ev # xs"]) (simp_all, blast)
  qed
qed

text \<open>The job a notification adds to the queue.\<close>

definition job_for :: "string \<Rightarrow> string \<Rightarrow> string \<Rightarrow> notification_row \<Rightarrow> bool" where
  "job_for ty pda recipient j \<longleftrightarrow>
     nq_event_type j = ty \<and> nq_agreement_pda j = pda \<and> nq_recipient_pubkey j = recipient \<and>
     nq_status j = ''pending'' \<and> nq_attempts j = 0"

text \<open>The outside does not fail: the database answers, channels accept and identifiers are new.\<close>

definition reliable :: "env \<Rightarrow> database \<Rightarrow> bool" where
  "reliable E d \<longleftrightarrow>
     (\<forall>k. \<not> db_fault (orc E) k) \<and> (\<forall>k c. ws_send_ok (orc E) k c) \<and>
     (\<forall>k. random_uuid (orc E) k \<notin> nq_id ` set (notification_queue d))"

lemma enqueue_quietly_job:
  assumes "enqueue_quietly E ty pda p w = (r, w')"
  shows "r = Inr () \<and> outbox w' = outbox w \<and> ws_channels w' = ws_channels w \<and>
    (\<exists>jobs. db w' = (db w)\<lparr>notification_queue := notification_queue (db w) @ jobs\<rparr> \<and>
       (jobs = [] \<or> (\<exists>j. jobs = [j] \<and> job_for ty pda p j)) \<and> (reliable E (db w) \<longrightarrow> jobs \<noteq> []))"
proof -
  obtain x w1 where x: "enqueue_notification E ty (Some pda) p w = (x, w1)" by fastforce
  then have w1: "r = Inr ()" "w' = w1" using assms by (simp_all add: enqueue_quietly_def attempt_def bindE_def ret_def)
  show ?thesis
  proof (cases x)
    case (Inl e)
    with x have "db w1 = db w" "outbox w1 = outbox w" "ws_channels w1 = ws_channels w" "\<not> reliable E (db w)"
      by (auto simp: enqueue_notification_def act_simps insert_job_def reliable_def split: if_splits)
    then show ?thesis using w1 by (intro conjI exI [of _ "[]"]) simp_all
  next
    case (Inr u)
    with x have "sql E InternalError (insert_job ty (Some pda) p (clock (orc E) (tick w))) (tick_on w) = (Inr u, w1)"
      by (simp add: enqueue_notification_def now_def ask_def bindE_def)
    then obtain d' where ins: "insert_job ty (Some pda) p (clock (orc E) (tick w)) (clock (orc E) (Suc (tick w)))
        (random_uuid (orc E) (Suc (tick w))) (db w) = Some (u, d')" and w1': "w1 = (tick_on (tick_on w))\<lparr>db := d'\<rparr>"
      by (auto simp: sql_Inr_iff)
    obtain t t' g where d1: "db w1 = (db w)\<lparr>notification_queue := notification_queue (db w) @
        [\<lparr>nq_id = g, nq_event_type = ty, nq_agreement_pda = pda, nq_recipient_pubkey = p, nq_status = ''pending'',
          nq_attempts = 0, nq_created_at = t', nq_scheduled_at = t\<rparr>]\<rparr>"
      and o1: "outbox w1 = outbox w" "ws_channels w1 = ws_channels w"
      using ins w1' unfolding insert_job_Some_iff by auto
    show ?thesis unfolding w1 o1
      by (intro conjI exI [of _ "[\<lparr>nq_id = g, nq_event_type = ty, nq_agreement_pda = pda, nq_recipient_pubkey = p,
          nq_status = ''pending'', nq_attempts = 0, nq_created_at = t', nq_scheduled_at = t\<rparr>]"]) (simp_all add: d1 job_for_def)
  qed
qed

lemma enqueue_quietly_outcome:
  assumes "enqueue_quietly E ty pda p w = (r, w')"
  shows "r = Inr () \<and> outbox w' = outbox w \<and> (\<exists>q. db w' = (db w)\<lparr>notification_queue := q\<rparr>)"
  using enqueue_quietly_job [OF assms] by auto

text \<open>What a broadcast sends when nothing fails: one push for every party whose wallet's account is connected.\<close>

definition pushes :: "ws_event \<Rightarrow> database \<Rightarrow> (uuid \<Rightarrow> nat option) \<Rightarrow> string list \<Rightarrow> external_effect list" where
  "pushes ev d chans ps =
     List.map_filter (\<lambda>p. Option.bind (wallet_owner p d) (\<lambda>u. map_option (\<lambda>c. WsPush u c ev) (chans u))) ps"

lemma push_to_reliable:
  assumes "push_to E ev p w = (r, w')" and "\<forall>k. \<not> db_fault (orc E) k" and "\<forall>k c. ws_send_ok (orc E) k c"
  shows "outbox w' = outbox w @ pushes ev (db w) (ws_channels w) [p] \<and> ws_channels w' = ws_channels w"
proof (cases "wallet_owner p (db w)")
  case None
  with assms show ?thesis by (auto simp: push_to_def lookup_user_id_def ret_def pushes_def)
next
  case (Some u)
  obtain b :: "app_error + bool" and w1 where s: "send_to_user E u ev (tick_on w) = (b, w1)" by fastforce
  then have r: "outbox w1 = outbox w @ (case ws_channels w u of None \<Rightarrow> [] | Some c \<Rightarrow> [WsPush u c ev])" "ws_channels w1 = ws_channels w"
    "\<exists>x. b = Inr x"
    using assms(3) by (auto simp: send_to_user_def bindE_def get_world_def ret_def ask_def thenE_def emit_def modify_def split: option.splits)
  with assms(1,2) Some s have "w' = w1" by (auto simp: push_to_def lookup_user_id_def ret_def)
  with r Some show ?thesis by (auto simp: pushes_def split: option.splits)
qed

lemma push_all_reliable:
  assumes "for_each ps (push_to E ev) w = (r, w')" and "\<forall>k. \<not> db_fault (orc E) k" and "\<forall>k c. ws_send_ok (orc E) k c"
  shows "outbox w' = outbox w @ pushes ev (db w) (ws_channels w) ps"
  using assms
proof (induction ps arbitrary: w)
  case Nil
  then show ?case by (simp add: act_simps pushes_def)
next
  case (Cons p ps)
  obtain r1 w1 where one: "push_to E ev p w = (r1, w1)" by fastforce
  note o = push_to_outcome [OF one] and o' = push_to_reliable [OF one Cons.prems(2,3)]
  with one Cons.prems have "for_each ps (push_to E ev) w1 = (r, w')" by (simp add: thenE_def)
  from Cons.IH [OF this Cons.prems(2,3)] o o' show ?case
    by (simp add: pushes_def split: option.splits)
qed

lemma enqueue_all:
  assumes "for_each ps (enqueue_quietly E ty pda) w = (r, w')"
  shows "r = Inr () \<and> outbox w' = outbox w \<and> (\<exists>q. db w' = (db w)\<lparr>notification_queue := q\<rparr>)"
  using assms
proof (induction ps arbitrary: w)
  case Nil
  then show ?case by (auto simp: act_simps intro: exI [of _ "notification_queue (db w)"])
next
  case (Cons p ps)
  obtain r1 w1 where one: "enqueue_quietly E ty pda p w = (r1, w1)" by fastforce
  note o = enqueue_quietly_outcome [OF one]
  with one Cons.prems have "for_each ps (enqueue_quietly E ty pda) w1 = (r, w')" by (simp add: thenE_def)
  from Cons.IH [OF this] o show ?case by auto
qed

lemma record_signature_same:
  "parties_of pda (record_signature pda s t d) = parties_of pda d" "wallet_owner p (record_signature pda s t d) = wallet_owner p d"
  "notification_queue (record_signature pda s t d) = notification_queue d"
  "map ap_status (agreement_parties (record_signature pda s t d)) = map ap_status (agreement_parties d)"
proof -
  have "map ap_party_pubkey (filter (\<lambda>r. ap_agreement_pda r = pda) (upd_where P (\<lambda>r. r\<lparr>ap_signed_at := v\<rparr>) rs)) =
      map ap_party_pubkey (filter (\<lambda>r. ap_agreement_pda r = pda) rs)" for P v rs
    by (induction rs) auto
  then show "parties_of pda (record_signature pda s t d) = parties_of pda d" by (simp add: parties_of_def record_signature_def)
qed (simp_all add: wallet_owner_def record_signature_def map_upd_where)

lemma record_signature_stranger:
  assumes "s \<notin> set (parties_of pda d)"
  shows "record_signature pda s t d = d"
proof -
  have "upd_where (\<lambda>r. ap_agreement_pda r = pda \<and> ap_party_pubkey r = s) f (agreement_parties d) = agreement_parties d" for f
    using assms by (intro upd_where_no_match) (auto simp: parties_of_def)
  then show ?thesis by (simp add: record_signature_def)
qed

lemma pushes_queue: "pushes ev (d\<lparr>notification_queue := q\<rparr>) chans ps = pushes ev d chans ps"
  by (simp add: pushes_def wallet_owner_def)

text \<open>The announcement, on tables in which the signature is recorded.\<close>

lemma announce_outcome:
  assumes run: "announce_signature E pda s w = (r, w')"
    and ty: "ty = (if unsigned_count pda (db w) = 0 then ''Completed'' else ''Signed'')"
    and ev: "ev = (if unsigned_count pda (db w) = 0 then AgreementCompleted pda else AgreementSigned pda)"
  shows "(r = Inr () \<longrightarrow>
      (\<exists>jobs. db w' = (db w)\<lparr>notification_queue := notification_queue (db w) @ jobs\<rparr> \<and> (jobs = [] \<or> (\<exists>j. jobs = [j] \<and> job_for ty pda s j))) \<and>
      (\<exists>xs. outbox w' = outbox w @ xs \<and>
         (\<forall>x \<in> set xs. \<exists>p u c. p \<in> set (parties_of pda (db w)) \<and> wallet_owner p (db w) = Some u \<and> x = WsPush u c ev))) \<and>
    (reliable E (db w) \<longrightarrow> r = Inr () \<and>
      (\<exists>j. job_for ty pda s j \<and> db w' = (db w)\<lparr>notification_queue := notification_queue (db w) @ [j]\<rparr>) \<and>
      outbox w' = outbox w @ pushes ev (db w) (ws_channels w) (parties_of pda (db w)))"
proof (cases "db_fault (orc E) (tick w)")
  case True
  with run show ?thesis
    by (auto simp: announce_signature_def sql_select_def sql_def bindE_def reliable_def)
next
  case ok: False
  obtain x w2 where q: "enqueue_quietly E ty pda s (tick_on w) = (x, w2)" by fastforce
  from enqueue_quietly_job [OF q] obtain jobs where x: "x = Inr ()" and o2: "outbox w2 = outbox w" and c2: "ws_channels w2 = ws_channels w"
    and d2: "db w2 = (db w)\<lparr>notification_queue := notification_queue (db w) @ jobs\<rparr>"
    and jobs: "jobs = [] \<or> (\<exists>j. jobs = [j] \<and> job_for ty pda s j)" "reliable E (db w) \<longrightarrow> jobs \<noteq> []" by auto
  have same: "parties_of pda (db w2) = parties_of pda (db w)" "wallet_owner p (db w2) = wallet_owner p (db w)" for p
    by (simp_all add: d2 parties_of_def wallet_owner_def)
  have n: "(sql_select E InternalError (unsigned_count pda) :: (world, app_error, nat) act) w = (Inr (unsigned_count pda (db w)), tick_on w)"
    using ok by (simp add: sql_select_def sql_def tick_on_def)
  have rest: "bindE (sql_select E InternalError (parties_of pda)) (\<lambda>parties. for_each parties (push_to E ev)) w2 = (r, w')"
    using run q x n unfolding announce_signature_def Let_def ty [symmetric] ev [symmetric]
    by (simp add: bindE_def thenE_def ty ev)
  show ?thesis
  proof (cases "db_fault (orc E) (tick w2)")
    case True
    with rest have "r = Inl InternalError" by (simp add: bindE_def sql_select_def sql_def)
    moreover have "\<not> reliable E (db w)" using True by (auto simp: reliable_def)
    ultimately show ?thesis by simp
  next
    case False
    with rest have push: "for_each (parties_of pda (db w)) (push_to E ev) (tick_on w2) = (r, w')"
      using same by (simp add: bindE_def sql_select_def sql_def tick_on_def)
    from push_all [OF push] obtain xs where r: "r = Inr ()" "db w' = db w2" "outbox w' = outbox w @ xs"
      "\<forall>x \<in> set xs. \<exists>p u c. p \<in> set (parties_of pda (db w)) \<and> wallet_owner p (db w) = Some u \<and> x = WsPush u c ev"
      using o2 same by auto
    moreover have "outbox w' = outbox w @ pushes ev (db w) (ws_channels w) (parties_of pda (db w))" if "reliable E (db w)"
      using that push_all_reliable [OF push] by (simp add: reliable_def o2 c2 d2 pushes_queue)
    ultimately show ?thesis using d2 jobs by (intro conjI impI) auto
  qed
qed


definition sample_sign_event :: parsed_event where
  "sample_sign_event = \<lparr>ev_instruction = SignAgreement, ev_agreement_pda = ''pda'', ev_creator = None,
     ev_signer = Some ''bob'', ev_parties = []\<rparr>"

definition sample_sign_world :: world where
  "sample_sign_world = empty_world\<lparr>ws_channels := [9 \<mapsto> 4], db := empty_db
     \<lparr>agreement_parties := [\<lparr>ap_party_pubkey = ''bob'', ap_agreement_pda = ''pda'', ap_creator_pubkey = ''alice'',
        ap_status = ''PendingSignatures'', ap_signed_at = None, ap_created_at = 0, ap_expires_at = 500, ap_title = ''T''\<rparr>],
      auth_wallet := [\<lparr>aw_user_id = 9, aw_pubkey = ''bob'', aw_linked_at = 0\<rparr>]\<rparr>\<rparr>"


section \<open>Creation and cancellation\<close>

definition party_key :: "agreement_party_row \<Rightarrow> string \<times> string" where
  "party_key r = (ap_party_pubkey r, ap_agreement_pda r)"

definition new_party_row :: "string \<Rightarrow> string \<Rightarrow> agreement_party_row \<Rightarrow> bool" where
  "new_party_row pda cr r \<longleftrightarrow> ap_agreement_pda r = pda \<and> ap_creator_pubkey r = cr \<and>
     ap_status r = ''PendingSignatures'' \<and> ap_signed_at r = None \<and> ap_expires_at r = ap_created_at r + 2592000"

definition parties_grown :: "string \<Rightarrow> string \<Rightarrow> string list \<Rightarrow> database \<Rightarrow> database \<Rightarrow> bool" where
  "parties_grown pda cr ps d d' \<longleftrightarrow>
     (\<exists>new. agreement_parties d' = agreement_parties d @ new \<and>
        (\<forall>r \<in> set new. new_party_row pda cr r \<and> ap_party_pubkey r \<in> set ps \<and>
           party_key r \<notin> party_key ` set (agreement_parties d)) \<and> distinct (map party_key new)) \<and>
     (\<forall>p \<in> set ps. (p, pda) \<in> party_key ` set (agreement_parties d'))"

lemma parties_grown_step:
  assumes "parties_grown pda cr ps d d1"
  shows "parties_grown pda cr (ps @ [p]) d (insert_party p pda cr t d1)"
proof -
  from assms obtain new where new: "agreement_parties d1 = agreement_parties d @ new" "distinct (map party_key new)"
    "\<forall>r \<in> set new. new_party_row pda cr r \<and> ap_party_pubkey r \<in> set ps \<and> party_key r \<notin> party_key ` set (agreement_parties d)"
    and all: "\<forall>p \<in> set ps. (p, pda) \<in> party_key ` set (agreement_parties d1)" unfolding parties_grown_def by blast
  have ex: "(\<exists>r \<in> set (agreement_parties d1). ap_party_pubkey r = p \<and> ap_agreement_pda r = pda) \<longleftrightarrow>
      (p, pda) \<in> party_key ` set (agreement_parties d1)" by (auto simp: party_key_def image_iff)
  show ?thesis
  proof (cases "(p, pda) \<in> party_key ` set (agreement_parties d1)")
    case True
    with ex have "insert_party p pda cr t d1 = d1" by (simp add: insert_party_def)
    with new all True show ?thesis unfolding parties_grown_def by (auto intro!: exI [of _ new])
  next
    case False
    let ?r = "\<lparr>ap_party_pubkey = p, ap_agreement_pda = pda, ap_creator_pubkey = cr, ap_status = ''PendingSignatures'',
      ap_signed_at = None, ap_created_at = t, ap_expires_at = t + 2592000, ap_title = ''Agreement''\<rparr>"
    from False ex have d': "agreement_parties (insert_party p pda cr t d1) = agreement_parties d @ new @ [?r]"
      using new(1) by (simp add: insert_party_def)
    have k: "party_key ?r = (p, pda)" "new_party_row pda cr ?r" by (simp_all add: party_key_def new_party_row_def)
    have "\<forall>q \<in> set (ps @ [p]). (q, pda) \<in> party_key ` set (agreement_parties (insert_party p pda cr t d1))"
      unfolding d' using all k(1) unfolding new(1) by (auto intro: rev_image_eqI [of ?r])
    moreover have "distinct (map party_key (new @ [?r]))" using new(1,2) False k(1) by auto
    moreover have "\<forall>r \<in> set (new @ [?r]). new_party_row pda cr r \<and> ap_party_pubkey r \<in> set (ps @ [p]) \<and>
        party_key r \<notin> party_key ` set (agreement_parties d)"
      using new(1,3) False k by auto
    ultimately show ?thesis unfolding parties_grown_def d' by (intro conjI exI [of _ "new @ [?r]"]) blast+
  qed
qed

text \<open>
  Recording a new agreement. When the listener has handled a creation event, every party of the event has a row for
  the agreement. Rows are only added: one, waiting for signatures, for each party of the event that had
  none, so handling the same event again adds nothing. The rows' deadline is thirty days after the insertion,
  whatever deadline the agreement has on the chain.
\<close>

theorem create_event_recorded:
  assumes "handle_create_agreement E event w = (Inr (), w')"
  shows "parties_grown (ev_agreement_pda event) (or_unknown (ev_creator event)) (ev_parties event) (db w) (db w')"
proof -
  let ?pda = "ev_agreement_pda event" and ?cr = "or_unknown (ev_creator event)" and ?ps = "ev_parties event"
  from assms obtain w1 w2 where
    ins: "for_each ?ps (\<lambda>party. sql E InternalError (\<lambda>t _ d. Some ((), insert_party party ?pda ?cr t d))) w = (Inr (), w1)"
    and enq: "for_each ?ps (enqueue_quietly E ''AgreementCreated'' ?pda) w1 = (Inr (), w2)"
    and push: "for_each ?ps (push_to E (AgreementCreated ?pda)) w2 = (Inr (), w')"
    by (auto simp: handle_create_agreement_def act_simps Let_def)
  have "parties_grown ?pda ?cr ([] @ ?ps) (db w) (db w1)"
    by (rule for_each_invariant [OF ins, of "\<lambda>zs u. parties_grown ?pda ?cr zs (db w) (db u)"])
      (auto simp: parties_grown_def [of _ _ "[]"] act_simps intro: parties_grown_step)
  moreover have "agreement_parties (db w') = agreement_parties (db w1)"
    using enqueue_all [OF enq] push_all [OF push] by auto
  ultimately show ?thesis by (simp add: parties_grown_def)
qed

definition sample_create_event :: parsed_event where
  "sample_create_event = \<lparr>ev_instruction = CreateAgreement, ev_agreement_pda = ''pda'', ev_creator = Some ''alice'',
     ev_signer = None, ev_parties = [''bob'', ''carol'']\<rparr>"

theorem create_event_recorded_witness:
  "\<exists>w'. handle_create_agreement sample_env sample_create_event sample_sign_world = (Inr (), w') \<and>
     parties_grown ''pda'' ''alice'' [''bob'', ''carol''] (db sample_sign_world) (db w') \<and>
     length (agreement_parties (db w')) = 2"
proof -
  obtain w' where run: "handle_create_agreement sample_env sample_create_event sample_sign_world = (Inr (), w')"
    and l: "length (agreement_parties (db w')) = 2"
    by (simp add: event_defs send_to_user_def enqueue_notification_def insert_job_def run_defs sample_create_event_def
        sample_sign_world_def sample_defs or_unknown_def insert_party_def wallet_owner_def)
  from create_event_recorded [OF run] run l show ?thesis
    by (simp add: sample_create_event_def or_unknown_def)
qed

text \<open>
  Cancellation and expiry start the refund. When the listener has handled the end of an agreement and the database
  answered, every row of the agreement has the new status, the first confirmed payment of the agreement waits
  for its refund, no other payment changed, and what was pushed went to accounts whose wallet is a party.
\<close>

theorem cancellation_effect:
  assumes run: "handle_cancellation E event st w = (Inr (), w')" and db: "\<And>k. \<not> db_fault (orc E) k"
    and pda: "pda = ev_agreement_pda event"
  shows "agreement_parties (db w') = agreement_parties (set_agreement_status st pda (db w)) \<and>
    (case confirmed_payment pda (db w) of
       None \<Rightarrow> agreement_payments (db w') = agreement_payments (db w)
     | Some i \<Rightarrow> \<exists>t. agreement_payments (db w') = agreement_payments (mark_refund_pending i t (db w))) \<and>
    (\<exists>xs. outbox w' = outbox w @ xs \<and>
       (\<forall>x \<in> set xs. \<exists>p u c. p \<in> set (parties_of pda (db w)) \<and> wallet_owner p (db w) = Some u \<and>
          x = WsPush u c (if st = ''Cancelled'' then AgreementCancelled pda else AgreementExpired pda)))"
proof -
  let ?d = "set_agreement_status st pda (db w)"
  let ?ev = "if st = ''Cancelled'' then AgreementCancelled pda else AgreementExpired pda"
  have "map ap_party_pubkey (filter (\<lambda>r. ap_agreement_pda r = pda) (upd_where P (\<lambda>r. r\<lparr>ap_status := v\<rparr>) rs)) =
      map ap_party_pubkey (filter (\<lambda>r. ap_agreement_pda r = pda) rs)" for P v rs by (induction rs) auto
  then have po: "parties_of pda ?d = parties_of pda (db w)" "wallet_owner p ?d = wallet_owner p (db w)"
    "confirmed_payment pda ?d = confirmed_payment pda (db w)" "agreement_payments ?d = agreement_payments (db w)" for p
    by (simp_all add: parties_of_def set_agreement_status_def wallet_owner_def confirmed_payment_def)
  let ?w1 = "tick_on ((tick_on w)\<lparr>db := ?d\<rparr>)"
  from run pda obtain w2 w3 x where enq: "for_each (parties_of pda ?d) (enqueue_quietly E (if st = ''Cancelled'' then ''Cancelled'' else ''Expired'') pda) ?w1
      = (Inr (), w2)"
    and push: "for_each (parties_of pda ?d) (push_to E ?ev) w2 = (Inr (), w3)"
    and ref: "initiate_refund_if_eligible E pda w3 = (x, w')"
    by (auto simp: handle_cancellation_def act_simps Let_def)
  from enqueue_all [OF enq] obtain q where d2: "db w2 = ?d\<lparr>notification_queue := q\<rparr>" and o2: "outbox w2 = outbox w" by auto
  have wo: "wallet_owner p (?d\<lparr>notification_queue := q\<rparr>) = wallet_owner p (db w)" for p
    by (simp add: wallet_owner_def set_agreement_status_def)
  from push_all [OF push] obtain xs where d3: "db w3 = ?d\<lparr>notification_queue := q\<rparr>" and xs: "outbox w3 = outbox w @ xs"
    "\<forall>x \<in> set xs. \<exists>p u c. p \<in> set (parties_of pda (db w)) \<and> wallet_owner p (db w) = Some u \<and> x = WsPush u c ?ev"
    unfolding d2 o2 po(1) wo by blast
  have c: "confirmed_payment pda (db w3) = confirmed_payment pda (db w)"
    using po(3) by (simp add: d3 confirmed_payment_def)
  have "outbox w' = outbox w3 \<and> (case confirmed_payment pda (db w) of None \<Rightarrow> db w' = db w3
      | Some i \<Rightarrow> \<exists>t. db w' = mark_refund_pending i t (db w3))"
    using ref db c
    by (auto simp: initiate_refund_if_eligible_def bindE_def sql_select_def sql_def ret_def split: option.splits)
  then show ?thesis
    using xs d3 po(4) by (auto simp: mark_refund_pending_def split: option.splits)
qed

definition sample_cancel_world :: world where
  "sample_cancel_world = sample_sign_world\<lparr>db := (db sample_sign_world)\<lparr>agreement_payments :=
     [(initiate_row 7 1 ''usdc'' ''mint'' 1990000 ''ref'' 900)\<lparr>pay_status := ''confirmed'', pay_agreement_pda := Some ''pda''\<rparr>]\<rparr>\<rparr>"

theorem cancellation_effect_witness:
  "\<exists>w' t. handle_cancellation sample_env sample_sign_event ''Cancelled'' sample_cancel_world = (Inr (), w') \<and>
     agreement_payments (db w') = agreement_payments (mark_refund_pending 7 t (db sample_cancel_world))"
proof -
  obtain w' where run: "handle_cancellation sample_env sample_sign_event ''Cancelled'' sample_cancel_world = (Inr (), w')"
    by (simp add: event_defs send_to_user_def enqueue_notification_def insert_job_def run_defs sample_sign_event_def
        sample_cancel_world_def sample_sign_world_def sample_defs parties_of_def set_agreement_status_def wallet_owner_def
        confirmed_payment_def initiate_row_def)
  have "confirmed_payment ''pda'' (db sample_cancel_world) = Some 7"
    by (simp add: confirmed_payment_def sample_cancel_world_def initiate_row_def)
  with cancellation_effect [OF run _ refl] run show ?thesis
    by (auto simp: sample_sign_event_def sample_env_def sample_outside_def)
qed

section \<open>The reconnection loop\<close>

lemma total_process_log [total_intros]: "total_act (process_log E entry)"
  unfolding process_log_def by (intro total_intros)

definition health_marked :: "world \<Rightarrow> world \<Rightarrow> bool" where
  "health_marked w w' \<longleftrightarrow> (health w \<noteq> HEALTHY \<longrightarrow> health w' \<noteq> HEALTHY)"

lemma frame_health_marked [keeps_intros]: "frame health_marked"
  by (auto simp: frame_def health_marked_def reflp_def transp_def)

lemma keeps_health_marked_event: "keeps health_marked (handle_event E event)"
proof -
  have s: "keeps health_marked (sql E e stmt)" for e :: app_error and stmt :: "int \<Rightarrow> uuid \<Rightarrow> database \<Rightarrow> ('a \<times> database) option"
    by (rule keeps_sql [OF frame_health_marked]) (simp add: health_marked_def)
  have p: "keeps health_marked (send_to_user E u ev :: (world, app_error, bool) act)" for u ev
    by (rule keeps_send_to_user [OF frame_health_marked]) (simp add: health_marked_def)
  show ?thesis
    unfolding event_defs enqueue_notification_def sql_update_def Let_def
    by (cases "ev_instruction event") (simp_all, (intro keeps_intros s p)+)
qed

text \<open>
  The listener survives every disconnect. Whatever logs the connections deliver and however many connections fail, the
  listener's loop goes on: it returns from each connection, ends it in the degraded status, and from the first
  disconnect on the process is never reported healthy again by this worker, although the listener has
  reconnected.
\<close>

theorem listener_survives:
  "\<exists>w'. listener_run E (session # sessions) WS_Healthy w = (Inr WS_Degraded, w') \<and> health w' \<noteq> HEALTHY"
proof -
  have ev: "keeps health_marked (process_log E entry)" for entry
    unfolding process_log_def by (intro keeps_intros keeps_health_marked_event)
  have one: "\<exists>b st' w'. connect_and_listen E s st w = (Inr (b, st'), w') \<and> health_marked w w' \<and> (st' = st \<or> st' = WS_Healthy)" for s st w
  proof (cases "logs_service_new E (program_id (cfg E))")
    case None
    then show ?thesis by (auto simp: connect_and_listen_def ret_def health_marked_def)
  next
    case (Some k)
    have "total_act (for_each s (process_log E))" by (intro total_intros)
    then obtain w' where f: "for_each s (process_log E) w = (Inr (), w')" unfolding total_act_def by (metis old.unit.exhaust)
    have "keeps health_marked (for_each s (process_log E))" by (intro keeps_intros ev)
    from keepsD [OF this f] have "health_marked w w'" .
    with Some f show ?thesis by (auto simp: connect_and_listen_def thenE_def ret_def transition_to_healthy_def)
  qed
  have deg: "\<exists>w'. (transition_to_degraded st :: (world, app_error, worker_status) act) w = (Inr WS_Degraded, w') \<and> (st \<noteq> WS_Degraded \<longrightarrow> health w' \<noteq> HEALTHY) \<and> health_marked w w'"
    for st :: worker_status and w :: world
    by (auto simp: transition_to_degraded_def thenE_def modify_def ret_def bindE_def health_marked_def mark_degraded_def)
  have all: "\<exists>w'. listener_run E ss WS_Degraded w = (Inr WS_Degraded, w') \<and> health_marked w w'" for ss w
  proof (induction ss arbitrary: w)
    case Nil
    then show ?case by (simp add: ret_def health_marked_def)
  next
    case (Cons s ss)
    from one [of s WS_Degraded w] obtain b st' w1 where c: "connect_and_listen E s WS_Degraded w = (Inr (b, st'), w1)"
      "health_marked w w1" by blast
    from deg [of st' w1] obtain w2 where d: "(transition_to_degraded st' :: (world, app_error, worker_status) act) w1 = (Inr WS_Degraded, w2)" "health_marked w1 w2"
      by blast
    from Cons.IH [of w2] obtain w3 where r: "listener_run E ss WS_Degraded w2 = (Inr WS_Degraded, w3)" "health_marked w2 w3" by blast
    from c d r have "listener_run E (s # ss) WS_Degraded w = (Inr WS_Degraded, w3)" by (simp add: bindE_def)
    with c(2) d(2) r(2) show ?case by (auto simp: health_marked_def)
  qed
  from one [of session WS_Healthy w] obtain b st' w1 where c: "connect_and_listen E session WS_Healthy w = (Inr (b, st'), w1)"
    "st' = WS_Healthy" by blast
  from deg [of st' w1] c obtain w2 where d: "(transition_to_degraded st' :: (world, app_error, worker_status) act) w1 = (Inr WS_Degraded, w2)" "health w2 \<noteq> HEALTHY"
    by auto
  from all [of sessions w2] obtain w3 where r: "listener_run E sessions WS_Degraded w2 = (Inr WS_Degraded, w3)" "health_marked w2 w3" by blast
  from c d r have "listener_run E (session # sessions) WS_Healthy w = (Inr WS_Degraded, w3)" by (simp add: bindE_def)
  with d(2) r(2) show ?thesis by (auto simp: health_marked_def)
qed

end
