(* ===== verification/Notification_Worker.thy ===== *)
theory Notification_Worker
  imports Event_Listener
begin

text \<open>
  \<^verbatim>\<open>src/src/workers/notification_worker.rs\<close>: every tick the worker takes the ten jobs that are due longest,
  pushes each to the recipient's WebSocket, mails it, and settles the job. \<open>lookup_user_id\<close> and the two
  \<open>transition\<close> functions are word for word those of the event listener. The event names of the queue are
  a \<open>code_table\<close>; a tick is a \<open>worker\<close> cycle in each of its two states.
\<close>

section \<open>The worker\<close>

definition event_of_type :: "string \<Rightarrow> notification_event option" where
  "event_of_type ty =
     (if ty = ''AgreementCreated'' then Some NE_AgreementCreated
      else if ty = ''Signed'' then Some NE_Signed
      else if ty = ''Completed'' then Some NE_Completed
      else if ty = ''Cancelled'' then Some NE_Cancelled
      else if ty = ''Expired'' then Some NE_Expired
      else if ty = ''RevokeVote'' then Some NE_RevokeVote
      else if ty = ''Revoked'' then Some NE_Revoked
      else if ty = ''DraftReadyToSubmit'' then Some NE_DraftReadyToSubmit
      else if ty = ''InvitationExpired'' then Some NE_InvitationExpired
      else if ty = ''InvitationReminder'' then Some NE_InvitationReminder
      else if ty = ''PaymentConfirmed'' then Some NE_PaymentConfirmed
      else if ty = ''RefundInitiated'' then Some NE_RefundInitiated
      else if ty = ''RefundCompleted'' then Some NE_RefundCompleted
      else None)"

definition contact_row :: "uuid \<Rightarrow> database \<Rightarrow> user_contacts_row option" where
  "contact_row user_id d = select_first (\<lambda>r. uc_user_id r = user_id \<and> uc_email_enc r \<noteq> None) (user_contacts d)"

text \<open>The key is hexadecimal, 32 bytes long; a nonce of another length than 12 is refused.\<close>

definition open_email :: "env \<Rightarrow> user_contacts_row \<Rightarrow> (string \<times> byte list) option" where
  "open_email E row =
     Option.bind (uc_email_enc row) (\<lambda>email_enc.
     Option.bind (uc_email_nonce row) (\<lambda>email_nonce.
     Option.bind (hex_decode (lib E) (encryption_key (cfg E))) (\<lambda>key_bytes.
     if length key_bytes \<noteq> 32 \<or> length email_nonce \<noteq> 12 then None
     else case decrypt E email_enc email_nonce key_bytes of Inr email \<Rightarrow> Some (email, email_nonce) | Inl _ \<Rightarrow> None)))"

definition lookup_user_email :: "env \<Rightarrow> string \<Rightarrow> (world, app_error, (string \<times> byte list) option) act" where
  "lookup_user_email E pubkey =
     bindE (lookup_user_id E pubkey) (\<lambda>u.
     case u of
       None \<Rightarrow> ret None
     | Some user_id \<Rightarrow>
         bindE (attempt (sql_select E InternalError (contact_row user_id))) (\<lambda>r.
         ret (case r of Inr (Some row) \<Rightarrow> open_email E row | _ \<Rightarrow> None)))"

definition mark_sent_or_retry :: "env \<Rightarrow> uuid \<Rightarrow> (world, app_error, unit) act" where
  "mark_sent_or_retry E jid =
     bindE (attempt (mark_sent E jid)) (\<lambda>r.
     case r of
       Inr _ \<Rightarrow> ret ()
     | Inl _ \<Rightarrow> bindE (attempt (increment_attempts E jid)) (\<lambda>_. ret ()))"

text \<open>The e-mail of a job; \<open>None\<close> is the \<open>continue\<close> of an unknown event type.\<close>

definition email_step :: "env \<Rightarrow> notification_row \<Rightarrow> (world, app_error, bool option) act" where
  "email_step E job =
     bindE (lookup_user_email E (nq_recipient_pubkey job)) (\<lambda>r.
     case r of
       None \<Rightarrow> ret (Some True)
     | Some (email, _) \<Rightarrow>
         (case event_of_type (nq_event_type job) of
            None \<Rightarrow> ret None
          | Some event \<Rightarrow>
              bindE (attempt (send_email E email event (Some (nq_agreement_pda job)))) (\<lambda>r.
              ret (Some (case r of Inr _ \<Rightarrow> True | Inl _ \<Rightarrow> False)))))"

definition deliver_job :: "env \<Rightarrow> notification_row \<Rightarrow> (world, app_error, unit) act" where
  "deliver_job E job =
     bindE (lookup_user_id E (nq_recipient_pubkey job)) (\<lambda>u.
     case u of
       None \<Rightarrow> mark_sent_or_retry E (nq_id job)
     | Some user_id \<Rightarrow>
         bindE (send_to_user E user_id (build_ws_event job)) (\<lambda>ws_delivered.
         bindE (email_step E job) (\<lambda>r.
         case r of
           None \<Rightarrow> ret ()
         | Some email_sent \<Rightarrow>
             if ws_delivered \<or> email_sent then mark_sent_or_retry E (nq_id job)
             else bindE (attempt (increment_attempts E (nq_id job))) (\<lambda>_. ret ()))))"

text \<open>One tick: the status the worker has before and after.\<close>

definition notification_cycle :: "worker_status \<Rightarrow> env \<Rightarrow> (world, app_error, worker_status) act" where
  "notification_cycle st E =
     bindE (attempt (fetch_pending_jobs E 10)) (\<lambda>r.
     case r of
       Inl _ \<Rightarrow> transition_to_degraded st
     | Inr jobs \<Rightarrow> thenE (for_each jobs (deliver_job E)) (ret (transition_to_healthy st)))"

fun notification_run :: "env \<Rightarrow> nat \<Rightarrow> worker_status \<Rightarrow> (world, app_error, worker_status) act" where
  "notification_run E 0 st = ret st"
| "notification_run E (Suc n) st = bindE (notification_cycle st E) (notification_run E n)"

lemmas notification_defs =
  notification_cycle_def deliver_job_def email_step_def mark_sent_or_retry_def lookup_user_email_def lookup_user_id_def

section \<open>The event names\<close>

interpretation event_code: code_table as_str event_of_type
proof unfold_locales
  fix x show "event_of_type (as_str x) = Some x"
    by (cases x) (simp_all add: event_of_type_def)
qed

lemma event_of_type_Some_iff: "event_of_type ty = Some ev \<longleftrightarrow> ty = as_str ev"
proof
  show "event_of_type ty = Some ev \<Longrightarrow> ty = as_str ev"
    by (auto simp: event_of_type_def split: if_splits)
qed (simp add: event_code.dec_enc)

section \<open>The contract of a worker\<close>

lemma total_send_to_user [total_intros]: "total_act (send_to_user E u ev)"
  unfolding total_act_def using send_to_user_result by (metis surj_pair)

lemma total_transition [total_intros]: "total_act (transition_to_degraded st)"
  unfolding transition_to_degraded_def by (intro total_intros)

lemma total_email_step [total_intros]: "total_act (email_step E job)"
  unfolding email_step_def lookup_user_email_def lookup_user_id_def by (intro total_intros)

lemma total_deliver_job [total_intros]: "total_act (deliver_job E job)"
  unfolding deliver_job_def email_step_def mark_sent_or_retry_def lookup_user_email_def lookup_user_id_def
  by (intro total_intros)

lemma keeps_health_send_to_user [keeps_intros]: "keeps health_degrades (send_to_user E u ev)"
  by (intro keeps_send_to_user frame_health_degrades) (simp add: health_degrades_def)

lemma keeps_health_send_email [keeps_intros]: "keeps health_degrades (send_email E a ev pda)"
  by (intro keeps_send_email frame_health_degrades) (simp add: health_degrades_def)

lemma keeps_deliver_job:
  assumes "frame R" and "\<And>w x. R w (w\<lparr>outbox := outbox w @ x\<rparr>)" and "\<And>jid. keeps R (increment_attempts E jid)"
  shows "keeps R (deliver_job E job)"
  unfolding deliver_job_def email_step_def mark_sent_or_retry_def lookup_user_email_def lookup_user_id_def
  using assms by (intro keeps_intros)

interpretation notification_worker: worker "notification_cycle st" for st
proof unfold_locales
  fix E :: env
  show "total_act (notification_cycle st E)"
    unfolding notification_cycle_def by (intro total_intros)
  have "keeps health_degrades (transition_to_degraded st :: (world, app_error, worker_status) act)"
    unfolding transition_to_degraded_def by (intro keeps_intros) (auto intro!: keepsI simp: act_simps)
  moreover have "keeps health_degrades (deliver_job E job)" for job
    unfolding notification_defs increment_attempts_def by (intro keeps_intros)
  ultimately show "keeps health_degrades (notification_cycle st E)"
    unfolding notification_cycle_def by (intro keeps_intros)
qed

section \<open>What a tick delivers\<close>

definition email_of :: "string \<Rightarrow> notification_event \<Rightarrow> notification_row \<Rightarrow> external_effect" where
  "email_of email ev job = Email email (subject ev) (render_email_html ev (Some (nq_agreement_pda job)))
     (render_email_text ev (Some (nq_agreement_pda job)))"

definition delivered :: "env \<Rightarrow> database \<Rightarrow> notification_row \<Rightarrow> external_effect \<Rightarrow> bool" where
  "delivered E d job x \<longleftrightarrow> (\<exists>u. wallet_owner (nq_recipient_pubkey job) d = Some u \<and>
     ((\<exists>c. x = WsPush u c (build_ws_event job)) \<or>
      (\<exists>row email n ev. contact_row u d = Some row \<and> open_email E row = Some (email, n) \<and>
         nq_event_type job = as_str ev \<and> x = email_of email ev job)))"

text \<open>The queue apart from the attempt counters.\<close>

definition queue_shape :: "database \<Rightarrow> notification_row list" where
  "queue_shape d = map (\<lambda>r. r\<lparr>nq_attempts := 0\<rparr>) (notification_queue d)"

definition only_attempts :: "database \<Rightarrow> database \<Rightarrow> bool" where
  "only_attempts d d' \<longleftrightarrow> (\<exists>q. d' = d\<lparr>notification_queue := q\<rparr>) \<and> queue_shape d' = queue_shape d"

lemma only_attempts_refl: "only_attempts d d"
  unfolding only_attempts_def by (auto intro: exI [of _ "notification_queue d"])

lemma only_attempts_trans: "only_attempts d d1 \<Longrightarrow> only_attempts d1 d2 \<Longrightarrow> only_attempts d d2"
  by (auto simp: only_attempts_def)

lemma only_attempts_bump: "bump_attempts jid d = Some (x, d') \<Longrightarrow> only_attempts d d'"
  by (auto simp: bump_attempts_def only_attempts_def queue_shape_def upd_where_def split: if_splits)

lemma only_attempts_delivered: "only_attempts d d' \<Longrightarrow> delivered E d' job x = delivered E d job x"
  by (auto simp: only_attempts_def delivered_def wallet_owner_def contact_row_def)

lemma lookup_user_id_result:
  "lookup_user_id E pk w = (r, w') \<Longrightarrow> w' = tick_on w \<and> (r = Inr None \<or> r = Inr (wallet_owner pk (db w)))"
  by (auto simp: lookup_user_id_def run_defs tick_on_def split: option.splits if_splits)

lemma lookup_user_email_result:
  assumes "lookup_user_email E pk w = (r, w')"
  shows "db w' = db w \<and> outbox w' = outbox w \<and> (r = Inr None \<or> (\<exists>u row v.
    wallet_owner pk (db w) = Some u \<and> contact_row u (db w) = Some row \<and> open_email E row = Some v \<and> r = Inr (Some v)))"
proof -
  obtain r1 w1 where l: "lookup_user_id E pk w = (r1, w1)" by fastforce
  from lookup_user_id_result [OF l] consider "r1 = Inr None" "w1 = tick_on w"
    | u where "r1 = Inr (Some u)" "wallet_owner pk (db w) = Some u" "w1 = tick_on w" by (metis option.exhaust)
  then show ?thesis
  proof cases
    case 1
    with l assms show ?thesis by (auto simp: lookup_user_email_def ret_def)
  next
    case (2 u)
    with l assms show ?thesis
      by (cases "db_fault (orc E) (tick w1)"; cases "contact_row u (db w1)"; cases "open_email E (the (contact_row u (db w1)))")
        (auto simp: lookup_user_email_def ret_def)
  qed
qed

lemma mark_sent_or_retry_result:
  "mark_sent_or_retry E jid w = (r, w') \<Longrightarrow> only_attempts (db w) (db w') \<and> outbox w' = outbox w"
  using mark_sent_rejected [of E jid w] mark_sent_db [of E jid w] only_attempts_refl [of "db w"]
  by (cases "mark_sent E jid w")
    (auto simp: mark_sent_or_retry_def bindE_def attempt_def increment_attempts_def sql_def ret_def
      only_attempts_bump split: if_splits option.splits)

lemma retry_result:
  "bindE (attempt (increment_attempts E jid)) (\<lambda>_. ret ()) w = (r, w') \<Longrightarrow>
     only_attempts (db w) (db w') \<and> outbox w' = outbox w"
  using only_attempts_refl [of "db w"]
  by (auto simp: bindE_def attempt_def increment_attempts_def sql_def ret_def only_attempts_bump
      split: if_splits option.splits)

lemma email_step_result:
  assumes "email_step E job w = (r, w')"
  shows "db w' = db w \<and> (\<exists>new. outbox w' = outbox w @ new \<and> (\<forall>x \<in> set new. delivered E (db w) job x))"
proof -
  obtain r1 w1 where l: "lookup_user_email E (nq_recipient_pubkey job) w = (r1, w1)" by fastforce
  note lr = lookup_user_email_result [OF l]
  from lr consider "r1 = Inr None"
    | u row email n where "r1 = Inr (Some (email, n))" "wallet_owner (nq_recipient_pubkey job) (db w) = Some u"
      "contact_row u (db w) = Some row" "open_email E row = Some (email, n)" by (metis surj_pair)
  then show ?thesis
  proof cases
    case 1
    with l lr assms show ?thesis by (auto simp: email_step_def ret_def)
  next
    case (2 u row email n)
    show ?thesis
    proof (cases "event_of_type (nq_event_type job)")
      case None
      with 2 l lr assms show ?thesis by (auto simp: email_step_def ret_def)
    next
      case (Some ev)
      then have ty: "nq_event_type job = as_str ev" by (simp add: event_of_type_Some_iff)
      have "delivered E (db w) job (email_of email ev job)" using 2 ty by (auto simp: delivered_def)
      with 2 Some l lr assms show ?thesis
        by (auto simp: email_step_def bindE_def attempt_def send_email_def thenE_def ask_def guardE_def ret_def fail_def
            emit_def modify_def email_of_def split: if_splits)
    qed
  qed
qed

lemma deliver_job_result:
  assumes "deliver_job E job w = (r, w')"
  shows "only_attempts (db w) (db w') \<and> (\<exists>new. outbox w' = outbox w @ new \<and> (\<forall>x \<in> set new. delivered E (db w) job x))"
proof -
  obtain r1 w1 where l: "lookup_user_id E (nq_recipient_pubkey job) w = (r1, w1)" by fastforce
  from lookup_user_id_result [OF l] consider "r1 = Inr None" "w1 = tick_on w"
    | u where "r1 = Inr (Some u)" "wallet_owner (nq_recipient_pubkey job) (db w) = Some u" "w1 = tick_on w"
    by (metis option.exhaust)
  then show ?thesis
  proof cases
    case 1
    with l assms have "mark_sent_or_retry E (nq_id job) w1 = (r, w')" by (simp add: deliver_job_def)
    from mark_sent_or_retry_result [OF this] 1 show ?thesis by simp
  next
    case (2 u)
    obtain b w2 where s: "(send_to_user E u (build_ws_event job) :: (world, app_error, bool) act) w1 = (Inr b, w2)"
      using total_send_to_user [of E u "build_ws_event job"] unfolding total_act_def by blast
    from send_to_user_result [OF s] 2 obtain n1 where o2: "outbox w2 = outbox w @ n1" "\<forall>x \<in> set n1. delivered E (db w) job x"
      and d2: "db w2 = db w"
      using that [of "[]"] that [of "[WsPush u (the (ws_channels w1 u)) (build_ws_event job)]"] by (auto simp: delivered_def)
    obtain q w3 where e: "email_step E job w2 = (q, w3)" by fastforce
    from email_step_result [OF e] d2 obtain n2 where o3: "outbox w3 = outbox w2 @ n2" "\<forall>x \<in> set n2. delivered E (db w) job x"
      and d3: "db w3 = db w" by auto
    have "q = Inl x \<Longrightarrow> False" for x
      using e total_email_step [of E job] unfolding total_act_def by (metis Pair_inject sum.distinct(1))
    then obtain v where v: "q = Inr v" by (cases q) auto
    have "only_attempts (db w3) (db w') \<and> outbox w' = outbox w3"
      using assms l 2 s e v mark_sent_or_retry_result [of E "nq_id job" w3 r w'] retry_result [of E "nq_id job" w3 r w']
        only_attempts_refl [of "db w3"]
      by (cases v) (auto simp: deliver_job_def ret_def split: if_splits)
    with o2 o3 d3 show ?thesis by (auto intro!: exI [of _ "n1 @ n2"])
  qed
qed

text \<open>
  C36 (what a tick of the notification worker sends). Whatever fails inside, everything a tick sends is for one of the ten
  jobs that were due: a push of the job's event to the owner of the recipient wallet, or the job's e-mail to the
  address stored for that owner, decrypted. Of the tables the tick changes nothing but attempt counters of the queue;
  in particular it never takes a job out of the pending state.
\<close>

theorem notification_cycle_sound:
  assumes "notification_cycle st E w = (Inr st', w')"
  shows "only_attempts (db w) (db w') \<and>
    (\<exists>new. outbox w' = outbox w @ new \<and>
      (\<forall>x \<in> set new. \<exists>job \<in> set (notification_queue (db w)). (\<exists>k. due (clock (orc E) k) job) \<and> delivered E (db w) job x))"
proof -
  obtain r w1 where f: "(fetch_pending_jobs E 10 :: (world, app_error, notification_row list) act) w = (r, w1)" by fastforce
  then have w1: "db w1 = db w" "outbox w1 = outbox w"
    by (auto simp: fetch_pending_jobs_def run_defs split: if_splits)
  show ?thesis
  proof (cases r)
    case (Inl e)
    with assms f w1 show ?thesis
      by (auto simp: notification_cycle_def bindE_def attempt_def transition_to_degraded_def thenE_def modify_def ret_def
          only_attempts_refl split: if_splits)
  next
    case (Inr jobs)
    have jobs: "jobs = pending_jobs (clock (orc E) (tick w)) 10 (db w)"
      using f Inr by (auto simp: fetch_pending_jobs_def act_simps)
    from assms f Inr have run: "for_each jobs (deliver_job E) w1 = (Inr (), w')"
      by (auto simp: notification_cycle_def bindE_def attempt_def act_simps)
    define I where "I = (\<lambda>(zs :: notification_row list) (u :: world). only_attempts (db w) (db u) \<and>
      (\<exists>new. outbox u = outbox w @ new \<and> (\<forall>x \<in> set new. \<exists>job \<in> set jobs. delivered E (db w) job x)))"
    have "I ([] @ jobs) w'"
    proof (rule for_each_invariant [OF run])
      show "I [] w1" using w1 by (simp add: I_def only_attempts_refl)
    next
      fix zs x u u' assume "x \<in> set jobs" "I zs u" "deliver_job E x u = (Inr (), u')"
      with deliver_job_result [of E x u "Inr ()" u'] show "I (zs @ [x]) u'"
        unfolding I_def by (auto simp: only_attempts_delivered intro: only_attempts_trans) blast
    qed
    then show ?thesis
      unfolding I_def jobs using pending_jobs_sound [of _ "clock (orc E) (tick w)" 10 "db w"] by fastforce
  qed
qed

section \<open>A job that was delivered is delivered again\<close>

lemma sent_job_retried:
  assumes "\<forall>k. \<not> db_fault (orc E) k" and "notification_queue (db w) = [job]" and "nq_attempts job < 2147483647"
  shows "\<exists>w'. mark_sent_or_retry E (nq_id job) w = (Inr (), w') \<and> outbox w' = outbox w \<and> ws_channels w' = ws_channels w \<and>
    db w' = (db w)\<lparr>notification_queue := [job\<lparr>nq_attempts := nq_attempts job + 1\<rparr>]\<rparr>"
  using assms
  by (simp add: mark_sent_or_retry_def mark_sent_def increment_attempts_def bump_attempts_def names_columns_def
      notification_queue_columns_def run_defs)

lemma job_mailed_again:
  assumes ok: "\<forall>k. \<not> db_fault (orc E) k" "\<forall>k. email_ok (orc E) k" "\<forall>k. nq_scheduled_at job \<le> clock (orc E) k"
    and job: "notification_queue (db w) = [job]" "nq_status job = ''pending''" "nq_attempts job < 2147483647"
    and user: "wallet_owner (nq_recipient_pubkey job) (db w) = Some u" "ws_channels w u = None"
    and mail: "contact_row u (db w) = Some row" "open_email E row = Some (email, n)" "nq_event_type job = as_str ev"
  shows "\<exists>w'. notification_cycle WS_Healthy E w = (Inr WS_Healthy, w') \<and> outbox w' = outbox w @ [email_of email ev job] \<and>
    ws_channels w' = ws_channels w \<and> db w' = (db w)\<lparr>notification_queue := [job\<lparr>nq_attempts := nq_attempts job + 1\<rparr>]\<rparr>"
proof -
  have ev: "event_of_type (nq_event_type job) = Some ev" using mail(3) by (simp add: event_of_type_Some_iff)
  define w1 where "w1 = (tick_on (tick_on (tick_on (tick_on (tick_on (tick_on w))))))\<lparr>outbox := outbox w @ [email_of email ev job]\<rparr>"
  have "deliver_job E job (tick_on (tick_on w)) = mark_sent_or_retry E (nq_id job) w1"
    using ok job user mail(1,2) ev
    by (simp add: deliver_job_def lookup_user_id_def send_to_user_def email_step_def lookup_user_email_def
        send_email_def run_defs w1_def email_of_def)
  moreover have "fetch_pending_jobs E 10 w = (Inr [job], tick_on (tick_on w))"
    using ok job by (simp add: fetch_pending_jobs_def pending_jobs_def due_def run_defs)
  moreover obtain w' where "mark_sent_or_retry E (nq_id job) w1 = (Inr (), w')" "outbox w' = outbox w1" "ws_channels w' = ws_channels w1"
    "db w' = (db w1)\<lparr>notification_queue := [job\<lparr>nq_attempts := nq_attempts job + 1\<rparr>]\<rparr>"
    using sent_job_retried [of E w1 job] ok job by (auto simp: w1_def)
  ultimately show ?thesis
    by (auto simp: notification_cycle_def attempt_def bindE_def thenE_def ret_def transition_to_healthy_def w1_def)
qed

text \<open>
  A delivered notification is mailed at every tick. With every service up, one pending job, and a recipient with a
  readable address, \<open>n\<close> ticks send the same e-mail \<open>n\<close> times: the statement of \<open>mark_sent\<close> is rejected because
  the table has no column \<open>sent_at\<close>, so the job stays pending and only its attempt counter moves.
\<close>

theorem notification_repeats:
  assumes ok: "\<forall>k. \<not> db_fault (orc E) k" "\<forall>k. email_ok (orc E) k" "\<forall>k. nq_scheduled_at job \<le> clock (orc E) k"
    and job: "notification_queue (db w) = [job]" "nq_status job = ''pending''" "nq_attempts job + int n \<le> 2147483647"
    and user: "wallet_owner (nq_recipient_pubkey job) (db w) = Some u" "ws_channels w u = None"
    and mail: "contact_row u (db w) = Some row" "open_email E row = Some (email, nonce)" "nq_event_type job = as_str ev"
  shows "\<exists>w'. notification_run E n WS_Healthy w = (Inr WS_Healthy, w') \<and>
    outbox w' = outbox w @ replicate n (email_of email ev job) \<and>
    notification_queue (db w') = [job\<lparr>nq_attempts := nq_attempts job + int n\<rparr>]"
  using ok(3) job user mail
proof (induction n arbitrary: w job)
  case 0
  then show ?case by (simp add: ret_def)
next
  case (Suc n)
  from Suc.prems(4) have "nq_attempts job < 2147483647" by simp
  from job_mailed_again [OF ok(1,2) Suc.prems(1,2,3) this Suc.prems(5-9)] obtain w1
    where w1: "notification_cycle WS_Healthy E w = (Inr WS_Healthy, w1)" "outbox w1 = outbox w @ [email_of email ev job]"
      "ws_channels w1 = ws_channels w" "db w1 = (db w)\<lparr>notification_queue := [job\<lparr>nq_attempts := nq_attempts job + 1\<rparr>]\<rparr>"
    by blast
  let ?job = "job\<lparr>nq_attempts := nq_attempts job + 1\<rparr>"
  have "\<exists>w'. notification_run E n WS_Healthy w1 = (Inr WS_Healthy, w') \<and>
    outbox w' = outbox w1 @ replicate n (email_of email ev ?job) \<and>
    notification_queue (db w') = [?job\<lparr>nq_attempts := nq_attempts ?job + int n\<rparr>]"
    by (rule Suc.IH) (use Suc.prems w1 in \<open>simp_all add: wallet_owner_def contact_row_def\<close>)
  then show ?case using w1 by (auto simp: email_of_def ac_simps)
qed

definition sample_job :: notification_row where
  "sample_job = \<lparr>nq_id = 1, nq_event_type = ''Signed'', nq_agreement_pda = ''pda'', nq_recipient_pubkey = ''alice'',
     nq_status = ''pending'', nq_attempts = 0, nq_created_at = 900, nq_scheduled_at = 900\<rparr>"

definition sample_contact :: user_contacts_row where
  "sample_contact = \<lparr>uc_user_id = 7, uc_email_enc = Some (as_bytes ''a@b''), uc_email_nonce = Some (replicate 12 0),
     uc_email_index = None, uc_phone_enc = None, uc_phone_nonce = None, uc_push_token_enc = None,
     uc_push_token_nonce = None, uc_updated_at = 0\<rparr>"

definition sample_mail_world :: world where
  "sample_mail_world = empty_world\<lparr>db := empty_db\<lparr>notification_queue := [sample_job],
     auth_wallet := [\<lparr>aw_user_id = 7, aw_pubkey = ''alice'', aw_linked_at = 0\<rparr>], user_contacts := [sample_contact]\<rparr>\<rparr>"

lemma sample_open_email: "open_email sample_env sample_contact = Some (''a@b'', replicate 12 0)"
proof -
  have "decrypt sample_env (as_bytes ''a@b'') n k = Inr ''a@b''" for n k
    by (simp add: decrypt_def sample_defs from_utf8_as_bytes rust_string_def)
  moreover obtain k where "hex_decode (lib sample_env) (encryption_key (cfg sample_env)) = Some k" "length k = 32"
    using hex_decode_64 [OF sample_laws(3), of "encryption_key (cfg sample_env)"]
    by (auto simp: sample_config_def sample_env_def is_ascii_hexdigit_def)
  ultimately show ?thesis by (simp add: open_email_def sample_contact_def)
qed

theorem notification_repeats_witness:
  "\<exists>w'. notification_run sample_env 3 WS_Healthy sample_mail_world = (Inr WS_Healthy, w') \<and>
     outbox w' = replicate 3 (email_of ''a@b'' NE_Signed sample_job) \<and>
     notification_queue (db w') = [sample_job\<lparr>nq_attempts := 3\<rparr>]"
  using notification_repeats [of sample_env sample_job sample_mail_world 3 7 sample_contact "''a@b''" "replicate 12 0" NE_Signed]
  by (simp add: sample_open_email)
    (simp add: sample_mail_world_def sample_job_def sample_defs wallet_owner_def contact_row_def sample_contact_def)

theorem notification_cycle_sound_witness:
  "\<exists>st' w' new. notification_cycle WS_Healthy sample_env sample_mail_world = (Inr st', w') \<and>
     only_attempts (db sample_mail_world) (db w') \<and> outbox w' = new \<and>
     (\<forall>x \<in> set new. delivered sample_env (db sample_mail_world) sample_job x)"
proof -
  obtain st' w' where run: "notification_cycle WS_Healthy sample_env sample_mail_world = (Inr st', w')"
    using notification_worker.cycle_returns by blast
  from notification_cycle_sound [OF run] run show ?thesis
    by (auto simp: sample_mail_world_def empty_world_def)
qed

end
