(* ===== verification/OAuth_Service.thy ===== *)
theory OAuth_Service
  imports Auth_Service
begin

text \<open>
  The OAuth sign-in of \<^verbatim>\<open>src/src/handlers/auth.rs\<close>: the redirect with its state cookie, the callback, and the
  rules that turn a provider identity into a user. The HTTP client, URL parsing and the \<open>oauth2\<close> crate are
  parameters; every failure of the client is \<open>InternalError\<close>, as in \<open>ReqwestOAuthHttpClient\<close>.
\<close>

section \<open>Providers\<close>

datatype oauth_provider = Google | Microsoft

fun provider_as_str :: "oauth_provider \<Rightarrow> string" where
  "provider_as_str Google = ''google''"
| "provider_as_str Microsoft = ''microsoft''"

fun auth_url :: "oauth_provider \<Rightarrow> config \<Rightarrow> string" where
  "auth_url Google c = ''https://accounts.google.com/o/oauth2/v2/auth''"
| "auth_url Microsoft c = ''https://login.microsoftonline.com/'' @ microsoft_tenant c @ ''/oauth2/v2.0/authorize''"

fun token_url :: "oauth_provider \<Rightarrow> config \<Rightarrow> string" where
  "token_url Google c = ''https://oauth2.googleapis.com/token''"
| "token_url Microsoft c = ''https://login.microsoftonline.com/'' @ microsoft_tenant c @ ''/oauth2/v2.0/token''"

fun profile_url :: "oauth_provider \<Rightarrow> string" where
  "profile_url Google = ''https://openidconnect.googleapis.com/v1/userinfo''"
| "profile_url Microsoft = ''https://graph.microsoft.com/oidc/userinfo''"

fun client_id :: "oauth_provider \<Rightarrow> config \<Rightarrow> string" where
  "client_id Google c = google_client_id c"
| "client_id Microsoft c = microsoft_client_id c"

fun client_secret :: "oauth_provider \<Rightarrow> config \<Rightarrow> string" where
  "client_secret Google c = google_client_secret c"
| "client_secret Microsoft c = microsoft_client_secret c"

fun redirect_uri :: "oauth_provider \<Rightarrow> config \<Rightarrow> string" where
  "redirect_uri Google c = google_redirect_uri c"
| "redirect_uri Microsoft c = microsoft_redirect_uri c"

definition scopes :: "string list" where
  "scopes = [''openid'', ''email'', ''profile'']"

fun state_cookie_name :: "oauth_provider \<Rightarrow> string" where
  "state_cookie_name Google = ''oauth_google_state''"
| "state_cookie_name Microsoft = ''oauth_microsoft_state''"

record oauth_identity =
  oi_provider_id :: string
  oi_email :: string

record email_conflict_details =
  existing_provider :: string
  link_url :: string

datatype oauth_user_resolution = ResolvedUser uuid | Conflict email_conflict_details

section \<open>The redirect\<close>

record state_cookie =
  ck_name :: string
  ck_value :: string
  ck_http_only :: bool
  ck_secure :: bool
  ck_same_site :: string
  ck_path :: string
  ck_max_age :: nat

definition build_oauth_state_cookie :: "string \<Rightarrow> string \<Rightarrow> state_cookie" where
  "build_oauth_state_cookie nm st = \<lparr>ck_name = nm, ck_value = st, ck_http_only = True, ck_secure = True,
     ck_same_site = ''Lax'', ck_path = ''/'', ck_max_age = 600\<rparr>"

definition build_provider_auth_url :: "env \<Rightarrow> oauth_provider \<Rightarrow> (world, app_error, string \<times> string) act" where
  "build_provider_auth_url E p =
     thenE (guardE (url_ok (lib E) (auth_url p (cfg E))) InternalError)
     (thenE (guardE (url_ok (lib E) (token_url p (cfg E))) InternalError)
     (thenE (guardE (url_ok (lib E) (redirect_uri p (cfg E))) InternalError)
     (bindE (ask (csrf_token (orc E))) (\<lambda>csrf.
      ret (authorize_url (lib E) (auth_url p (cfg E)) (client_id p (cfg E)) (redirect_uri p (cfg E)) scopes csrf,
        csrf)))))"

datatype redirect_response = RedirectTo string state_cookie | RedirectFailed nat json

definition oauth_redirect :: "env \<Rightarrow> oauth_provider \<Rightarrow> (world, app_error, redirect_response) act" where
  "oauth_redirect E p =
     bindE (attempt (build_provider_auth_url E p)) (\<lambda>r.
     case r of
       Inr (url, st) \<Rightarrow> ret (RedirectTo url (build_oauth_state_cookie (state_cookie_name p) st))
     | Inl _ \<Rightarrow> ret (RedirectFailed 500 (err_body ''internal_error'')))"

definition oauth_google :: "env \<Rightarrow> (world, app_error, redirect_response) act" where
  "oauth_google E = oauth_redirect E Google"

definition oauth_microsoft :: "env \<Rightarrow> (world, app_error, redirect_response) act" where
  "oauth_microsoft E = oauth_redirect E Microsoft"

section \<open>The callback\<close>

type_synonym cookie_jar = "string \<Rightarrow> string option"

record oauth_callback_query =
  cq_code :: string
  cq_state :: string

definition validate_oauth_state_cookie :: "cookie_jar \<Rightarrow> oauth_provider \<Rightarrow> string \<Rightarrow> app_error + unit" where
  "validate_oauth_state_cookie jar p query_state =
     (case jar (state_cookie_name p) of
        None \<Rightarrow> Inl Unauthorized
      | Some cookie_state \<Rightarrow> if cookie_state \<noteq> query_state then Inl Unauthorized else Inr ())"

definition post_form :: "env \<Rightarrow> string \<Rightarrow> (string \<times> string) list \<Rightarrow> (world, app_error, json) act" where
  "post_form E url form = bindE (ask (\<lambda>k. http_post_form (orc E) k url form)) (ok_or InternalError)"

definition get_json :: "env \<Rightarrow> string \<Rightarrow> string \<Rightarrow> (world, app_error, json) act" where
  "get_json E url bearer_token = bindE (ask (\<lambda>k. http_get_json (orc E) k url bearer_token)) (ok_or InternalError)"

text \<open>\<open>v.get(a).or_else(|| v.get(b)).or_else(|| v.get(c)).and_then(as_str)\<close>: the first key present decides.\<close>

definition first_str :: "json \<Rightarrow> string list \<Rightarrow> string option" where
  "first_str v ks = Option.bind (Option.bind (find (\<lambda>k. json_get k v \<noteq> None) ks) (\<lambda>k. json_get k v)) json_as_str"

definition email_required :: app_error where
  "email_required = EmailRequired ''Email is required to continue OAuth sign in'' ''/user/contacts''"

definition exchange_code_and_fetch_identity :: "env \<Rightarrow> oauth_provider \<Rightarrow> string \<Rightarrow> (world, app_error, oauth_identity) act" where
  "exchange_code_and_fetch_identity E p code =
     bindE (post_form E (token_url p (cfg E))
       [(''client_id'', client_id p (cfg E)), (''client_secret'', client_secret p (cfg E)),
        (''grant_type'', ''authorization_code''), (''code'', code), (''redirect_uri'', redirect_uri p (cfg E))]) (\<lambda>token_json.
     bindE (ok_or InternalError (first_str token_json [''access_token''])) (\<lambda>acc.
     bindE (get_json E (profile_url p) acc) (\<lambda>profile_json.
     bindE (ok_or InternalError (first_str profile_json [''sub'', ''oid'', ''id''])) (\<lambda>pid.
     bindE (ok_or email_required (first_str profile_json [''email'', ''mail'', ''userPrincipalName''])) (\<lambda>email.
     ret \<lparr>oi_provider_id = pid, oi_email = email\<rparr>)))))"

definition oauth_owner :: "string \<Rightarrow> string \<Rightarrow> database \<Rightarrow> uuid option" where
  "oauth_owner prov pid d =
     map_option ao_user_id (select_first (\<lambda>r. ao_provider r = prov \<and> ao_provider_id r = pid) (auth_oauth d))"

text \<open>The two joins of \<open>user_contacts\<close> with \<open>auth_oauth\<close> on the e-mail index, \<open>LIMIT 1\<close>.\<close>

definition identities_with_email :: "byte list \<Rightarrow> database \<Rightarrow> auth_oauth_row list" where
  "identities_with_email idx d =
     concat (map (\<lambda>uc. filter (\<lambda>ao. ao_user_id ao = uc_user_id uc) (auth_oauth d))
       (filter (\<lambda>uc. uc_email_index uc = Some idx) (user_contacts d)))"

definition conflicting_provider :: "byte list \<Rightarrow> string \<Rightarrow> database \<Rightarrow> string option" where
  "conflicting_provider idx prov d =
     map_option ao_provider (select_first (\<lambda>ao. ao_provider ao \<noteq> prov) (identities_with_email idx d))"

definition same_provider_user :: "byte list \<Rightarrow> string \<Rightarrow> database \<Rightarrow> uuid option" where
  "same_provider_user idx prov d =
     map_option ao_user_id (select_first (\<lambda>ao. ao_provider ao = prov) (identities_with_email idx d))"

definition detect_email_conflict :: "string \<Rightarrow> string \<Rightarrow> email_conflict_details option" where
  "detect_email_conflict existing current =
     (if eq_ignore_ascii_case existing current then None
      else Some \<lparr>existing_provider = existing, link_url = ''/auth/link/oauth''\<rparr>)"

text \<open>\<open>INSERT INTO auth_oauth ... ON CONFLICT (provider, provider_id) DO UPDATE SET user_id\<close>\<close>

definition upsert_oauth :: "uuid \<Rightarrow> string \<Rightarrow> string \<Rightarrow> int \<Rightarrow> database \<Rightarrow> (unit \<times> database) option" where
  "upsert_oauth user_id prov pid t d =
     (if user_id \<notin> ua_id ` set (user_accounts d) then None
      else Some ((), d\<lparr>auth_oauth :=
        if \<exists>r \<in> set (auth_oauth d). ao_provider r = prov \<and> ao_provider_id r = pid
        then upd_where (\<lambda>r. ao_provider r = prov \<and> ao_provider_id r = pid) (\<lambda>r. r\<lparr>ao_user_id := user_id\<rparr>) (auth_oauth d)
        else auth_oauth d @ [\<lparr>ao_user_id = user_id, ao_provider = prov, ao_provider_id = pid, ao_linked_at = t\<rparr>]\<rparr>))"

definition no_contacts :: "uuid \<Rightarrow> user_contacts_row" where
  "no_contacts user_id = \<lparr>uc_user_id = user_id, uc_email_enc = None, uc_email_nonce = None, uc_email_index = None,
     uc_phone_enc = None, uc_phone_nonce = None, uc_push_token_enc = None, uc_push_token_nonce = None, uc_updated_at = 0\<rparr>"

text \<open>\<open>INSERT INTO user_contacts ... ON CONFLICT (user_id) DO UPDATE\<close>: \<open>f\<close> sets the columns the statement names.\<close>

definition upsert_contact :: "uuid \<Rightarrow> (user_contacts_row \<Rightarrow> user_contacts_row) \<Rightarrow> database \<Rightarrow> (unit \<times> database) option" where
  "upsert_contact user_id f d =
     (if user_id \<notin> ua_id ` set (user_accounts d) then None
      else Some ((), d\<lparr>user_contacts :=
        if user_id \<in> uc_user_id ` set (user_contacts d)
        then upd_where (\<lambda>r. uc_user_id r = user_id) f (user_contacts d)
        else user_contacts d @ [f (no_contacts user_id)]\<rparr>))"

definition upsert_email_contact :: "env \<Rightarrow> uuid \<Rightarrow> string \<Rightarrow> (world, app_error, unit) act" where
  "upsert_email_contact E user_id email =
     bindE (liftE (decode_hex_key_32 E (encryption_key (cfg E)))) (\<lambda>key.
     bindE (liftE (decode_hex_key_32 E (encryption_index_key (cfg E)))) (\<lambda>idx_key.
     bindE (encrypt E email key) (\<lambda>(email_enc, nonce).
     sql E InternalError (\<lambda>t _. upsert_contact user_id (\<lambda>r. r\<lparr>uc_email_enc := Some email_enc, uc_email_nonce := Some nonce,
       uc_email_index := Some (hmac_index E email idx_key), uc_updated_at := t\<rparr>)))))"

text \<open>The user of an identity: the one it is linked to, one with the same provider and e-mail, or a new one.\<close>

definition user_for_identity :: "env \<Rightarrow> string \<Rightarrow> byte list \<Rightarrow> uuid option \<Rightarrow> (world, app_error, uuid) act" where
  "user_for_identity E prov email_index user_id_by_oauth =
     (case user_id_by_oauth of
        Some u \<Rightarrow> ret u
      | None \<Rightarrow>
          bindE (sql_select E InternalError (same_provider_user email_index prov)) (\<lambda>same.
          case same of Some u \<Rightarrow> ret u | None \<Rightarrow> sql E InternalError insert_user))"

definition resolve_or_create_oauth_user ::
    "env \<Rightarrow> oauth_provider \<Rightarrow> string \<Rightarrow> string \<Rightarrow> (world, app_error, oauth_user_resolution) act" where
  "resolve_or_create_oauth_user E p pid email =
     (let prov = provider_as_str p in
      bindE (sql_select E InternalError (oauth_owner prov pid)) (\<lambda>user_id_by_oauth.
      bindE (liftE (decode_hex_key_32 E (encryption_index_key (cfg E)))) (\<lambda>idx_key.
      let email_index = hmac_index E email idx_key in
      bindE (sql_select E InternalError (conflicting_provider email_index prov)) (\<lambda>conflicting.
      case Option.bind conflicting (\<lambda>existing. detect_email_conflict existing prov) of
        Some details \<Rightarrow> ret (Conflict details)
      | None \<Rightarrow>
          bindE (user_for_identity E prov email_index user_id_by_oauth) (\<lambda>user_id.
          thenE (sql E InternalError (\<lambda>t _. upsert_oauth user_id prov pid t))
          (thenE (upsert_email_contact E user_id email)
          (ret (ResolvedUser user_id))))))))"

datatype callback_response = SignedIn auth_response | EmailConflict nat json

definition conflict_body :: "email_conflict_details \<Rightarrow> json" where
  "conflict_body c = json_object [(''error'', JStr ''email_already_registered''),
     (''existing_provider'', JStr (existing_provider c)), (''link_url'', JStr (link_url c))]"

definition oauth_callback ::
    "env \<Rightarrow> cookie_jar \<Rightarrow> oauth_callback_query \<Rightarrow> oauth_provider \<Rightarrow> (world, app_error, callback_response) act" where
  "oauth_callback E jar query p =
     thenE (liftE (validate_oauth_state_cookie jar p (cq_state query)))
     (bindE (exchange_code_and_fetch_identity E p (cq_code query)) (\<lambda>identity.
      bindE (resolve_or_create_oauth_user E p (oi_provider_id identity) (oi_email identity)) (\<lambda>resolution.
      case resolution of
        Conflict c \<Rightarrow> ret (EmailConflict 409 (conflict_body c))
      | ResolvedUser user_id \<Rightarrow>
          bindE (issue_access_token E user_id None) (\<lambda>acc.
          bindE (issue_and_store_refresh_token E user_id) (\<lambda>ref.
          ret (SignedIn \<lparr>access_token = acc, refresh_token = ref\<rparr>))))))"

definition oauth_google_callback :: "env \<Rightarrow> cookie_jar \<Rightarrow> oauth_callback_query \<Rightarrow> (world, app_error, callback_response) act" where
  "oauth_google_callback E jar query = oauth_callback E jar query Google"

definition oauth_microsoft_callback :: "env \<Rightarrow> cookie_jar \<Rightarrow> oauth_callback_query \<Rightarrow> (world, app_error, callback_response) act" where
  "oauth_microsoft_callback E jar query = oauth_callback E jar query Microsoft"

section \<open>What the handlers keep\<close>

text \<open>The keys and references of \<open>auth_oauth\<close> and \<open>user_contacts\<close>; the program writes two provider names only.\<close>

definition contact_inv :: "database \<Rightarrow> bool" where
  "contact_inv d \<longleftrightarrow>
     distinct (map (\<lambda>r. (ao_provider r, ao_provider_id r)) (auth_oauth d)) \<and>
     distinct (map uc_user_id (user_contacts d)) \<and>
     (\<forall>r \<in> set (auth_oauth d). ao_user_id r \<in> ua_id ` set (user_accounts d) \<and> ao_provider r \<in> range provider_as_str) \<and>
     (\<forall>r \<in> set (user_contacts d). uc_user_id r \<in> ua_id ` set (user_accounts d))"

lemma contact_inv_insert_user: "insert_user t g d = Some (x, d') \<Longrightarrow> contact_inv d \<Longrightarrow> contact_inv d'"
  by (auto simp: contact_inv_def insert_user_def split: if_splits)

lemma contact_inv_upsert_oauth:
  assumes "upsert_oauth u (provider_as_str p) pid t d = Some (x, d')" and "contact_inv d"
  shows "contact_inv d'"
proof -
  have u: "u \<in> ua_id ` set (user_accounts d)" using assms(1) by (auto simp: upsert_oauth_def split: if_splits)
  have keys: "map (\<lambda>r. (ao_provider r, ao_provider_id r)) (upd_where Q (\<lambda>r. r\<lparr>ao_user_id := u\<rparr>) rs) =
    map (\<lambda>r. (ao_provider r, ao_provider_id r)) rs" for Q rs
    by (rule map_upd_where) simp
  show ?thesis
  proof (cases "\<exists>r \<in> set (auth_oauth d). ao_provider r = provider_as_str p \<and> ao_provider_id r = pid")
    case True
    with assms(1) have d': "d' = d\<lparr>auth_oauth := upd_where (\<lambda>r. ao_provider r = provider_as_str p \<and> ao_provider_id r = pid)
        (\<lambda>r. r\<lparr>ao_user_id := u\<rparr>) (auth_oauth d)\<rparr>"
      by (simp add: upsert_oauth_def split: if_splits)
    show ?thesis using assms(2) u unfolding d' contact_inv_def by (simp add: keys) (auto simp: sql_list)
  next
    case False
    then have "(provider_as_str p, pid) \<notin> set (map (\<lambda>r. (ao_provider r, ao_provider_id r)) (auth_oauth d))" by auto
    moreover from False assms(1) have "d' = d\<lparr>auth_oauth := auth_oauth d @
        [\<lparr>ao_user_id = u, ao_provider = provider_as_str p, ao_provider_id = pid, ao_linked_at = t\<rparr>]\<rparr>"
      by (auto simp: upsert_oauth_def split: if_splits)
    ultimately show ?thesis using assms(2) u by (simp add: contact_inv_def)
  qed
qed

lemma contact_inv_upsert_contact:
  assumes "upsert_contact u f d = Some (x, d')" and "contact_inv d" and "\<And>r. uc_user_id (f r) = uc_user_id r"
  shows "contact_inv d'"
proof -
  have "uc_user_id (no_contacts u) = u" by (simp add: no_contacts_def)
  with assms show ?thesis
    by (auto simp: contact_inv_def upsert_contact_def map_upd_where sql_list split: if_splits)
qed

lemma keeps_post_form [keeps_intros]: "frame R \<Longrightarrow> keeps R (post_form E u f)"
  unfolding post_form_def by (intro keeps_intros)

lemma keeps_get_json [keeps_intros]: "frame R \<Longrightarrow> keeps R (get_json E u b)"
  unfolding get_json_def by (intro keeps_intros)

lemma keeps_exchange [keeps_intros]: "frame R \<Longrightarrow> keeps R (exchange_code_and_fetch_identity E p code)"
  unfolding exchange_code_and_fetch_identity_def by (intro keeps_intros)

lemma keeps_oauth_redirect [keeps_intros]: "frame R \<Longrightarrow> keeps R (oauth_redirect E p)"
  unfolding oauth_redirect_def build_provider_auth_url_def by (intro keeps_intros)

text \<open>The tables the callback writes: accounts, identities, contacts and refresh tokens.\<close>

lemma keeps_upsert_email:
  assumes "\<And>t u f d x d'. upsert_contact u f d = Some (x, d') \<Longrightarrow> (\<And>r. uc_user_id (f r) = uc_user_id r) \<Longrightarrow> P d \<Longrightarrow> P d'"
  shows "keeps (db_frame P) (upsert_email_contact E u email)"
  unfolding upsert_email_contact_def by (intro keeps_intros keeps_db_frame_sql) (erule assms, simp_all)

lemma keeps_oauth_callback:
  assumes "\<And>t g d x d'. insert_user t g d = Some (x, d') \<Longrightarrow> P d \<Longrightarrow> P d'"
    and "\<And>u p pid t d x d'. upsert_oauth u (provider_as_str p) pid t d = Some (x, d') \<Longrightarrow> P d \<Longrightarrow> P d'"
    and "\<And>u f d x d'. upsert_contact u f d = Some (x, d') \<Longrightarrow> (\<And>r. uc_user_id (f r) = uc_user_id r) \<Longrightarrow> P d \<Longrightarrow> P d'"
    and "\<And>u. keeps (db_frame P) (issue_and_store_refresh_token E u)"
  shows "keeps (db_frame P) (oauth_callback E jar q p)"
proof -
  have up: "keeps (db_frame P) (upsert_email_contact E u email)" for u email
    by (rule keeps_upsert_email) (erule assms(3), simp_all)
  have "keeps (db_frame P) (resolve_or_create_oauth_user E p pid email)" for pid email
    unfolding resolve_or_create_oauth_user_def user_for_identity_def Let_def
    by (intro keeps_intros up keeps_db_frame_sql) (auto intro: assms(1,2))
  then show ?thesis unfolding oauth_callback_def
    by (auto intro!: keeps_intros assms(4) split: oauth_user_resolution.splits)
qed

lemma keeps_contact_inv_store_refresh: "keeps (db_frame contact_inv) (issue_and_store_refresh_token E u)"
  unfolding issue_and_store_refresh_token_def
  by (intro keeps_intros keeps_db_frame_sql) (auto simp: contact_inv_def split: if_splits)

lemma keeps_contact_inv_oauth: "keeps (db_frame contact_inv) (oauth_callback E jar q p)"
  by (rule keeps_oauth_callback)
    (auto intro: contact_inv_insert_user contact_inv_upsert_oauth contact_inv_upsert_contact keeps_contact_inv_store_refresh)

lemma keeps_auth_inv_oauth: "keeps (db_frame auth_inv) (oauth_callback E jar q p)"
  by (rule keeps_oauth_callback)
    (auto intro: auth_inv_insert_user keeps_auth_inv_store_refresh
      simp: insert_user_def upsert_oauth_def upsert_contact_def auth_inv_def split: if_splits)

section \<open>Who is signed in\<close>

lemma oauth_owner_upsert:
  assumes "upsert_oauth u prov pid t d = Some (x, d')"
  shows "oauth_owner prov pid d' = Some u"
proof (cases "\<exists>r \<in> set (auth_oauth d). ao_provider r = prov \<and> ao_provider_id r = pid")
  case True
  then obtain r where "select_first (\<lambda>r. ao_provider r = prov \<and> ao_provider_id r = pid) (auth_oauth d) = Some r"
    using select_first_ex [of _ "auth_oauth d" "\<lambda>r. ao_provider r = prov \<and> ao_provider_id r = pid"] by blast
  with True assms show ?thesis
    by (auto simp: upsert_oauth_def oauth_owner_def select_first_upd split: if_splits)
next
  case False
  then have "select_first (\<lambda>r. ao_provider r = prov \<and> ao_provider_id r = pid) (auth_oauth d) = None"
    by (simp add: select_first_None_iff)
  with False assms show ?thesis
    by (auto simp: upsert_oauth_def oauth_owner_def select_first_append split: if_splits)
qed

lemma upsert_oauth_other: "upsert_oauth u prov pid t d = Some (x, d') \<Longrightarrow> user_accounts d' = user_accounts d"
  by (auto simp: upsert_oauth_def split: if_splits)

lemma upsert_contact_row:
  assumes "upsert_contact u f d = Some (x, d')" and "\<And>r. uc_user_id (f r) = uc_user_id r"
  shows "\<exists>r. uc_user_id r = u \<and> select_first (\<lambda>r. uc_user_id r = u) (user_contacts d') = Some (f r) \<and>
    r = (case select_first (\<lambda>r. uc_user_id r = u) (user_contacts d) of None \<Rightarrow> no_contacts u | Some r0 \<Rightarrow> r0)"
proof (cases "u \<in> uc_user_id ` set (user_contacts d)")
  case True
  then obtain r where r: "select_first (\<lambda>r. uc_user_id r = u) (user_contacts d) = Some r"
    using select_first_ex [of _ "user_contacts d" "\<lambda>r. uc_user_id r = u"] by blast
  then have "uc_user_id r = u" by (auto dest: select_first_SomeD)
  with True r assms show ?thesis by (auto simp: upsert_contact_def select_first_upd split: if_splits)
next
  case False
  then have "select_first (\<lambda>r. uc_user_id r = u) (user_contacts d) = None" by (auto simp: select_first_None_iff)
  moreover have "uc_user_id (no_contacts u) = u" by (simp add: no_contacts_def)
  ultimately show ?thesis using False assms
    by (auto simp: upsert_contact_def select_first_append split: if_splits)
qed

lemma upsert_contact_other: "upsert_contact u f d = Some (x, d') \<Longrightarrow> auth_oauth d' = auth_oauth d \<and> user_accounts d' = user_accounts d"
  by (auto simp: upsert_contact_def split: if_splits)

definition mail_stored :: "env \<Rightarrow> uuid \<Rightarrow> string \<Rightarrow> database \<Rightarrow> bool" where
  "mail_stored E u email d \<longleftrightarrow> (\<exists>row c n key. select_first (\<lambda>r. uc_user_id r = u) (user_contacts d) = Some row \<and>
     uc_email_enc row = Some c \<and> uc_email_nonce row = Some n \<and>
     decode_hex_key_32 E (encryption_key (cfg E)) = Inr key \<and> decrypt E c n key = Inr email)"

lemma upsert_email_contact_Inr:
  assumes "upsert_email_contact E u email w = (Inr (), w')" and "cipher_law (lib E)" and "rust_string email"
  shows "auth_oauth (db w') = auth_oauth (db w) \<and> user_accounts (db w') = user_accounts (db w) \<and> mail_stored E u email (db w')"
proof -
  from assms(1) obtain key idx_key c n w1 d' where k: "decode_hex_key_32 E (encryption_key (cfg E)) = Inr key"
    and e: "encrypt E email key w = (Inr (c, n), w1)"
    and up: "upsert_contact u (\<lambda>r. r\<lparr>uc_email_enc := Some c, uc_email_nonce := Some n, uc_email_index := Some (hmac_index E email idx_key),
        uc_updated_at := clock (orc E) (tick w1)\<rparr>) (db w1) = Some ((), d')" and w': "db w' = d'"
    by (force simp: upsert_email_contact_def act_simps)
  have "db w1 = db w" using e by (auto simp: encrypt_def act_simps)
  moreover have "decrypt E c n key = Inr email" by (rule decrypt_encrypt [OF assms(2,3) e])
  ultimately show ?thesis
    using upsert_contact_row [OF up] upsert_contact_other [OF up] k w' by (fastforce simp: mail_stored_def)
qed

text \<open>Which user an identity resolves to, before anything is written.\<close>

definition known_user :: "env \<Rightarrow> oauth_provider \<Rightarrow> string \<Rightarrow> byte list \<Rightarrow> database \<Rightarrow> uuid option" where
  "known_user E p pid idx d = (case oauth_owner (provider_as_str p) pid d of
     Some u \<Rightarrow> Some u | None \<Rightarrow> same_provider_user idx (provider_as_str p) d)"

lemma resolve_user_Inr:
  assumes "resolve_or_create_oauth_user E p pid email w = (Inr (ResolvedUser u), w')"
    and "cipher_law (lib E)" and "rust_string email"
  obtains idx_key where "decode_hex_key_32 E (encryption_index_key (cfg E)) = Inr idx_key"
    and "Option.bind (conflicting_provider (hmac_index E email idx_key) (provider_as_str p) (db w))
      (\<lambda>e. detect_email_conflict e (provider_as_str p)) = None"
    and "known_user E p pid (hmac_index E email idx_key) (db w) = Some u \<and> user_accounts (db w') = user_accounts (db w) \<or>
      known_user E p pid (hmac_index E email idx_key) (db w) = None \<and> u \<notin> ua_id ` set (user_accounts (db w)) \<and>
      (\<exists>t. user_accounts (db w') = user_accounts (db w) @ [\<lparr>ua_id = u, ua_display_name = None, ua_created_at = t\<rparr>])"
    and "oauth_owner (provider_as_str p) pid (db w') = Some u" and "mail_stored E u email (db w')"
proof -
  let ?prov = "provider_as_str p"
  from assms(1) obtain idx_key w1 w2 w3 where idx: "decode_hex_key_32 E (encryption_index_key (cfg E)) = Inr idx_key"
    and nc: "Option.bind (conflicting_provider (hmac_index E email idx_key) ?prov (db w)) (\<lambda>e. detect_email_conflict e ?prov) = None"
    and find: "user_for_identity E ?prov (hmac_index E email idx_key) (oauth_owner ?prov pid (db w)) w1 = (Inr u, w2)"
    and w1: "db w1 = db w"
    and up: "sql E InternalError (\<lambda>t _. upsert_oauth u ?prov pid t) w2 = (Inr (), w3)"
    and mail: "upsert_email_contact E u email w3 = (Inr (), w')"
    by (force simp: resolve_or_create_oauth_user_def act_simps Let_def split: option.splits)
  have acc: "known_user E p pid (hmac_index E email idx_key) (db w) = Some u \<and> user_accounts (db w2) = user_accounts (db w) \<or>
      known_user E p pid (hmac_index E email idx_key) (db w) = None \<and> u \<notin> ua_id ` set (user_accounts (db w)) \<and>
      (\<exists>t. user_accounts (db w2) = user_accounts (db w) @ [\<lparr>ua_id = u, ua_display_name = None, ua_created_at = t\<rparr>])"
    using find w1 by (auto simp: user_for_identity_def known_user_def act_simps insert_user_def split: option.splits if_splits)
  from up obtain t where u3: "upsert_oauth u ?prov pid t (db w2) = Some ((), db w3)" by (auto simp: act_simps)
  have "oauth_owner ?prov pid (db w3) = Some u" by (rule oauth_owner_upsert [OF u3])
  moreover have "user_accounts (db w3) = user_accounts (db w2)" by (rule upsert_oauth_other [OF u3])
  ultimately show ?thesis
    using that [OF idx nc] acc upsert_email_contact_Inr [OF mail assms(2,3)] by (auto simp: oauth_owner_def)
qed

lemma resolve_conflict_Inr:
  assumes "resolve_or_create_oauth_user E p pid email w = (Inr (Conflict c), w')"
  obtains idx_key e where "decode_hex_key_32 E (encryption_index_key (cfg E)) = Inr idx_key" and "db w' = db w"
    and "conflicting_provider (hmac_index E email idx_key) (provider_as_str p) (db w) = Some e"
    and "detect_email_conflict e (provider_as_str p) = Some c"
proof -
  from assms obtain idx_key where "decode_hex_key_32 E (encryption_index_key (cfg E)) = Inr idx_key" "db w' = db w"
    "Option.bind (conflicting_provider (hmac_index E email idx_key) (provider_as_str p) (db w))
      (\<lambda>e. detect_email_conflict e (provider_as_str p)) = Some c"
    by (force simp: resolve_or_create_oauth_user_def act_simps Let_def split: option.splits)
  then show ?thesis using that unfolding bind_eq_Some_conv by blast
qed

lemma provider_names_differ: "eq_ignore_ascii_case (provider_as_str p) (provider_as_str q) \<longleftrightarrow> p = q"
  by (cases p; cases q) (simp_all add: eq_ignore_ascii_case_def to_ascii_lowercase_def)

lemma conflict_detected:
  assumes "contact_inv d" and "conflicting_provider idx (provider_as_str p) d = Some e"
  shows "\<exists>c. detect_email_conflict e (provider_as_str p) = Some c"
proof -
  from assms(2) obtain ao where ao: "ao \<in> set (identities_with_email idx d)" "ao_provider ao = e" "e \<noteq> provider_as_str p"
    by (auto simp: conflicting_provider_def dest!: select_first_SomeD)
  then have "ao \<in> set (auth_oauth d)" by (auto simp: identities_with_email_def)
  with assms(1) ao(2) obtain q where "e = provider_as_str q" by (auto simp: contact_inv_def)
  with ao(3) show ?thesis by (auto simp: detect_email_conflict_def provider_names_differ)
qed

text \<open>
  C10 (identities of different providers are never merged). Whatever identity a provider returns, the e-mail decides: if
  the address is registered with another provider the sign-in ends in a conflict that names that provider and
  writes nothing; otherwise the identity resolves to the account it is linked to, to an account of the same
  provider with that address, or to a new account, and afterwards the identity is linked to that account and the
  stored address decrypts to the one given.
\<close>

theorem oauth_never_merges:
  assumes "contact_inv (db w)" and "cipher_law (lib E)" and "rust_string email"
    and run: "resolve_or_create_oauth_user E p pid email w = (Inr res, w')"
    and key: "decode_hex_key_32 E (encryption_index_key (cfg E)) = Inr idx_key"
  shows "case conflicting_provider (hmac_index E email idx_key) (provider_as_str p) (db w) of
      Some e \<Rightarrow> res = Conflict \<lparr>existing_provider = e, link_url = ''/auth/link/oauth''\<rparr> \<and> db w' = db w
    | None \<Rightarrow> \<exists>u. res = ResolvedUser u \<and> oauth_owner (provider_as_str p) pid (db w') = Some u \<and> mail_stored E u email (db w') \<and>
        (case known_user E p pid (hmac_index E email idx_key) (db w) of
           Some v \<Rightarrow> u = v \<and> user_accounts (db w') = user_accounts (db w)
         | None \<Rightarrow> u \<notin> ua_id ` set (user_accounts (db w)) \<and> length (user_accounts (db w')) = Suc (length (user_accounts (db w))))"
proof (cases res)
  case (Conflict c)
  obtain k e where "decode_hex_key_32 E (encryption_index_key (cfg E)) = Inr k" "db w' = db w"
    "conflicting_provider (hmac_index E email k) (provider_as_str p) (db w) = Some e"
    "detect_email_conflict e (provider_as_str p) = Some c"
    by (rule resolve_conflict_Inr [OF run [unfolded Conflict]])
  with key Conflict show ?thesis by (auto simp: detect_email_conflict_def split: if_splits)
next
  case (ResolvedUser u)
  obtain k where k: "decode_hex_key_32 E (encryption_index_key (cfg E)) = Inr k"
    and nc: "Option.bind (conflicting_provider (hmac_index E email k) (provider_as_str p) (db w))
      (\<lambda>e. detect_email_conflict e (provider_as_str p)) = None"
    and rest: "known_user E p pid (hmac_index E email k) (db w) = Some u \<and> user_accounts (db w') = user_accounts (db w) \<or>
      known_user E p pid (hmac_index E email k) (db w) = None \<and> u \<notin> ua_id ` set (user_accounts (db w)) \<and>
      (\<exists>t. user_accounts (db w') = user_accounts (db w) @ [\<lparr>ua_id = u, ua_display_name = None, ua_created_at = t\<rparr>])"
    and own: "oauth_owner (provider_as_str p) pid (db w') = Some u" "mail_stored E u email (db w')"
    by (rule resolve_user_Inr [OF run [unfolded ResolvedUser] assms(2,3)])
  have "k = idx_key" using k key by simp
  moreover have "conflicting_provider (hmac_index E email k) (provider_as_str p) (db w) = None"
  proof (rule ccontr)
    assume "conflicting_provider (hmac_index E email k) (provider_as_str p) (db w) \<noteq> None"
    then obtain e where e: "conflicting_provider (hmac_index E email k) (provider_as_str p) (db w) = Some e" by blast
    from conflict_detected [OF assms(1) this] nc e show False by simp
  qed
  ultimately show ?thesis using rest own ResolvedUser by auto
qed

text \<open>
  A provider identity keeps its account. Once an identity has been resolved to an account, signing in with it again
  yields the same account, whatever address the provider reports the second time, unless that address belongs to
  another provider; no account is created.
\<close>

theorem oauth_identity_stable:
  assumes "cipher_law (lib E)" and "rust_string email" and "rust_string email'"
    and first: "resolve_or_create_oauth_user E p pid email w = (Inr (ResolvedUser u), w1)"
    and again: "resolve_or_create_oauth_user E p pid email' w1 = (Inr (ResolvedUser u'), w2)"
  shows "u' = u \<and> user_accounts (db w2) = user_accounts (db w1)"
proof -
  have "oauth_owner (provider_as_str p) pid (db w1) = Some u"
    by (rule resolve_user_Inr [OF first assms(1,2)])
  then have "known_user E p pid idx (db w1) = Some u" for idx by (simp add: known_user_def)
  then show ?thesis using resolve_user_Inr [OF again assms(1,3), of ?thesis] by auto
qed

lemma resolve_user_owner:
  assumes "resolve_or_create_oauth_user E p pid email w = (Inr (ResolvedUser u), w')"
  shows "oauth_owner (provider_as_str p) pid (db w') = Some u \<and>
    (\<forall>v. oauth_owner (provider_as_str p) pid (db w) = Some v \<longrightarrow> u = v)"
proof -
  from assms obtain idx w1 w2 w3 where up: "sql E InternalError (\<lambda>t _. upsert_oauth u (provider_as_str p) pid t) w2 = (Inr (), w3)"
    and mail: "upsert_email_contact E u email w3 = (Inr (), w')"
    and find: "user_for_identity E (provider_as_str p) idx (oauth_owner (provider_as_str p) pid (db w)) w1 = (Inr u, w2)"
    by (force simp: resolve_or_create_oauth_user_def act_simps Let_def split: option.splits)
  have same: "\<forall>v. oauth_owner (provider_as_str p) pid (db w) = Some v \<longrightarrow> u = v"
    using find by (auto simp: user_for_identity_def act_simps)
  from up have "oauth_owner (provider_as_str p) pid (db w3) = Some u"
    by (auto simp: act_simps dest: oauth_owner_upsert)
  moreover have "auth_oauth (db w') = auth_oauth (db w3)"
    using mail by (auto simp: upsert_email_contact_def encrypt_def act_simps dest: upsert_contact_other)
  ultimately show ?thesis using same by (simp add: oauth_owner_def)
qed

text \<open>
  The identity the provider vouches for: its token endpoint accepts the code, and its profile endpoint, asked with
  the token it gave, reports this stable identifier and this address. \<open>k\<close> numbers the first of the two requests.
\<close>

definition provider_reports :: "env \<Rightarrow> oauth_provider \<Rightarrow> string \<Rightarrow> nat \<Rightarrow> oauth_identity \<Rightarrow> bool" where
  "provider_reports E p code k idn \<longleftrightarrow>
     (\<exists>reply tok profile.
        http_post_form (orc E) k (token_url p (cfg E))
          [(''client_id'', client_id p (cfg E)), (''client_secret'', client_secret p (cfg E)),
           (''grant_type'', ''authorization_code''), (''code'', code), (''redirect_uri'', redirect_uri p (cfg E))] = Some reply \<and>
        first_str reply [''access_token''] = Some tok \<and>
        http_get_json (orc E) (Suc k) (profile_url p) tok = Some profile \<and>
        first_str profile [''sub'', ''oid'', ''id''] = Some (oi_provider_id idn) \<and>
        first_str profile [''email'', ''mail'', ''userPrincipalName''] = Some (oi_email idn))"

lemma exchange_Inr:
  assumes "exchange_code_and_fetch_identity E p code w = (Inr idn, w')"
  shows "provider_reports E p code (tick w) idn \<and> db w' = db w"
  using assms by (auto simp: exchange_code_and_fetch_identity_def post_form_def get_json_def provider_reports_def act_simps
      split: option.splits)

lemma callback_Inr:
  assumes "oauth_callback E jar q p w = (Inr resp, w')"
  obtains idn w1 res w2 where "exchange_code_and_fetch_identity E p (cq_code q) w = (Inr idn, w1)"
    and "resolve_or_create_oauth_user E p (oi_provider_id idn) (oi_email idn) w1 = (Inr res, w2)"
    and "(case res of Conflict c \<Rightarrow> ret (EmailConflict 409 (conflict_body c))
      | ResolvedUser user_id \<Rightarrow> bindE (issue_access_token E user_id None) (\<lambda>acc.
          bindE (issue_and_store_refresh_token E user_id) (\<lambda>ref. ret (SignedIn \<lparr>access_token = acc, refresh_token = ref\<rparr>)))) w2
      = (Inr resp, w')"
  using assms unfolding oauth_callback_def thenE_Inr_iff bindE_Inr_iff by (auto simp: liftE_def)

text \<open>
  C11 (the OAuth callback). Without the state cookie of the provider, or with one that differs from the \<open>state\<close> of the
  query, the callback is refused before anything is read, sent or written. When it signs a user in, the provider has
  accepted the code of the query and reported an identity; the account is the one this identity was linked to before,
  if it was, and is linked to afterwards, the address stored for it decrypts to the address the provider reported, and
  the refresh token it stored and the access token it signed are for that account; the access token names no wallet,
  also when the account has one. When it answers with a conflict, no table has changed.
\<close>

theorem oauth_callback_sound:
  assumes "cipher_law (lib E)"
  shows
  "(jar (state_cookie_name p) = Some (cq_state q) \<or> oauth_callback E jar q p w = (Inl Unauthorized, w)) \<and>
   (\<forall>resp w'. oauth_callback E jar q p w = (Inr (SignedIn resp), w') \<longrightarrow>
     (\<exists>idn u t j. provider_reports E p (cq_code q) (tick w) idn \<and>
        oauth_owner (provider_as_str p) (oi_provider_id idn) (db w') = Some u \<and>
        (\<forall>v. oauth_owner (provider_as_str p) (oi_provider_id idn) (db w) = Some v \<longrightarrow> u = v) \<and>
        (rust_string (oi_email idn) \<longrightarrow> mail_stored E u (oi_email idn) (db w')) \<and>
        jwt_encode (lib E) (jwt_secret (cfg E)) \<lparr>cl_sub = u, cl_pubkey = None, cl_exp = t + jwt_access_expiry_seconds (cfg E),
          cl_iat = t, cl_jti = j\<rparr> = Some (access_token resp) \<and>
        (\<exists>r \<in> set (refresh_tokens (db w')). rt_token_hash r = sha256_hex E (refresh_token resp) \<and> rt_user_id r = u))) \<and>
   (\<forall>st body w'. oauth_callback E jar q p w = (Inr (EmailConflict st body), w') \<longrightarrow> st = 409 \<and> db w' = db w)"
proof (intro conjI allI impI)
  show "jar (state_cookie_name p) = Some (cq_state q) \<or> oauth_callback E jar q p w = (Inl Unauthorized, w)"
    by (auto simp: oauth_callback_def validate_oauth_state_cookie_def thenE_def liftE_def bindE_def split: option.splits)
next
  fix resp w' assume "oauth_callback E jar q p w = (Inr (SignedIn resp), w')"
  then obtain idn w1 res w2 where x: "exchange_code_and_fetch_identity E p (cq_code q) w = (Inr idn, w1)"
    and r0: "resolve_or_create_oauth_user E p (oi_provider_id idn) (oi_email idn) w1 = (Inr res, w2)"
    and k: "(case res of Conflict c \<Rightarrow> ret (EmailConflict 409 (conflict_body c))
      | ResolvedUser user_id \<Rightarrow> bindE (issue_access_token E user_id None) (\<lambda>acc.
          bindE (issue_and_store_refresh_token E user_id) (\<lambda>ref. ret (SignedIn \<lparr>access_token = acc, refresh_token = ref\<rparr>)))) w2
      = (Inr (SignedIn resp), w')"
    by (rule callback_Inr)
  from k obtain u w3 where res: "res = ResolvedUser u" and a: "issue_access_token E u None w2 = (Inr (access_token resp), w3)"
    and f: "issue_and_store_refresh_token E u w3 = (Inr (refresh_token resp), w')"
    by (cases res) (auto simp: act_simps)
  note r = r0 [unfolded res]
  note says = exchange_Inr [OF x]
  from issue_access_token_Inr [OF a] obtain t j where
    t: "jwt_encode (lib E) (jwt_secret (cfg E)) \<lparr>cl_sub = u, cl_pubkey = None, cl_exp = t + jwt_access_expiry_seconds (cfg E),
      cl_iat = t, cl_jti = j\<rparr> = Some (access_token resp)" and d3: "db w3 = db w2" by blast
  note tok = issue_refresh_Inr [OF f]
  have own: "oauth_owner (provider_as_str p) (oi_provider_id idn) (db w') = Some u"
    using resolve_user_owner [OF r] tok d3 by (auto simp: oauth_owner_def)
  moreover have "\<forall>v. oauth_owner (provider_as_str p) (oi_provider_id idn) (db w) = Some v \<longrightarrow> u = v"
    using resolve_user_owner [OF r] says by simp
  moreover have "rust_string (oi_email idn) \<longrightarrow> mail_stored E u (oi_email idn) (db w')"
  proof
    assume "rust_string (oi_email idn)"
    from resolve_user_Inr [OF r assms this] have "mail_stored E u (oi_email idn) (db w2)" .
    then show "mail_stored E u (oi_email idn) (db w')" using tok d3 by (auto simp: mail_stored_def)
  qed
  moreover have "\<exists>r \<in> set (refresh_tokens (db w')). rt_token_hash r = sha256_hex E (refresh_token resp) \<and> rt_user_id r = u"
    using tok by auto
  ultimately show "\<exists>idn u t j. provider_reports E p (cq_code q) (tick w) idn \<and>
        oauth_owner (provider_as_str p) (oi_provider_id idn) (db w') = Some u \<and>
        (\<forall>v. oauth_owner (provider_as_str p) (oi_provider_id idn) (db w) = Some v \<longrightarrow> u = v) \<and>
        (rust_string (oi_email idn) \<longrightarrow> mail_stored E u (oi_email idn) (db w')) \<and>
        jwt_encode (lib E) (jwt_secret (cfg E)) \<lparr>cl_sub = u, cl_pubkey = None, cl_exp = t + jwt_access_expiry_seconds (cfg E),
          cl_iat = t, cl_jti = j\<rparr> = Some (access_token resp) \<and>
        (\<exists>r \<in> set (refresh_tokens (db w')). rt_token_hash r = sha256_hex E (refresh_token resp) \<and> rt_user_id r = u)"
    using t says by (intro exI [of _ idn] exI [of _ u] exI [of _ t] exI [of _ j]) simp
next
  fix st body w' assume "oauth_callback E jar q p w = (Inr (EmailConflict st body), w')"
  then obtain idn w1 res w2 where x: "exchange_code_and_fetch_identity E p (cq_code q) w = (Inr idn, w1)"
    and r0: "resolve_or_create_oauth_user E p (oi_provider_id idn) (oi_email idn) w1 = (Inr res, w2)"
    and k: "(case res of Conflict c \<Rightarrow> ret (EmailConflict 409 (conflict_body c))
      | ResolvedUser user_id \<Rightarrow> bindE (issue_access_token E user_id None) (\<lambda>acc.
          bindE (issue_and_store_refresh_token E user_id) (\<lambda>ref. ret (SignedIn \<lparr>access_token = acc, refresh_token = ref\<rparr>)))) w2
      = (Inr (EmailConflict st body), w')"
    by (rule callback_Inr)
  from k obtain c where c: "res = Conflict c" "st = 409" "w' = w2" by (cases res) (auto simp: act_simps)
  from resolve_conflict_Inr [OF r0 [unfolded c(1)]] have "db w2 = db w1" .
  with exchange_Inr [OF x] c show "st = 409" "db w' = db w" by simp_all
qed

definition sample_oauth_env :: env where
  "sample_oauth_env = sample_env\<lparr>orc := sample_outside\<lparr>
     http_post_form := (\<lambda>k u f. Some (JObj [(''access_token'', JStr ''t'')])),
     http_get_json := (\<lambda>k u b. Some (JObj [(''email'', JStr ''a@b''), (''sub'', JStr ''7'')]))\<rparr>\<rparr>"

definition sample_jar :: cookie_jar where
  "sample_jar = [''oauth_google_state'' \<mapsto> ''s'']"

lemmas oauth_defs = oauth_callback_def validate_oauth_state_cookie_def exchange_code_and_fetch_identity_def post_form_def
  get_json_def first_str_def resolve_or_create_oauth_user_def user_for_identity_def upsert_email_contact_def
  upsert_contact_def upsert_oauth_def issue_access_token_def issue_and_store_refresh_token_def current_timestamp_def
  encrypt_def insert_user_def oauth_owner_def conflicting_provider_def same_provider_user_def identities_with_email_def
  no_contacts_def

lemma sample_index_key: "\<exists>k. decode_hex_key_32 sample_oauth_env (encryption_index_key (cfg sample_oauth_env)) = Inr k"
  "\<exists>k. decode_hex_key_32 sample_oauth_env (encryption_key (cfg sample_oauth_env)) = Inr k"
  using hex_decode_64 [OF sample_laws(3), of "replicate 64 (CHR ''0'')"]
  by (auto simp: sample_oauth_env_def sample_env_def sample_config_def decode_hex_key_32_def is_ascii_hexdigit_def)

lemma sample_oauth_simps:
  "db_fault (orc sample_oauth_env) k = False" "clock (orc sample_oauth_env) k = 1000"
  "random_uuid (orc sample_oauth_env) k = word_of_nat k" "random_bytes (orc sample_oauth_env) k n = replicate n (word_of_nat k)"
  "aes_gcm_encrypt (lib sample_oauth_env) key nn m = Some m" "hmac_sha256 (lib sample_oauth_env) key m = m"
  by (simp_all add: sample_oauth_env_def sample_env_def sample_outside_def sample_libs_def)

lemma sample_resolve:
  "\<exists>w'. resolve_or_create_oauth_user sample_oauth_env Google ''7'' ''a@b'' empty_world = (Inr (ResolvedUser 3), w') \<and> user_accounts (db w') \<noteq> []"
proof -
  from sample_index_key obtain k k' where "decode_hex_key_32 sample_oauth_env (encryption_index_key (cfg sample_oauth_env)) = Inr k"
    "decode_hex_key_32 sample_oauth_env (encryption_key (cfg sample_oauth_env)) = Inr k'" by blast
  then show ?thesis
    by (simp add: oauth_defs run_defs sample_oauth_simps empty_world_def empty_db_def)
qed

lemma sample_mail_string: "rust_string ''a@b''"
  by (simp add: rust_string_def)

theorem oauth_never_merges_witness:
  "\<exists>w'. resolve_or_create_oauth_user sample_oauth_env Google ''7'' ''a@b'' empty_world = (Inr (ResolvedUser 3), w') \<and>
     oauth_owner ''google'' ''7'' (db w') = Some 3 \<and> mail_stored sample_oauth_env 3 ''a@b'' (db w')"
proof -
  obtain w' where run: "resolve_or_create_oauth_user sample_oauth_env Google ''7'' ''a@b'' empty_world = (Inr (ResolvedUser 3), w')"
    using sample_resolve by blast
  obtain k where k: "decode_hex_key_32 sample_oauth_env (encryption_index_key (cfg sample_oauth_env)) = Inr k"
    using sample_index_key(1) by blast
  have inv: "contact_inv (db empty_world)" by (simp add: contact_inv_def empty_world_def empty_db_def)
  have law: "cipher_law (lib sample_oauth_env)" using sample_laws(2) by (simp add: sample_oauth_env_def)
  from oauth_never_merges [OF inv law sample_mail_string run k] run show ?thesis
    by (simp add: conflicting_provider_def identities_with_email_def empty_world_def empty_db_def)
qed

theorem oauth_identity_stable_witness:
  "\<exists>w1 w2 u'. resolve_or_create_oauth_user sample_oauth_env Google ''7'' ''a@b'' empty_world = (Inr (ResolvedUser 3), w1) \<and>
     resolve_or_create_oauth_user sample_oauth_env Google ''7'' ''a@b'' w1 = (Inr (ResolvedUser u'), w2) \<and> u' = 3 \<and>
     user_accounts (db w2) = user_accounts (db w1)"
proof -
  obtain w1 u' w2 where run: "resolve_or_create_oauth_user sample_oauth_env Google ''7'' ''a@b'' empty_world = (Inr (ResolvedUser 3), w1)"
    "resolve_or_create_oauth_user sample_oauth_env Google ''7'' ''a@b'' w1 = (Inr (ResolvedUser u'), w2)"
  proof -
    from sample_index_key obtain k k' where "decode_hex_key_32 sample_oauth_env (encryption_index_key (cfg sample_oauth_env)) = Inr k"
      "decode_hex_key_32 sample_oauth_env (encryption_key (cfg sample_oauth_env)) = Inr k'" by blast
    then show thesis using that
      by (simp add: oauth_defs run_defs sample_oauth_simps empty_world_def empty_db_def hmac_index_def)
  qed
  have "cipher_law (lib sample_oauth_env)" using sample_laws(2) by (simp add: sample_oauth_env_def)
  from oauth_identity_stable [OF this sample_mail_string sample_mail_string run] run show ?thesis by auto
qed

theorem oauth_callback_sound_witness:
  "\<exists>resp w'. oauth_callback sample_oauth_env sample_jar \<lparr>cq_code = ''c'', cq_state = ''s''\<rparr> Google empty_world = (Inr (SignedIn resp), w') \<and>
     (\<exists>u. oauth_owner ''google'' ''7'' (db w') = Some u \<and> mail_stored sample_oauth_env u ''a@b'' (db w'))"
proof -
  have replies: "http_post_form (orc sample_oauth_env) k u f = Some (JObj [(''access_token'', JStr ''t'')])"
    "http_get_json (orc sample_oauth_env) k u b = Some (JObj [(''email'', JStr ''a@b''), (''sub'', JStr ''7'')])"
    "jwt_encode (lib sample_oauth_env) sec cl = Some ''jwt''" for k u f b sec cl
    by (simp_all add: sample_oauth_env_def sample_env_def sample_libs_def)
  have law: "cipher_law (lib sample_oauth_env)" using sample_laws(2) by (simp add: sample_oauth_env_def)
  obtain resp w' where run: "oauth_callback sample_oauth_env sample_jar \<lparr>cq_code = ''c'', cq_state = ''s''\<rparr> Google empty_world = (Inr (SignedIn resp), w')"
  proof -
    from sample_index_key obtain k k' where "decode_hex_key_32 sample_oauth_env (encryption_index_key (cfg sample_oauth_env)) = Inr k"
      "decode_hex_key_32 sample_oauth_env (encryption_key (cfg sample_oauth_env)) = Inr k'" by blast
    then show thesis using that replies
      by (simp add: oauth_defs run_defs sample_oauth_simps empty_world_def empty_db_def sample_jar_def)
  qed
  from oauth_callback_sound [OF law, THEN conjunct2, THEN conjunct1, rule_format, OF run]
  obtain idn u where idn: "provider_reports sample_oauth_env Google ''c'' (tick empty_world) idn"
    and u: "oauth_owner (provider_as_str Google) (oi_provider_id idn) (db w') = Some u"
    and m: "rust_string (oi_email idn) \<longrightarrow> mail_stored sample_oauth_env u (oi_email idn) (db w')" by auto
  from idn replies have "oi_provider_id idn = ''7''" "oi_email idn = ''a@b''" by (auto simp: provider_reports_def first_str_def)
  with run u m sample_mail_string show ?thesis by auto
qed

end
