(* ===== verification/User_Handlers.thy ===== *)
theory User_Handlers
  imports OAuth_Service Notification_Worker
begin

text \<open>
  \<^verbatim>\<open>src/src/handlers/user.rs\<close>: the profile and the encrypted contact details. What \<open>update_contacts\<close> stores is
  what the notification worker reads back.
\<close>

section \<open>Handlers\<close>

record auth_method =
  auth_type :: string
  amt_provider :: "string option"
  amt_pubkey :: "string option"

record user_profile =
  up_id :: uuid
  up_display_name :: "string option"
  linked_auth_methods :: "auth_method list"

record update_contacts_request =
  uq_email :: "string option"
  uq_phone :: "string option"
  uq_push_token :: "string option"

definition html_chars :: string where
  "html_chars = [CHR ''<'', CHR ''>'', CHR 0x22, CHR 0x27, CHR ''&'']"

definition sanitise_display_name :: "string \<Rightarrow> app_error + unit" where
  "sanitise_display_name name =
     (if length name > 64 then Inl DisplayNameTooLong
      else if CHR ''<'' \<in> set name \<or> CHR ''>'' \<in> set name \<or> CHR 0x22 \<in> set name \<or> CHR 0x27 \<in> set name \<or> CHR ''&'' \<in> set name
      then Inl InvalidDisplayName else Inr ())"

definition get_profile :: "env \<Rightarrow> auth_user \<Rightarrow> (world, app_error, user_profile) act" where
  "get_profile E auth =
     bindE (sql E InternalError (\<lambda>_ _ d. map_option (\<lambda>r. (r, d)) (select_first (\<lambda>r. ua_id r = au_user_id auth) (user_accounts d)))) (\<lambda>user.
     bindE (sql_select E InternalError (user_wallet (au_user_id auth))) (\<lambda>wallet_row.
     bindE (sql_select E InternalError (\<lambda>d. map ao_provider (filter (\<lambda>r. ao_user_id r = au_user_id auth) (auth_oauth d)))) (\<lambda>oauth_rows.
     ret \<lparr>up_id = ua_id user, up_display_name = ua_display_name user,
       linked_auth_methods =
         (case wallet_row of None \<Rightarrow> [] | Some pk \<Rightarrow> [\<lparr>auth_type = ''wallet'', amt_provider = None, amt_pubkey = Some pk\<rparr>]) @
         map (\<lambda>p. \<lparr>auth_type = ''oauth'', amt_provider = Some p, amt_pubkey = None\<rparr>) oauth_rows\<rparr>)))"

definition set_display_name :: "uuid \<Rightarrow> string option \<Rightarrow> database \<Rightarrow> database" where
  "set_display_name user_id name d =
     d\<lparr>user_accounts := upd_where (\<lambda>r. ua_id r = user_id) (\<lambda>r. r\<lparr>ua_display_name := name\<rparr>) (user_accounts d)\<rparr>"

definition update_profile :: "env \<Rightarrow> auth_user \<Rightarrow> string option \<Rightarrow> (world, app_error, user_profile) act" where
  "update_profile E auth display_name =
     thenE (case display_name of None \<Rightarrow> ret () | Some name \<Rightarrow> liftE (sanitise_display_name name))
     (thenE (sql_update E InternalError (set_display_name (au_user_id auth) display_name))
     (get_profile E auth))"

text \<open>\<open>if let Some(ref v) = field { encrypt } else { None }\<close>\<close>

definition encrypt_opt :: "env \<Rightarrow> byte list \<Rightarrow> string option \<Rightarrow> (world, app_error, (byte list \<times> byte list) option) act" where
  "encrypt_opt E key v = (case v of None \<Rightarrow> ret None | Some s \<Rightarrow> bindE (encrypt E s key) (\<lambda>c. ret (Some c)))"

definition coalesce :: "'a option \<Rightarrow> 'a option \<Rightarrow> 'a option" where
  "coalesce a b = (case a of None \<Rightarrow> b | Some _ \<Rightarrow> a)"

definition contact_columns ::
    "(byte list \<times> byte list) option \<Rightarrow> byte list option \<Rightarrow> (byte list \<times> byte list) option \<Rightarrow> (byte list \<times> byte list) option \<Rightarrow> int \<Rightarrow>
     user_contacts_row \<Rightarrow> user_contacts_row" where
  "contact_columns email idx phone push t r = r\<lparr>
     uc_email_enc := coalesce (map_option fst email) (uc_email_enc r),
     uc_email_nonce := coalesce (map_option snd email) (uc_email_nonce r),
     uc_email_index := coalesce idx (uc_email_index r),
     uc_phone_enc := coalesce (map_option fst phone) (uc_phone_enc r),
     uc_phone_nonce := coalesce (map_option snd phone) (uc_phone_nonce r),
     uc_push_token_enc := coalesce (map_option fst push) (uc_push_token_enc r),
     uc_push_token_nonce := coalesce (map_option snd push) (uc_push_token_nonce r),
     uc_updated_at := t\<rparr>"

definition update_contacts :: "env \<Rightarrow> auth_user \<Rightarrow> update_contacts_request \<Rightarrow> (world, app_error, string) act" where
  "update_contacts E auth body =
     bindE (liftE (decode_hex_key_32 E (encryption_key (cfg E)))) (\<lambda>key.
     bindE (liftE (decode_hex_key_32 E (encryption_index_key (cfg E)))) (\<lambda>idx_key.
     bindE (encrypt_opt E key (uq_email body)) (\<lambda>email.
     bindE (encrypt_opt E key (uq_phone body)) (\<lambda>phone.
     bindE (encrypt_opt E key (uq_push_token body)) (\<lambda>push.
     thenE (sql E InternalError (\<lambda>t _. upsert_contact (au_user_id auth)
       (contact_columns email (map_option (\<lambda>e. hmac_index E e idx_key) (uq_email body)) phone push t)))
     (ret ''Contacts updated successfully''))))))"

definition delete_contacts :: "env \<Rightarrow> auth_user \<Rightarrow> (world, app_error, string) act" where
  "delete_contacts E auth =
     thenE (sql_update E InternalError (\<lambda>d. d\<lparr>user_contacts := del_where (\<lambda>r. uc_user_id r = au_user_id auth) (user_contacts d)\<rparr>))
     (ret ''Contacts deleted successfully'')"

section \<open>Display names\<close>

definition name_ok :: "string \<Rightarrow> bool" where
  "name_ok name \<longleftrightarrow> length name \<le> 64 \<and> set name \<inter> set html_chars = {}"

definition names_inv :: "database \<Rightarrow> bool" where
  "names_inv d \<longleftrightarrow> (\<forall>r \<in> set (user_accounts d). \<forall>name. ua_display_name r = Some name \<longrightarrow> name_ok name)"

lemma sanitise_Inr_iff: "sanitise_display_name name = Inr u \<longleftrightarrow> name_ok name"
  by (auto simp: sanitise_display_name_def name_ok_def html_chars_def)

lemma sanitise_Inl: "sanitise_display_name name = Inl e \<Longrightarrow> e \<in> {DisplayNameTooLong, InvalidDisplayName} \<and> \<not> name_ok name"
  by (auto simp: sanitise_display_name_def name_ok_def html_chars_def split: if_splits)

lemma keeps_get_profile [keeps_intros]: "frame R \<Longrightarrow> keeps R (get_profile E auth)"
  unfolding get_profile_def
  by (intro keeps_intros keeps_sql) (auto simp: tick_on_def frame_tick [unfolded tick_on_def])

lemma get_profile_Inr:
  assumes "get_profile E auth w = (Inr p, w')"
  shows "\<exists>r. select_first (\<lambda>r. ua_id r = au_user_id auth) (user_accounts (db w)) = Some r \<and> up_id p = ua_id r \<and>
    up_display_name p = ua_display_name r \<and> db w' = db w"
  using assms by (auto simp: get_profile_def act_simps)

lemma select_first_set_name:
  assumes "select_first (\<lambda>r. ua_id r = u) (user_accounts (set_display_name u name d)) = Some r"
  shows "ua_display_name r = name \<and> ua_id r = u"
  using assms by (auto simp: set_display_name_def select_first_upd dest: select_first_SomeD)

lemma keeps_names_inv_update: "keeps (db_frame names_inv) (update_profile E auth name)"
  unfolding update_profile_def
proof (rule keepsI, unfold db_frame_def, rule impI)
  fix w r w'
  assume run: "thenE (case name of None \<Rightarrow> ret () | Some n \<Rightarrow> liftE (sanitise_display_name n))
      (thenE (sql_update E InternalError (set_display_name (au_user_id auth) name)) (get_profile E auth)) w = (r, w')"
    and inv: "names_inv (db w)"
  show "names_inv (db w')"
  proof (cases "\<exists>e s. name = Some s \<and> sanitise_display_name s = Inl e")
    case True
    with run inv show ?thesis by (auto simp: thenE_def bindE_def liftE_def)
  next
    case False
    then have ok: "name = Some s \<Longrightarrow> name_ok s" for s using sanitise_Inr_iff [of s] by (cases "sanitise_display_name s") auto
    have "names_inv (set_display_name (au_user_id auth) name (db w0))" if "names_inv (db w0)" for w0 :: world
      using that ok by (auto simp: names_inv_def set_display_name_def sql_list split: if_splits)
    then have "keeps (db_frame names_inv) (sql_update E InternalError (set_display_name (au_user_id auth) name) :: (world, app_error, unit) act)"
      by (intro keeps_sql_update frame_db_frame) (auto simp: db_frame_def)
    then have "keeps (db_frame names_inv) (thenE (case name of None \<Rightarrow> ret () | Some n \<Rightarrow> liftE (sanitise_display_name n))
      (thenE (sql_update E InternalError (set_display_name (au_user_id auth) name)) (get_profile E auth)))"
      by (intro keeps_intros)
    from keepsD [OF this run] inv show ?thesis by (simp add: db_frame_def)
  qed
qed

text \<open>
  Display names. A name is stored only if it is at most 64 bytes long and free of the five HTML characters; the
  profile that is returned carries it. A name that breaks the rule is refused before any write, and no display name
  of any account ever breaks it.
\<close>

theorem update_profile_sound:
  assumes run: "update_profile E auth name w = (r, w')" and inv: "names_inv (db w)"
  shows "names_inv (db w') \<and>
    (\<forall>s. name = Some s \<and> \<not> name_ok s \<longrightarrow> (\<exists>e \<in> {DisplayNameTooLong, InvalidDisplayName}. r = Inl e) \<and> w' = w) \<and>
    (\<forall>p. r = Inr p \<longrightarrow> up_id p = au_user_id auth \<and> up_display_name p = name)"
proof -
  have ninv: "names_inv (db w')" using keepsD [OF keeps_names_inv_update run] inv by (simp add: db_frame_def)
  let ?pre = "case name of None \<Rightarrow> ret () | Some s \<Rightarrow> liftE (sanitise_display_name s)"
  show ?thesis
  proof (cases "\<exists>s. name = Some s \<and> \<not> name_ok s")
    case True
    then obtain s where s: "name = Some s" "\<not> name_ok s" by blast
    then obtain e where e: "sanitise_display_name s = Inl e" using sanitise_Inr_iff [of s] by (cases "sanitise_display_name s") auto
    with sanitise_Inl [OF e] s run inv show ?thesis
      by (auto simp: update_profile_def thenE_def bindE_def liftE_def)
  next
    case False
    have pre: "?pre w = (Inr (), w)"
      using False sanitise_Inr_iff by (cases name) (auto simp: ret_def liftE_def)
    obtain ru w1 where u: "(sql_update E InternalError (set_display_name (au_user_id auth) name) :: (world, app_error, unit) act) w = (ru, w1)" by fastforce
    show ?thesis
    proof (cases ru)
      case (Inl e)
      with u pre run have "r = Inl e" by (auto simp: update_profile_def thenE_def bindE_def)
      then show ?thesis using ninv False by auto
    next
      case (Inr x)
      with u have d1: "db w1 = set_display_name (au_user_id auth) name (db w)" by (auto simp: act_simps)
      from Inr u pre run have g: "get_profile E auth w1 = (r, w')" by (simp add: update_profile_def thenE_def bindE_def)
      have "db w' = db w1" by (rule keepsD [OF keeps_get_profile [OF frame_same] g]) simp
      with d1 ninv False get_profile_Inr [of E auth w1 _ w'] g show ?thesis
        by (auto dest!: select_first_set_name)
    qed
  qed
qed

section \<open>Contacts\<close>

lemma encrypt_opt_Inr:
  assumes "encrypt_opt E key v w = (Inr c, w')"
  shows "db w' = db w \<and> (c = None \<longleftrightarrow> v = None) \<and>
    (\<forall>s. v = Some s \<longrightarrow> (\<exists>x n k. c = Some (x, n) \<and> encrypt E s key w = (Inr (x, n), w') \<and> n = random_bytes (orc E) k 12))"
  using assms by (cases v) (auto simp: encrypt_opt_def encrypt_def act_simps)

lemma update_contacts_Inr:
  assumes "update_contacts E auth body w = (Inr msg, w')"
  obtains key idx_key email w1 phone push t where "decode_hex_key_32 E (encryption_key (cfg E)) = Inr key"
    and "decode_hex_key_32 E (encryption_index_key (cfg E)) = Inr idx_key"
    and "encrypt_opt E key (uq_email body) w = (Inr email, w1)"
    and "(phone = None \<longleftrightarrow> uq_phone body = None) \<and> (push = None \<longleftrightarrow> uq_push_token body = None)"
    and "upsert_contact (au_user_id auth) (contact_columns email (map_option (\<lambda>e. hmac_index E e idx_key) (uq_email body)) phone push t)
      (db w) = Some ((), db w')"
proof -
  from assms obtain key idx_key email w1 phone w2 push w3 where
    k: "decode_hex_key_32 E (encryption_key (cfg E)) = Inr key" "decode_hex_key_32 E (encryption_index_key (cfg E)) = Inr idx_key"
    and e: "encrypt_opt E key (uq_email body) w = (Inr email, w1)" "encrypt_opt E key (uq_phone body) w1 = (Inr phone, w2)"
      "encrypt_opt E key (uq_push_token body) w2 = (Inr push, w3)"
    and u: "upsert_contact (au_user_id auth) (contact_columns email (map_option (\<lambda>e. hmac_index E e idx_key) (uq_email body)) phone push
      (clock (orc E) (tick w3))) (db w3) = Some ((), db w')"
    by (auto simp: update_contacts_def act_simps dest!: sym [of "Inr _"])
  note d = encrypt_opt_Inr [OF e(1)] encrypt_opt_Inr [OF e(2)] encrypt_opt_Inr [OF e(3)]
  from d have opt: "(phone = None \<longleftrightarrow> uq_phone body = None) \<and> (push = None \<longleftrightarrow> uq_push_token body = None)" by blast
  from d have w3: "db w3 = db w" by simp
  from that [OF k e(1) opt u [unfolded w3]] show ?thesis .
qed

text \<open>
  Stored contacts can be read back. After an update with an e-mail address, the notification worker finds the user's
  contact row and decrypts exactly that address from it; the columns of a field the request leaves out keep what they
  held. The hypotheses are the documented laws of the cipher and of the random source (it fills the 12-byte nonce).
\<close>

theorem contacts_roundtrip:
  assumes run: "update_contacts E auth body w = (Inr msg, w')" and email: "uq_email body = Some email"
    and cipher: "cipher_law (lib E)" and str: "rust_string email" and rng: "\<forall>k. length (random_bytes (orc E) k 12) = 12"
  shows "\<exists>row old n. contact_row (au_user_id auth) (db w') = Some row \<and> open_email E row = Some (email, n) \<and>
    old = (case select_first (\<lambda>r. uc_user_id r = au_user_id auth) (user_contacts (db w)) of None \<Rightarrow> no_contacts (au_user_id auth) | Some r \<Rightarrow> r) \<and>
    (uq_phone body = None \<longrightarrow> uc_phone_enc row = uc_phone_enc old \<and> uc_phone_nonce row = uc_phone_nonce old) \<and>
    (uq_push_token body = None \<longrightarrow> uc_push_token_enc row = uc_push_token_enc old \<and> uc_push_token_nonce row = uc_push_token_nonce old)"
proof -
  obtain key idx_key c w1 phone push t where k: "decode_hex_key_32 E (encryption_key (cfg E)) = Inr key"
    and e: "encrypt_opt E key (uq_email body) w = (Inr c, w1)"
    and opt: "(phone = None \<longleftrightarrow> uq_phone body = None) \<and> (push = None \<longleftrightarrow> uq_push_token body = None)"
    and u: "upsert_contact (au_user_id auth) (contact_columns c (map_option (\<lambda>e. hmac_index E e idx_key) (uq_email body)) phone push t)
      (db w) = Some ((), db w')"
    by (rule update_contacts_Inr [OF run])
  from encrypt_opt_Inr [OF e] email obtain x n j where x: "c = Some (x, n)" "encrypt E email key w = (Inr (x, n), w1)"
    "n = random_bytes (orc E) j 12" by auto
  have dec: "decrypt E x n key = Inr email" by (rule decrypt_encrypt [OF cipher str x(2)])
  have len: "length key = 32" "length n = 12" "hex_decode (lib E) (encryption_key (cfg E)) = Some key"
    using k rng x(3) by (auto simp: decode_hex_key_32_def split: option.splits if_splits)
  let ?f = "contact_columns c (map_option (\<lambda>e. hmac_index E e idx_key) (uq_email body)) phone push t"
  have id: "uc_user_id (?f r) = uc_user_id r" for r by (simp add: contact_columns_def)
  from upsert_contact_row [OF u id] obtain old where old: "uc_user_id old = au_user_id auth"
    "select_first (\<lambda>r. uc_user_id r = au_user_id auth) (user_contacts (db w')) = Some (?f old)"
    "old = (case select_first (\<lambda>r. uc_user_id r = au_user_id auth) (user_contacts (db w)) of None \<Rightarrow> no_contacts (au_user_id auth) | Some r \<Rightarrow> r)"
    by blast
  have row: "contact_row (au_user_id auth) (db w') = Some (?f old)"
    unfolding contact_row_def by (rule select_first_stronger [OF old(2)]) (simp add: contact_columns_def x(1) coalesce_def)
  have op: "open_email E (?f old) = Some (email, n)"
    using len dec by (simp add: open_email_def contact_columns_def x(1) coalesce_def)
  have rest: "uq_phone body = None \<longrightarrow> uc_phone_enc (?f old) = uc_phone_enc old \<and> uc_phone_nonce (?f old) = uc_phone_nonce old"
    "uq_push_token body = None \<longrightarrow> uc_push_token_enc (?f old) = uc_push_token_enc old \<and> uc_push_token_nonce (?f old) = uc_push_token_nonce old"
    using opt by (auto simp: contact_columns_def coalesce_def)
  show ?thesis
    by (intro exI [of _ "?f old"] exI [of _ old] exI [of _ n] conjI) (fact row, fact op, fact old(3), fact rest(1), fact rest(2))
qed

section \<open>Invariants and witnesses\<close>

lemma names_inv_insert_user: "insert_user t g d = Some (x, d') \<Longrightarrow> names_inv d \<Longrightarrow> names_inv d'"
  by (auto simp: names_inv_def insert_user_def split: if_splits)

lemma keeps_user_handlers:
  assumes "\<And>u f d x d'. upsert_contact u f d = Some (x, d') \<Longrightarrow> (\<And>r. uc_user_id (f r) = uc_user_id r) \<Longrightarrow> P d \<Longrightarrow> P d'"
    and "\<And>u d. P d \<Longrightarrow> P (d\<lparr>user_contacts := del_where (\<lambda>r. uc_user_id r = u) (user_contacts d)\<rparr>)"
  shows "keeps (db_frame P) (update_contacts E auth body)" "keeps (db_frame P) (delete_contacts E auth)"
proof -
  have enc: "keeps (db_frame P) (encrypt_opt E key v)" for key v
    unfolding encrypt_opt_def by (intro keeps_intros)
  show "keeps (db_frame P) (update_contacts E auth body)"
    unfolding update_contacts_def
    by (intro keeps_intros enc keeps_db_frame_sql) (erule assms(1), simp_all add: contact_columns_def)
  show "keeps (db_frame P) (delete_contacts E auth)"
    unfolding delete_contacts_def by (intro keeps_intros keeps_db_frame_update assms(2))
qed

lemma keeps_update_profile:
  assumes "\<And>u n d. P d \<Longrightarrow> P (set_display_name u n d)"
  shows "keeps (db_frame P) (update_profile E auth name)"
  unfolding update_profile_def by (intro keeps_intros keeps_db_frame_update assms)

definition sample_user_world :: world where
  "sample_user_world = empty_world\<lparr>db := empty_db\<lparr>user_accounts := [\<lparr>ua_id = 7, ua_display_name = None, ua_created_at = 0\<rparr>]\<rparr>\<rparr>"

definition sample_user :: auth_user where
  "sample_user = \<lparr>au_user_id = 7, au_pubkey = None\<rparr>"

theorem update_profile_sound_witness:
  "\<exists>p w'. update_profile sample_env sample_user (Some ''Alice'') sample_user_world = (Inr p, w') \<and> up_display_name p = Some ''Alice''"
proof -
  obtain p w' where run: "update_profile sample_env sample_user (Some ''Alice'') sample_user_world = (Inr p, w')"
    by (simp add: update_profile_def sanitise_display_name_def get_profile_def set_display_name_def user_wallet_def run_defs
        sample_user_world_def sample_user_def sample_defs)
  have "names_inv (db sample_user_world)" by (simp add: names_inv_def sample_user_world_def)
  from update_profile_sound [OF run this] run show ?thesis by blast
qed

definition sample_contacts :: update_contacts_request where
  "sample_contacts = \<lparr>uq_email = Some ''a@b'', uq_phone = None, uq_push_token = None\<rparr>"

theorem contacts_roundtrip_witness:
  "\<exists>msg w' row n. update_contacts sample_oauth_env sample_user sample_contacts sample_user_world = (Inr msg, w') \<and>
     contact_row 7 (db w') = Some row \<and> open_email sample_oauth_env row = Some (''a@b'', n)"
proof -
  obtain msg w' where run: "update_contacts sample_oauth_env sample_user sample_contacts sample_user_world = (Inr msg, w')"
  proof -
    from sample_index_key obtain k k' where "decode_hex_key_32 sample_oauth_env (encryption_index_key (cfg sample_oauth_env)) = Inr k"
      "decode_hex_key_32 sample_oauth_env (encryption_key (cfg sample_oauth_env)) = Inr k'" by blast
    then show thesis using that
      by (simp add: update_contacts_def encrypt_opt_def encrypt_def upsert_contact_def run_defs sample_oauth_simps
          sample_user_world_def sample_user_def sample_contacts_def empty_world_def empty_db_def)
  qed
  have rng: "\<forall>k. length (random_bytes (orc sample_oauth_env) k 12) = 12" by (simp add: sample_oauth_simps)
  have law: "cipher_law (lib sample_oauth_env)" using sample_laws(2) by (simp add: sample_oauth_env_def)
  have email: "uq_email sample_contacts = Some ''a@b''" by (simp add: sample_contacts_def)
  from contacts_roundtrip [OF run email law sample_mail_string rng] run show ?thesis
    by (auto simp: sample_user_def)
qed

end
