(* ===== verification/Storage_Service.thy ===== *)
theory Storage_Service
  imports Payment Notification
begin

text \<open>
  Document storage: \<^verbatim>\<open>src/src/services/storage.rs\<close> (Pinata and Arweave), the upload handler
  \<^verbatim>\<open>src/src/handlers/upload.rs\<close> and the credential metadata of \<^verbatim>\<open>src/src/services/metadata.rs\<close>. The HTTP exchange
  and the file system are parameters; what the code makes of their replies is modelled. A multipart request is
  the list of its fields, \<open>None\<close> where reading the next field fails.
\<close>

section \<open>Storage backends\<close>

definition ARWEAVE_UPLOAD_URL :: string where
  "ARWEAVE_UPLOAD_URL = ''https://arweave.net/tx''"

definition is_success :: "nat \<Rightarrow> bool" where
  "is_success st \<longleftrightarrow> 200 \<le> st \<and> st < 300"

definition pinata_status_error :: "env \<Rightarrow> nat \<Rightarrow> string \<Rightarrow> app_error" where
  "pinata_status_error E st body =
     (if st = 401 then PinataAuthError ''Invalid JWT token''
      else if st = 429 then PinataRateLimitError 60
      else if st = 400 \<or> st = 422 then PinataUploadError (''Upload rejected: '' @ body)
      else PinataNetworkError (''HTTP '' @ status_display (lib E) st @ '': '' @ body))"

text \<open>A body that cannot be read counts as empty, which is not JSON.\<close>

definition post_ipfs :: "env \<Rightarrow> string \<Rightarrow> string \<Rightarrow> byte list \<Rightarrow> (world, app_error, json) act" where
  "post_ipfs E url bearer_token data =
     bindE (ask (\<lambda>k. ipfs_reply (orc E) k url bearer_token data)) (\<lambda>r.
     case r of
       NoResponse e \<Rightarrow> fail (PinataNetworkError (''Failed to connect to Pinata: '' @ e))
     | NoBody st \<Rightarrow>
         if is_success st then fail (PinataUploadError ''Invalid response from Pinata'')
         else fail (pinata_status_error E st [])
     | Reply st body js \<Rightarrow>
         if is_success st then ok_or (PinataUploadError ''Invalid response from Pinata'') js
         else fail (pinata_status_error E st body))"

definition post_arweave :: "env \<Rightarrow> string \<Rightarrow> byte list \<Rightarrow> byte list \<Rightarrow> (world, app_error, json) act" where
  "post_arweave E url wallet_json data =
     bindE (ask (\<lambda>k. arweave_reply (orc E) k url wallet_json data)) (\<lambda>r.
     case r of
       NoResponse e \<Rightarrow> fail UploadFailed
     | NoBody st \<Rightarrow> fail UploadFailed
     | Reply st body js \<Rightarrow> if is_success st then ok_or UploadFailed js else fail UploadFailed)"

fun extract_uri_id :: "json \<Rightarrow> string list \<Rightarrow> string option" where
  "extract_uri_id payload [] = None"
| "extract_uri_id payload (k # ks) =
     (case Option.bind (json_get k payload) json_as_str of Some s \<Rightarrow> Some s | None \<Rightarrow> extract_uri_id payload ks)"

definition upload_to_ipfs_with_client :: "env \<Rightarrow> byte list \<Rightarrow> (world, app_error, string) act" where
  "upload_to_ipfs_with_client E data =
     bindE (post_ipfs E ''https://uploads.pinata.cloud/v3/files'' (pinata_jwt (cfg E)) data) (\<lambda>payload.
     bindE (ok_or (PinataUploadError ''Missing CID in response'')
       (Option.bind (Option.bind (json_get ''data'' payload) (json_get ''cid'')) json_as_str)) (\<lambda>cid.
     ret (''ipfs://'' @ cid)))"

definition get_ipfs_gateway_url :: "string \<Rightarrow> config \<Rightarrow> string" where
  "get_ipfs_gateway_url cid c =
     (let clean_cid = (case strip_prefix ''ipfs://'' cid of Some s \<Rightarrow> s | None \<Rightarrow> cid) in
      ''https://'' @ pinata_gateway_domain c @ ''/ipfs/'' @ clean_cid)"

definition upload_to_arweave_with_client :: "env \<Rightarrow> byte list \<Rightarrow> (world, app_error, string) act" where
  "upload_to_arweave_with_client E data =
     bindE (ask (\<lambda>k. read_file (orc E) k (arweave_wallet_path (cfg E)))) (\<lambda>r.
     case r of
       Inl _ \<Rightarrow> fail InternalError
     | Inr wallet_json \<Rightarrow>
         bindE (post_arweave E ARWEAVE_UPLOAD_URL wallet_json data) (\<lambda>payload.
         bindE (ok_or UploadFailed (extract_uri_id payload [''id'', ''tx_id'', ''transactionId''])) (\<lambda>tx_id.
         ret (''ar://'' @ tx_id))))"

definition upload_document :: "env \<Rightarrow> string \<Rightarrow> byte list \<Rightarrow> (world, app_error, string) act" where
  "upload_document E backend data =
     (let b = to_ascii_lowercase backend in
      if b = ''ipfs'' then upload_to_ipfs_with_client E data
      else if b = ''arweave'' then upload_to_arweave_with_client E data
      else fail PaymentMethodUnsupported)"

section \<open>The upload handler\<close>

definition MAX_FILE_SIZE_BYTES :: nat where
  "MAX_FILE_SIZE_BYTES = 50 * 1024 * 1024"

definition ALLOWED_MIME_TYPES :: "string list" where
  "ALLOWED_MIME_TYPES = [''application/pdf'', ''image/png'', ''image/jpeg'']"

record upload_response =
  ur_storage_uri :: string
  ur_content_hash :: string
  ur_storage_backend :: string

definition validate_and_upload_with_size_limit ::
    "env \<Rightarrow> byte list \<Rightarrow> string \<Rightarrow> string \<Rightarrow> string \<Rightarrow> nat \<Rightarrow> (byte list \<Rightarrow> (world, app_error, string) act) \<Rightarrow>
     (world, app_error, upload_response) act" where
  "validate_and_upload_with_size_limit E file_bytes content_type client_hash backend max_file_size_bytes upload_fn =
     thenE (guardE (length file_bytes \<le> max_file_size_bytes) FileTooLarge)
     (thenE (guardE (content_type \<in> set ALLOWED_MIME_TYPES) InvalidFileType)
     (let storage_backend = to_ascii_lowercase backend in
      thenE (guardE (storage_backend = ''ipfs'' \<or> storage_backend = ''arweave'') UploadFailed)
      (bindE (liftE (verify_client_hash E file_bytes client_hash)) (\<lambda>server_hash.
       bindE (attempt (upload_fn file_bytes)) (\<lambda>r.
       case r of
         Inl _ \<Rightarrow> fail UploadFailed
       | Inr uri \<Rightarrow> ret \<lparr>ur_storage_uri = uri, ur_content_hash = hex_encode (lib E) server_hash,
           ur_storage_backend = storage_backend\<rparr>)))))"

definition validate_and_upload ::
    "env \<Rightarrow> byte list \<Rightarrow> string \<Rightarrow> string \<Rightarrow> string \<Rightarrow> (byte list \<Rightarrow> (world, app_error, string) act) \<Rightarrow> (world, app_error, upload_response) act" where
  "validate_and_upload E file_bytes content_type client_hash backend upload_fn =
     validate_and_upload_with_size_limit E file_bytes content_type client_hash backend MAX_FILE_SIZE_BYTES upload_fn"

record multipart_field =
  mf_name :: "string option"
  mf_content_type :: "string option"
  mf_bytes :: "byte list option"
  mf_text :: "string option"

record upload_form =
  uf_file :: "byte list option"
  uf_content_type :: "string option"
  uf_client_hash :: "string option"
  uf_backend :: "string option"

definition empty_form :: upload_form where
  "empty_form = \<lparr>uf_file = None, uf_content_type = None, uf_client_hash = None, uf_backend = None\<rparr>"

text \<open>One turn of the loop over the fields; a later field of the same name replaces an earlier one.\<close>

definition read_field :: "multipart_field \<Rightarrow> upload_form \<Rightarrow> app_error + upload_form" where
  "read_field fld form =
     (let field_name = (case mf_name fld of Some n \<Rightarrow> n | None \<Rightarrow> []) in
      if field_name = ''file'' then
        (case mf_content_type fld of
           None \<Rightarrow> Inl MissingContentType
         | Some ct \<Rightarrow>
             if ct \<notin> set ALLOWED_MIME_TYPES then Inl InvalidFileType
             else case mf_bytes fld of
               None \<Rightarrow> Inl UploadFailed
             | Some bs \<Rightarrow>
                 if length bs > MAX_FILE_SIZE_BYTES then Inl FileTooLarge
                 else Inr (form\<lparr>uf_file := Some bs, uf_content_type := Some ct\<rparr>))
      else if field_name = ''client_hash'' then
        (case mf_text fld of None \<Rightarrow> Inl UploadFailed | Some v \<Rightarrow> Inr (form\<lparr>uf_client_hash := Some v\<rparr>))
      else if field_name = ''backend'' then
        (case mf_text fld of None \<Rightarrow> Inl UploadFailed | Some v \<Rightarrow> Inr (form\<lparr>uf_backend := Some v\<rparr>))
      else Inr form)"

fun read_form :: "multipart_field option list \<Rightarrow> upload_form \<Rightarrow> app_error + upload_form" where
  "read_form [] form = Inr form"
| "read_form (None # fs) form = Inl UploadFailed"
| "read_form (Some fld # fs) form = (case read_field fld form of Inl e \<Rightarrow> Inl e | Inr form' \<Rightarrow> read_form fs form')"

definition upload_handler ::
    "env \<Rightarrow> auth_user_with_wallet \<Rightarrow> multipart_field option list \<Rightarrow> (world, app_error, upload_response) act" where
  "upload_handler E auth multipart =
     bindE (liftE (read_form multipart empty_form)) (\<lambda>form.
     bindE (ok_or UploadFailed (uf_file form)) (\<lambda>file_bytes.
     bindE (ok_or MissingContentType (uf_content_type form)) (\<lambda>content_type.
     bindE (ok_or InvalidHash (uf_client_hash form)) (\<lambda>client_hash.
     bindE (ok_or UploadFailed (uf_backend form)) (\<lambda>backend.
     validate_and_upload E file_bytes content_type client_hash backend (upload_document E backend))))))"

section \<open>Credential metadata\<close>

definition PACTUM_SEAL_TX_ID :: string where
  "PACTUM_SEAL_TX_ID = ''pactum_seal_arweave_tx_id''"

fun status_debug :: "agreement_status \<Rightarrow> string" where
  "status_debug AS_Draft = ''Draft''"
| "status_debug AS_PendingSignatures = ''PendingSignatures''"
| "status_debug AS_Completed = ''Completed''"
| "status_debug AS_Cancelled = ''Cancelled''"
| "status_debug AS_Expired = ''Expired''"
| "status_debug AS_Revoked = ''Revoked''"

fun backend_debug :: "storage_backend \<Rightarrow> string" where
  "backend_debug Ipfs = ''Ipfs''"
| "backend_debug Arweave = ''Arweave''"

definition trait :: "string \<Rightarrow> string \<Rightarrow> json" where
  "trait ty v = json_object [(''trait_type'', JStr ty), (''value'', JStr v)]"

definition build_attributes :: "agreement_state_wire \<Rightarrow> json list" where
  "build_attributes a =
     [trait ''Status'' (status_debug (status a)),
      trait ''Parties'' (dec_digits (length (parties a))),
      trait ''Storage Backend'' (backend_debug (storage_backend_of a)),
      trait ''Created At'' (fmt_int (created_at a)),
      trait ''Expires At'' (fmt_int (expires_at a))]"

definition build_metadata_json :: "env \<Rightarrow> agreement_state_wire \<Rightarrow> string \<Rightarrow> json" where
  "build_metadata_json E a pda =
     (let id_short = hex_encode (lib E) (take 4 (agreement_id a)) in
      json_object [(''name'', JStr (''Pactum #'' @ id_short @ '' '' @ em_dash @ '' '' @ title a)),
        (''description'', JStr ''On-chain agreement credential issued via Pactum Protocol.''),
        (''image'', JStr (''ar://'' @ PACTUM_SEAL_TX_ID)),
        (''animation_url'', JStr (''ar://'' @ storage_uri a)),
        (''external_url'', JStr (''https://pactum.app/agreement/'' @ pda)),
        (''attributes'', JArr (build_attributes a))])"

definition upload_metadata_json :: "env \<Rightarrow> agreement_state_wire \<Rightarrow> string \<Rightarrow> string \<Rightarrow> (world, app_error, string) act" where
  "upload_metadata_json E a pda backend =
     bindE (ok_or InternalError (json_to_vec (lib E) (build_metadata_json E a pda))) (\<lambda>json_bytes.
     upload_document E backend json_bytes)"

section \<open>What an upload guarantees\<close>

text \<open>Every value of the form comes from a field of that name.\<close>

definition form_from :: "multipart_field option list \<Rightarrow> upload_form \<Rightarrow> bool" where
  "form_from fs form \<longleftrightarrow>
     (\<forall>bs. uf_file form = Some bs \<longrightarrow> (\<exists>fld ct. Some fld \<in> set fs \<and> mf_name fld = Some ''file'' \<and> mf_bytes fld = Some bs \<and>
        mf_content_type fld = Some ct \<and> uf_content_type form = Some ct \<and> ct \<in> set ALLOWED_MIME_TYPES \<and> length bs \<le> MAX_FILE_SIZE_BYTES)) \<and>
     (\<forall>h. uf_client_hash form = Some h \<longrightarrow> (\<exists>fld. Some fld \<in> set fs \<and> mf_name fld = Some ''client_hash'' \<and> mf_text fld = Some h)) \<and>
     (\<forall>b. uf_backend form = Some b \<longrightarrow> (\<exists>fld. Some fld \<in> set fs \<and> mf_name fld = Some ''backend'' \<and> mf_text fld = Some b))"

lemma form_from_mono: "form_from fs form \<Longrightarrow> set fs \<subseteq> set gs \<Longrightarrow> form_from gs form"
  unfolding form_from_def by (meson subsetD)

lemma read_field_from:
  assumes "read_field fld form = Inr form'" and "form_from fs form"
  shows "form_from (fs @ [Some fld]) form'"
proof -
  have old: "form_from (fs @ [Some fld]) form" by (rule form_from_mono [OF assms(2)]) auto
  consider "mf_name fld = Some ''file''" | "mf_name fld = Some ''client_hash''" | "mf_name fld = Some ''backend''"
    | "form' = form" using assms(1) by (auto simp: read_field_def Let_def split: option.splits if_splits)
  then show ?thesis
  proof cases
    case 1
    with assms(1) obtain ct bs where f: "mf_content_type fld = Some ct" "mf_bytes fld = Some bs" "ct \<in> set ALLOWED_MIME_TYPES"
      "length bs \<le> MAX_FILE_SIZE_BYTES" "form' = form\<lparr>uf_file := Some bs, uf_content_type := Some ct\<rparr>"
      by (auto simp: read_field_def split: option.splits if_splits)
    have "Some fld \<in> set (fs @ [Some fld])" by simp
    with 1 f old show ?thesis unfolding form_from_def by auto
  next
    case 2
    with assms(1) old show ?thesis by (auto simp: read_field_def form_from_def split: option.splits)
  next
    case 3
    with assms(1) old show ?thesis by (auto simp: read_field_def form_from_def split: option.splits)
  next
    case 4
    with old show ?thesis by simp
  qed
qed

lemma read_form_from:
  assumes "read_form fs form = Inr form'" and "form_from gs form"
  shows "form_from (gs @ fs) form'"
  using assms
proof (induction fs form arbitrary: gs rule: read_form.induct)
  case (3 fld fs form)
  then obtain f1 where r: "read_field fld form = Inr f1" "read_form fs f1 = Inr form'" by (auto split: sum.splits)
  from "3.IH" [OF r(1) r(2) read_field_from [OF r(1) "3.prems"(2)]] show ?case by simp
qed auto

lemma read_field_error:
  "read_field fld form = Inl e \<Longrightarrow> e \<in> {MissingContentType, InvalidFileType, UploadFailed, FileTooLarge}"
  by (auto simp: read_field_def Let_def split: option.splits if_splits)

lemma read_form_error:
  "read_form fs form = Inl e \<Longrightarrow> e \<in> {MissingContentType, InvalidFileType, UploadFailed, FileTooLarge}"
  by (induction fs form rule: read_form.induct) (auto split: sum.splits dest: read_field_error)

text \<open>What the storage service acknowledged: the identifier it returned for exactly these bytes.\<close>

definition stored_at :: "env \<Rightarrow> string \<Rightarrow> byte list \<Rightarrow> string \<Rightarrow> bool" where
  "stored_at E b data uri \<longleftrightarrow>
     b = ''ipfs'' \<and> (\<exists>k st body v cid. ipfs_reply (orc E) k ''https://uploads.pinata.cloud/v3/files'' (pinata_jwt (cfg E)) data = Reply st body (Some v) \<and>
       is_success st \<and> Option.bind (json_get ''data'' v) (json_get ''cid'') = Some (JStr cid) \<and> uri = ''ipfs://'' @ cid) \<or>
     b = ''arweave'' \<and> (\<exists>k k' wl st body v txid. read_file (orc E) k (arweave_wallet_path (cfg E)) = Inr wl \<and>
       arweave_reply (orc E) k' ARWEAVE_UPLOAD_URL wl data = Reply st body (Some v) \<and> is_success st \<and>
       extract_uri_id v [''id'', ''tx_id'', ''transactionId''] = Some txid \<and> uri = ''ar://'' @ txid)"

lemma json_as_str_Some_iff: "json_as_str v = Some s \<longleftrightarrow> v = JStr s"
  by (cases v) auto

lemma upload_ipfs_Inr:
  assumes "upload_to_ipfs_with_client E data w = (Inr uri, w')"
  shows "stored_at E ''ipfs'' data uri \<and> db w' = db w"
proof -
  let ?url = "''https://uploads.pinata.cloud/v3/files''"
  from assms obtain v w1 cid where p: "post_ipfs E ?url (pinata_jwt (cfg E)) data w = (Inr v, w1)"
    and c: "Option.bind (Option.bind (json_get ''data'' v) (json_get ''cid'')) json_as_str = Some cid" "uri = ''ipfs://'' @ cid" "w' = w1"
    unfolding upload_to_ipfs_with_client_def bindE_Inr_iff ok_or_Inr_iff ret_iff by blast
  from p obtain st body where "ipfs_reply (orc E) (tick w) ?url (pinata_jwt (cfg E)) data = Reply st body (Some v)" "is_success st" "db w1 = db w"
    by (cases "ipfs_reply (orc E) (tick w) ?url (pinata_jwt (cfg E)) data") (auto simp: post_ipfs_def act_simps split: if_splits)
  moreover have "Option.bind (json_get ''data'' v) (json_get ''cid'') = Some (JStr cid)"
    using c(1) by (auto simp: bind_eq_Some_conv json_as_str_Some_iff)
  ultimately show ?thesis using c(2,3) unfolding stored_at_def by blast
qed

lemma upload_arweave_Inr:
  assumes "upload_to_arweave_with_client E data w = (Inr uri, w')"
  shows "stored_at E ''arweave'' data uri \<and> db w' = db w"
proof (cases "read_file (orc E) (tick w) (arweave_wallet_path (cfg E))")
  case (Inl e)
  with assms show ?thesis by (simp add: upload_to_arweave_with_client_def bindE_def ask_def fail_def)
next
  case (Inr wl)
  with assms obtain v w1 txid where p: "post_arweave E ARWEAVE_UPLOAD_URL wl data (tick_on w) = (Inr v, w1)"
    and c: "extract_uri_id v [''id'', ''tx_id'', ''transactionId''] = Some txid" "uri = ''ar://'' @ txid" "w' = w1"
    by (auto simp: upload_to_arweave_with_client_def act_simps simp del: extract_uri_id.simps)
  from p obtain k st body where "arweave_reply (orc E) k ARWEAVE_UPLOAD_URL wl data = Reply st body (Some v)" "is_success st" "db w1 = db w"
    by (cases "arweave_reply (orc E) (tick (tick_on w)) ARWEAVE_UPLOAD_URL wl data") (auto simp: post_arweave_def act_simps split: if_splits)
  with c Inr show ?thesis unfolding stored_at_def by blast
qed

lemma upload_document_Inr:
  assumes "upload_document E b data w = (Inr uri, w')"
  shows "stored_at E (to_ascii_lowercase b) data uri \<and> db w' = db w"
  using assms upload_ipfs_Inr upload_arweave_Inr
  by (auto simp: upload_document_def Let_def fail_def split: if_splits)

lemma map_err_iff:
  "bindE (attempt m) (\<lambda>r. case r of Inl _ \<Rightarrow> fail e | Inr x \<Rightarrow> ret (f x)) w = (r, w') \<longleftrightarrow>
     (\<exists>x. m w = (Inr x, w') \<and> r = Inr (f x)) \<or> (\<exists>e0. m w = (Inl e0, w') \<and> r = Inl e)"
  by (auto simp: bindE_def attempt_def ret_def fail_def split: prod.splits sum.splits)

lemma validate_Inr:
  assumes "validate_and_upload E bs ct h b up w = (Inr resp, w')"
  shows "verify_client_hash E bs h = Inr (sha256 (lib E) bs) \<and> up bs w = (Inr (ur_storage_uri resp), w') \<and>
    ur_content_hash resp = hex_encode (lib E) (sha256 (lib E) bs) \<and> ur_storage_backend resp = to_ascii_lowercase b"
  using assms unfolding validate_and_upload_def validate_and_upload_with_size_limit_def Let_def thenE_Inr_iff guardE_Inr_iff
    bindE_Inr_iff [of "liftE _"] map_err_iff liftE_iff
  by (auto simp: verify_client_hash_Inr_iff dest!: sym [of "Inr _"])

lemma validate_Inl:
  assumes "validate_and_upload E bs ct h b up w = (Inl e, w')"
  shows "e \<in> {FileTooLarge, InvalidFileType, UploadFailed, InvalidHash, HashMismatch}"
proof -
  have v: "verify_client_hash E bs h = Inl e' \<Longrightarrow> e' = InvalidHash \<or> e' = HashMismatch" for e'
    by (auto simp: verify_client_hash_def Let_def split: option.splits if_splits)
  show ?thesis
    using assms unfolding validate_and_upload_def validate_and_upload_with_size_limit_def Let_def thenE_Inl_iff guardE_Inl_iff
      bindE_Inl_iff [of "liftE _"] map_err_iff liftE_iff
    by (auto dest: v [OF sym])
qed

text \<open>
  C39 (integrity of an upload). A successful upload stored exactly the bytes of the form's \<open>file\<close> field, of an allowed
  type and at most 50 MiB; the hash it reports is the SHA-256 of those bytes and equals the hash the client sent; the
  URI is the identifier the chosen service acknowledged for those bytes. No table changes.
\<close>

theorem upload_integrity:
  assumes run: "upload_handler E auth fs w = (Inr resp, w')"
  shows "db w' = db w \<and> (\<exists>fld bs ct h fh. Some fld \<in> set fs \<and> mf_name fld = Some ''file'' \<and> mf_bytes fld = Some bs \<and>
      mf_content_type fld = Some ct \<and> ct \<in> set ALLOWED_MIME_TYPES \<and> length bs \<le> MAX_FILE_SIZE_BYTES \<and>
      Some fh \<in> set fs \<and> mf_name fh = Some ''client_hash'' \<and> mf_text fh = Some h \<and>
      hex_decode (lib E) h = Some (sha256 (lib E) bs) \<and> ur_content_hash resp = hex_encode (lib E) (sha256 (lib E) bs) \<and>
      stored_at E (ur_storage_backend resp) bs (ur_storage_uri resp))"
proof -
  from run obtain form bs ct h b w1 where f: "read_form fs empty_form = Inr form" "uf_file form = Some bs"
      "uf_content_type form = Some ct" "uf_client_hash form = Some h" "uf_backend form = Some b"
    and v: "validate_and_upload E bs ct h b (upload_document E b) w1 = (Inr resp, w')" and w1: "w1 = w"
    by (auto simp: upload_handler_def act_simps dest!: sym [of "Inr _"])
  have "form_from ([] @ fs) form"
    by (rule read_form_from [OF f(1)]) (simp add: form_from_def empty_form_def)
  with f obtain fld fh where ff: "Some fld \<in> set fs" "mf_name fld = Some ''file''" "mf_bytes fld = Some bs" "mf_content_type fld = Some ct"
      "ct \<in> set ALLOWED_MIME_TYPES" "length bs \<le> MAX_FILE_SIZE_BYTES"
    and fh: "Some fh \<in> set fs" "mf_name fh = Some ''client_hash''" "mf_text fh = Some h"
    unfolding form_from_def append_Nil by fastforce
  note vi = validate_Inr [OF v]
  from vi have u: "upload_document E b bs w1 = (Inr (ur_storage_uri resp), w')" by blast
  from upload_document_Inr [OF u] w1 vi have "db w' = db w" "stored_at E (ur_storage_backend resp) bs (ur_storage_uri resp)"
    by simp_all
  moreover from vi have "hex_decode (lib E) h = Some (sha256 (lib E) bs)" by (simp add: verify_client_hash_Inr_iff)
  ultimately show ?thesis using ff fh vi by blast
qed

text \<open>
  What a failed upload reports. A refused upload reports one of six causes and changes no table. Whatever the storage
  service answered, an expired key, a rate limit, an unreachable host, is reported as \<open>UploadFailed\<close>: the error
  values that tell these apart never reach the client.
\<close>

theorem upload_error_codes:
  assumes run: "upload_handler E auth fs w = (Inl e, w')"
  shows "e \<in> {UploadFailed, MissingContentType, InvalidFileType, FileTooLarge, InvalidHash, HashMismatch}"
proof -
  from run consider "read_form fs empty_form = Inl e" | "e \<in> {UploadFailed, MissingContentType, InvalidHash}"
    | bs ct h b w1 where "validate_and_upload E bs ct h b (upload_document E b) w1 = (Inl e, w')"
    by (auto simp: upload_handler_def act_simps dest!: sym [of "Inl _"])
  then show ?thesis by cases (auto dest: read_form_error validate_Inl)
qed

text \<open>
  The link to the document in the credential. The metadata prefixes the stored URI with \<open>ar://\<close>, but the URIs
  the storage service returns carry their scheme already: the link of every uploaded document has two schemes.
\<close>

theorem metadata_link_doubled:
  assumes "upload_document E b data w = (Inr (storage_uri a), w')"
  shows "\<exists>scheme rest. scheme \<in> {''ipfs://'', ''ar://''} \<and> storage_uri a = scheme @ rest \<and>
    json_get ''animation_url'' (build_metadata_json E a pda) = Some (JStr (''ar://'' @ scheme @ rest))"
proof -
  have j: "json_get ''animation_url'' (build_metadata_json E a pda) = Some (JStr (''ar://'' @ storage_uri a))"
    by (simp add: build_metadata_json_def Let_def)
  from upload_document_Inr [OF assms] consider cid where "storage_uri a = ''ipfs://'' @ cid" | txid where "storage_uri a = ''ar://'' @ txid"
    by (auto simp: stored_at_def)
  then show ?thesis
  proof cases
    case 1
    with j show ?thesis by (intro exI [of _ "''ipfs://''"] exI [of _ cid]) simp
  next
    case 2
    with j show ?thesis by (intro exI [of _ "''ar://''"] exI [of _ txid]) simp
  qed
qed

section \<open>An upload\<close>

definition sample_store_env :: env where
  "sample_store_env = sample_env\<lparr>orc := sample_outside\<lparr>ipfs_reply := (\<lambda>k u b d. Reply 200 [] (Some (JObj [(''data'', JObj [(''cid'', JStr ''Qm'')])])))\<rparr>\<rparr>"

definition sample_upload :: "multipart_field option list" where
  "sample_upload =
     [Some \<lparr>mf_name = Some ''file'', mf_content_type = Some ''image/png'', mf_bytes = Some [1, 2], mf_text = None\<rparr>,
      Some \<lparr>mf_name = Some ''client_hash'', mf_content_type = None, mf_bytes = None, mf_text = Some (hex_bytes [1, 2])\<rparr>,
      Some \<lparr>mf_name = Some ''backend'', mf_content_type = None, mf_bytes = None, mf_text = Some ''ipfs''\<rparr>]"

lemma sample_hash_lib: "hex_decode (lib sample_store_env) (hex_bytes bs) = Some bs" "sha256 (lib sample_store_env) bs = bs"
  by (simp_all add: sample_store_env_def sample_env_def sample_libs_def hex_parse_bytes)

lemma sample_stored: "\<exists>w'. upload_document sample_store_env ''ipfs'' [1, 2] empty_world = (Inr ''ipfs://Qm'', w')"
  by (simp add: upload_document_def to_ascii_lowercase_def upload_to_ipfs_with_client_def post_ipfs_def run_defs is_success_def
      sample_store_env_def)

theorem upload_integrity_witness:
  "\<exists>resp w'. upload_handler sample_store_env \<lparr>aww_user_id = 7, aww_pubkey = ''alice''\<rparr> sample_upload empty_world = (Inr resp, w') \<and>
     db w' = db empty_world \<and> ur_storage_backend resp = ''ipfs''"
proof -
  let ?form = "\<lparr>uf_file = Some [1, 2], uf_content_type = Some ''image/png'', uf_client_hash = Some (hex_bytes [1, 2]), uf_backend = Some ''ipfs''\<rparr>"
  have form: "read_form sample_upload empty_form = Inr ?form"
    by (simp add: sample_upload_def read_field_def empty_form_def ALLOWED_MIME_TYPES_def MAX_FILE_SIZE_BYTES_def del: hex_bytes.simps)
  obtain w' where u: "upload_document sample_store_env ''ipfs'' [1, 2] empty_world = (Inr ''ipfs://Qm'', w')" using sample_stored by blast
  have h: "verify_client_hash sample_store_env [1, 2] (hex_bytes [1, 2]) = Inr [1, 2]"
    by (simp add: verify_client_hash_Inr_iff sample_hash_lib del: hex_bytes.simps)
  have run: "upload_handler sample_store_env \<lparr>aww_user_id = 7, aww_pubkey = ''alice''\<rparr> sample_upload empty_world =
    (Inr \<lparr>ur_storage_uri = ''ipfs://Qm'', ur_content_hash = hex_encode (lib sample_store_env) [1, 2], ur_storage_backend = ''ipfs''\<rparr>, w')"
    using u by (simp add: upload_handler_def form liftE_def ok_or_def ret_def validate_and_upload_def validate_and_upload_with_size_limit_def
        thenE_def guardE_def bindE_def Let_def ALLOWED_MIME_TYPES_def MAX_FILE_SIZE_BYTES_def to_ascii_lowercase_def h attempt_def del: hex_bytes.simps)
  from upload_integrity [OF run] run show ?thesis by auto
qed

theorem upload_error_codes_witness:
  "\<exists>e w'. upload_handler sample_store_env \<lparr>aww_user_id = 7, aww_pubkey = ''alice''\<rparr> [None] empty_world = (Inl e, w') \<and>
     e \<in> {UploadFailed, MissingContentType, InvalidFileType, FileTooLarge, InvalidHash, HashMismatch}"
proof -
  have run: "upload_handler sample_store_env \<lparr>aww_user_id = 7, aww_pubkey = ''alice''\<rparr> [None] empty_world = (Inl UploadFailed, empty_world)"
    by (simp add: upload_handler_def liftE_def)
  from upload_error_codes [OF run] run show ?thesis by blast
qed

theorem metadata_link_doubled_witness:
  "\<exists>a. storage_uri a = ''ipfs://Qm'' \<and>
     json_get ''animation_url'' (build_metadata_json sample_store_env a ''pda'') = Some (JStr ''ar://ipfs://Qm'')"
proof -
  obtain w' where u: "upload_document sample_store_env ''ipfs'' [1, 2] empty_world = (Inr ''ipfs://Qm'', w')" using sample_stored by blast
  define a where "a = sample_agreement\<lparr>storage_uri := ''ipfs://Qm''\<rparr>"
  have a: "storage_uri a = ''ipfs://Qm''" by (simp add: a_def)
  with u metadata_link_doubled [of sample_store_env "''ipfs''" "[1, 2]" empty_world a w' "''pda''"] show ?thesis by auto
qed

end
