(* ===== verification/Router.thy ===== *)
theory Router
  imports Main
begin

text \<open>
  \<^verbatim>\<open>src/src/router.rs\<close>: the route table. A path is the list of its segments; a pattern segment is a literal or a
  parameter (\<open>:pda\<close>), which matches one segment. Middleware (CORS, rate limiting, tracing) is library code and not
  part of the table. \<open>access_of\<close> is what the handler's signature demands through its extractors.
\<close>

datatype http_method = GET | POST | PUT | DELETE

datatype segment = Lit string | Param string

datatype endpoint =
    E_Health | E_Challenge | E_Verify | E_OAuthGoogle | E_OAuthGoogleCallback | E_OAuthMicrosoft | E_OAuthMicrosoftCallback
  | E_LinkWallet | E_Refresh | E_Logout | E_Upload | E_CreateAgreement | E_GetAgreement | E_ListAgreements | E_Sign | E_Cancel
  | E_VoteRevoke | E_RetractVote | E_GetDraft | E_DeleteDraft | E_Reinvite | E_SubmitDraft | E_GetInvite | E_AcceptInvite
  | E_InitiatePayment | E_PaymentStatus | E_GetProfile | E_UpdateProfile | E_UpdateContacts | E_DeleteContacts | E_Ws

type_synonym route = "http_method \<times> segment list \<times> endpoint"

definition auth_routes :: "route list" where
  "auth_routes =
     [(GET, [Lit ''auth'', Lit ''challenge''], E_Challenge),
      (POST, [Lit ''auth'', Lit ''verify''], E_Verify),
      (GET, [Lit ''auth'', Lit ''oauth'', Lit ''google''], E_OAuthGoogle),
      (GET, [Lit ''auth'', Lit ''oauth'', Lit ''google'', Lit ''callback''], E_OAuthGoogleCallback),
      (GET, [Lit ''auth'', Lit ''oauth'', Lit ''microsoft''], E_OAuthMicrosoft),
      (GET, [Lit ''auth'', Lit ''oauth'', Lit ''microsoft'', Lit ''callback''], E_OAuthMicrosoftCallback),
      (POST, [Lit ''auth'', Lit ''link'', Lit ''wallet''], E_LinkWallet),
      (POST, [Lit ''auth'', Lit ''refresh''], E_Refresh),
      (POST, [Lit ''auth'', Lit ''logout''], E_Logout)]"

definition upload_routes :: "route list" where
  "upload_routes = [(POST, [Lit ''upload''], E_Upload)]"

definition agreement_routes :: "route list" where
  "agreement_routes =
     [(POST, [Lit ''agreement''], E_CreateAgreement),
      (GET, [Lit ''agreement'', Param ''pda''], E_GetAgreement),
      (GET, [Lit ''agreements''], E_ListAgreements),
      (POST, [Lit ''agreement'', Param ''pda'', Lit ''sign''], E_Sign),
      (POST, [Lit ''agreement'', Param ''pda'', Lit ''cancel''], E_Cancel),
      (POST, [Lit ''agreement'', Param ''pda'', Lit ''revoke''], E_VoteRevoke),
      (POST, [Lit ''agreement'', Param ''pda'', Lit ''retract''], E_RetractVote)]"

definition draft_routes :: "route list" where
  "draft_routes =
     [(GET, [Lit ''draft'', Param ''id''], E_GetDraft),
      (DELETE, [Lit ''draft'', Param ''id''], E_DeleteDraft),
      (PUT, [Lit ''draft'', Param ''id'', Lit ''reinvite''], E_Reinvite),
      (POST, [Lit ''draft'', Param ''id'', Lit ''submit''], E_SubmitDraft)]"

definition invite_routes :: "route list" where
  "invite_routes =
     [(GET, [Lit ''invite'', Param ''token''], E_GetInvite),
      (POST, [Lit ''invite'', Param ''token'', Lit ''accept''], E_AcceptInvite)]"

definition payment_routes :: "route list" where
  "payment_routes =
     [(POST, [Lit ''payment'', Lit ''initiate'', Param ''draft_id''], E_InitiatePayment),
      (GET, [Lit ''payment'', Lit ''status'', Param ''draft_id''], E_PaymentStatus)]"

definition user_routes :: "route list" where
  "user_routes =
     [(GET, [Lit ''user'', Lit ''me''], E_GetProfile),
      (PUT, [Lit ''user'', Lit ''me''], E_UpdateProfile),
      (PUT, [Lit ''user'', Lit ''contacts''], E_UpdateContacts),
      (DELETE, [Lit ''user'', Lit ''contacts''], E_DeleteContacts)]"

definition ws_routes :: "route list" where
  "ws_routes = [(GET, [Lit ''ws''], E_Ws)]"

definition build_router :: "route list" where
  "build_router =
     (GET, [Lit ''health''], E_Health) #
     auth_routes @ upload_routes @ agreement_routes @ draft_routes @ invite_routes @ payment_routes @ user_routes @ ws_routes"

lemmas route_defs =
  build_router_def auth_routes_def upload_routes_def agreement_routes_def draft_routes_def invite_routes_def
  payment_routes_def user_routes_def ws_routes_def

section \<open>Matching\<close>

fun matches :: "segment list \<Rightarrow> string list \<Rightarrow> bool" where
  "matches [] [] = True"
| "matches (Lit l # ps) (s # ss) = (l = s \<and> matches ps ss)"
| "matches (Param n # ps) (s # ss) = (s \<noteq> [] \<and> matches ps ss)"
| "matches _ _ = False"

definition dispatch :: "http_method \<Rightarrow> string list \<Rightarrow> endpoint option" where
  "dispatch m path = map_option (\<lambda>(_, _, e). e) (find (\<lambda>(m', pat, _). m' = m \<and> matches pat path) build_router)"

datatype access = Public | NeedsUser | NeedsWallet | NeedsToken

fun access_of :: "endpoint \<Rightarrow> access" where
  "access_of E_Health = Public"
| "access_of E_Challenge = Public"
| "access_of E_Verify = Public"
| "access_of E_OAuthGoogle = Public"
| "access_of E_OAuthGoogleCallback = Public"
| "access_of E_OAuthMicrosoft = Public"
| "access_of E_OAuthMicrosoftCallback = Public"
| "access_of E_LinkWallet = NeedsUser"
| "access_of E_Refresh = Public"
| "access_of E_Logout = Public"
| "access_of E_Upload = NeedsWallet"
| "access_of E_CreateAgreement = NeedsWallet"
| "access_of E_GetAgreement = Public"
| "access_of E_ListAgreements = NeedsUser"
| "access_of E_Sign = NeedsWallet"
| "access_of E_Cancel = NeedsWallet"
| "access_of E_VoteRevoke = NeedsWallet"
| "access_of E_RetractVote = NeedsWallet"
| "access_of E_GetDraft = NeedsUser"
| "access_of E_DeleteDraft = NeedsUser"
| "access_of E_Reinvite = NeedsUser"
| "access_of E_SubmitDraft = NeedsWallet"
| "access_of E_GetInvite = Public"
| "access_of E_AcceptInvite = NeedsWallet"
| "access_of E_InitiatePayment = NeedsWallet"
| "access_of E_PaymentStatus = NeedsUser"
| "access_of E_GetProfile = NeedsUser"
| "access_of E_UpdateProfile = NeedsUser"
| "access_of E_UpdateContacts = NeedsUser"
| "access_of E_DeleteContacts = NeedsUser"
| "access_of E_Ws = NeedsToken"

section \<open>The table is unambiguous\<close>

text \<open>Two patterns can match a common path only if no position has two different literals.\<close>

fun overlap :: "segment list \<Rightarrow> segment list \<Rightarrow> bool" where
  "overlap [] [] = True"
| "overlap (Lit a # ps) (Lit b # qs) = (a = b \<and> overlap ps qs)"
| "overlap (_ # ps) (_ # qs) = overlap ps qs"
| "overlap _ _ = False"

lemma matches_overlap: "matches p path \<Longrightarrow> matches q path \<Longrightarrow> overlap p q"
proof (induction p arbitrary: q path)
  case Nil
  then show ?case by (cases path; cases q) (auto elim: matches.elims)
next
  case (Cons x p)
  from Cons.prems obtain y q' s path' where q: "q = y # q'" and path: "path = s # path'"
    by (cases q; cases path) (auto elim: matches.elims)
  have "matches p path'" "matches q' path'" using Cons.prems unfolding q path by (cases x; cases y; simp)+
  from Cons.IH [OF this] show ?case using Cons.prems unfolding q path by (cases x; cases y) simp_all
qed

fun no_overlap :: "route list \<Rightarrow> bool" where
  "no_overlap [] = True"
| "no_overlap ((m, p, e) # rs) = ((\<forall>(m', p', e') \<in> set rs. m' = m \<longrightarrow> \<not> overlap p p') \<and> no_overlap rs)"

lemma no_overlap_unique:
  assumes "no_overlap rs" and "(m, p, e) \<in> set rs" and "(m, q, f) \<in> set rs" and "matches p path" and "matches q path"
  shows "(p, e) = (q, f)"
  using assms
proof (induction rs rule: no_overlap.induct)
  case (2 m' p' e' rs)
  show ?case
  proof (cases "(m, p, e) = (m', p', e') \<or> (m, q, f) = (m', p', e')")
    case True
    then have "(m, p, e) = (m, q, f)"
      using 2 matches_overlap [of p path q] matches_overlap [of q path p] by fastforce
    then show ?thesis by simp
  next
    case False
    with 2 show ?thesis by auto
  qed
qed simp

lemma routes_no_overlap: "no_overlap build_router"
  by code_simp

lemma find_unique:
  assumes "x \<in> set xs" and "P x" and "\<And>y. y \<in> set xs \<Longrightarrow> P y \<Longrightarrow> y = x"
  shows "find P xs = Some x"
proof -
  have "find P xs \<noteq> None" using assms(1,2) by (auto simp: find_None_iff)
  then obtain y where y: "find P xs = Some y" by blast
  then have "y \<in> set xs" "P y" by (auto simp: find_Some_iff)
  from assms(3) [OF this] y show ?thesis by simp
qed

text \<open>
  Routing. A request is routed to the endpoint of the one route whose method and pattern fit it: no two routes
  fit the same request, so the order in which the groups are merged does not matter, and a request that fits no route
  reaches no handler.
\<close>

theorem routing_unambiguous:
  "dispatch m path = Some e \<longleftrightarrow> (\<exists>pat. (m, pat, e) \<in> set build_router \<and> matches pat path)"
proof
  assume "dispatch m path = Some e"
  then show "\<exists>pat. (m, pat, e) \<in> set build_router \<and> matches pat path"
    by (auto simp: dispatch_def find_Some_iff) (metis nth_mem)
next
  assume "\<exists>pat. (m, pat, e) \<in> set build_router \<and> matches pat path"
  then obtain pat where p: "(m, pat, e) \<in> set build_router" "matches pat path" by blast
  have "find (\<lambda>(m', pat, _). m' = m \<and> matches pat path) build_router = Some (m, pat, e)"
    by (rule find_unique) (use p no_overlap_unique [OF routes_no_overlap] in auto)
  then show "dispatch m path = Some e" by (simp add: dispatch_def)
qed

end
