(* ===== verification/System.thy ===== *)
theory System
  imports Ws_Handler Invite Refund Expiry_Worker Keeper Event_Listener Notification_Worker OAuth_Service User_Handlers
    Storage_Service Router
begin

text \<open>
  The running backend: the handlers behind the route table of \<^verbatim>\<open>src/src/router.rs\<close> with the extractors their
  signatures name, and the workers started by \<open>spawn_runtime_workers\<close>. A \<open>request\<close> carries the path parameters and
  the parsed body of its endpoint (a body that does not parse is refused by axum's extractors before any code of the
  program runs). A run is a sequence of requests and worker cycles, each run to completion.

  The locale \<open>table_property\<close> is what a property of the tables needs to survive every such run: each operation that
  writes keeps it. It is interpreted for the key and reference constraints of the schema, for the display names, and,
  from any starting point, for the life cycles of invitations and payments.
\<close>

section \<open>Requests\<close>

datatype request =
    R_Health
  | R_Challenge
  | R_Verify verify_request
  | R_OAuth oauth_provider
  | R_OAuthCallback oauth_provider cookie_jar oauth_callback_query
  | R_LinkWallet verify_request
  | R_Refresh string
  | R_Logout string
  | R_Upload "multipart_field option list"
  | R_CreateAgreement create_agreement_request
  | R_GetAgreement string
  | R_ListAgreements list_agreements_query
  | R_Sign string "string option"
  | R_Cancel string
  | R_VoteRevoke string
  | R_RetractVote string
  | R_GetDraft uuid
  | R_DeleteDraft uuid
  | R_Reinvite uuid uuid
  | R_SubmitDraft uuid submit_draft_request
  | R_GetInvite string
  | R_AcceptInvite string
  | R_InitiatePayment uuid string
  | R_PaymentStatus uuid
  | R_GetProfile
  | R_UpdateProfile "string option"
  | R_UpdateContacts update_contacts_request
  | R_DeleteContacts
  | R_Ws "string option"

fun endpoint_of :: "request \<Rightarrow> endpoint" where
  "endpoint_of R_Health = E_Health"
| "endpoint_of R_Challenge = E_Challenge"
| "endpoint_of (R_Verify b) = E_Verify"
| "endpoint_of (R_OAuth Google) = E_OAuthGoogle"
| "endpoint_of (R_OAuth Microsoft) = E_OAuthMicrosoft"
| "endpoint_of (R_OAuthCallback Google jar q) = E_OAuthGoogleCallback"
| "endpoint_of (R_OAuthCallback Microsoft jar q) = E_OAuthMicrosoftCallback"
| "endpoint_of (R_LinkWallet b) = E_LinkWallet"
| "endpoint_of (R_Refresh tok) = E_Refresh"
| "endpoint_of (R_Logout tok) = E_Logout"
| "endpoint_of (R_Upload fs) = E_Upload"
| "endpoint_of (R_CreateAgreement b) = E_CreateAgreement"
| "endpoint_of (R_GetAgreement pda) = E_GetAgreement"
| "endpoint_of (R_ListAgreements q) = E_ListAgreements"
| "endpoint_of (R_Sign pda m) = E_Sign"
| "endpoint_of (R_Cancel pda) = E_Cancel"
| "endpoint_of (R_VoteRevoke pda) = E_VoteRevoke"
| "endpoint_of (R_RetractVote pda) = E_RetractVote"
| "endpoint_of (R_GetDraft i) = E_GetDraft"
| "endpoint_of (R_DeleteDraft i) = E_DeleteDraft"
| "endpoint_of (R_Reinvite i j) = E_Reinvite"
| "endpoint_of (R_SubmitDraft i b) = E_SubmitDraft"
| "endpoint_of (R_GetInvite tok) = E_GetInvite"
| "endpoint_of (R_AcceptInvite tok) = E_AcceptInvite"
| "endpoint_of (R_InitiatePayment i m) = E_InitiatePayment"
| "endpoint_of (R_PaymentStatus i) = E_PaymentStatus"
| "endpoint_of R_GetProfile = E_GetProfile"
| "endpoint_of (R_UpdateProfile n) = E_UpdateProfile"
| "endpoint_of (R_UpdateContacts b) = E_UpdateContacts"
| "endpoint_of R_DeleteContacts = E_DeleteContacts"
| "endpoint_of (R_Ws q) = E_Ws"

text \<open>
  A handler behind its extractor. The error of a request is its HTTP status: the extractor's own, or the one
  \<open>into_response\<close> gives the handler's error. What a handler returns is described in its component.
\<close>

definition public_handler :: "(world, app_error, 'a) act \<Rightarrow> (world, nat, unit) act" where
  "public_handler h = bindE (map_err status_of h) (\<lambda>_. ret ())"

definition with_user :: "env \<Rightarrow> headers \<Rightarrow> (auth_user \<Rightarrow> (world, app_error, 'a) act) \<Rightarrow> (world, nat, unit) act" where
  "with_user E hs h = bindE (map_err fst (auth_user_from_request E hs)) (\<lambda>auth. public_handler (h auth))"

definition with_wallet ::
    "env \<Rightarrow> headers \<Rightarrow> (auth_user_with_wallet \<Rightarrow> (world, app_error, 'a) act) \<Rightarrow> (world, nat, unit) act" where
  "with_wallet E hs h = bindE (map_err fst (auth_user_with_wallet_from_request E hs)) (\<lambda>auth. public_handler (h auth))"

definition health_endpoint :: "(world, nat, unit) act" where
  "health_endpoint = bindE get_world (\<lambda>w.
     let st = fst (health_handler (health w)) in if st = 200 then ret () else fail st)"

fun serve :: "env \<Rightarrow> headers \<Rightarrow> request \<Rightarrow> (world, nat, unit) act" where
  "serve E hs R_Health = health_endpoint"
| "serve E hs R_Challenge = public_handler (challenge E)"
| "serve E hs (R_Verify body) = public_handler (verify E body)"
| "serve E hs (R_OAuth p) = public_handler (oauth_redirect E p)"
| "serve E hs (R_OAuthCallback p jar q) = public_handler (oauth_callback E jar q p)"
| "serve E hs (R_LinkWallet body) = with_user E hs (\<lambda>auth. link_wallet E auth body)"
| "serve E hs (R_Refresh tok) = public_handler (refresh E tok)"
| "serve E hs (R_Logout tok) = public_handler (logout E tok)"
| "serve E hs (R_Upload multipart) = with_wallet E hs (\<lambda>auth. upload_handler E auth multipart)"
| "serve E hs (R_CreateAgreement body) = with_wallet E hs (\<lambda>auth. create_agreement E auth body)"
| "serve E hs (R_GetAgreement pda) = public_handler (get_agreement E pda)"
| "serve E hs (R_ListAgreements q) = with_user E hs (\<lambda>auth. list_agreements E auth q)"
| "serve E hs (R_Sign pda m) = with_wallet E hs (\<lambda>auth. sign_agreement E auth pda m)"
| "serve E hs (R_Cancel pda) = with_wallet E hs (\<lambda>auth. cancel_agreement E auth pda)"
| "serve E hs (R_VoteRevoke pda) = with_wallet E hs (\<lambda>auth. vote_revoke E auth pda)"
| "serve E hs (R_RetractVote pda) = with_wallet E hs (\<lambda>auth. retract_revoke_vote E auth pda)"
| "serve E hs (R_GetDraft i) = with_user E hs (\<lambda>_. get_draft E i)"
| "serve E hs (R_DeleteDraft i) = with_user E hs (\<lambda>auth. delete_draft E auth i)"
| "serve E hs (R_Reinvite i j) = with_user E hs (\<lambda>auth. reinvite_draft E auth i j)"
| "serve E hs (R_SubmitDraft i body) = with_wallet E hs (\<lambda>auth. submit_draft E auth i body)"
| "serve E hs (R_GetInvite tok) = public_handler (get_invite E hs tok)"
| "serve E hs (R_AcceptInvite tok) = with_wallet E hs (\<lambda>auth. accept_invite E auth tok)"
| "serve E hs (R_InitiatePayment i m) = with_wallet E hs (\<lambda>auth. initiate_payment E auth i m)"
| "serve E hs (R_PaymentStatus i) = with_user E hs (\<lambda>_. payment_status E i)"
| "serve E hs R_GetProfile = with_user E hs (\<lambda>auth. get_profile E auth)"
| "serve E hs (R_UpdateProfile n) = with_user E hs (\<lambda>auth. update_profile E auth n)"
| "serve E hs (R_UpdateContacts body) = with_user E hs (\<lambda>auth. update_contacts E auth body)"
| "serve E hs R_DeleteContacts = with_user E hs (\<lambda>auth. delete_contacts E auth)"
| "serve E hs (R_Ws q) = bindE (ws_handler E hs q) (\<lambda>user_id. bindE (handle_upgrade_open user_id) (\<lambda>_. ret ()))"

section \<open>Access\<close>

text \<open>What the bearer token of a request says at time \<open>t\<close>.\<close>

definition bearer_claims :: "env \<Rightarrow> headers \<Rightarrow> int \<Rightarrow> claims option" where
  "bearer_claims E hs t =
     (case Option.bind (hs ''authorization'') (strip_prefix ''Bearer '') of
        None \<Rightarrow> None
      | Some token \<Rightarrow> jwt_decode (lib E) (jwt_secret (cfg E)) t token)"

lemma auth_user_none:
  assumes "bearer_claims E hs (clock (orc E) (tick w)) = None"
  shows "\<exists>msg k. auth_user_from_request E hs w = (Inl (401, msg), w\<lparr>tick := k\<rparr>)"
proof (cases "Option.bind (hs ''authorization'') (strip_prefix ''Bearer '')")
  case None
  then have "auth_user_from_request E hs w = (Inl (401, ''Missing or invalid Authorization header''), w\<lparr>tick := tick w\<rparr>)"
    unfolding auth_user_from_request_def by (simp add: act_defs)
  then show ?thesis by blast
next
  case (Some token)
  with assms show ?thesis
    by (simp add: bearer_claims_def auth_user_from_request_def decode_access_token_def act_defs now_def ask_def tick_on_def) blast
qed

lemma auth_user_some:
  assumes "bearer_claims E hs (clock (orc E) (tick w)) = Some c"
  shows "auth_user_from_request E hs w = (Inr \<lparr>au_user_id = cl_sub c, au_pubkey = cl_pubkey c\<rparr>, tick_on w)"
  using assms
  by (auto simp: bearer_claims_def auth_user_from_request_def decode_access_token_def act_defs now_def ask_def
      split: option.splits)

lemma with_user_refused:
  assumes "bearer_claims E hs (clock (orc E) (tick w)) = None"
  shows "\<exists>k. with_user E hs h w = (Inl 401, w\<lparr>tick := k\<rparr>)"
  using auth_user_none [OF assms] by (auto simp: with_user_def map_err_def bindE_def)

lemma with_wallet_refused:
  assumes "bearer_claims E hs (clock (orc E) (tick w)) = None"
  shows "\<exists>k. with_wallet E hs h w = (Inl 401, w\<lparr>tick := k\<rparr>)"
  using auth_user_none [OF assms]
  by (auto simp: with_wallet_def auth_user_with_wallet_from_request_def map_err_def bindE_def)

lemma with_wallet_forbidden:
  assumes "bearer_claims E hs (clock (orc E) (tick w)) = Some c" and "cl_pubkey c = None"
  shows "\<exists>k. with_wallet E hs h w = (Inl 403, w\<lparr>tick := k\<rparr>)"
  using auth_user_some [OF assms(1)] assms(2)
  by (auto simp: with_wallet_def auth_user_with_wallet_from_request_def map_err_def bindE_def fail_def tick_on_def)

text \<open>
  C3 (access control). A request to an endpoint that needs a user is answered 401 when its bearer token is missing,
  forged or expired, one that needs a wallet is answered 403 when the token names none, and a WebSocket upgrade from a
  foreign origin 403; in each case before the handler runs: nothing but the call counter of the world changes. So a
  protected request that succeeds carried a token that decodes, with a wallet where one is needed.
\<close>

theorem access_enforced:
  "(access_of (endpoint_of req) \<in> {NeedsUser, NeedsWallet} \<and> bearer_claims E hs (clock (orc E) (tick w)) = None \<longrightarrow>
      (\<exists>k. serve E hs req w = (Inl 401, w\<lparr>tick := k\<rparr>))) \<and>
   (access_of (endpoint_of req) = NeedsWallet \<and> bearer_claims E hs (clock (orc E) (tick w)) = Some c \<and> cl_pubkey c = None \<longrightarrow>
      (\<exists>k. serve E hs req w = (Inl 403, w\<lparr>tick := k\<rparr>))) \<and>
   (access_of (endpoint_of req) = NeedsToken \<and> \<not> is_allowed_origin hs \<longrightarrow> serve E hs req w = (Inl 403, w)) \<and>
   (access_of (endpoint_of req) \<in> {NeedsUser, NeedsWallet} \<and> serve E hs req w = (Inr (), w') \<longrightarrow>
      (\<exists>cl. bearer_claims E hs (clock (orc E) (tick w)) = Some cl \<and>
        (access_of (endpoint_of req) = NeedsWallet \<longrightarrow> cl_pubkey cl \<noteq> None)))"
proof -
  let ?cl = "bearer_claims E hs (clock (orc E) (tick w))"
  have u: "\<exists>k. serve E hs req w = (Inl 401, w\<lparr>tick := k\<rparr>)"
    if "access_of (endpoint_of req) \<in> {NeedsUser, NeedsWallet}" and "?cl = None"
    using that(1) by (cases req rule: endpoint_of.cases) (simp_all add: with_user_refused with_wallet_refused that(2))
  have f: "\<exists>k. serve E hs req w = (Inl 403, w\<lparr>tick := k\<rparr>)"
    if "access_of (endpoint_of req) = NeedsWallet" and "?cl = Some cl" and "cl_pubkey cl = None" for cl
    using that(1) by (cases req rule: endpoint_of.cases) (simp_all add: with_wallet_forbidden [of E hs w cl] that(2,3))
  have o: "serve E hs req w = (Inl 403, w)"
    if "access_of (endpoint_of req) = NeedsToken" and "\<not> is_allowed_origin hs"
    using that by (cases req rule: endpoint_of.cases) (simp_all add: ws_handler_def act_defs)
  have "\<exists>cl. ?cl = Some cl \<and> (access_of (endpoint_of req) = NeedsWallet \<longrightarrow> cl_pubkey cl \<noteq> None)"
    if "access_of (endpoint_of req) \<in> {NeedsUser, NeedsWallet}" and "serve E hs req w = (Inr (), w')"
    using u [OF that(1)] f that(2) by (cases ?cl) auto
  with u f o show ?thesis by blast
qed

theorem access_enforced_witness:
  "\<exists>k. serve sample_env (\<lambda>_. None) R_GetProfile empty_world = (Inl 401, empty_world\<lparr>tick := k\<rparr>)"
proof -
  have "bearer_claims sample_env (\<lambda>_. None) (clock (orc sample_env) (tick empty_world)) = None"
    by (simp add: bearer_claims_def)
  with access_enforced [where req = R_GetProfile and E = sample_env and hs = "\<lambda>_. None" and w = empty_world]
  show ?thesis by simp
qed

section \<open>Runs\<close>

text \<open>
  What happens to the backend: a request, a tick of a worker, an event of the chain handed to the listener's
  handlers, a transfer to a payment reference that is confirmed, and a WebSocket that closes.
\<close>

datatype system_event =
    Serve headers request
  | KeeperTick
  | RefundTick
  | ExpiryTick
  | NotificationTick worker_status
  | ChainEvent parsed_event
  | TransferSeen string string string int
  | WsClosed uuid

fun system_step :: "env \<Rightarrow> system_event \<Rightarrow> world \<Rightarrow> world" where
  "system_step E (Serve hs req) w = snd (serve E hs req w)"
| "system_step E KeeperTick w = snd (keeper_cycle E w)"
| "system_step E RefundTick w = snd (process_pending_refunds E w)"
| "system_step E ExpiryTick w = snd (expire_due_agreements E w)"
| "system_step E (NotificationTick st) w = snd (notification_cycle st E w)"
| "system_step E (ChainEvent ev) w = snd (handle_event E ev w)"
| "system_step E (TransferSeen ref sg mk amt) w = snd (confirm_payment_atomic E ref sg mk amt w)"
| "system_step E (WsClosed u) w = snd ((remove_user_channel u :: (world, nat, unit) act) w)"

definition system_run :: "env \<Rightarrow> system_event list \<Rightarrow> world \<Rightarrow> world" where
  "system_run E evs w = fold (system_step E) evs w"

lemma keeps_public [keeps_intros]: "frame R \<Longrightarrow> keeps R h \<Longrightarrow> keeps R (public_handler h)"
  unfolding public_handler_def by (intro keeps_intros)

lemma keeps_with_user [keeps_intros]: "frame R \<Longrightarrow> (\<And>auth. keeps R (h auth)) \<Longrightarrow> keeps R (with_user E hs h)"
  unfolding with_user_def by (intro keeps_intros)

lemma keeps_with_wallet [keeps_intros]: "frame R \<Longrightarrow> (\<And>auth. keeps R (h auth)) \<Longrightarrow> keeps R (with_wallet E hs h)"
  unfolding with_wallet_def auth_user_with_wallet_from_request_def by (intro keeps_intros)

lemma keeps_case_http_reply [keeps_intros]:
  "(\<And>e. keeps R (f e)) \<Longrightarrow> (\<And>st. keeps R (g st)) \<Longrightarrow> (\<And>st b js. keeps R (h st b js)) \<Longrightarrow>
   keeps R (case r of NoResponse e \<Rightarrow> f e | NoBody st \<Rightarrow> g st | Reply st b js \<Rightarrow> h st b js)"
  by (cases r) simp_all

lemma keeps_upload_handler [keeps_intros]:
  assumes R: "frame R"
  shows "keeps R (upload_handler E auth fs)"
proof -
  have "keeps R (upload_to_ipfs_with_client E bs)" for bs
    unfolding upload_to_ipfs_with_client_def post_ipfs_def using R by (intro keeps_intros)
  moreover have "keeps R (upload_to_arweave_with_client E bs)" for bs
    unfolding upload_to_arweave_with_client_def post_arweave_def using R by (intro keeps_intros)
  ultimately have "keeps R (upload_document E b bs)" for b bs
    unfolding upload_document_def Let_def using R by (intro keeps_intros)
  then show ?thesis
    unfolding upload_handler_def validate_and_upload_def validate_and_upload_with_size_limit_def using R by (intro keeps_intros)
qed

locale table_property =
  fixes E :: env and P :: "database \<Rightarrow> bool"
  assumes k_challenge: "keeps (db_frame P) (challenge E)"
    and k_verify: "keeps (db_frame P) (verify E body)"
    and k_link: "keeps (db_frame P) (link_wallet E auth body)"
    and k_refresh: "keeps (db_frame P) (refresh E tok)"
    and k_logout: "keeps (db_frame P) (logout E tok)"
    and k_callback: "keeps (db_frame P) (oauth_callback E jar q p)"
    and k_create: "keeps (db_frame P) (create_agreement E wauth creq)"
    and k_delete: "keeps (db_frame P) (delete_draft E auth i)"
    and k_reinvite: "keeps (db_frame P) (reinvite_draft E auth i j)"
    and k_submit: "keeps (db_frame P) (submit_draft E wauth i sreq)"
    and k_accept: "keeps (db_frame P) (accept_invite E wauth tok)"
    and k_initiate: "keeps (db_frame P) (initiate_payment E wauth i m)"
    and k_profile: "keeps (db_frame P) (update_profile E auth n)"
    and k_contacts: "keeps (db_frame P) (update_contacts E auth ureq)"
    and k_no_contacts: "keeps (db_frame P) (delete_contacts E auth)"
    and k_keeper: "keeps (db_frame P) (keeper_cycle E)"
    and k_refunds: "keeps (db_frame P) (process_pending_refunds E)"
    and k_expiry: "keeps (db_frame P) (expire_due_agreements E)"
    and k_event: "keeps (db_frame P) (handle_event E ev)"
    and k_confirm: "keeps (db_frame P) (confirm_payment_atomic E ref sg mk amt)"
    and k_queue: "P (d\<lparr>notification_queue := qs\<rparr>) = P d"
begin

lemma serve_keeps: "keeps (db_frame P) (serve E hs req)"
proof -
  have invite: "keeps (db_frame P) (get_invite E hs tok)" for tok
    by (rule keeps_get_invite) (simp_all add: frame_db_frame db_frame_def)
  have health: "keeps (db_frame P) health_endpoint"
    unfolding health_endpoint_def Let_def by (intro keeps_intros)
  have ws: "keeps (db_frame P) (serve E hs (R_Ws q))" for q
    unfolding serve.simps ws_handler_def handle_upgrade_open_def
    by (intro keeps_intros) (auto intro!: keepsI simp: act_simps db_frame_def)
  show ?thesis
    by (cases req; simp only: serve.simps; intro keeps_intros invite health
        ws [unfolded serve.simps] k_challenge k_verify k_link k_refresh k_logout
        k_callback k_create k_delete k_reinvite k_submit k_accept k_initiate k_profile k_contacts k_no_contacts)
qed

lemma notification_keeps: "keeps (db_frame P) (notification_cycle st E)"
proof -
  have "keeps (db_frame P) (increment_attempts E jid)" for jid
    unfolding increment_attempts_def by (intro keeps_db_frame_sql) (auto simp: bump_attempts_def k_queue split: if_splits)
  then have "keeps (db_frame P) (deliver_job E job)" for job
    by (intro keeps_deliver_job frame_db_frame) (simp_all add: db_frame_def)
  then show ?thesis
    unfolding notification_cycle_def transition_to_degraded_def by (intro keeps_intros)
qed

lemma step_keeps: "P (db w) \<Longrightarrow> P (db (system_step E ev w))"
  using keeps_db_frameD [OF serve_keeps] keeps_db_frameD [OF notification_keeps] keeps_db_frameD [OF k_keeper]
    keeps_db_frameD [OF k_refunds] keeps_db_frameD [OF k_expiry] keeps_db_frameD [OF k_event] keeps_db_frameD [OF k_confirm]
  by (cases ev) (simp_all add: remove_user_channel_def modify_def)

lemma run_keeps: "P (db w) \<Longrightarrow> P (db (system_run E evs w))"
  unfolding system_run_def by (induction evs arbitrary: w) (simp_all add: step_keeps)

end

section \<open>Operations on other tables\<close>

text \<open>Operations that write only tables a property does not look at keep it; by groups of tables.\<close>

lemma keeps_wallet_handlers:
  assumes user: "\<And>t g d x d'. insert_user t g d = Some (x, d') \<Longrightarrow> P d \<Longrightarrow> P d'"
    and wallet: "\<And>t u pk d x d'. insert_wallet t u pk d = Some (x, d') \<Longrightarrow> P d \<Longrightarrow> P d'"
    and nonces: "\<And>d q. P (d\<lparr>siws_nonces := q\<rparr>) = P d" and tokens: "\<And>d q. P (d\<lparr>refresh_tokens := q\<rparr>) = P d"
  shows "keeps (db_frame P) (challenge E)" "keeps (db_frame P) (verify E body)" "keeps (db_frame P) (link_wallet E auth body)"
    "keeps (db_frame P) (refresh E tok)" "keeps (db_frame P) (logout E tok)"
    "keeps (db_frame P) (issue_and_store_refresh_token E u)"
proof -
  show store: "keeps (db_frame P) (issue_and_store_refresh_token E u)" for u
    unfolding issue_and_store_refresh_token_def Let_def
    by (intro keeps_intros keeps_db_frame_sql) (auto simp: tokens split: if_splits)
  have check: "keeps (db_frame P) (check_signed_nonce E body)" for body
    unfolding check_signed_nonce_def
    by (intro keeps_intros keeps_db_frame_sql) (auto simp: consume_nonce_def nonces)
  show "keeps (db_frame P) (challenge E)"
    unfolding challenge_def Let_def by (intro keeps_intros keeps_db_frame_sql) (auto simp: nonces split: if_splits)
  show "keeps (db_frame P) (verify E body)"
    unfolding verify_def by (intro keeps_intros check store keeps_db_frame_sql) (auto intro: user wallet)
  show "keeps (db_frame P) (link_wallet E auth body)"
    unfolding link_wallet_def by (intro keeps_intros check store keeps_db_frame_sql) (auto intro: wallet)
  show "keeps (db_frame P) (refresh E tok)"
    unfolding refresh_def by (intro keeps_intros store keeps_db_frame_sql) (auto simp: consume_token_def tokens)
  show "keeps (db_frame P) (logout E tok)"
    unfolding logout_def by (intro keeps_intros keeps_db_frame_update) (simp add: tokens)
qed

lemma keeps_accounts_other:
  assumes "\<And>d q. P (d\<lparr>user_accounts := q\<rparr>) = P d" and "\<And>d q. P (d\<lparr>auth_wallet := q\<rparr>) = P d"
    and "\<And>d q. P (d\<lparr>siws_nonces := q\<rparr>) = P d" and "\<And>d q. P (d\<lparr>refresh_tokens := q\<rparr>) = P d"
    and "\<And>d q. P (d\<lparr>auth_oauth := q\<rparr>) = P d" and "\<And>d q. P (d\<lparr>user_contacts := q\<rparr>) = P d"
  shows "keeps (db_frame P) (challenge E)" "keeps (db_frame P) (verify E body)" "keeps (db_frame P) (link_wallet E auth body)"
    "keeps (db_frame P) (refresh E tok)" "keeps (db_frame P) (logout E tok)" "keeps (db_frame P) (oauth_callback E jar q p)"
    "keeps (db_frame P) (update_profile E auth n)" "keeps (db_frame P) (update_contacts E auth ureq)"
    "keeps (db_frame P) (delete_contacts E auth)"
proof -
  have user: "P d'" if "insert_user t g d = Some (x, d')" "P d" for t g d x d'
    using that by (auto simp: insert_user_def assms split: if_splits)
  have wallet: "P d'" if "insert_wallet t u pk d = Some (x, d')" "P d" for t u pk d x d'
    using that by (auto simp: insert_wallet_def assms split: if_splits)
  have oauth: "P d'" if "upsert_oauth u pr pid t d = Some (x, d')" "P d" for u pr pid t d x d'
    using that by (auto simp: upsert_oauth_def assms split: if_splits)
  have contact: "P d'" if "upsert_contact u f d = Some (x, d')" "P d" for u f d x d'
    using that by (auto simp: upsert_contact_def assms split: if_splits)
  note w = keeps_wallet_handlers [of P, OF user wallet assms(3,4)]
  show "keeps (db_frame P) (challenge E)" "keeps (db_frame P) (verify E body)" "keeps (db_frame P) (link_wallet E auth body)"
    "keeps (db_frame P) (refresh E tok)" "keeps (db_frame P) (logout E tok)"
    by (rule w; assumption)+
  show "keeps (db_frame P) (oauth_callback E jar q p)"
    by (rule keeps_oauth_callback) (auto intro: user oauth contact w)
  show "keeps (db_frame P) (update_profile E auth n)"
    by (rule keeps_update_profile) (simp add: set_display_name_def assms)
  show "keeps (db_frame P) (update_contacts E auth ureq)" "keeps (db_frame P) (delete_contacts E auth)"
    by (rule keeps_user_handlers; auto intro: contact simp: assms)+
qed

lemma keeps_drafts_other:
  assumes "\<And>d q. P (d\<lparr>agreement_drafts := q\<rparr>) = P d" and "\<And>d q. P (d\<lparr>party_invitations := q\<rparr>) = P d"
    and "\<And>d q. P (d\<lparr>agreement_payments := q\<rparr>) = P d" and "\<And>d q. P (d\<lparr>user_agreement_counts := q\<rparr>) = P d"
    and "\<And>d q. P (d\<lparr>notification_queue := q\<rparr>) = P d"
  shows "keeps (db_frame P) (create_agreement E wauth creq)" "keeps (db_frame P) (delete_draft E auth i)"
    "keeps (db_frame P) (reinvite_draft E auth i j)" "keeps (db_frame P) (submit_draft E wauth i sreq)"
    "keeps (db_frame P) (accept_invite E wauth tok)" "keeps (db_frame P) (initiate_payment E wauth i m)"
  using keeps_create_agreement_other [of P, OF assms(1,2)] keeps_draft_handlers_other [of P, OF assms(1,2,3)]
    keeps_accept_invite [OF keeps_accept_tx_other [of P, OF assms(1,2)] assms(5)]
    keeps_initiate_payment [of P E wauth i m, OF _ assms(4)]
  by (simp_all add: mark_paid_def update_draft_def assms(1))

lemma keeps_workers_other:
  assumes "\<And>d q. P (d\<lparr>agreement_parties := q\<rparr>) = P d" and "\<And>d q. P (d\<lparr>agreement_payments := q\<rparr>) = P d"
    and "\<And>d q. P (d\<lparr>notification_queue := q\<rparr>) = P d" and "\<And>d q. P (d\<lparr>agreement_drafts := q\<rparr>) = P d"
    and "\<And>d q. P (d\<lparr>party_invitations := q\<rparr>) = P d" and "\<And>d q. P (d\<lparr>siws_nonces := q\<rparr>) = P d"
    and "\<And>d q. P (d\<lparr>refresh_tokens := q\<rparr>) = P d" and "\<And>d q. P (d\<lparr>sweep_config := q\<rparr>) = P d"
  shows "keeps (db_frame P) (process_pending_refunds E)" "keeps (db_frame P) (expire_due_agreements E)"
    "keeps (db_frame P) (handle_event E ev)" "keeps (db_frame P) (confirm_payment_atomic E ref sg mk amt)"
    "keeps (db_frame P) (keeper_cycle E)"
proof -
  show "keeps (db_frame P) (process_pending_refunds E)"
    by (rule keeps_process_refunds) (simp add: mark_refunded_def assms)
  show "keeps (db_frame P) (expire_due_agreements E)"
    by (rule keeps_expire_due) (simp add: move_parties_def assms)
  show "keeps (db_frame P) (handle_event E ev)" by (rule keeps_event_other [OF assms(3,1,2)])
  show "keeps (db_frame P) (confirm_payment_atomic E ref sg mk amt)"
    unfolding confirm_payment_atomic_def
    by (rule keeps_db_frame_sql) (auto simp: confirm_stmt_def Let_def assms split: if_splits)
  show "keeps (db_frame P) (keeper_cycle E)"
    by (rule keeps_keeper_cycle [OF _ _ _ _ _ _ keeps_reconcile_all])
      (auto simp: keeper_statements assms split: if_splits)
qed

section \<open>The properties every run keeps\<close>

lemma keeps_db_frame_conj:
  "keeps (db_frame P) m \<Longrightarrow> keeps (db_frame Q) m \<Longrightarrow> keeps (db_frame (\<lambda>d. P d \<and> Q d)) m"
  by (auto simp: keeps_def db_frame_def)

lemma set_display_name_ids:
  "map ua_id (user_accounts (set_display_name u n d)) = map ua_id (user_accounts d)"
  "ua_id ` set (user_accounts (set_display_name u n d)) = ua_id ` set (user_accounts d)"
proof -
  show ids: "map ua_id (user_accounts (set_display_name u n d)) = map ua_id (user_accounts d)"
    by (simp add: set_display_name_def map_upd_where)
  show "ua_id ` set (user_accounts (set_display_name u n d)) = ua_id ` set (user_accounts d)"
    using arg_cong [OF ids, of set] by simp
qed

lemma set_display_name_tables [simp]:
  "siws_nonces (set_display_name u n d) = siws_nonces d" "auth_wallet (set_display_name u n d) = auth_wallet d"
  "refresh_tokens (set_display_name u n d) = refresh_tokens d" "auth_oauth (set_display_name u n d) = auth_oauth d"
  "user_contacts (set_display_name u n d) = user_contacts d"
  by (simp_all add: set_display_name_def)

interpretation auth_tables: table_property E auth_inv for E
proof unfold_locales
  show "keeps (db_frame auth_inv) (oauth_callback E jar q p)" for jar q p by (rule keeps_auth_inv_oauth)
  show "keeps (db_frame auth_inv) (update_profile E auth n)" for auth n
    by (rule keeps_update_profile) (simp add: auth_inv_def set_display_name_ids)
  show "keeps (db_frame auth_inv) (update_contacts E auth ureq)" "keeps (db_frame auth_inv) (delete_contacts E auth)"
    for auth ureq by (rule keeps_user_handlers; auto simp: auth_inv_def upsert_contact_def split: if_splits)+
  show "keeps (db_frame auth_inv) (keeper_cycle E)" by (rule keeps_auth_inv_keeper)
  show "keeps (db_frame auth_inv) (process_pending_refunds E)"
    by (rule keeps_process_refunds) (simp add: auth_inv_def mark_refunded_def)
  show "keeps (db_frame auth_inv) (expire_due_agreements E)"
    by (rule keeps_expire_due) (simp add: auth_inv_def move_parties_def)
  show "keeps (db_frame auth_inv) (handle_event E ev)" for ev by (rule keeps_event_other) (simp_all add: auth_inv_def)
  show "keeps (db_frame auth_inv) (confirm_payment_atomic E ref sg mk amt)" for ref sg mk amt
    unfolding confirm_payment_atomic_def
    by (rule keeps_db_frame_sql) (auto simp: confirm_stmt_def Let_def auth_inv_def split: if_splits)
qed (rule keeps_auth_inv keeps_drafts_other; simp add: auth_inv_def | simp add: auth_inv_def)+

interpretation contact_tables: table_property E contact_inv for E
proof unfold_locales
  have ins: "contact_inv d'" if "insert_wallet t u pk d = Some (x, d')" "contact_inv d" for t u pk d x d'
    using that by (auto simp: contact_inv_def insert_wallet_def split: if_splits)
  have blind: "contact_inv (d\<lparr>siws_nonces := q\<rparr>) = contact_inv d" "contact_inv (d\<lparr>refresh_tokens := q'\<rparr>) = contact_inv d" for d q q'
    by (simp_all add: contact_inv_def)
  note w = keeps_wallet_handlers [of contact_inv, OF contact_inv_insert_user ins blind]
  show "keeps (db_frame contact_inv) (challenge E)" "keeps (db_frame contact_inv) (verify E body)"
    "keeps (db_frame contact_inv) (link_wallet E auth body)" "keeps (db_frame contact_inv) (refresh E tok)"
    "keeps (db_frame contact_inv) (logout E tok)" for body auth tok
    by (rule w; assumption)+
  show "keeps (db_frame contact_inv) (oauth_callback E jar q p)" for jar q p by (rule keeps_contact_inv_oauth)
  show "keeps (db_frame contact_inv) (update_profile E auth n)" for auth n
    by (rule keeps_update_profile) (simp add: contact_inv_def set_display_name_ids)
  show "keeps (db_frame contact_inv) (update_contacts E auth ureq)" "keeps (db_frame contact_inv) (delete_contacts E auth)"
    for auth ureq
  proof -
    have del: "contact_inv (d\<lparr>user_contacts := del_where (\<lambda>r. uc_user_id r = u) (user_contacts d)\<rparr>)" if "contact_inv d" for u d
      using that by (auto simp: contact_inv_def distinct_del_where sql_list)
    show "keeps (db_frame contact_inv) (update_contacts E auth ureq)" "keeps (db_frame contact_inv) (delete_contacts E auth)"
      by (rule keeps_user_handlers; (rule del | erule contact_inv_upsert_contact); assumption)+
  qed
qed (rule keeps_drafts_other keeps_workers_other; simp add: contact_inv_def | simp add: contact_inv_def)+

interpretation name_tables: table_property E names_inv for E
proof unfold_locales
  have ins: "names_inv d'" if "insert_wallet t u pk d = Some (x, d')" "names_inv d" for t u pk d x d'
    using that by (auto simp: names_inv_def insert_wallet_def split: if_splits)
  have blind: "names_inv (d\<lparr>siws_nonces := q\<rparr>) = names_inv d" "names_inv (d\<lparr>refresh_tokens := q'\<rparr>) = names_inv d" for d q q'
    by (simp_all add: names_inv_def)
  note w = keeps_wallet_handlers [of names_inv, OF names_inv_insert_user ins blind]
  show "keeps (db_frame names_inv) (challenge E)" "keeps (db_frame names_inv) (verify E body)"
    "keeps (db_frame names_inv) (link_wallet E auth body)" "keeps (db_frame names_inv) (refresh E tok)"
    "keeps (db_frame names_inv) (logout E tok)" for body auth tok
    by (rule w; assumption)+
  show "keeps (db_frame names_inv) (oauth_callback E jar q p)" for jar q p
    by (rule keeps_oauth_callback)
      (auto intro: w(6) simp: names_inv_def insert_user_def upsert_oauth_def upsert_contact_def split: if_splits)
  show "keeps (db_frame names_inv) (update_profile E auth n)" for auth n by (rule keeps_names_inv_update)
  show "keeps (db_frame names_inv) (update_contacts E auth ureq)" "keeps (db_frame names_inv) (delete_contacts E auth)"
    for auth ureq
    by (rule keeps_user_handlers; auto simp: names_inv_def upsert_contact_def split: if_splits)+
qed (rule keeps_drafts_other keeps_workers_other; simp add: names_inv_def | simp add: names_inv_def)+

text \<open>Drafts and invitations: the invariant, and from any earlier state \<open>d0\<close> the life cycle.\<close>

lemma keeps_evolves_accept_tx:
  assumes law: "serde_law (lib E)"
  shows "keeps (db_frame (\<lambda>d. draft_inv E d \<and> invitations_evolve d0 d)) (accept_tx E pk tok t)"
proof (rule keepsI, unfold db_frame_def, rule impI)
  fix w res w' assume run: "accept_tx E pk tok t w = (res, w')" and h: "draft_inv E (db w) \<and> invitations_evolve d0 (db w)"
  have inv: "draft_inv E (db w')"
    using keepsD [OF keeps_draft_inv_accept_tx [OF law] run] h by (simp add: db_frame_def)
  have "invitations_evolve (db w) (db w')"
  proof (cases res)
    case (Inl e)
    with run accept_tx_Inl show ?thesis by (metis evolves_refl)
  next
    case (Inr x)
    obtain i r b where x: "x = (i, r, b)" by (cases x)
    from accept_tx_Inr [OF run [unfolded Inr x]] obtain v where
      "find_invitation tok (db w) = Some i" "inv_status i = ''pending''"
      "db w' = store_slots (inv_draft_id i) v b t (mark_accepted (inv_id i) (db w))" by blast
    then show ?thesis using invitations_evolve_accept h by metis
  qed
  with inv h show "draft_inv E (db w') \<and> invitations_evolve d0 (db w')" using evolves_trans by blast
qed

lemma evolves_insert_invitation:
  "insert_invitation r d = Some (x, d') \<Longrightarrow> invitations_evolve d0 d \<Longrightarrow> invitations_evolve d0 d'"
proof (erule evolves_trans)
  assume "insert_invitation r d = Some (x, d')"
  then show "invitations_evolve d d'"
    by (intro evolves_append [where new = "[r]"]) (auto simp: insert_invitation_def split: if_splits)
qed

lemma evolves_insert_draft:
  "insert_draft pk pl sl t g d = Some (x, d') \<Longrightarrow> invitations_evolve d0 d \<Longrightarrow> invitations_evolve d0 d'"
  by (auto simp: insert_draft_def evolves_def split: if_splits)

lemma keeps_evolves_drafts:
  "keeps (db_frame (invitations_evolve d0)) (create_agreement E wauth creq)"
  "keeps (db_frame (invitations_evolve d0)) (delete_draft E auth i)"
  "keeps (db_frame (invitations_evolve d0)) (reinvite_draft E auth i j)"
  "keeps (db_frame (invitations_evolve d0)) (submit_draft E wauth i sreq)"
proof -
  show "keeps (db_frame (invitations_evolve d0)) (create_agreement E wauth creq)"
    by (intro keeps_create_agreement frame_db_frame, unfold store_draft_def)
      (intro keeps_intros keeps_db_frame_sql; auto intro: evolves_insert_draft evolves_insert_invitation)
  show "keeps (db_frame (invitations_evolve d0)) (delete_draft E auth i)"
    unfolding delete_draft_def by (intro keeps_intros keeps_db_frame_update) (simp add: update_draft_def evolves_def)
  show "keeps (db_frame (invitations_evolve d0)) (reinvite_draft E auth i j)"
    unfolding reinvite_draft_def by (intro keeps_intros keeps_db_frame_sql) (auto intro: evolves_insert_invitation)
  show "keeps (db_frame (invitations_evolve d0)) (submit_draft E wauth i sreq)"
    unfolding submit_draft_def submit_checks_def store_uri_def store_pda_def confirmed_pda_def
    by (intro keeps_intros keeps_db_frame_update; simp add: update_draft_def evolves_def)
qed

lemma draft_tables:
  assumes law: "serde_law (lib E)"
  shows "table_property E (\<lambda>d. draft_inv E d \<and> invitations_evolve d0 d)" (is "table_property E ?P")
proof
  have blind: "?P (d\<lparr>agreement_parties := a\<rparr>) = ?P d" "?P (d\<lparr>agreement_payments := b\<rparr>) = ?P d"
    "?P (d\<lparr>notification_queue := c\<rparr>) = ?P d" "?P (d\<lparr>user_agreement_counts := e\<rparr>) = ?P d" for d a b c e
    by (simp_all add: draft_inv_def evolves_def)
  show "keeps (db_frame ?P) (create_agreement E wauth creq)" for wauth creq
    by (intro keeps_db_frame_conj keeps_draft_inv_create_agreement law keeps_evolves_drafts)
  show "keeps (db_frame ?P) (delete_draft E auth i)" "keeps (db_frame ?P) (reinvite_draft E auth i j)"
    "keeps (db_frame ?P) (submit_draft E wauth i sreq)" for auth i j wauth sreq
    by (intro keeps_db_frame_conj keeps_draft_inv_draft_handlers keeps_evolves_drafts)+
  show "keeps (db_frame ?P) (accept_invite E wauth tok)" for wauth tok
    by (intro keeps_accept_invite keeps_evolves_accept_tx law) (simp add: evolves_def)
  show "keeps (db_frame ?P) (initiate_payment E wauth i m)" for wauth i m
  proof (rule keeps_initiate_payment)
    fix d k assume "?P d"
    then have "draft_inv E (mark_paid k d)"
      unfolding mark_paid_def by (intro draft_inv_update_draft) (simp_all add: draft_ok_def)
    with \<open>?P d\<close> show "?P (mark_paid k d)" by (simp add: mark_paid_def update_draft_def evolves_def)
  qed (rule blind)
  show "keeps (db_frame ?P) (keeper_cycle E)"
    by (intro keeps_db_frame_conj keeps_draft_inv_keeper keeps_invitations_keeper)
  show "keeps (db_frame ?P) (process_pending_refunds E)"
    by (rule keeps_process_refunds) (simp add: mark_refunded_def evolves_def)
  show "keeps (db_frame ?P) (expire_due_agreements E)"
    by (rule keeps_expire_due) (simp add: move_parties_def blind)
  show "keeps (db_frame ?P) (handle_event E ev)" for ev
    by (rule keeps_event_other) (simp_all add: draft_inv_def evolves_def)
  show "keeps (db_frame ?P) (confirm_payment_atomic E ref sg mk amt)" for ref sg mk amt
    unfolding confirm_payment_atomic_def
    by (rule keeps_db_frame_sql) (auto simp: confirm_stmt_def Let_def evolves_def split: if_splits)
qed (rule keeps_accounts_other; simp add: draft_inv_def evolves_def | simp add: evolves_def)+

text \<open>Payments.\<close>

interpretation payment_tables: table_property E "\<lambda>d. pay_inv d \<and> payments_evolve d0 d" for E d0
proof unfold_locales
  let ?P = "\<lambda>d. pay_inv d \<and> payments_evolve d0 d"
  have same: "?P d'" if "agreement_payments d' = agreement_payments d" "?P d" for d d'
    using that by (simp add: pay_inv_def evolves_def)
  have blind: "?P (d\<lparr>agreement_drafts := a\<rparr>) = ?P d" "?P (d\<lparr>party_invitations := b\<rparr>) = ?P d"
    "?P (d\<lparr>notification_queue := c\<rparr>) = ?P d" "?P (d\<lparr>user_agreement_counts := e\<rparr>) = ?P d" for d a b c e
    by (simp_all add: pay_inv_def evolves_def)
  have pda: "?P (confirmed_pda i pda d)" if "?P d" for i pda d
  proof -
    have "payments_evolve d (confirmed_pda i pda d)"
      by (rule evolves_update [where P = "\<lambda>p. pay_draft_id p = i \<and> pay_status p = ''confirmed''"
            and f = "\<lambda>p. p\<lparr>pay_agreement_pda := Some pda\<rparr>"])
        (auto simp: confirmed_pda_def pay_key_def)
    moreover have "pay_inv (confirmed_pda i pda d)"
      using that unfolding confirmed_pda_def by (subst pay_inv_status_update) auto
    ultimately show ?thesis using that evolves_trans by blast
  qed
  have refunded: "?P (mark_refunded i sig t d)" if "?P d" for i sig t d
  proof -
    have "pay_inv (mark_refunded i sig t d)"
      using that unfolding mark_refunded_def by (subst pay_inv_status_update) auto
    then show ?thesis using that evolves_trans [OF _ payments_evolve_refunded] by blast
  qed
  fix wauth auth i j creq sreq tok m
  show "keeps (db_frame ?P) (create_agreement E wauth creq)"
    by (rule keeps_create_agreement_other) (rule blind)+
  show "keeps (db_frame ?P) (delete_draft E auth i)"
    unfolding delete_draft_def by (intro keeps_intros keeps_db_frame_update) (simp add: update_draft_def blind)
  show "keeps (db_frame ?P) (reinvite_draft E auth i j)"
    unfolding reinvite_draft_def
    by (intro keeps_intros keeps_db_frame_sql) (auto simp: insert_invitation_def pay_inv_def evolves_def split: if_splits)
  show "keeps (db_frame ?P) (submit_draft E wauth i sreq)"
    unfolding submit_draft_def submit_checks_def store_uri_def store_pda_def update_draft_def
    by (intro keeps_intros keeps_db_frame_update; (rule pda, assumption | simp add: blind))
  show "keeps (db_frame ?P) (accept_invite E wauth tok)"
    by (intro keeps_accept_invite keeps_accept_tx_other) (rule blind)+
  show "keeps (db_frame ?P) (initiate_payment E wauth i m)"
    by (rule keeps_initiate_payment) (simp_all add: mark_paid_def update_draft_def blind)
  show "keeps (db_frame ?P) (keeper_cycle E)" by (rule keeps_pay_inv_keeper)
  show "keeps (db_frame ?P) (process_pending_refunds E)" by (rule keeps_process_refunds) (rule refunded)
  show "keeps (db_frame ?P) (expire_due_agreements E)"
    by (rule keeps_expire_due) (erule same [rotated], simp add: move_parties_def)
  show "keeps (db_frame ?P) (handle_event E ev)" for ev by (rule keeps_pay_inv_event)
  show "keeps (db_frame ?P) (confirm_payment_atomic E ref sg mk amt)" for ref sg mk amt by (rule keeps_pay_inv_confirm)
qed (rule keeps_accounts_other; simp add: pay_inv_def evolves_def | simp add: pay_inv_def evolves_def)+

section \<open>Properties of every run\<close>

definition sys_inv :: "env \<Rightarrow> database \<Rightarrow> bool" where
  "sys_inv E d \<longleftrightarrow> auth_inv d \<and> contact_inv d \<and> names_inv d \<and> draft_inv E d \<and> pay_inv d"

lemma sys_inv_empty: "sys_inv E empty_db"
  by (simp add: sys_inv_def auth_inv_def contact_inv_def names_inv_def draft_inv_def pay_inv_def empty_db_def
      List.map_filter_simps)

lemma system_run_facts:
  assumes "serde_law (lib E)" and "sys_inv E (db w)"
  shows "sys_inv E (db (system_run E evs w)) \<and> invitations_evolve (db w) (db (system_run E evs w)) \<and>
    payments_evolve (db w) (db (system_run E evs w))"
proof -
  from assms(2) have inv: "auth_inv (db w)" "contact_inv (db w)" "names_inv (db w)" "draft_inv E (db w)" "pay_inv (db w)"
    by (simp_all add: sys_inv_def)
  have "draft_inv E (db (system_run E evs w)) \<and> invitations_evolve (db w) (db (system_run E evs w))"
    using inv(4) by (intro table_property.run_keeps [OF draft_tables [OF assms(1)]]) (simp add: evolves_refl)
  moreover have "pay_inv (db (system_run E evs w)) \<and> payments_evolve (db w) (db (system_run E evs w))"
    using inv(5) by (intro payment_tables.run_keeps) (simp add: evolves_refl)
  ultimately show ?thesis
    using auth_tables.run_keeps [OF inv(1)] contact_tables.run_keeps [OF inv(2)] name_tables.run_keeps [OF inv(3)]
    by (simp add: sys_inv_def)
qed

text \<open>
  Invariant of the system. Whatever sequence of requests, worker cycles, chain events and confirmed transfers
  the backend goes through, failed database calls included, its tables keep the keys and references of the schema,
  every stored display name passes the sanitiser, every draft's slots are readable and well-formed, a draft marked
  ready to submit has all its parties resolved, and payments keep their unique references and signatures.
\<close>

theorem system_invariant:
  assumes "serde_law (lib E)" and "sys_inv E (db w)"
  shows "sys_inv E (db (system_run E evs w))"
  using system_run_facts [OF assms] by simp

theorem system_invariant_witness:
  "sys_inv sample_env (db (system_run sample_env
     [Serve (\<lambda>_. None) R_Challenge, KeeperTick, Serve (\<lambda>_. None) R_GetProfile, RefundTick] empty_world))"
  using system_invariant [OF sample_laws(1), of empty_world] sys_inv_empty by (simp add: empty_world_def)

text \<open>
  The specification the life cycles refine: a map from keys to statuses of which a state only ever advances, each
  known key along the allowed transitions.
\<close>

definition payment_view :: "database \<Rightarrow> uuid \<times> string option \<rightharpoonup> string" where
  "payment_view d = map_of (map (\<lambda>p. (pay_key p, pay_status p)) (agreement_payments d))"

definition invitation_view :: "database \<Rightarrow> uuid \<times> string \<rightharpoonup> string" where
  "invitation_view d = map_of (map (\<lambda>i. (inv_key i, inv_status i)) (party_invitations d))"

definition advances :: "('s \<Rightarrow> 's \<Rightarrow> bool) \<Rightarrow> ('k \<rightharpoonup> 's) \<Rightarrow> ('k \<rightharpoonup> 's) \<Rightarrow> bool" where
  "advances step m m' \<longleftrightarrow> (\<forall>k s. m k = Some s \<longrightarrow> (\<exists>s'. m' k = Some s' \<and> step\<^sup>*\<^sup>* s s'))"

lemma view_advances:
  assumes ev: "evolves rows key stat step d d'" and dist: "distinct (map key (rows d'))"
  shows "advances step (map_of (map (\<lambda>r. (key r, stat r)) (rows d))) (map_of (map (\<lambda>r. (key r, stat r)) (rows d')))"
  unfolding advances_def
proof (intro allI impI)
  fix k s assume "map_of (map (\<lambda>r. (key r, stat r)) (rows d)) k = Some s"
  then obtain r where "r \<in> set (rows d)" "k = key r" "s = stat r"
    using map_of_SomeD by fastforce
  with ev obtain r' where r': "r' \<in> set (rows d')" "key r' = k" "step\<^sup>*\<^sup>* s (stat r')" by (auto simp: evolves_def)
  have "map_of (map (\<lambda>r. (key r, stat r)) (rows d')) k = Some (stat r')"
    using dist r'(1,2) by (intro map_of_is_SomeI) (auto simp: o_def)
  with r'(3) show "\<exists>s'. map_of (map (\<lambda>r. (key r, stat r)) (rows d')) k = Some s' \<and> step\<^sup>*\<^sup>* s s'" by blast
qed

text \<open>
  C2 (the life cycles are refined). Seen as maps from keys to statuses, the payments and the invitations of every
  run only advance: no row is lost, a payment goes from pending to confirmed or expired, from there to refund_pending
  and to refunded, an invitation from pending to accepted or expired, and never back. What the operations of the
  components promise about one call thus holds across all interleavings of calls.
\<close>

theorem system_refines_lifecycles:
  assumes "serde_law (lib E)" and "sys_inv E (db w)"
  shows "advances payment_step (payment_view (db w)) (payment_view (db (system_run E evs w))) \<and>
    advances invitation_step (invitation_view (db w)) (invitation_view (db (system_run E evs w)))"
proof -
  from system_run_facts [OF assms, of evs] have inv: "sys_inv E (db (system_run E evs w))"
    and i: "invitations_evolve (db w) (db (system_run E evs w))" and p: "payments_evolve (db w) (db (system_run E evs w))"
    by blast+
  from inv have "distinct (map pay_key (agreement_payments (db (system_run E evs w))))"
    "distinct (map inv_key (party_invitations (db (system_run E evs w))))"
    by (auto simp: sys_inv_def intro: distinct_pay_key distinct_inv_key)
  then show ?thesis unfolding payment_view_def invitation_view_def using view_advances [OF p] view_advances [OF i] by blast
qed

lemma sample_payment_inv: "sys_inv sample_env (db sample_payment_world)"
  by (simp add: sys_inv_def auth_inv_def contact_inv_def names_inv_def draft_inv_def pay_inv_def sample_payment_world_def
      sample_defs initiate_row_def List.map_filter_simps)

theorem system_refines_lifecycles_witness:
  "payment_view (db sample_payment_world) (7, Some ''ref'') = Some ''pending'' \<and>
   advances payment_step (payment_view (db sample_payment_world))
     (payment_view (db (system_run sample_env [TransferSeen ''ref'' ''sig'' ''mint'' 5, RefundTick] sample_payment_world)))"
  using system_refines_lifecycles [OF sample_laws(1) sample_payment_inv]
  by (simp add: payment_view_def pay_key_def sample_payment_world_def initiate_row_def)

text \<open>
  An invitation is accepted at most once. After a successful \<open>accept_invite\<close> and any further run of the system,
  accepting with the same token is refused, whoever asks, and changes no table.
\<close>

theorem invitation_accepted_once:
  assumes law: "serde_law (lib E)" and inv: "sys_inv E (db w)" and run: "accept_invite E auth tok w = (Inr c, w1)"
  shows "\<exists>e w3. accept_invite E auth' tok (system_run E evs w1) = (Inl e, w3) \<and> e \<in> {NotFound, InternalError} \<and>
    db w3 = db (system_run E evs w1)"
proof -
  have d: "draft_inv E (db w)" using inv by (simp add: sys_inv_def)
  have P: "table_property E (\<lambda>d. draft_inv E d \<and> invitations_evolve (db w1) d)" by (rule draft_tables [OF law])
  have "draft_inv E (db w1)"
    using keepsD [OF keeps_draft_inv_accept_invite [OF law] run] d by (simp add: db_frame_def)
  then have "draft_inv E (db (system_run E evs w1)) \<and> invitations_evolve (db w1) (db (system_run E evs w1))"
    by (intro table_property.run_keeps [OF P]) (simp add: evolves_refl)
  with invitation_used_up [OF d law run] show ?thesis by blast
qed

lemma sample_invite_sys_inv: "sys_inv sample_env (db sample_invite_world)"
  using sample_invite_inv
  by (simp add: sys_inv_def auth_inv_def contact_inv_def names_inv_def pay_inv_def sample_invite_world_def sample_defs
      List.map_filter_simps)

theorem invitation_accepted_once_witness:
  "\<exists>w1 e w3. accept_invite sample_env sample_caller ''tok'' sample_invite_world = (Inr 204, w1) \<and>
     accept_invite sample_env sample_caller ''tok'' (system_run sample_env [KeeperTick] w1) = (Inl e, w3)"
proof -
  from sample_accept obtain w1 where
    run: "accept_invite sample_env sample_caller ''tok'' sample_invite_world = (Inr 204, w1)" by blast
  from invitation_accepted_once [OF sample_laws(1) sample_invite_sys_inv run, of sample_caller "[KeeperTick]"] run
  show ?thesis by blast
qed

end
