(* ===== verification/Interleaving.thy ===== *)
theory Interleaving
  imports Pactum_Prelude
begin

text \<open>
  Requests that run at the same time. A \<open>thread\<close> is what is left of a request: its result, or an atomic step on the
  shared world with what follows it. Threads compose with the same combinators as actions, and \<open>run_alone\<close> maps a
  thread to the action it is when nothing interferes. A pool of threads is stepped by a schedule, the list of the
  indices of the threads that move; every interleaving of the pool is one schedule.

  \<open>always R p\<close>: every step of \<open>p\<close> is in \<open>R\<close>, wherever interference has taken the world. The rules of the collection
  \<open>always_intros\<close> reduce it to the steps of the thread. \<open>yields\<close> is the same for results. The locale \<open>contended\<close> is a
  resource that one step takes and no step gives back: of the threads that need it, one at most wins.
\<close>

named_theorems always_intros "composition rules of always"
named_theorems alone_simps "running a thread without interference"

section \<open>Threads\<close>

datatype ('w, 'a) prog =
    Done 'a
  | Atom "'w \<Rightarrow> 'w" "'w \<Rightarrow> ('w, 'a) prog"

type_synonym ('w, 'e, 'a) thread = "('w, 'e + 'a) prog"

text \<open>One indivisible action as a thread.\<close>

definition atom :: "('w, 'e, 'a) act \<Rightarrow> ('w, 'e, 'a) thread" where
  "atom m = Atom (\<lambda>w. snd (m w)) (\<lambda>w. Done (fst (m w)))"

definition lift_t :: "'e + 'a \<Rightarrow> ('w, 'e, 'a) thread" where
  "lift_t r = Done r"

definition ret_t :: "'a \<Rightarrow> ('w, 'e, 'a) thread" where
  "ret_t x = Done (Inr x)"

definition ok_or_t :: "'e \<Rightarrow> 'a option \<Rightarrow> ('w, 'e, 'a) thread" where
  "ok_or_t e v = (case v of None \<Rightarrow> Done (Inl e) | Some x \<Rightarrow> Done (Inr x))"

definition guard_t :: "bool \<Rightarrow> 'e \<Rightarrow> ('w, 'e, unit) thread" where
  "guard_t b e = (if b then Done (Inr ()) else Done (Inl e))"

primrec bind_t :: "('w, 'e, 'a) thread \<Rightarrow> ('a \<Rightarrow> ('w, 'e, 'b) thread) \<Rightarrow> ('w, 'e, 'b) thread" where
  "bind_t (Done r) k = (case r of Inl e \<Rightarrow> Done (Inl e) | Inr x \<Rightarrow> k x)"
| "bind_t (Atom f g) k = Atom f (\<lambda>w. bind_t (g w) k)"

definition then_t :: "('w, 'e, unit) thread \<Rightarrow> ('w, 'e, 'b) thread \<Rightarrow> ('w, 'e, 'b) thread" where
  "then_t p q = bind_t p (\<lambda>_. q)"

primrec map_err_t :: "('e \<Rightarrow> 'f) \<Rightarrow> ('w, 'e, 'a) thread \<Rightarrow> ('w, 'f, 'a) thread" where
  "map_err_t h (Done r) = Done (case r of Inl e \<Rightarrow> Inl (h e) | Inr x \<Rightarrow> Inr x)"
| "map_err_t h (Atom f g) = Atom f (\<lambda>w. map_err_t h (g w))"

text \<open>A \<open>match\<close> on the result of a fallible part.\<close>

primrec attempt_t :: "('w, 'e, 'a) thread \<Rightarrow> ('w, 'f, 'e + 'a) thread" where
  "attempt_t (Done r) = Done (Inr r)"
| "attempt_t (Atom f g) = Atom f (\<lambda>w. attempt_t (g w))"

fun for_each_t :: "'x list \<Rightarrow> ('x \<Rightarrow> ('w, 'e, unit) thread) \<Rightarrow> ('w, 'e, unit) thread" where
  "for_each_t [] f = ret_t ()"
| "for_each_t (x # xs) f = then_t (f x) (for_each_t xs f)"

fun fold_each_t :: "'x list \<Rightarrow> ('x \<Rightarrow> 'acc \<Rightarrow> ('w, 'e, 'acc) thread) \<Rightarrow> 'acc \<Rightarrow> ('w, 'e, 'acc) thread" where
  "fold_each_t [] f acc = ret_t acc"
| "fold_each_t (x # xs) f acc = bind_t (f x acc) (\<lambda>acc'. fold_each_t xs f acc')"

lemmas thread_defs = atom_def lift_t_def ret_t_def ok_or_t_def guard_t_def then_t_def

section \<open>Without interference\<close>

primrec run_alone :: "('w, 'a) prog \<Rightarrow> 'w \<Rightarrow> 'a \<times> 'w" where
  "run_alone (Done r) = (\<lambda>w. (r, w))"
| "run_alone (Atom f g) = (\<lambda>w. run_alone (g w) (f w))"

lemma alone_atom [alone_simps]: "run_alone (atom m) = m"
  by (simp add: atom_def fun_eq_iff)

lemma alone_lift [alone_simps]: "run_alone (lift_t r) = liftE r"
  by (simp add: lift_t_def liftE_def)

lemma alone_ret [alone_simps]: "run_alone (ret_t x) = ret x"
  by (simp add: ret_t_def ret_def)

lemma alone_ok_or [alone_simps]: "run_alone (ok_or_t e v) = ok_or e v"
  by (simp add: ok_or_t_def ok_or_def ret_def fail_def split: option.splits)

lemma alone_guard [alone_simps]: "run_alone (guard_t b e) = guardE b e"
  by (simp add: guard_t_def guardE_def ret_def fail_def)

lemma alone_bind [alone_simps]: "run_alone (bind_t p k) = bindE (run_alone p) (\<lambda>x. run_alone (k x))"
proof (rule ext)
  fix w show "run_alone (bind_t p k) w = bindE (run_alone p) (\<lambda>x. run_alone (k x)) w"
    by (induction p arbitrary: w) (auto simp: bindE_def split: sum.splits)
qed

lemma alone_then [alone_simps]: "run_alone (then_t p q) = thenE (run_alone p) (run_alone q)"
  by (simp add: then_t_def thenE_def alone_bind)

lemma alone_map_err [alone_simps]: "run_alone (map_err_t h p) = map_err h (run_alone p)"
proof (rule ext)
  fix w show "run_alone (map_err_t h p) w = map_err h (run_alone p) w"
    by (induction p arbitrary: w) (auto simp: map_err_def split: sum.splits)
qed

lemma alone_attempt [alone_simps]: "run_alone (attempt_t p) = attempt (run_alone p)"
proof (rule ext)
  fix w show "run_alone (attempt_t p) w = attempt (run_alone p) w"
    by (induction p arbitrary: w) (auto simp: attempt_def split: prod.splits)
qed

lemma alone_for_each [alone_simps]: "run_alone (for_each_t xs f) = for_each xs (\<lambda>x. run_alone (f x))"
  by (induction xs) (simp_all add: alone_simps)

lemma alone_fold_each [alone_simps]: "run_alone (fold_each_t xs f acc) = fold_each xs (\<lambda>x a. run_alone (f x a)) acc"
  by (induction xs arbitrary: acc) (simp_all add: alone_simps)

lemma alone_if [alone_simps]: "run_alone (if b then p else q) = (if b then run_alone p else run_alone q)"
  by simp

lemma alone_case_option [alone_simps]:
  "run_alone (case v of None \<Rightarrow> p | Some x \<Rightarrow> q x) = (case v of None \<Rightarrow> run_alone p | Some x \<Rightarrow> run_alone (q x))"
  by (cases v) simp_all

lemma alone_case_sum [alone_simps]:
  "run_alone (case v of Inl x \<Rightarrow> p x | Inr x \<Rightarrow> q x) = (case v of Inl x \<Rightarrow> run_alone (p x) | Inr x \<Rightarrow> run_alone (q x))"
  by (cases v) simp_all

lemma alone_case_prod [alone_simps]:
  "run_alone (case v of (x, y) \<Rightarrow> q x y) = (case v of (x, y) \<Rightarrow> run_alone (q x y))"
  by (cases v) simp

section \<open>Every step of a thread\<close>

primrec always :: "('w \<Rightarrow> 'w \<Rightarrow> bool) \<Rightarrow> ('w, 'a) prog \<Rightarrow> bool" where
  "always R (Done r) = True"
| "always R (Atom f g) = (\<forall>w. R w (f w) \<and> always R (g w))"

primrec yields :: "('a \<Rightarrow> bool) \<Rightarrow> ('w, 'a) prog \<Rightarrow> bool" where
  "yields Q (Done r) = Q r"
| "yields Q (Atom f g) = (\<forall>w. yields Q (g w))"

lemma always_atom [always_intros]: "keeps R m \<Longrightarrow> always R (atom m)"
  by (simp add: atom_def keeps_def)

lemma always_pure [always_intros]:
  "always R (lift_t r)" "always R (ret_t x)" "always R (ok_or_t e v)" "always R (guard_t b e)"
  by (simp_all add: thread_defs split: option.splits)

lemma always_bind_yields:
  assumes "always R p" and "yields (\<lambda>r. \<forall>x. r = Inr x \<longrightarrow> always R (k x)) p"
  shows "always R (bind_t p k)"
  using assms by (induction p) (auto split: sum.splits)

lemma yields_mono: "yields Q p \<Longrightarrow> (\<And>r. Q r \<Longrightarrow> Q' r) \<Longrightarrow> yields Q' p"
  by (induction p) auto

lemma yields_trivial: "(\<And>r. Q r) \<Longrightarrow> yields Q p"
  by (induction p) auto

lemma always_bind [always_intros]:
  assumes "always R p" and "\<And>x. always R (k x)"
  shows "always R (bind_t p k)"
  using assms by (intro always_bind_yields yields_trivial) auto

lemma always_then [always_intros]: "always R p \<Longrightarrow> always R q \<Longrightarrow> always R (then_t p q)"
  by (simp add: then_t_def always_bind)

lemma always_map_err [always_intros]: "always R p \<Longrightarrow> always R (map_err_t h p)"
  by (induction p) auto

lemma always_attempt [always_intros]: "always R p \<Longrightarrow> always R (attempt_t p)"
  by (induction p) auto

lemma always_for_each [always_intros]: "(\<And>x. x \<in> set xs \<Longrightarrow> always R (f x)) \<Longrightarrow> always R (for_each_t xs f)"
  by (induction xs) (auto intro: always_intros)

lemma always_fold_each [always_intros]: "(\<And>x a. always R (f x a)) \<Longrightarrow> always R (fold_each_t xs f acc)"
  by (induction xs arbitrary: acc) (auto intro: always_intros)

lemma always_if [always_intros]: "always R p \<Longrightarrow> always R q \<Longrightarrow> always R (if b then p else q)"
  by simp

lemma always_case_option [always_intros]:
  "always R p \<Longrightarrow> (\<And>x. always R (q x)) \<Longrightarrow> always R (case v of None \<Rightarrow> p | Some x \<Rightarrow> q x)"
  by (cases v) auto

lemma always_case_sum [always_intros]:
  "(\<And>x. always R (p x)) \<Longrightarrow> (\<And>x. always R (q x)) \<Longrightarrow> always R (case v of Inl x \<Rightarrow> p x | Inr x \<Rightarrow> q x)"
  by (cases v) auto

lemma always_case_prod [always_intros]:
  "(\<And>x y. always R (q x y)) \<Longrightarrow> always R (case v of (x, y) \<Rightarrow> q x y)"
  by (cases v) auto

lemma always_Let [always_intros]: "always R (f x) \<Longrightarrow> always R (let y = x in f y)"
  by simp

lemma always_mono: "always R p \<Longrightarrow> (\<And>w w'. R w w' \<Longrightarrow> R' w w') \<Longrightarrow> always R' p"
  by (induction p) auto

lemma always_conj: "always R p \<Longrightarrow> always R' p \<Longrightarrow> always (\<lambda>w w'. R w w' \<and> R' w w') p"
  by (induction p) auto

lemma always_all: "(\<And>c. always (R c) p) \<Longrightarrow> always (\<lambda>w w'. \<forall>c. R c w w') p"
  by (induction p) auto

text \<open>After a check, or after a loop with an invariant, the rest may rely on what it established.\<close>

lemma always_lift_bind: "(\<And>x. r = Inr x \<Longrightarrow> always R (k x)) \<Longrightarrow> always R (bind_t (lift_t r) k)"
  by (cases r) (simp_all add: lift_t_def)

lemma always_ok_or_bind: "(\<And>x. v = Some x \<Longrightarrow> always R (k x)) \<Longrightarrow> always R (bind_t (ok_or_t e v) k)"
  by (cases v) (simp_all add: ok_or_t_def)

lemma always_lift_then: "(r = Inr () \<Longrightarrow> always R q) \<Longrightarrow> always R (then_t (lift_t r) q)"
  unfolding then_t_def by (rule always_lift_bind) simp

lemma yields_atom: "(\<And>w. Q (fst (m w))) \<Longrightarrow> yields Q (atom m)"
  by (simp add: atom_def)

lemma yields_bind:
  assumes "yields P p" and "\<And>e. P (Inl e) \<Longrightarrow> Q (Inl e)" and "\<And>x. P (Inr x) \<Longrightarrow> yields Q (k x)"
  shows "yields Q (bind_t p k)"
  using assms by (induction p) (auto split: sum.splits)

lemma yields_fold_each:
  assumes "\<And>x a. x \<in> set xs \<Longrightarrow> I a \<Longrightarrow> yields (\<lambda>r. \<forall>a'. r = Inr a' \<longrightarrow> I a') (f x a)" and "I acc"
  shows "yields (\<lambda>r. \<forall>a'. r = Inr a' \<longrightarrow> I a') (fold_each_t xs f acc)"
  using assms
proof (induction xs arbitrary: acc)
  case Nil
  then show ?case by (simp add: ret_t_def)
next
  case (Cons x xs)
  show ?case unfolding fold_each_t.simps
  proof (rule yields_bind)
    show "yields (\<lambda>r. \<forall>a'. r = Inr a' \<longrightarrow> I a') (f x acc)" using Cons.prems by simp
    show "yields (\<lambda>r. \<forall>a'. r = Inr a' \<longrightarrow> I a') (fold_each_t xs f a)" if "\<forall>a'. Inr a = Inr a' \<longrightarrow> I a'" for a
      using that Cons.prems(1) by (intro Cons.IH) auto
  qed simp
qed

lemma keeps_run_alone:
  assumes "reflp R" and "transp R" and "always R p"
  shows "keeps R (run_alone p)"
proof (rule keepsI)
  fix w r w' assume "run_alone p w = (r, w')"
  with assms(3) show "R w w'"
  proof (induction p arbitrary: w)
    case (Done x)
    then show ?case using assms(1) by (simp add: reflpD)
  next
    case (Atom f g)
    have "R (f w) w'" using Atom.prems by (intro Atom.IH [of "g w"]) auto
    moreover have "R w (f w)" using Atom.prems by simp
    ultimately show ?case using assms(2) by (auto dest: transpD)
  qed
qed

section \<open>Pools and schedules\<close>

type_synonym ('w, 'a) pool = "('w, 'a) prog list"

text \<open>The thread with index \<open>i\<close> moves; a finished thread, or an index that names none, does nothing.\<close>

definition pool_step :: "nat \<Rightarrow> ('w, 'a) pool \<times> 'w \<Rightarrow> ('w, 'a) pool \<times> 'w" where
  "pool_step i = (\<lambda>(ps, w).
     if i < length ps then
       case ps ! i of Done r \<Rightarrow> (ps, w) | Atom f g \<Rightarrow> (ps[i := g w], f w)
     else (ps, w))"

definition exec :: "nat list \<Rightarrow> ('w, 'a) pool \<times> 'w \<Rightarrow> ('w, 'a) pool \<times> 'w" where
  "exec sched c = fold pool_step sched c"

text \<open>The result of a thread that has finished.\<close>

definition outcome :: "('w, 'a) prog \<Rightarrow> 'a option" where
  "outcome p = (case p of Done r \<Rightarrow> Some r | Atom f g \<Rightarrow> None)"

lemma outcome_Some [simp]: "outcome p = Some r \<longleftrightarrow> p = Done r"
  by (auto simp: outcome_def split: prog.splits)

lemma exec_simps [simp]: "exec [] c = c" "exec (i # s) c = exec s (pool_step i c)"
  "exec (s @ s') c = exec s' (exec s c)"
  by (simp_all add: exec_def)

lemma pool_step_length [simp]: "length (fst (pool_step i c)) = length (fst c)"
  by (auto simp: pool_step_def split: prod.splits prog.splits)

lemma exec_length [simp]: "length (fst (exec s c)) = length (fst c)"
  by (induction s arbitrary: c) simp_all

lemma pool_step_cases:
  assumes "pool_step i (ps, w) = (ps', w')"
  obtains "ps' = ps" "w' = w" | f g where "i < length ps" "ps ! i = Atom f g" "ps' = ps[i := g w]" "w' = f w"
  using assms by (auto simp: pool_step_def split: if_splits prog.splits)

lemma exec_invariant:
  assumes "I c" and "\<And>i c. I c \<Longrightarrow> I (pool_step i c)"
  shows "I (exec s c)"
  using assms(1) by (induction s arbitrary: c) (simp_all add: assms(2))

lemma pool_step_always:
  assumes "\<forall>p \<in> set ps. always R p" and "pool_step i (ps, w) = (ps', w')" and "reflp R"
  shows "(\<forall>p \<in> set ps'. always R p) \<and> R w w'"
  using assms(2)
proof (cases rule: pool_step_cases)
  case 1
  then show ?thesis using assms(1,3) by (auto dest: reflpD)
next
  case (2 f g)
  have "always R (Atom f g)" using assms(1) 2(1,2) nth_mem by metis
  then have "R w (f w)" "always R (g w)" by auto
  then show ?thesis using assms(1) 2(3,4) by (auto dest: set_update_subset_insert [THEN subsetD])
qed

text \<open>What every step of every thread is in, every schedule is in.\<close>

lemma exec_always:
  assumes "\<forall>p \<in> set ps. always R p" and "reflp R" and "transp R"
  shows "(\<forall>p \<in> set (fst (exec s (ps, w))). always R p) \<and> R w (snd (exec s (ps, w)))"
proof -
  have "case c of (ps, w') \<Rightarrow> (\<forall>p \<in> set ps. always R p) \<and> R w w'" if "c = exec s (ps, w)" for c
    unfolding that
  proof (rule exec_invariant, goal_cases)
    case 1
    then show ?case using assms by (auto dest: reflpD)
  next
    case (2 i c)
    obtain qs u where c: "c = (qs, u)" by (cases c)
    obtain qs' u' where step: "pool_step i (qs, u) = (qs', u')" by fastforce
    have "(\<forall>p \<in> set qs'. always R p) \<and> R u u'" using pool_step_always [OF _ step assms(2)] 2 c by simp
    then show ?case using 2 c step assms(3) by (auto dest: transpD)
  qed
  then show ?thesis by (simp add: split_beta)
qed

text \<open>Letting one thread run to its end is one of the schedules: the actions run one after another are interleavings.\<close>

lemma exec_solo:
  assumes "i < length ps" and "run_alone (ps ! i) w = (r, w')"
  shows "\<exists>n. exec (replicate n i) (ps, w) = (ps[i := Done r], w')"
  using assms
proof (induction "ps ! i" arbitrary: ps w)
  case (Done x)
  from Done(1) [symmetric] Done.prems have "ps[i := Done r] = ps" "w' = w"
    by (auto simp: list_update_same_conv)
  then show ?case by (intro exI [of _ 0]) simp
next
  case (Atom f g)
  have "\<exists>n. exec (replicate n i) (ps[i := g w], f w) = (ps[i := g w, i := Done r], w')"
    using Atom.hyps(2) [symmetric] Atom.prems by (intro Atom.hyps(1)) auto
  then obtain n where "exec (replicate n i) (ps[i := g w], f w) = (ps[i := Done r], w')" by auto
  then have "exec (replicate (Suc n) i) (ps, w) = (ps[i := Done r], w')"
    using Atom.hyps(2) [symmetric] Atom.prems(1) by (simp add: pool_step_def)
  then show ?case by blast
qed

text \<open>The threads of a pool run to their ends in order.\<close>

fun run_each :: "('w, 'a) pool \<Rightarrow> 'w \<Rightarrow> 'a list \<times> 'w" where
  "run_each [] w = ([], w)"
| "run_each (p # ps) w = (case run_alone p w of (r, w') \<Rightarrow> case run_each ps w' of (rs, w'') \<Rightarrow> (r # rs, w''))"

lemma exec_in_order:
  "run_each ps w = (rs, w') \<Longrightarrow> \<exists>sched. exec sched (qs @ ps, w) = (qs @ map Done rs, w')"
proof (induction ps arbitrary: qs w rs)
  case Nil
  then show ?case by (intro exI [of _ "[]"]) simp
next
  case (Cons p ps)
  obtain r w1 where r: "run_alone p w = (r, w1)" by fastforce
  obtain rs1 where rs: "run_each ps w1 = (rs1, w')" "rs = r # rs1" using Cons.prems r by (auto split: prod.splits)
  obtain n where n: "exec (replicate n (length qs)) (qs @ p # ps, w) = (qs @ Done r # ps, w1)"
    using exec_solo [of "length qs" "qs @ p # ps" w r w1] r by auto
  obtain s where "exec s ((qs @ [Done r]) @ ps, w1) = ((qs @ [Done r]) @ map Done rs1, w')"
    using Cons.IH [OF rs(1)] by blast
  with n rs(2) have "exec (replicate n (length qs) @ s) (qs @ p # ps, w) = (qs @ map Done rs, w')" by simp
  then show ?case by blast
qed

section \<open>Contended resources\<close>

text \<open>
  A thread that needs the resource: before it takes it, it cannot win; the step that takes it finds it there, and
  leaves it gone.
\<close>

primrec claimant :: "('w \<Rightarrow> bool) \<Rightarrow> ('w \<Rightarrow> bool) \<Rightarrow> ('a \<Rightarrow> bool) \<Rightarrow> ('w, 'a) prog \<Rightarrow> bool" where
  "claimant ok held won (Done r) = (\<not> won r)"
| "claimant ok held won (Atom f g) =
     (\<forall>w. ok w \<longrightarrow> claimant ok held won (g w) \<or> held w \<and> \<not> held (f w))"

lemma claimant_bind:
  assumes "claimant ok held won' p" and "\<And>e. \<not> won (Inl e)" and "\<And>x. \<not> won' (Inr x) \<Longrightarrow> claimant ok held won (k x)"
  shows "claimant ok held won (bind_t p k)"
  using assms by (induction p) (auto split: sum.splits)

lemma claimant_skip:
  assumes "\<And>e. \<not> won (Inl e)" and "\<And>x. claimant ok held won (k x)"
  shows "claimant ok held won (bind_t p k)"
proof (induction p)
  case (Done r)
  then show ?case using assms by (cases r) simp_all
qed simp

lemma claimant_atom:
  "(\<And>w r w'. ok w \<Longrightarrow> m w = (r, w') \<Longrightarrow> won r \<Longrightarrow> held w \<and> \<not> held w') \<Longrightarrow> claimant ok held won (atom m)"
  by (auto simp: atom_def intro: prod.collapse [symmetric])

lemma claimant_map_err:
  "claimant ok held won p \<Longrightarrow> (\<And>x. won' (Inr x) = won (Inr x)) \<Longrightarrow> (\<And>e. \<not> won' (Inl e)) \<Longrightarrow>
   claimant ok held won' (map_err_t h p)"
  by (induction p) (auto split: sum.splits)

locale contended =
  fixes ok :: "'w \<Rightarrow> bool" and held :: "'w \<Rightarrow> bool" and won :: "'a \<Rightarrow> bool" and R :: "'w \<Rightarrow> 'w \<Rightarrow> bool"
  assumes refl: "reflp R"
    and kept: "R w w' \<Longrightarrow> ok w \<Longrightarrow> ok w'"
    and gone: "R w w' \<Longrightarrow> ok w \<Longrightarrow> \<not> held w \<Longrightarrow> \<not> held w'"
begin

abbreviation needs :: "('w, 'a) prog \<Rightarrow> bool" where
  "needs \<equiv> claimant ok held won"

text \<open>Of the threads in \<open>C\<close>, at most one has taken the resource, and if one has, it is gone.\<close>

definition race :: "nat set \<Rightarrow> ('w, 'a) pool \<times> 'w \<Rightarrow> bool" where
  "race C = (\<lambda>(ps, w). ok w \<and> (\<forall>p \<in> set ps. always R p) \<and>
     ((\<forall>i \<in> C. needs (ps ! i)) \<or> \<not> held w \<and> (\<exists>j. \<forall>i \<in> C - {j}. needs (ps ! i))))"

lemma race_step:
  assumes "race C c" and "\<forall>i \<in> C. i < length (fst c)"
  shows "race C (pool_step k c)"
proof -
  obtain ps w where c: "c = (ps, w)" by (cases c)
  obtain ps' w' where step: "pool_step k (ps, w) = (ps', w')" by fastforce
  have ok: "ok w" and al: "\<forall>p \<in> set ps. always R p"
    and cl: "(\<forall>i \<in> C. needs (ps ! i)) \<or> \<not> held w \<and> (\<exists>j. \<forall>i \<in> C - {j}. needs (ps ! i))"
    using assms(1) c by (auto simp: race_def)
  have al': "\<forall>p \<in> set ps'. always R p" and R: "R w w'" using pool_step_always [OF al step refl] by auto
  have ok': "ok w'" using kept [OF R ok] .
  from step show ?thesis
  proof (cases rule: pool_step_cases)
    case 1
    then show ?thesis using assms(1) c step by simp
  next
    case (2 f g)
    have other: "ps' ! i = ps ! i" if "i \<noteq> k" for i using that 2(3) by simp
    have moved: "ps' ! k = g w" using 2(1,3) by simp
    have taken: "needs (g w) \<or> held w \<and> \<not> held w'" if "needs (ps ! k)"
      using that 2(2,4) ok by auto
    have "(\<forall>i \<in> C. needs (ps' ! i)) \<or> \<not> held w' \<and> (\<exists>j. \<forall>i \<in> C - {j}. needs (ps' ! i))"
    proof (cases "\<forall>i \<in> C. needs (ps ! i)")
      case True
      show ?thesis
      proof (cases "k \<in> C \<and> \<not> needs (g w)")
        case True
        with \<open>\<forall>i \<in> C. needs (ps ! i)\<close> taken have "\<not> held w'" by auto
        moreover have "\<forall>i \<in> C - {k}. needs (ps' ! i)" using \<open>\<forall>i \<in> C. needs (ps ! i)\<close> other by auto
        ultimately show ?thesis by blast
      next
        case False
        then have "needs (ps' ! i)" if "i \<in> C" for i
          using that True other [of i] moved by (cases "i = k") auto
        then show ?thesis by blast
      qed
    next
      case False
      then obtain j where free: "\<not> held w" and j: "\<forall>i \<in> C - {j}. needs (ps ! i)" using cl by blast
      have "needs (ps' ! i)" if "i \<in> C - {j}" for i
        using that j other [of i] moved taken free by (cases "i = k") auto
      then show ?thesis using gone [OF R ok free] by blast
    qed
    then show ?thesis using c step ok' al' by (simp add: race_def)
  qed
qed

lemma race_exec:
  assumes "race C c" and "\<forall>i \<in> C. i < length (fst c)"
  shows "race C (exec s c)"
  using assms by (induction s arbitrary: c) (simp_all add: race_step)

lemma one_winner:
  assumes "ok w" and "\<forall>p \<in> set ps. always R p" and "i < length ps" and "j < length ps" and "i \<noteq> j"
    and "needs (ps ! i)" and "needs (ps ! j)"
    and "exec s (ps, w) = (ps', w')" and "ps' ! i = Done ri" and "ps' ! j = Done rj"
  shows "\<not> (won ri \<and> won rj)"
proof
  assume "won ri \<and> won rj"
  have "race {i, j} (exec s (ps, w))" using assms(1-7) by (intro race_exec) (auto simp: race_def)
  then have "\<exists>k. \<forall>l \<in> {i, j} - {k}. needs (ps' ! l)" using assms(8) by (auto simp: race_def)
  then obtain l where "l \<in> {i, j}" "needs (ps' ! l)" using assms(5) by blast
  then show False using assms(9,10) \<open>won ri \<and> won rj\<close> by auto
qed

end

end
