(* ===== verification/Concurrent_Requests.thy ===== *)
theory Concurrent_Requests
  imports System Interleaving
begin

text \<open>
  Requests served at the same time. axum runs every request as its own task, and between two database statements of
  one handler any other handler may run. Each handler of the backend is written here as a thread whose steps hold at
  most one database statement, with the local computation and the calls to the outside around it; the transaction of
  \<open>accept_invite\<close> is one step, since it locks the two rows it reads (\<open>SELECT ... FOR UPDATE\<close>) until it commits. Run
  alone, the thread of a request is the request (\<open>serve_alone\<close>).

  The locale \<open>statement_property\<close> is \<open>table_property\<close> of theory \<open>System\<close> at the level of single statements: what each
  statement keeps, every interleaving of any number of requests keeps.
\<close>

section \<open>Handlers as threads\<close>

definition verify_t :: "env \<Rightarrow> verify_request \<Rightarrow> (world, app_error, auth_response) thread" where
  "verify_t E body =
     then_t (atom (check_signed_nonce E body))
     (bind_t (atom (sql_select E InternalError (wallet_owner (vr_pubkey body)))) (\<lambda>existing_user_id.
      bind_t (case existing_user_id of
          None \<Rightarrow>
            bind_t (atom (sql E InternalError insert_user)) (\<lambda>user_id.
            then_t (atom (sql E InternalError (\<lambda>t _. insert_wallet t user_id (vr_pubkey body))))
            (ret_t user_id))
        | Some user_id \<Rightarrow> ret_t user_id) (\<lambda>user_id.
      bind_t (atom (issue_access_token E user_id (Some (vr_pubkey body)))) (\<lambda>acc.
      bind_t (atom (issue_and_store_refresh_token E user_id)) (\<lambda>ref.
      ret_t \<lparr>access_token = acc, refresh_token = ref\<rparr>)))))"

definition link_wallet_t :: "env \<Rightarrow> auth_user \<Rightarrow> verify_request \<Rightarrow> (world, app_error, auth_response) thread" where
  "link_wallet_t E auth body =
     then_t (guard_t (au_pubkey auth = None) WalletAlreadyLinked)
     (then_t (atom (check_signed_nonce E body))
     (bind_t (atom (sql_select E InternalError (wallet_owner (vr_pubkey body)))) (\<lambda>existing_user_id.
      then_t (guard_t (existing_user_id = None) WalletAlreadyLinked)
      (then_t (atom (sql E InternalError (\<lambda>t _. insert_wallet t (au_user_id auth) (vr_pubkey body))))
      (bind_t (atom (issue_access_token E (au_user_id auth) (Some (vr_pubkey body)))) (\<lambda>acc.
       bind_t (atom (issue_and_store_refresh_token E (au_user_id auth))) (\<lambda>ref.
       ret_t \<lparr>access_token = acc, refresh_token = ref\<rparr>)))))))"

definition refresh_t :: "env \<Rightarrow> string \<Rightarrow> (world, app_error, auth_response) thread" where
  "refresh_t E token =
     bind_t (atom (sql E InternalError (\<lambda>t _ d. Some (consume_token t (sha256_hex E token) d)))) (\<lambda>row.
     bind_t (ok_or_t InvalidRefreshToken row) (\<lambda>user_id.
     bind_t (atom (sql_select E InternalError (user_wallet user_id))) (\<lambda>pubkey.
     bind_t (atom (issue_access_token E user_id pubkey)) (\<lambda>acc.
     bind_t (atom (issue_and_store_refresh_token E user_id)) (\<lambda>ref.
     ret_t \<lparr>access_token = acc, refresh_token = ref\<rparr>)))))"

definition user_for_identity_t :: "env \<Rightarrow> string \<Rightarrow> byte list \<Rightarrow> uuid option \<Rightarrow> (world, app_error, uuid) thread" where
  "user_for_identity_t E prov email_index user_id_by_oauth =
     (case user_id_by_oauth of
        None \<Rightarrow>
          bind_t (atom (sql_select E InternalError (same_provider_user email_index prov))) (\<lambda>same.
          case same of None \<Rightarrow> atom (sql E InternalError insert_user) | Some u \<Rightarrow> ret_t u)
      | Some u \<Rightarrow> ret_t u)"

definition resolve_or_create_oauth_user_t ::
    "env \<Rightarrow> oauth_provider \<Rightarrow> string \<Rightarrow> string \<Rightarrow> (world, app_error, oauth_user_resolution) thread" where
  "resolve_or_create_oauth_user_t E p pid email =
     (let prov = provider_as_str p in
      bind_t (atom (sql_select E InternalError (oauth_owner prov pid))) (\<lambda>user_id_by_oauth.
      bind_t (lift_t (decode_hex_key_32 E (encryption_index_key (cfg E)))) (\<lambda>idx_key.
      let email_index = hmac_index E email idx_key in
      bind_t (atom (sql_select E InternalError (conflicting_provider email_index prov))) (\<lambda>conflicting.
      case Option.bind conflicting (\<lambda>existing. detect_email_conflict existing prov) of
        None \<Rightarrow>
          bind_t (user_for_identity_t E prov email_index user_id_by_oauth) (\<lambda>user_id.
          then_t (atom (sql E InternalError (\<lambda>t _. upsert_oauth user_id prov pid t)))
          (then_t (atom (upsert_email_contact E user_id email))
          (ret_t (ResolvedUser user_id))))
      | Some details \<Rightarrow> ret_t (Conflict details)))))"

fun oauth_answer_t :: "env \<Rightarrow> oauth_user_resolution \<Rightarrow> (world, app_error, callback_response) thread" where
  "oauth_answer_t E (Conflict c) = ret_t (EmailConflict 409 (conflict_body c))"
| "oauth_answer_t E (ResolvedUser user_id) =
     bind_t (atom (issue_access_token E user_id None)) (\<lambda>acc.
     bind_t (atom (issue_and_store_refresh_token E user_id)) (\<lambda>ref.
     ret_t (SignedIn \<lparr>access_token = acc, refresh_token = ref\<rparr>)))"

definition oauth_callback_t ::
    "env \<Rightarrow> cookie_jar \<Rightarrow> oauth_callback_query \<Rightarrow> oauth_provider \<Rightarrow> (world, app_error, callback_response) thread" where
  "oauth_callback_t E jar query p =
     then_t (lift_t (validate_oauth_state_cookie jar p (cq_state query)))
     (bind_t (atom (exchange_code_and_fetch_identity E p (cq_code query))) (\<lambda>identity.
      bind_t (resolve_or_create_oauth_user_t E p (oi_provider_id identity) (oi_email identity)) (oauth_answer_t E)))"

definition store_draft_t ::
    "env \<Rightarrow> string \<Rightarrow> create_agreement_request \<Rightarrow> party_slot list \<Rightarrow> invitation_insert_row list \<Rightarrow>
     (world, app_error, create_agreement_response) thread" where
  "store_draft_t E auth_pubkey req slots invs =
     bind_t (ok_or_t InternalError (payload_to_value (lib E)
       \<lparr>dp_title = cr_title req, dp_expires_in_secs = cr_expires_in_secs req, dp_parties = slots\<rparr>)) (\<lambda>payload.
     bind_t (ok_or_t InternalError (slots_to_value (lib E) slots)) (\<lambda>slots_json.
     bind_t (atom (sql E InternalError (insert_draft auth_pubkey payload slots_json))) (\<lambda>draft_id.
     then_t (for_each_t invs (\<lambda>i.
       atom (sql E InternalError (\<lambda>t _. insert_invitation (invitation_of draft_id t i)))))
     (ret_t (AwaitingPartyWallets draft_id (map (\<lambda>i.
       \<lparr>pi_email_hint = ii_email_hint i, pi_invited_at = ii_invited_at i\<rparr>) invs))))))"

definition create_agreement_t ::
    "env \<Rightarrow> auth_user_with_wallet \<Rightarrow> create_agreement_request \<Rightarrow> (world, app_error, create_agreement_response) thread" where
  "create_agreement_t E auth req =
     then_t (lift_t (validate_invite_window (invite_expiry_seconds (cfg E)) (cr_expires_in_secs req)))
     (bind_t (lift_t (decode_hex_key_32 E (encryption_key (cfg E)))) (\<lambda>key.
      bind_t (lift_t (decode_hex_key_32 E (encryption_index_key (cfg E)))) (\<lambda>idx_key.
      bind_t (atom (sql_select E InternalError (free_used_of (aww_user_id auth)))) (\<lambda>free_used.
      let is_free = free_used < as_i32 (platform_fee_free_tier (cfg E)) in
      bind_t (atom (current_unix_timestamp E)) (\<lambda>invited_at.
      bind_t (ok_or_t InternalError (i64_try_from (invite_expiry_seconds (cfg E)))) (\<lambda>window.
      let expires = wrap_i64 (invited_at + window) in
      bind_t (fold_each_t (cr_parties req) (\<lambda>p acc. atom (resolve_party E key idx_key invited_at expires p acc)) (True, [], []))
        (\<lambda>(all_resolved, slots, invs).
      if all_resolved \<and> is_free then atom (submit_at_once E (aww_pubkey auth) req slots)
      else store_draft_t E (aww_pubkey auth) req slots invs)))))))"

definition get_draft_t :: "env \<Rightarrow> uuid \<Rightarrow> (world, app_error, get_draft_response) thread" where
  "get_draft_t E draft_id =
     bind_t (atom (get_draft_row E draft_id)) (\<lambda>r.
     bind_t (atom (sql_select E InternalError (pending_of_draft draft_id))) (\<lambda>pending.
     ret_t \<lparr>gd_id = dr_id r, gd_status = dr_status r, gd_party_slots = dr_party_slots r, gd_pending = pending\<rparr>))"

definition delete_draft_t :: "env \<Rightarrow> auth_user \<Rightarrow> uuid \<Rightarrow> (world, app_error, unit) thread" where
  "delete_draft_t E auth draft_id =
     bind_t (atom (get_draft_row E draft_id)) (\<lambda>r.
     then_t (atom (ensure_creator_from_user_id E (au_user_id auth) (dr_creator_pubkey r)))
     (atom (sql_update E InternalError (update_draft draft_id (\<lambda>r. r\<lparr>dr_status := ''discarded''\<rparr>)))))"

definition reinvite_draft_t :: "env \<Rightarrow> auth_user \<Rightarrow> uuid \<Rightarrow> uuid \<Rightarrow> (world, app_error, uuid \<times> int) thread" where
  "reinvite_draft_t E auth draft_id invitation_id =
     bind_t (atom (get_draft_row E draft_id)) (\<lambda>r.
     then_t (atom (ensure_creator_from_user_id E (au_user_id auth) (dr_creator_pubkey r)))
     (bind_t (atom (sql_select E InternalError (find_expired_invitation invitation_id draft_id))) (\<lambda>row.
      bind_t (ok_or_t NotFound row) (\<lambda>old.
      bind_t (atom (fill_bytes E 32)) (\<lambda>token_bytes.
      bind_t (atom (current_unix_timestamp E)) (\<lambda>t0.
      bind_t (ok_or_t InternalError (i64_try_from (invite_expiry_seconds (cfg E)))) (\<lambda>window.
      let expires = wrap_i64 (t0 + window) in
      bind_t (atom (sql E InternalError (\<lambda>t g d.
        map_option (\<lambda>(_, d'). (g, d')) (insert_invitation
          (new_invitation_row g draft_id (inv_email_index old) (inv_email_enc old) (inv_email_nonce old)
            (hex_encode (lib E) token_bytes) expires t) d)))) (\<lambda>new_id.
      ret_t (new_id, expires)))))))))"

definition submit_checks_t ::
    "env \<Rightarrow> auth_user_with_wallet \<Rightarrow> uuid \<Rightarrow> submit_draft_request \<Rightarrow> (world, app_error, storage_backend \<times> draft_row) thread" where
  "submit_checks_t E auth draft_id req =
     then_t (lift_t (validate_content_hash (sd_content_hash req)))
     (bind_t (lift_t (parse_storage_backend (sd_storage_backend req))) (\<lambda>backend.
      bind_t (atom (get_draft_row E draft_id)) (\<lambda>draft.
      then_t (lift_t (ensure_creator_only (Some (aww_pubkey auth)) (dr_creator_pubkey draft)))
      (bind_t (atom (has_contact_email E (aww_user_id auth))) (\<lambda>has_email.
      then_t (lift_t (evaluate_submit_gates E (dr_paid draft) (dr_status draft) has_email draft_id))
      (ret_t (backend, draft)))))))"

definition submit_draft_t ::
    "env \<Rightarrow> auth_user_with_wallet \<Rightarrow> uuid \<Rightarrow> submit_draft_request \<Rightarrow> (world, app_error, string \<times> string) thread" where
  "submit_draft_t E auth draft_id req =
     bind_t (submit_checks_t E auth draft_id req) (\<lambda>(backend, draft).
     then_t (atom (sql_update E InternalError (store_uri draft_id (sd_storage_uri req))))
     (bind_t (ok_or_t InternalError (payload_from_value (lib E) (dr_draft_payload draft))) (\<lambda>payload.
      bind_t (ok_or_t InternalError (pubkey_from_str (lib E) (aww_pubkey auth))) (\<lambda>creator_pubkey.
      bind_t (atom (new_v4 E)) (\<lambda>aid.
      bind_t (lift_t (decode_content_hash E (sd_content_hash req))) (\<lambda>hash.
      bind_t (atom (build_create_agreement_tx E
        (submit_args E req backend payload (uuid_bytes (lib E) aid) hash) creator_pubkey)) (\<lambda>tx.
      let pda = pubkey_to_string (lib E) (fst (derive_agreement_pda E creator_pubkey (uuid_bytes (lib E) aid))) in
      then_t (atom (sql_update E InternalError (store_pda draft_id pda (uuid_bytes (lib E) aid))))
      (then_t (atom (sql_update E InternalError (confirmed_pda draft_id pda)))
      (ret_t (tx, pda))))))))))"

definition get_invite_t :: "env \<Rightarrow> headers \<Rightarrow> string \<Rightarrow> (world, app_error, get_invite_response) thread" where
  "get_invite_t E hs tok =
     bind_t (atom (current_unix_timestamp E)) (\<lambda>t0.
     then_t (atom (enforce_get_invite_rate_limit hs t0))
     (bind_t (atom (sql_select E InternalError (invite_view E tok))) (\<lambda>r.
      bind_t (ok_or_t NotFound r) (\<lambda>row.
      bind_t (atom (current_unix_timestamp E)) (\<lambda>t1.
      then_t (lift_t (validate_pending_invitation (iv_status row) (iv_expires_at row) t1))
      (ret_t \<lparr>gi_agreement_title = (case iv_agreement_title row of None \<Rightarrow> [] | Some s \<Rightarrow> s),
           gi_creator_display = (case iv_creator_display row of None \<Rightarrow> ''Unknown creator'' | Some s \<Rightarrow> s),
           gi_expires_at = iv_expires_at row, gi_has_account = iv_has_account row,
           gi_has_wallet = iv_has_wallet row\<rparr>))))))"

definition notify_draft_ready_t :: "env \<Rightarrow> uuid \<Rightarrow> string \<Rightarrow> (world, app_error, unit) thread" where
  "notify_draft_ready_t E draft_id creator_pubkey =
     (let draft_id_string = uuid_to_string (lib E) draft_id in
      bind_t (atom (sql_select E InternalError (wallet_owner creator_pubkey))) (\<lambda>creator_user_id.
      case creator_user_id of
        None \<Rightarrow> ret_t ()
      | Some user_id \<Rightarrow>
          bind_t (atom (send_to_user E user_id (DraftReady draft_id_string))) (\<lambda>delivered.
          if delivered then ret_t ()
          else atom (enqueue_notification E ''DraftReadyToSubmit'' (Some draft_id_string) creator_pubkey))))"

definition accept_invite_t :: "env \<Rightarrow> auth_user_with_wallet \<Rightarrow> string \<Rightarrow> (world, app_error, nat) thread" where
  "accept_invite_t E auth tok =
     bind_t (atom (current_unix_timestamp E)) (\<lambda>t.
     bind_t (atom (accept_tx E (aww_pubkey auth) tok t)) (\<lambda>(invite, draft, all_resolved).
     then_t (if all_resolved then notify_draft_ready_t E (inv_draft_id invite) (dr_creator_pubkey draft) else ret_t ())
     (ret_t 204)))"

definition initiate_payment_t ::
    "env \<Rightarrow> auth_user_with_wallet \<Rightarrow> uuid \<Rightarrow> string \<Rightarrow> (world, app_error, initiate_payment_response) thread" where
  "initiate_payment_t E auth draft_id method =
     bind_t (atom (get_draft_row E draft_id)) (\<lambda>draft.
     then_t (guard_t (dr_creator_pubkey draft = aww_pubkey auth) Unauthorized)
     (bind_t (atom (sql_select E InternalError (free_used_of (aww_user_id auth)))) (\<lambda>free_used.
      if free_used < as_i32 (platform_fee_free_tier (cfg E))
      then then_t (atom (sql_update E InternalError (mark_paid draft_id)))
        (then_t (atom (sql E InternalError (\<lambda>_ _. bump_free_used (aww_user_id auth))))
        (ret_t Free))
      else atom (pay_stablecoin E draft_id method))))"

definition get_profile_t :: "env \<Rightarrow> auth_user \<Rightarrow> (world, app_error, user_profile) thread" where
  "get_profile_t E auth =
     bind_t (atom (sql E InternalError (\<lambda>_ _ d. map_option (\<lambda>r. (r, d))
       (select_first (\<lambda>r. ua_id r = au_user_id auth) (user_accounts d))))) (\<lambda>user.
     bind_t (atom (sql_select E InternalError (user_wallet (au_user_id auth)))) (\<lambda>wallet_row.
     bind_t (atom (sql_select E InternalError (\<lambda>d. map ao_provider (filter (\<lambda>r. ao_user_id r = au_user_id auth) (auth_oauth d))))) (\<lambda>oauth_rows.
     ret_t \<lparr>up_id = ua_id user, up_display_name = ua_display_name user,
       linked_auth_methods =
         (case wallet_row of None \<Rightarrow> [] | Some pk \<Rightarrow> [\<lparr>auth_type = ''wallet'', amt_provider = None, amt_pubkey = Some pk\<rparr>]) @
         map (\<lambda>p. \<lparr>auth_type = ''oauth'', amt_provider = Some p, amt_pubkey = None\<rparr>) oauth_rows\<rparr>)))"

definition update_profile_t :: "env \<Rightarrow> auth_user \<Rightarrow> string option \<Rightarrow> (world, app_error, user_profile) thread" where
  "update_profile_t E auth display_name =
     then_t (case display_name of None \<Rightarrow> ret_t () | Some name \<Rightarrow> lift_t (sanitise_display_name name))
     (then_t (atom (sql_update E InternalError (set_display_name (au_user_id auth) display_name)))
     (get_profile_t E auth))"

section \<open>Requests as threads\<close>

definition public_t :: "(world, app_error, 'a) thread \<Rightarrow> (world, nat, unit) thread" where
  "public_t p = bind_t (map_err_t status_of p) (\<lambda>_. ret_t ())"

definition with_user_t :: "env \<Rightarrow> headers \<Rightarrow> (auth_user \<Rightarrow> (world, app_error, 'a) thread) \<Rightarrow> (world, nat, unit) thread" where
  "with_user_t E hs p = bind_t (atom (map_err fst (auth_user_from_request E hs))) (\<lambda>auth. public_t (p auth))"

definition with_wallet_t ::
    "env \<Rightarrow> headers \<Rightarrow> (auth_user_with_wallet \<Rightarrow> (world, app_error, 'a) thread) \<Rightarrow> (world, nat, unit) thread" where
  "with_wallet_t E hs p = bind_t (atom (map_err fst (auth_user_with_wallet_from_request E hs))) (\<lambda>auth. public_t (p auth))"

text \<open>A handler with one statement, or none, is one step.\<close>

fun serve_t :: "env \<Rightarrow> headers \<Rightarrow> request \<Rightarrow> (world, nat, unit) thread" where
  "serve_t E hs R_Health = atom health_endpoint"
| "serve_t E hs R_Challenge = public_t (atom (challenge E))"
| "serve_t E hs (R_Verify body) = public_t (verify_t E body)"
| "serve_t E hs (R_OAuth p) = public_t (atom (oauth_redirect E p))"
| "serve_t E hs (R_OAuthCallback p jar q) = public_t (oauth_callback_t E jar q p)"
| "serve_t E hs (R_LinkWallet body) = with_user_t E hs (\<lambda>auth. link_wallet_t E auth body)"
| "serve_t E hs (R_Refresh tok) = public_t (refresh_t E tok)"
| "serve_t E hs (R_Logout tok) = public_t (atom (logout E tok))"
| "serve_t E hs (R_Upload multipart) = with_wallet_t E hs (\<lambda>auth. atom (upload_handler E auth multipart))"
| "serve_t E hs (R_CreateAgreement body) = with_wallet_t E hs (\<lambda>auth. create_agreement_t E auth body)"
| "serve_t E hs (R_GetAgreement pda) = public_t (atom (get_agreement E pda))"
| "serve_t E hs (R_ListAgreements q) = with_user_t E hs (\<lambda>auth. atom (list_agreements E auth q))"
| "serve_t E hs (R_Sign pda m) = with_wallet_t E hs (\<lambda>auth. atom (sign_agreement E auth pda m))"
| "serve_t E hs (R_Cancel pda) = with_wallet_t E hs (\<lambda>auth. atom (cancel_agreement E auth pda))"
| "serve_t E hs (R_VoteRevoke pda) = with_wallet_t E hs (\<lambda>auth. atom (vote_revoke E auth pda))"
| "serve_t E hs (R_RetractVote pda) = with_wallet_t E hs (\<lambda>auth. atom (retract_revoke_vote E auth pda))"
| "serve_t E hs (R_GetDraft i) = with_user_t E hs (\<lambda>_. get_draft_t E i)"
| "serve_t E hs (R_DeleteDraft i) = with_user_t E hs (\<lambda>auth. delete_draft_t E auth i)"
| "serve_t E hs (R_Reinvite i j) = with_user_t E hs (\<lambda>auth. reinvite_draft_t E auth i j)"
| "serve_t E hs (R_SubmitDraft i body) = with_wallet_t E hs (\<lambda>auth. submit_draft_t E auth i body)"
| "serve_t E hs (R_GetInvite tok) = public_t (get_invite_t E hs tok)"
| "serve_t E hs (R_AcceptInvite tok) = with_wallet_t E hs (\<lambda>auth. accept_invite_t E auth tok)"
| "serve_t E hs (R_InitiatePayment i m) = with_wallet_t E hs (\<lambda>auth. initiate_payment_t E auth i m)"
| "serve_t E hs (R_PaymentStatus i) = with_user_t E hs (\<lambda>_. atom (payment_status E i))"
| "serve_t E hs R_GetProfile = with_user_t E hs (\<lambda>auth. get_profile_t E auth)"
| "serve_t E hs (R_UpdateProfile n) = with_user_t E hs (\<lambda>auth. update_profile_t E auth n)"
| "serve_t E hs (R_UpdateContacts body) = with_user_t E hs (\<lambda>auth. atom (update_contacts E auth body))"
| "serve_t E hs R_DeleteContacts = with_user_t E hs (\<lambda>auth. atom (delete_contacts E auth))"
| "serve_t E hs (R_Ws q) =
     bind_t (atom (ws_handler E hs q)) (\<lambda>user_id. bind_t (atom (handle_upgrade_open user_id)) (\<lambda>_. ret_t ()))"

text \<open>The threads of a list of requests, each with its headers.\<close>

definition serve_all :: "env \<Rightarrow> (headers \<times> request) list \<Rightarrow> (world, nat + unit) pool" where
  "serve_all E reqs = map (\<lambda>(hs, req). serve_t E hs req) reqs"

section \<open>Run alone, a thread is its handler\<close>

lemmas branch_congs = option.case_cong prod.case_cong if_cong

lemmas thread_handler_defs =
  verify_t_def verify_def link_wallet_t_def link_wallet_def refresh_t_def refresh_def
  get_draft_t_def get_draft_def delete_draft_t_def delete_draft_def reinvite_draft_t_def reinvite_draft_def
  submit_checks_t_def submit_checks_def submit_draft_t_def submit_draft_def get_invite_t_def get_invite_def
  notify_draft_ready_t_def notify_draft_ready_def accept_invite_t_def accept_invite_def
  initiate_payment_t_def initiate_payment_def pay_free_def get_profile_t_def get_profile_def
  update_profile_t_def update_profile_def

lemma alone_handlers [alone_simps]:
  "run_alone (verify_t E body) = verify E body"
  "run_alone (link_wallet_t E auth body) = link_wallet E auth body"
  "run_alone (refresh_t E tok) = refresh E tok"
  "run_alone (get_draft_t E i) = get_draft E i"
  "run_alone (delete_draft_t E auth i) = delete_draft E auth i"
  "run_alone (reinvite_draft_t E auth i j) = reinvite_draft E auth i j"
  "run_alone (submit_draft_t E wauth i sreq) = submit_draft E wauth i sreq"
  "run_alone (get_invite_t E hs tok) = get_invite E hs tok"
  "run_alone (accept_invite_t E wauth tok) = accept_invite E wauth tok"
  "run_alone (initiate_payment_t E wauth i m) = initiate_payment E wauth i m"
  "run_alone (get_profile_t E auth) = get_profile E auth"
  "run_alone (update_profile_t E auth n) = update_profile E auth n"
  by (simp_all add: thread_handler_defs alone_simps Let_def cong: branch_congs)

lemma alone_user_for_identity [alone_simps]:
  "run_alone (user_for_identity_t E prov ix u) = user_for_identity E prov ix u"
  by (simp add: user_for_identity_t_def user_for_identity_def alone_simps cong: branch_congs)

lemma alone_resolve_oauth [alone_simps]:
  "run_alone (resolve_or_create_oauth_user_t E p pid email) = resolve_or_create_oauth_user E p pid email"
  by (simp add: resolve_or_create_oauth_user_t_def resolve_or_create_oauth_user_def alone_simps Let_def cong: branch_congs)

lemma alone_oauth_callback [alone_simps]: "run_alone (oauth_callback_t E jar q p) = oauth_callback E jar q p"
proof -
  have "run_alone (oauth_answer_t E r) = (case r of
      Conflict c \<Rightarrow> ret (EmailConflict 409 (conflict_body c))
    | ResolvedUser user_id \<Rightarrow>
        bindE (issue_access_token E user_id None) (\<lambda>acc.
        bindE (issue_and_store_refresh_token E user_id) (\<lambda>ref.
        ret (SignedIn \<lparr>access_token = acc, refresh_token = ref\<rparr>))))" for r
    by (cases r) (simp_all add: alone_simps)
  then show ?thesis by (simp add: oauth_callback_t_def oauth_callback_def alone_simps)
qed

lemma alone_create_agreement [alone_simps]:
  "run_alone (create_agreement_t E wauth creq) = create_agreement E wauth creq"
proof -
  have "run_alone (store_draft_t E pk req slots invs) = store_draft E pk req slots invs" for pk req slots invs
    by (simp add: store_draft_t_def store_draft_def alone_simps)
  then show ?thesis by (simp add: create_agreement_t_def create_agreement_def alone_simps Let_def cong: branch_congs)
qed

lemma serve_alone: "run_alone (serve_t E hs req) = serve E hs req"
  by (cases req) (simp_all add: public_t_def public_handler_def with_user_t_def with_user_def with_wallet_t_def
      with_wallet_def alone_simps)

section \<open>What every interleaving keeps\<close>

lemma always_public [always_intros]: "always R p \<Longrightarrow> always R (public_t p)"
  unfolding public_t_def by (intro always_intros)

lemma always_with_user [always_intros]:
  "frame R \<Longrightarrow> (\<And>auth. always R (p auth)) \<Longrightarrow> always R (with_user_t E hs p)"
  unfolding with_user_t_def by (intro always_intros keeps_intros)

lemma always_with_wallet [always_intros]:
  "frame R \<Longrightarrow> (\<And>auth. always R (p auth)) \<Longrightarrow> always R (with_wallet_t E hs p)"
  unfolding with_wallet_t_def auth_user_with_wallet_from_request_def by (intro always_intros keeps_intros)

text \<open>The slots the loop over the parties hands on are well formed, whatever interferes with it.\<close>

lemma yields_resolve_parties:
  "yields (\<lambda>r. \<forall>acc. r = Inr acc \<longrightarrow> (\<forall>s \<in> set (fst (snd acc)). slot_wf s))
     (fold_each_t ps (\<lambda>p acc. atom (resolve_party E key idx_key invited_at expires p acc)) (True, [], []))"
proof (rule yields_fold_each [where I = "\<lambda>acc. \<forall>s \<in> set (fst (snd acc)). slot_wf s"])
  fix p and a :: party_acc
  assume "\<forall>s \<in> set (fst (snd a)). slot_wf s"
  then have "\<forall>s \<in> set (fst (snd a')). slot_wf s"
    if "resolve_party E key idx_key invited_at expires p a w = (Inr a', w')" for w a' w'
    using that by (cases a; cases p) (auto simp: resolve_party_def slot_wf_def act_simps Let_def split: option.splits)
  then show "yields (\<lambda>r. \<forall>a'. r = Inr a' \<longrightarrow> (\<forall>s \<in> set (fst (snd a')). slot_wf s))
      (atom (resolve_party E key idx_key invited_at expires p a))"
    by (intro yields_atom) (metis prod.collapse)
qed simp

text \<open>
  A relation that every step of every handler is in: one law for each statement the handlers execute.
\<close>

locale statement_frame =
  fixes E :: env and R :: "world \<Rightarrow> world \<Rightarrow> bool"
  assumes frame: "frame R"
    and r_outbox: "R w (w\<lparr>outbox := outbox w @ x\<rparr>)"
    and r_channels: "R w (w\<lparr>ws_channels := ch\<rparr>)"
    and r_limiter: "R w (w\<lparr>invite_limiter := lm\<rparr>)"
    and a_challenge: "keeps R (challenge E)"
    and a_check: "keeps R (check_signed_nonce E body)"
    and a_user: "keeps R (sql E InternalError insert_user)"
    and a_wallet: "keeps R (sql E InternalError (\<lambda>t _. insert_wallet t u pk))"
    and a_store: "keeps R (issue_and_store_refresh_token E u)"
    and a_token: "keeps R (sql E InternalError (\<lambda>t _ d. Some (consume_token t h d)))"
    and a_logout: "keeps R (logout E tok)"
    and a_oauth: "keeps R (sql E InternalError (\<lambda>t _. upsert_oauth u (provider_as_str p) pid t))"
    and a_email: "keeps R (upsert_email_contact E u email)"
    and a_contacts: "keeps R (update_contacts E auth ureq)"
    and a_no_contacts: "keeps R (delete_contacts E auth)"
    and a_draft: "\<forall>s \<in> set slots. slot_wf s \<Longrightarrow> slots_to_value (lib E) slots = Some v \<Longrightarrow>
        keeps R (sql E InternalError (insert_draft pk payload v))"
    and a_invitation: "keeps R (sql E InternalError (\<lambda>t _. insert_invitation (invitation_of i t row)))"
    and a_reinvite: "keeps R (sql E InternalError (\<lambda>t g d. map_option (\<lambda>(_, d'). (g, d'))
        (insert_invitation (new_invitation_row g i ix en no tok ex t) d)))"
    and a_discard: "keeps R (sql_update E InternalError (update_draft i (\<lambda>r. r\<lparr>dr_status := ''discarded''\<rparr>)))"
    and a_uri: "keeps R (sql_update E InternalError (store_uri i uri))"
    and a_pda: "keeps R (sql_update E InternalError (store_pda i pda aid))"
    and a_confirmed: "keeps R (sql_update E InternalError (confirmed_pda i pda))"
    and a_accept: "keeps R (accept_tx E pk tok t)"
    and a_paid: "keeps R (sql_update E InternalError (mark_paid i))"
    and a_count: "keeps R (sql E InternalError (\<lambda>_ _. bump_free_used u))"
    and a_stablecoin: "keeps R (pay_stablecoin E i method)"
    and a_name: "(\<And>s. n = Some s \<Longrightarrow> name_ok s) \<Longrightarrow> keeps R (sql_update E InternalError (set_display_name u n))"
    and a_enqueue: "keeps R (enqueue_notification E et about rc)"
begin

lemma always_wallet_handlers: "always R (verify_t E body)" "always R (link_wallet_t E auth body)" "always R (refresh_t E tok)"
  unfolding verify_t_def link_wallet_t_def refresh_t_def
  by (intro always_intros keeps_intros frame a_check a_user a_wallet a_store a_token)+

lemma always_oauth_callback: "always R (oauth_callback_t E jar q p)"
proof -
  have "always R (user_for_identity_t E prov ix u)" for prov ix u
    unfolding user_for_identity_t_def by (intro always_intros keeps_intros frame a_user)
  then have "always R (resolve_or_create_oauth_user_t E p pid email)" for pid email
    unfolding resolve_or_create_oauth_user_t_def Let_def
    by (intro always_intros keeps_intros frame a_oauth a_email)
  moreover have "always R (oauth_answer_t E r)" for r
    by (cases r) (simp; intro always_intros keeps_intros frame a_store)+
  ultimately show ?thesis unfolding oauth_callback_t_def by (intro always_intros keeps_intros frame)
qed

lemma always_store_draft:
  assumes "\<forall>s \<in> set slots. slot_wf s"
  shows "always R (store_draft_t E pk req slots invs)"
  unfolding store_draft_t_def
  by (intro always_ok_or_bind always_bind always_then always_for_each always_pure always_atom a_draft [OF assms] a_invitation)

lemma always_create_agreement: "always R (create_agreement_t E wauth creq)"
proof -
  have loop: "always R (bind_t
      (fold_each_t ps (\<lambda>p acc. atom (resolve_party E key idx t x p acc)) (True, [], []))
      (\<lambda>(all_resolved, slots, invs).
        if all_resolved \<and> is_free then atom (submit_at_once E pk creq slots)
        else store_draft_t E pk creq slots invs))" for ps key idx t x is_free pk
  proof (rule always_bind_yields)
    show "always R (fold_each_t ps (\<lambda>p acc. atom (resolve_party E key idx t x p acc)) (True, [], []))"
      by (intro always_intros keeps_intros frame)
    show "yields (\<lambda>r. \<forall>acc. r = Inr acc \<longrightarrow> always R (case acc of (all_resolved, slots, invs) \<Rightarrow>
        if all_resolved \<and> is_free then atom (submit_at_once E pk creq slots) else store_draft_t E pk creq slots invs))
      (fold_each_t ps (\<lambda>p acc. atom (resolve_party E key idx t x p acc)) (True, [], []))"
      by (rule yields_mono [OF yields_resolve_parties])
        (auto intro!: always_intros keeps_intros frame always_store_draft)
  qed
  show ?thesis unfolding create_agreement_t_def Let_def by (intro always_intros keeps_intros frame loop)
qed

lemma always_draft_handlers:
  "always R (get_draft_t E i)" "always R (delete_draft_t E auth i)" "always R (reinvite_draft_t E auth i j)"
  "always R (submit_draft_t E wauth i sreq)" "always R (initiate_payment_t E wauth i m)"
  unfolding get_draft_t_def delete_draft_t_def reinvite_draft_t_def submit_draft_t_def submit_checks_t_def
    initiate_payment_t_def Let_def
  by (intro always_intros keeps_intros frame a_discard a_reinvite a_uri a_pda a_confirmed a_paid a_count a_stablecoin)+

lemma always_invite_handlers: "always R (get_invite_t E hs tok)" "always R (accept_invite_t E wauth tok)"
proof -
  have "keeps R (enforce_get_invite_rate_limit hs t)" for t
    unfolding enforce_get_invite_rate_limit_def Let_def
    by (intro keeps_intros frame) (auto intro!: keepsI simp: act_simps r_limiter)
  then show "always R (get_invite_t E hs tok)"
    unfolding get_invite_t_def by (intro always_intros keeps_intros frame)
  have "always R (notify_draft_ready_t E i pk)" for i pk
    unfolding notify_draft_ready_t_def Let_def
    by (intro always_intros keeps_intros frame a_enqueue r_outbox)
  then show "always R (accept_invite_t E wauth tok)"
    unfolding accept_invite_t_def by (intro always_intros keeps_intros frame a_accept)
qed

lemma always_profile_handlers: "always R (get_profile_t E auth)" "always R (update_profile_t E auth n)"
proof -
  have "keeps R (sql E InternalError (\<lambda>_ _ d. map_option (\<lambda>r. (r, d)) (select_first Q (user_accounts d))))" for Q
    using frame by (intro keeps_sql) (auto simp: tick_on_def frame_tick [unfolded tick_on_def])
  then show get: "always R (get_profile_t E auth)"
    unfolding get_profile_t_def by (intro always_intros keeps_intros frame)
  show "always R (update_profile_t E auth n)"
  proof (cases n)
    case None
    then show ?thesis unfolding update_profile_t_def by (intro always_intros a_name get) simp
  next
    case (Some s)
    show ?thesis unfolding update_profile_t_def Some option.case
      by (intro always_lift_then always_then always_atom a_name get) (simp add: sanitise_Inr_iff)
  qed
qed

lemma serve_always: "always R (serve_t E hs req)"
proof -
  have health: "keeps R health_endpoint"
    unfolding health_endpoint_def Let_def by (intro keeps_intros frame)
  have ws: "keeps R (ws_handler E hs q)" for q
    unfolding ws_handler_def by (intro keeps_intros frame)
  have upgrade: "keeps R (handle_upgrade_open u)" for u
    unfolding handle_upgrade_open_def
    by (intro keeps_intros frame) (auto intro!: keepsI simp: act_simps r_channels)
  show ?thesis
    by (cases req; simp only: serve_t.simps; intro always_intros keeps_intros frame health ws upgrade a_challenge a_logout
        a_contacts a_no_contacts always_wallet_handlers always_oauth_callback always_create_agreement
        always_draft_handlers always_invite_handlers always_profile_handlers)
qed

text \<open>Any number of requests, under any schedule.\<close>

lemma serve_all_always: "\<forall>p \<in> set (serve_all E reqs). always R p"
  by (auto simp: serve_all_def serve_always)

end

section \<open>Properties of the tables\<close>

text \<open>
  A property of the tables that each statement keeps, given as the statements themselves: the laws speak of the pure
  functions on the tables, except where several statements of one helper belong together.
\<close>

locale statement_property =
  fixes E :: env and P :: "database \<Rightarrow> bool"
  assumes s_challenge: "keeps (db_frame P) (challenge E)"
    and s_check: "keeps (db_frame P) (check_signed_nonce E body)"
    and s_store: "keeps (db_frame P) (issue_and_store_refresh_token E u)"
    and s_token: "P d \<Longrightarrow> P (snd (consume_token t h d))"
    and s_logout: "keeps (db_frame P) (logout E tok)"
    and s_user: "insert_user t g d = Some (y, d') \<Longrightarrow> P d \<Longrightarrow> P d'"
    and s_wallet: "insert_wallet t u pk d = Some (x, d') \<Longrightarrow> P d \<Longrightarrow> P d'"
    and s_oauth: "upsert_oauth u (provider_as_str p) pid t d = Some (x, d') \<Longrightarrow> P d \<Longrightarrow> P d'"
    and s_contact: "upsert_contact u cf d = Some (x, d') \<Longrightarrow> (\<And>r. uc_user_id (cf r) = uc_user_id r) \<Longrightarrow> P d \<Longrightarrow> P d'"
    and s_no_contact: "P d \<Longrightarrow> P (d\<lparr>user_contacts := del_where (\<lambda>r. uc_user_id r = u) (user_contacts d)\<rparr>)"
    and s_draft: "\<forall>s \<in> set slots. slot_wf s \<Longrightarrow> slots_to_value (lib E) slots = Some v \<Longrightarrow>
        insert_draft pk payload v t g d = Some (y, d') \<Longrightarrow> P d \<Longrightarrow> P d'"
    and s_invitation: "insert_invitation irow d = Some (x, d') \<Longrightarrow> inv_status irow = ''pending'' \<Longrightarrow> P d \<Longrightarrow> P d'"
    and s_update_draft: "(\<And>r. dr_id (df r) = dr_id r \<and> dr_party_slots (df r) = dr_party_slots r \<and>
          dr_draft_payload (df r) = dr_draft_payload r) \<Longrightarrow> (\<And>r. draft_ok E r \<Longrightarrow> draft_ok E (df r)) \<Longrightarrow>
        P d \<Longrightarrow> P (update_draft i df d)"
    and s_confirmed: "P d \<Longrightarrow> P (confirmed_pda i pda d)"
    and s_accept: "keeps (db_frame P) (accept_tx E pk tok t)"
    and s_count: "bump_free_used u d = Some (x, d') \<Longrightarrow> P d \<Longrightarrow> P d'"
    and s_name: "(\<And>s. n = Some s \<Longrightarrow> name_ok s) \<Longrightarrow> P d \<Longrightarrow> P (set_display_name u n d)"
    and s_queue: "P (d\<lparr>notification_queue := qs\<rparr>) = P d"

lemma pay_stablecoin_keeps:
  assumes "frame R"
  shows "keeps R (pay_stablecoin E i method)"
proof -
  have "keeps R (sql E InternalError (\<lambda>t _. insert_payment initiate_columns (p t)))" for p
    using assms by (intro keeps_sql)
      (simp_all add: insert_payment_def names_columns_def initiate_columns_def agreement_payments_columns_def)
  then show ?thesis unfolding pay_stablecoin_def generate_payment_reference_def Let_def
    using assms by (intro keeps_intros)
qed

sublocale statement_property \<subseteq> req: statement_frame E "db_frame P"
proof
  show "keeps (db_frame P) (sql E InternalError insert_user)" by (rule keeps_db_frame_sql) (rule s_user)
  show "keeps (db_frame P) (sql E InternalError (\<lambda>t _. insert_wallet t u pk))" for u pk
    by (rule keeps_db_frame_sql) (rule s_wallet)
  show "keeps (db_frame P) (sql E InternalError (\<lambda>t _ d. Some (consume_token t h d)))" for h
    by (rule keeps_db_frame_sql) (metis s_token option.inject snd_conv)
  show "keeps (db_frame P) (sql E InternalError (\<lambda>t _. upsert_oauth u (provider_as_str p) pid t))" for u p pid
    by (rule keeps_db_frame_sql) (rule s_oauth)
  show "keeps (db_frame P) (upsert_email_contact E u email)" for u email
    by (rule keeps_upsert_email) (rule s_contact)
  show "keeps (db_frame P) (update_contacts E auth ureq)" "keeps (db_frame P) (delete_contacts E auth)" for auth ureq
    by (rule keeps_user_handlers; (rule s_contact; assumption | rule s_no_contact; assumption))+
  show "keeps (db_frame P) (sql E InternalError (insert_draft pk payload v))"
    if "\<forall>s \<in> set slots. slot_wf s" "slots_to_value (lib E) slots = Some v" for slots v pk payload
    by (rule keeps_db_frame_sql) (rule s_draft [OF that])
  show "keeps (db_frame P) (sql E InternalError (\<lambda>t _. insert_invitation (invitation_of i t row)))" for i row
    by (rule keeps_db_frame_sql) (erule s_invitation, simp_all add: invitation_of_def new_invitation_row_def)
  show "keeps (db_frame P) (sql E InternalError (\<lambda>t g d. map_option (\<lambda>(_, d'). (g, d'))
      (insert_invitation (new_invitation_row g i ix en no tok ex t) d)))" for i ix en no tok ex
    by (rule keeps_db_frame_sql) (auto intro: s_invitation simp: new_invitation_row_def)
  show "keeps (db_frame P) (sql_update E InternalError (update_draft i (\<lambda>r. r\<lparr>dr_status := ''discarded''\<rparr>)))" for i
    by (rule keeps_db_frame_update, rule s_update_draft) (auto simp: draft_ok_def)
  show "keeps (db_frame P) (sql_update E InternalError (store_uri i uri))" for i uri
    unfolding store_uri_def by (rule keeps_db_frame_update, rule s_update_draft) (auto simp: draft_ok_def)
  show "keeps (db_frame P) (sql_update E InternalError (store_pda i pda aid))" for i pda aid
    unfolding store_pda_def by (rule keeps_db_frame_update, rule s_update_draft) (auto simp: draft_ok_def)
  show "keeps (db_frame P) (sql_update E InternalError (mark_paid i))" for i
    unfolding mark_paid_def by (rule keeps_db_frame_update, rule s_update_draft) (auto simp: draft_ok_def)
  show "keeps (db_frame P) (sql E InternalError (\<lambda>_ _. bump_free_used u))" for u
    by (rule keeps_db_frame_sql) (rule s_count)
  show "keeps (db_frame P) (enqueue_notification E et about rc)" for et about rc
    by (rule keeps_enqueue) (rule s_queue)
  show "keeps (db_frame P) (sql_update E InternalError (confirmed_pda i pda))" for i pda
    by (rule keeps_db_frame_update) (rule s_confirmed)
  show "keeps (db_frame P) (sql_update E InternalError (set_display_name u n))" if "\<And>s. n = Some s \<Longrightarrow> name_ok s" for u n
    by (rule keeps_db_frame_update) (rule s_name [OF that])
qed (rule frame_db_frame s_challenge s_check s_store s_logout s_accept pay_stablecoin_keeps | simp add: db_frame_def)+

end
