(* ===== verification/Concurrent_Tables.thy ===== *)
theory Concurrent_Tables
  imports Concurrent_Requests
begin

text \<open>
  What any number of requests, interleaved statement by statement, keep of the tables: the parts of the invariant
  \<open>sys_inv\<close> of the system and the life cycles of invitations and payments. Each is an interpretation of
  \<open>statement_property\<close>; theories \<open>Concurrent_Backend\<close> and \<open>Concurrent_System\<close> extend them to the workers. Sequential runs are schedules.
\<close>

lemmas statement_defs =
  insert_user_def insert_wallet_def upsert_oauth_def upsert_contact_def insert_draft_def insert_invitation_def
  update_draft_def confirmed_pda_def bump_free_used_def consume_token_def set_display_name_def

lemma keeps_check_other:
  assumes "\<And>d q. P (d\<lparr>siws_nonces := q\<rparr>) = P d"
  shows "keeps (db_frame P) (check_signed_nonce E body)"
  unfolding check_signed_nonce_def by (intro keeps_intros keeps_db_frame_sql) (auto simp: consume_nonce_def assms)

text \<open>Laws of the session statements for a property that looks neither at nonces nor at refresh tokens.\<close>

lemma keeps_session_other:
  assumes "\<And>d q. P (d\<lparr>siws_nonces := q\<rparr>) = P d" and "\<And>d q. P (d\<lparr>refresh_tokens := q\<rparr>) = P d"
  shows "keeps (db_frame P) (challenge E)" "keeps (db_frame P) (check_signed_nonce E body)"
    "keeps (db_frame P) (issue_and_store_refresh_token E u)" "keeps (db_frame P) (logout E tok)"
proof -
  show "keeps (db_frame P) (challenge E)"
    unfolding challenge_def Let_def by (intro keeps_intros keeps_db_frame_sql) (auto simp: assms split: if_splits)
  show "keeps (db_frame P) (check_signed_nonce E body)" by (rule keeps_check_other) (rule assms)
  show "keeps (db_frame P) (issue_and_store_refresh_token E u)"
    unfolding issue_and_store_refresh_token_def Let_def
    by (intro keeps_intros keeps_db_frame_sql) (auto simp: assms split: if_splits)
  show "keeps (db_frame P) (logout E tok)"
    unfolding logout_def by (intro keeps_intros keeps_db_frame_update) (simp add: assms)
qed

interpretation auth_req: statement_property E auth_inv for E
proof
  show "keeps (db_frame auth_inv) (accept_tx E pk tok t)" for pk tok t
    by (rule keeps_accept_tx_other) (simp_all add: auth_inv_def)
  show "auth_inv (set_display_name u n d)" if "auth_inv d" for u n d
    using that by (simp add: auth_inv_def set_display_name_ids)
qed (rule keeps_auth_inv_challenge keeps_auth_inv_check keeps_auth_inv_store_refresh keeps_auth_inv_logout
    auth_inv_consume_token auth_inv_insert_user auth_inv_insert_wallet; assumption
  | auto simp: statement_defs auth_inv_def split: if_splits)+

interpretation contact_req: statement_property E contact_inv for E
proof
  fix t u g pk d d' p pid cf x
  show "insert_user t g d = Some (y, d') \<Longrightarrow> contact_inv d \<Longrightarrow> contact_inv d'" for y by (rule contact_inv_insert_user)
  show "upsert_oauth u (provider_as_str p) pid t d = Some (x, d') \<Longrightarrow> contact_inv d \<Longrightarrow> contact_inv d'"
    by (rule contact_inv_upsert_oauth)
  show "upsert_contact u cf d = Some (x, d') \<Longrightarrow> (\<And>r. uc_user_id (cf r) = uc_user_id r) \<Longrightarrow> contact_inv d \<Longrightarrow> contact_inv d'"
    by (rule contact_inv_upsert_contact)
  show "contact_inv (d\<lparr>user_contacts := del_where (\<lambda>r. uc_user_id r = u) (user_contacts d)\<rparr>)" if "contact_inv d"
    using that by (auto simp: contact_inv_def distinct_del_where sql_list)
  show "contact_inv (set_display_name u n d)" if "contact_inv d" for n
    using that by (simp add: contact_inv_def set_display_name_ids)
qed (rule keeps_session_other keeps_accept_tx_other; simp add: contact_inv_def
  | simp add: statement_defs contact_inv_def split: if_splits; fail
  | auto simp: statement_defs contact_inv_def split: if_splits)+

interpretation name_req: statement_property E names_inv for E
proof
  show "names_inv (set_display_name u n d)" if "\<And>s. n = Some s \<Longrightarrow> name_ok s" and "names_inv d" for u n d
    using that by (auto simp: names_inv_def set_display_name_def sql_list split: if_splits)
qed (rule names_inv_insert_user; assumption
  | rule keeps_session_other keeps_accept_tx_other; simp add: names_inv_def
  | auto simp: statement_defs names_inv_def split: if_splits)+

lemma draft_req:
  assumes law: "serde_law (lib E)"
  shows "statement_property E (\<lambda>d. draft_inv E d \<and> invitations_evolve d0 d)" (is "statement_property E ?P")
proof
  show "?P d'" if "\<forall>s \<in> set slots. slot_wf s" "slots_to_value (lib E) slots = Some v"
    "insert_draft pk payload v t g d = Some (y, d')" "?P d" for slots v pk payload t g d y d'
    using that draft_inv_insert_draft [OF law that(2,1,3)] evolves_insert_draft by blast
  show "?P d'" if "insert_invitation irow d = Some (x, d')" "inv_status irow = ''pending''" "?P d" for irow d x d'
    using that draft_inv_insert_invitation evolves_insert_invitation by blast
  show "?P (update_draft i df d)" if "\<And>r. dr_id (df r) = dr_id r \<and> dr_party_slots (df r) = dr_party_slots r \<and> dr_draft_payload (df r) = dr_draft_payload r"
      "\<And>r. draft_ok E r \<Longrightarrow> draft_ok E (df r)" "?P d" for df i d
    using that draft_inv_update_draft [of E d df i] by (simp add: update_draft_def evolves_def)
  show "keeps (db_frame ?P) (accept_tx E pk tok t)" for pk tok t by (rule keeps_evolves_accept_tx [OF law])
qed (rule keeps_session_other; simp add: draft_inv_def evolves_def
  | auto simp: statement_defs draft_inv_def evolves_def split: if_splits)+

interpretation payment_req: statement_property E "\<lambda>d. pay_inv d \<and> payments_evolve d0 d" for E d0
proof
  let ?P = "\<lambda>d. pay_inv d \<and> payments_evolve d0 d"
  show "?P (confirmed_pda i pda d)" if "?P d" for i pda d
  proof -
    have "payments_evolve d (confirmed_pda i pda d)"
      by (rule evolves_update [where P = "\<lambda>p. pay_draft_id p = i \<and> pay_status p = ''confirmed''"
            and f = "\<lambda>p. p\<lparr>pay_agreement_pda := Some pda\<rparr>"])
        (auto simp: confirmed_pda_def pay_key_def)
    moreover have "pay_inv (confirmed_pda i pda d)"
      using that unfolding confirmed_pda_def by (subst pay_inv_status_update) auto
    ultimately show ?thesis using that evolves_trans by blast
  qed
  show "keeps (db_frame ?P) (accept_tx E pk tok t)" for pk tok t
    by (rule keeps_accept_tx_other) (simp_all add: pay_inv_def evolves_def)
qed (rule keeps_session_other; simp add: pay_inv_def evolves_def
  | auto simp: statement_defs pay_inv_def evolves_def split: if_splits)+

section \<open>Sequential runs are schedules\<close>

text \<open>The answers to a list of requests served one after the other, and the world they leave.\<close>

fun serve_in_order :: "env \<Rightarrow> (headers \<times> request) list \<Rightarrow> world \<Rightarrow> (nat + unit) list \<times> world" where
  "serve_in_order E [] w = ([], w)"
| "serve_in_order E ((hs, req) # reqs) w =
     (case serve E hs req w of (r, w') \<Rightarrow> case serve_in_order E reqs w' of (rs, w'') \<Rightarrow> (r # rs, w''))"

lemma run_each_serve: "run_each (serve_all E reqs) w = serve_in_order E reqs w"
  by (induction E reqs w rule: serve_in_order.induct) (auto simp: serve_all_def serve_alone split: prod.splits)

lemma serve_in_order_run:
  "snd (serve_in_order E reqs w) = system_run E (map (\<lambda>(hs, req). Serve hs req) reqs) w"
  by (induction E reqs w rule: serve_in_order.induct) (auto simp: system_run_def split: prod.splits)

text \<open>
  Sequential runs are schedules. Serving requests one after the other, as the sequential model does, is one of the
  interleavings of their threads: some schedule finishes every thread with the answer the request gets there and
  leaves the same world. What holds of every schedule holds of the sequential runs, and a flaw of a schedule is one
  the sequential model does not see.
\<close>

lemma sequential_run_is_schedule:
  "\<exists>sched. exec sched (serve_all E reqs, w) =
     (map Done (fst (serve_in_order E reqs w)), system_run E (map (\<lambda>(hs, req). Serve hs req) reqs) w)"
  using exec_in_order [of "serve_all E reqs" w "fst (serve_in_order E reqs w)" "snd (serve_in_order E reqs w)" "[]"]
  by (simp add: run_each_serve serve_in_order_run [symmetric])

end
