(* ===== verification/Log_Stream.thy ===== *)
theory Log_Stream
  imports Event_Listener
begin

text \<open>
  The subscription of the event listener: \<^verbatim>\<open>src/src/services/solana_logs.rs\<close>. A blocking task receives the logs of the
  program from the PubSub client and sends them into a channel of 100 places; the listener takes them out. The two
  run concurrently: the sender waits while the channel is full, the listener while it is empty, and the channel ends
  when the task does. \<open>sub_step\<close> is one step of either.

  What the client hands over is a parameter (\<open>pubsub\<close>): the error of the subscription if there is one, and the
  outcomes of \<open>recv\<close> in order. When they are used up the task is waiting for the next one.
\<close>

section \<open>The service\<close>

datatype solana_logs_error =
    InvalidProgramId string
  | ConnectionFailed string
  | SubscriptionError string

record solana_logs_service =
  svc_ws_url :: string
  svc_program_id :: pubkey

text \<open>\<open>parse_error\<close> is how the key parser renders its error.\<close>

definition solana_logs_service_new ::
    "env \<Rightarrow> (string \<Rightarrow> string) \<Rightarrow> string \<Rightarrow> string \<Rightarrow> solana_logs_error + solana_logs_service" where
  "solana_logs_service_new E parse_error ws_url program_id_str =
     (case pubkey_from_str (lib E) program_id_str of
        None \<Rightarrow> Inl (InvalidProgramId (parse_error program_id_str))
      | Some k \<Rightarrow> Inr \<lparr>svc_ws_url = ws_url, svc_program_id = k\<rparr>)"

record logs_response =
  lr_signature :: string
  lr_slot :: u64
  lr_logs :: "string list"

datatype recv_outcome = Received logs_response | RecvError string

record pubsub =
  logs_subscribe_error :: "string option"
  recv_outcomes :: "recv_outcome list"

definition program_log_of :: "logs_response \<Rightarrow> program_log" where
  "program_log_of r = \<lparr>pl_signature = lr_signature r, pl_slot = lr_slot r, pl_logs = lr_logs r\<rparr>"

section \<open>The task and the channel\<close>

definition channel_capacity :: nat where
  "channel_capacity = 100"

record log_channel =
  buffered :: "program_log list"
  tx_dropped :: bool
  rx_dropped :: bool

text \<open>Where the blocking closure of \<open>connect_and_stream\<close> is; \<open>Sending\<close> is inside \<open>blocking_send\<close>.\<close>

datatype streamer =
    Connecting
  | Receiving "recv_outcome list"
  | Sending program_log "recv_outcome list"
  | Ended "solana_logs_error + unit"

text \<open>\<open>None\<close>: the task cannot move.\<close>

fun stream_step :: "pubsub \<Rightarrow> streamer \<Rightarrow> log_channel \<Rightarrow> (streamer \<times> log_channel) option" where
  "stream_step ps Connecting ch =
     (case logs_subscribe_error ps of
        Some e \<Rightarrow> Some (Ended (Inl (ConnectionFailed e)), ch\<lparr>tx_dropped := True\<rparr>)
      | None \<Rightarrow> Some (Receiving (recv_outcomes ps), ch))"
| "stream_step ps (Receiving []) ch = None"
| "stream_step ps (Receiving (Received r # rest)) ch = Some (Sending (program_log_of r) rest, ch)"
| "stream_step ps (Receiving (RecvError e # rest)) ch =
     Some (Ended (Inl (SubscriptionError e)), ch\<lparr>tx_dropped := True\<rparr>)"
| "stream_step ps (Sending l rest) ch =
     (if rx_dropped ch then Some (Ended (Inr ()), ch\<lparr>tx_dropped := True\<rparr>)
      else if length (buffered ch) < channel_capacity then Some (Receiving rest, ch\<lparr>buffered := buffered ch @ [l]\<rparr>)
      else None)"
| "stream_step ps (Ended r) ch = None"

text \<open>The loop \<open>while let Some(log) = rx.recv().await\<close>, with the logs it has taken.\<close>

datatype listener = Listening "program_log list" | Finished "program_log list"

fun recv_step :: "listener \<Rightarrow> log_channel \<Rightarrow> (listener \<times> log_channel) option" where
  "recv_step (Listening seen) ch =
     (case buffered ch of
        l # ls \<Rightarrow> Some (Listening (seen @ [l]), ch\<lparr>buffered := ls\<rparr>)
      | [] \<Rightarrow> if tx_dropped ch then Some (Finished seen, ch\<lparr>rx_dropped := True\<rparr>) else None)"
| "recv_step (Finished seen) ch = None"

type_synonym subscription = "streamer \<times> log_channel \<times> listener"

definition subscribe_logs :: subscription where
  "subscribe_logs = (Connecting, \<lparr>buffered = [], tx_dropped = False, rx_dropped = False\<rparr>, Listening [])"

inductive sub_step :: "pubsub \<Rightarrow> subscription \<Rightarrow> subscription \<Rightarrow> bool" for ps where
  task: "stream_step ps st ch = Some (st', ch') \<Longrightarrow> sub_step ps (st, ch, li) (st', ch', li)"
| loop: "recv_step li ch = Some (li', ch') \<Longrightarrow> sub_step ps (st, ch, li) (st, ch', li')"

inductive_cases sub_stepE: "sub_step ps (st, ch, li) s'"

section \<open>What the listener gets\<close>

fun logs_before_error :: "recv_outcome list \<Rightarrow> program_log list" where
  "logs_before_error [] = []"
| "logs_before_error (Received r # rest) = program_log_of r # logs_before_error rest"
| "logs_before_error (RecvError e # rest) = []"

definition delivered :: "pubsub \<Rightarrow> program_log list" where
  "delivered ps = (case logs_subscribe_error ps of Some e \<Rightarrow> [] | None \<Rightarrow> logs_before_error (recv_outcomes ps))"

fun still_to_come :: "pubsub \<Rightarrow> streamer \<Rightarrow> program_log list" where
  "still_to_come ps Connecting = delivered ps"
| "still_to_come ps (Receiving rest) = logs_before_error rest"
| "still_to_come ps (Sending l rest) = l # logs_before_error rest"
| "still_to_come ps (Ended r) = []"

fun taken :: "listener \<Rightarrow> program_log list" where
  "taken (Listening seen) = seen"
| "taken (Finished seen) = seen"

text \<open>
  No log is lost, doubled or reordered; the channel stays within its capacity; the sender is gone exactly when the
  task has ended, the receiver exactly when the loop has, and the loop ends last.
\<close>

definition sub_inv :: "pubsub \<Rightarrow> subscription \<Rightarrow> bool" where
  "sub_inv ps = (\<lambda>(st, ch, li).
     taken li @ buffered ch @ still_to_come ps st = delivered ps \<and> length (buffered ch) \<le> channel_capacity \<and>
     (tx_dropped ch \<longleftrightarrow> (\<exists>r. st = Ended r)) \<and> (\<forall>u. st \<noteq> Ended (Inr u)) \<and>
     (rx_dropped ch \<longleftrightarrow> (\<exists>seen. li = Finished seen)) \<and> (rx_dropped ch \<longrightarrow> tx_dropped ch \<and> buffered ch = []))"

lemma sub_inv_init: "sub_inv ps subscribe_logs"
  by (simp add: sub_inv_def subscribe_logs_def)

lemma sub_inv_task:
  assumes "sub_inv ps (st, ch, li)" and "stream_step ps st ch = Some (st', ch')"
  shows "sub_inv ps (st', ch', li)"
  using assms
  by (cases "(ps, st, ch)" rule: stream_step.cases)
    (auto simp: sub_inv_def delivered_def split: option.splits if_splits)

lemma sub_inv_loop:
  assumes "sub_inv ps (st, ch, li)" and "recv_step li ch = Some (li', ch')"
  shows "sub_inv ps (st, ch', li')"
  using assms
  by (cases "(li, ch)" rule: recv_step.cases)
    (auto simp: sub_inv_def split: list.splits if_splits)

lemma sub_inv_reachable: "(sub_step ps)\<^sup>*\<^sup>* subscribe_logs s \<Longrightarrow> sub_inv ps s"
proof (induction rule: rtranclp_induct)
  case base
  show ?case by (rule sub_inv_init)
next
  case (step s s')
  obtain st ch li where s: "s = (st, ch, li)" by (cases s)
  from step.hyps(2) step.IH show ?case unfolding s
    by (auto elim!: sub_stepE intro: sub_inv_task sub_inv_loop)
qed

text \<open>Steps are used up: each takes an outcome, a log in hand, or a log in the channel further.\<close>

fun sub_left :: "pubsub \<Rightarrow> subscription \<Rightarrow> nat" where
  "sub_left ps (st, ch, li) =
     (case st of
        Connecting \<Rightarrow> 3 * length (recv_outcomes ps) + 3
      | Receiving rest \<Rightarrow> 3 * length rest + 2
      | Sending l rest \<Rightarrow> 3 * length rest + 4
      | Ended r \<Rightarrow> 1) + length (buffered ch) - (if \<exists>seen. li = Finished seen then 1 else 0)"

lemma sub_left_task:
  assumes "stream_step ps st ch = Some (st', ch')" and "sub_inv ps (st, ch, li)"
  shows "sub_left ps (st', ch', li) < sub_left ps (st, ch, li)"
  using assms
  by (cases "(ps, st, ch)" rule: stream_step.cases) (auto simp: sub_inv_def split: option.splits if_splits)

lemma sub_left_loop:
  assumes "recv_step li ch = Some (li', ch')" and "sub_inv ps (st, ch, li)"
  shows "sub_left ps (st, ch', li') < sub_left ps (st, ch, li)"
  using assms
  by (cases "(li, ch)" rule: recv_step.cases)
    (auto simp: sub_inv_def split: list.splits if_splits streamer.splits)

lemma sub_can_move:
  assumes inv: "sub_inv ps (st, ch, Listening seen)"
  shows "(\<exists>s'. sub_step ps (st, ch, Listening seen) s') \<or> st = Receiving [] \<and> seen = delivered ps"
proof (cases "buffered ch = [] \<and> \<not> tx_dropped ch")
  case False
  then show ?thesis by (cases "buffered ch") (auto intro!: exI sub_step.loop)
next
  case True
  have rx: "\<not> rx_dropped ch" using inv by (simp add: sub_inv_def)
  have "(\<exists>s. stream_step ps st ch = Some s) \<or> st = Receiving []"
    using inv True rx
    by (cases "(ps, st, ch)" rule: stream_step.cases)
      (auto simp: sub_inv_def channel_capacity_def split: option.splits)
  then show ?thesis
  proof
    assume "\<exists>s. stream_step ps st ch = Some s"
    then show ?thesis using sub_step.task by (metis prod.collapse)
  next
    assume "st = Receiving []"
    then show ?thesis using inv True by (simp add: sub_inv_def)
  qed
qed

text \<open>
  C33 (the subscription is lossless and terminates). Whatever the schedule of the receiving task and the listener's loop,
  the channel never holds more than 100 logs, and the loop has taken a prefix of the logs that arrive before the first
  error, in order; when it ends it has taken all of them, and the task has ended with an error. As long as the loop
  has not ended, one of the two can move, unless both wait for the client's next log; and each move brings the end
  nearer. So the two never block each other, and a connection that fails ends the loop.
\<close>

theorem log_stream_lossless:
  assumes "(sub_step ps)\<^sup>*\<^sup>* subscribe_logs (st, ch, li)"
  shows "length (buffered ch) \<le> 100 \<and> (\<exists>more. taken li @ more = delivered ps) \<and>
    (\<forall>seen. li = Finished seen \<longrightarrow> seen = delivered ps \<and> (\<exists>e. st = Ended (Inl e))) \<and>
    (\<forall>seen. li = Listening seen \<longrightarrow> (\<exists>s'. sub_step ps (st, ch, li) s') \<or> st = Receiving [] \<and> seen = delivered ps) \<and>
    (\<forall>s'. sub_step ps (st, ch, li) s' \<longrightarrow> sub_left ps s' < sub_left ps (st, ch, li))"
proof -
  have inv: "sub_inv ps (st, ch, li)" by (rule sub_inv_reachable [OF assms])
  have fin: "seen = delivered ps \<and> (\<exists>e. st = Ended (Inl e))" if li: "li = Finished seen" for seen
  proof -
    obtain r where r: "st = Ended r" using inv li by (auto simp: sub_inv_def)
    then obtain e where "r = Inl e" using inv by (cases r) (auto simp: sub_inv_def)
    with r show ?thesis using inv li by (auto simp: sub_inv_def)
  qed
  moreover have "sub_left ps s' < sub_left ps (st, ch, li)" if "sub_step ps (st, ch, li) s'" for s'
    using that inv by (auto elim!: sub_stepE intro: sub_left_task sub_left_loop simp del: sub_left.simps)
  moreover have "length (buffered ch) \<le> 100" "taken li @ (buffered ch @ still_to_come ps st) = delivered ps"
    using inv by (simp_all add: sub_inv_def channel_capacity_def)
  moreover have "(\<exists>s'. sub_step ps (st, ch, li) s') \<or> st = Receiving [] \<and> seen = delivered ps" if "li = Listening seen" for seen
    using sub_can_move inv unfolding that by blast
  ultimately show ?thesis using fin by blast
qed

definition sample_pubsub :: pubsub where
  "sample_pubsub = \<lparr>logs_subscribe_error = None,
     recv_outcomes = [Received \<lparr>lr_signature = ''s'', lr_slot = 1, lr_logs = []\<rparr>, RecvError ''closed'']\<rparr>"

theorem log_stream_lossless_witness:
  "\<exists>ch. (sub_step sample_pubsub)\<^sup>*\<^sup>* subscribe_logs (Ended (Inl (SubscriptionError ''closed'')), ch, Finished (delivered sample_pubsub)) \<and>
     length (delivered sample_pubsub) = 1 \<and> length (buffered ch) \<le> 100"
proof -
  let ?l = "\<lparr>pl_signature = ''s'', pl_slot = 1, pl_logs = []\<rparr>"
  let ?c = "\<lambda>b t r. \<lparr>buffered = b, tx_dropped = t, rx_dropped = r\<rparr>"
  have d: "delivered sample_pubsub = [?l]" by (simp add: delivered_def sample_pubsub_def program_log_of_def)
  have "sub_step sample_pubsub (Connecting, ?c [] False False, Listening []) (Receiving (recv_outcomes sample_pubsub), ?c [] False False, Listening [])"
    by (rule sub_step.task) (simp add: sample_pubsub_def)
  moreover have "sub_step sample_pubsub (Receiving (recv_outcomes sample_pubsub), ?c [] False False, Listening [])
      (Sending ?l [RecvError ''closed''], ?c [] False False, Listening [])"
    by (rule sub_step.task) (simp add: sample_pubsub_def program_log_of_def)
  moreover have "sub_step sample_pubsub (Sending ?l [RecvError ''closed''], ?c [] False False, Listening [])
      (Receiving [RecvError ''closed''], ?c [?l] False False, Listening [])"
    by (rule sub_step.task) (simp add: channel_capacity_def)
  moreover have "sub_step sample_pubsub (Receiving [RecvError ''closed''], ?c [?l] False False, Listening [])
      (Ended (Inl (SubscriptionError ''closed'')), ?c [?l] True False, Listening [])"
    by (rule sub_step.task) simp
  moreover have "sub_step sample_pubsub (Ended (Inl (SubscriptionError ''closed'')), ?c [?l] True False, Listening [])
      (Ended (Inl (SubscriptionError ''closed'')), ?c [] True False, Listening [?l])"
    by (rule sub_step.loop) simp
  moreover have "sub_step sample_pubsub (Ended (Inl (SubscriptionError ''closed'')), ?c [] True False, Listening [?l])
      (Ended (Inl (SubscriptionError ''closed'')), ?c [] True True, Finished [?l])"
    by (rule sub_step.loop) simp
  ultimately have run: "(sub_step sample_pubsub)\<^sup>*\<^sup>* subscribe_logs
      (Ended (Inl (SubscriptionError ''closed'')), ?c [] True True, Finished [?l])"
    unfolding subscribe_logs_def by (meson converse_rtranclp_into_rtranclp rtranclp.rtrancl_refl)
  from log_stream_lossless [OF run] run show ?thesis unfolding d by (intro exI [of _ "?c [] True True"]) simp
qed

section \<open>The listener over a subscription\<close>

text \<open>
  One connection of the listener, with the logs the subscription delivers, and the reason its loop reports when the
  connection is over: \<open>subscribe_logs\<close> returns the receiver before the task has connected, so an error of the
  subscription reaches the listener only as the end of the channel.
\<close>

definition listen_once :: "env \<Rightarrow> pubsub \<Rightarrow> worker_status \<Rightarrow> (world, app_error, degradation_reason \<times> worker_status) act" where
  "listen_once E ps st =
     bindE (connect_and_listen E (delivered ps) st) (\<lambda>(ok, st').
     ret (if ok then RetryBackoff else RpcUnavailable, st'))"

text \<open>
  A failed subscription passes for a closed connection. With a program identifier that is a key, every connection is
  reported as \<open>RetryBackoff\<close> after the worker has called itself healthy, whether the node refused the subscription, the
  stream broke or it ended; \<open>RpcUnavailable\<close> is reported for a malformed identifier only. A refused subscription
  changes nothing else.
\<close>

theorem failed_subscription_passes:
  assumes "pubkey_from_str (lib E) (program_id (cfg E)) = Some k"
  shows "(\<exists>w'. listen_once E ps st w = (Inr (RetryBackoff, WS_Healthy), w') \<and>
      (logs_subscribe_error ps \<noteq> None \<longrightarrow> w' = w))"
proof -
  have "total_act (for_each (delivered ps) (process_log E))" by (intro total_intros)
  then obtain w' where f: "for_each (delivered ps) (process_log E) w = (Inr (), w')"
    unfolding total_act_def by (metis old.unit.exhaust)
  have "w' = w" if "logs_subscribe_error ps \<noteq> None" using that f by (auto simp: delivered_def act_simps)
  with f assms show ?thesis
    by (auto simp: listen_once_def connect_and_listen_def logs_service_new_def transition_to_healthy_def run_defs)
qed

theorem failed_subscription_passes_witness:
  "\<exists>w'. listen_once (sample_env\<lparr>cfg := sample_config\<lparr>program_id := ''prog''\<rparr>\<rparr>)
     \<lparr>logs_subscribe_error = Some ''refused'', recv_outcomes = []\<rparr> WS_Degraded empty_world = (Inr (RetryBackoff, WS_Healthy), w')"
  using failed_subscription_passes [of "sample_env\<lparr>cfg := sample_config\<lparr>program_id := ''prog''\<rparr>\<rparr>" "as_bytes ''prog''"
      "\<lparr>logs_subscribe_error = Some ''refused'', recv_outcomes = []\<rparr>" WS_Degraded empty_world]
  by (auto simp: sample_env_def sample_libs_def)

end
