(* ===== verification/Rely_Guarantee.thy ===== *)
theory Rely_Guarantee
  imports Interleaving
begin

text \<open>
  Threads that rely on each other. \<open>safe R G Q p w\<close>: started in \<open>w\<close>, with the other threads moving the world along \<open>R\<close>
  before and between its steps, every step of \<open>p\<close> is in \<open>G\<close>, and when it ends the result and every world the others
  lead to satisfy \<open>Q\<close>. The rules follow the combinators of threads. The locale \<open>rely_guarantee\<close> puts threads together:
  when what each guarantees is what all others rely on, every schedule of the pool keeps all of them safe.
\<close>

section \<open>Safe threads\<close>

primrec safe ::
    "('w \<Rightarrow> 'w \<Rightarrow> bool) \<Rightarrow> ('w \<Rightarrow> 'w \<Rightarrow> bool) \<Rightarrow> ('a \<Rightarrow> 'w \<Rightarrow> bool) \<Rightarrow> ('w, 'a) prog \<Rightarrow> 'w \<Rightarrow> bool" where
  "safe R G Q (Done r) = (\<lambda>w. \<forall>w'. R w w' \<longrightarrow> Q r w')"
| "safe R G Q (Atom f g) = (\<lambda>w. \<forall>w'. R w w' \<longrightarrow> G w' (f w') \<and> safe R G Q (g w') (f w'))"

abbreviation anything :: "'a \<Rightarrow> 'w \<Rightarrow> bool" where
  "anything \<equiv> (\<lambda>_ _. True)"

lemma safe_rely: "safe R G Q p w \<Longrightarrow> R w w' \<Longrightarrow> transp R \<Longrightarrow> safe R G Q p w'"
  by (cases p) (auto dest: transpD)

lemma safe_post: "safe R G Q p w \<Longrightarrow> (\<And>r w. Q r w \<Longrightarrow> Q' r w) \<Longrightarrow> safe R G Q' p w"
  by (induction p arbitrary: w) auto

lemma safe_always: "always G p \<Longrightarrow> safe R G anything p w"
  by (induction p arbitrary: w) auto

lemma safe_Done: "safe R G anything (Done r) w"
  by simp

lemma safe_atom:
  assumes "\<And>w' r w''. R w w' \<Longrightarrow> m w' = (r, w'') \<Longrightarrow> G w' w'' \<and> (\<forall>w3. R w'' w3 \<longrightarrow> Q r w3)"
  shows "safe R G Q (atom m) w"
proof -
  have "G w' (snd (m w')) \<and> (\<forall>w3. R (snd (m w')) w3 \<longrightarrow> Q (fst (m w')) w3)" if "R w w'" for w'
    by (rule assms [OF that]) simp
  then show ?thesis by (simp add: atom_def)
qed

lemma safe_bind:
  assumes "safe R G (\<lambda>r w. case r of Inl e \<Rightarrow> Q (Inl e) w | Inr x \<Rightarrow> safe R G Q (k x) w) p w" and "reflp R"
  shows "safe R G Q (bind_t p k) w"
  using assms(1)
proof (induction p arbitrary: w)
  case (Done r)
  then show ?case using assms(2) by (cases r) (auto dest: reflpD)
qed auto

text \<open>A loop over a list of which \<open>I\<close> is known of the rest.\<close>

lemma safe_for_each:
  assumes step: "\<And>x xs w. I (x # xs) w \<Longrightarrow> safe R G (\<lambda>r w. I xs w) (f x) w" and refl: "reflp R"
    and post: "\<And>xs w. I xs w \<Longrightarrow> J w"
    and last: "\<And>w w'. I [] w \<Longrightarrow> R w w' \<Longrightarrow> I [] w'"
  shows "I xs w \<Longrightarrow> safe R G (\<lambda>_. J) (for_each_t xs f) w"
proof (induction xs arbitrary: w)
  case Nil
  then show ?case using post last by (auto simp: ret_t_def)
next
  case (Cons x xs)
  show ?case unfolding for_each_t.simps then_t_def
    by (rule safe_bind [OF safe_post [OF step [OF Cons.prems]] refl]) (auto intro: Cons.IH post split: sum.splits)
qed

section \<open>Invariants\<close>

definition stable_under :: "('w \<Rightarrow> bool) \<Rightarrow> ('w \<Rightarrow> 'w \<Rightarrow> bool) \<Rightarrow> bool" where
  "stable_under I R \<longleftrightarrow> (\<forall>w w'. I w \<longrightarrow> R w w' \<longrightarrow> I w')"

lemma stable_underD: "stable_under I R \<Longrightarrow> I w \<Longrightarrow> R w w' \<Longrightarrow> I w'"
  by (auto simp: stable_under_def)

text \<open>\<open>secured I R G p\<close>: from worlds with \<open>I\<close>, the thread is safe and ends with \<open>I\<close>.\<close>

definition secured :: "('w \<Rightarrow> bool) \<Rightarrow> ('w \<Rightarrow> 'w \<Rightarrow> bool) \<Rightarrow> ('w \<Rightarrow> 'w \<Rightarrow> bool) \<Rightarrow> ('w, 'a) prog \<Rightarrow> bool" where
  "secured I R G p \<longleftrightarrow> (\<forall>w. I w \<longrightarrow> safe R G (\<lambda>_. I) p w)"

named_theorems secured_intros "composition rules of secured"

lemma secured_always:
  assumes "always G p" and rely: "stable_under I R" and guar: "stable_under I G"
  shows "secured I R G p"
proof -
  have "safe R G (\<lambda>_. I) p w" if "I w" for w
    using assms(1) that
  proof (induction p arbitrary: w)
    case (Done r)
    then show ?case using stable_underD [OF rely] by auto
  next
    case (Atom f g)
    have "G w' (f w') \<and> safe R G (\<lambda>_. I) (g w') (f w')" if "R w w'" for w'
    proof
      show G: "G w' (f w')" using Atom.prems(1) by simp
      have "I (f w')" using stable_underD [OF guar stable_underD [OF rely Atom.prems(2) that] G] .
      then show "safe R G (\<lambda>_. I) (g w') (f w')" using Atom.prems(1) by (intro Atom.IH) auto
    qed
    then show ?case by simp
  qed
  then show ?thesis by (simp add: secured_def)
qed

lemma secured_pure [secured_intros]:
  assumes "stable_under I R"
  shows "secured I R G (ret_t x)" "secured I R G (lift_t r)"
  by (auto simp: secured_def ret_t_def lift_t_def dest: stable_underD [OF assms])

lemma secured_bind [secured_intros]:
  assumes "secured I R G p" and "reflp R" and "\<And>x. secured I R G (k x)"
  shows "secured I R G (bind_t p k)"
  unfolding secured_def
proof (intro allI impI)
  fix w assume "I w"
  then have "safe R G (\<lambda>_. I) p w" using assms(1) by (simp add: secured_def)
  then show "safe R G (\<lambda>_. I) (bind_t p k) w"
    by (rule safe_bind [OF safe_post assms(2)]) (use assms(3) in \<open>auto simp: secured_def split: sum.splits\<close>)
qed

lemma secured_then [secured_intros]:
  "secured I R G p \<Longrightarrow> reflp R \<Longrightarrow> secured I R G q \<Longrightarrow> secured I R G (then_t p q)"
  unfolding then_t_def by (rule secured_bind)

lemma secured_attempt [secured_intros]:
  assumes "secured I R G p"
  shows "secured I R G (attempt_t p)"
proof -
  have "safe R G (\<lambda>_. I) p w \<longrightarrow> safe R G (\<lambda>_. I) (attempt_t p) w" for w
    by (induction p arbitrary: w) auto
  then show ?thesis using assms by (auto simp: secured_def)
qed

lemma secured_map_err [secured_intros]:
  assumes "secured I R G p"
  shows "secured I R G (map_err_t h p)"
proof -
  have "safe R G (\<lambda>_. I) p w \<longrightarrow> safe R G (\<lambda>_. I) (map_err_t h p) w" for w
    by (induction p arbitrary: w) auto
  then show ?thesis using assms by (auto simp: secured_def)
qed

lemma secured_for_each [secured_intros]:
  assumes "\<And>x. x \<in> set xs \<Longrightarrow> secured I R G (f x)" and "reflp R" and "stable_under I R"
  shows "secured I R G (for_each_t xs f)"
  using assms(1) by (induction xs) (auto intro: secured_then secured_pure assms(2,3))

lemma secured_if [secured_intros]: "secured I R G p \<Longrightarrow> secured I R G q \<Longrightarrow> secured I R G (if b then p else q)"
  by simp

lemma secured_case_option [secured_intros]:
  "secured I R G p \<Longrightarrow> (\<And>x. secured I R G (q x)) \<Longrightarrow> secured I R G (case v of None \<Rightarrow> p | Some x \<Rightarrow> q x)"
  by (cases v) auto

lemma secured_case_sum [secured_intros]:
  "(\<And>x. secured I R G (p x)) \<Longrightarrow> (\<And>x. secured I R G (q x)) \<Longrightarrow> secured I R G (case v of Inl x \<Rightarrow> p x | Inr x \<Rightarrow> q x)"
  by (cases v) auto

lemma secured_case_prod [secured_intros]: "(\<And>x y. secured I R G (q x y)) \<Longrightarrow> secured I R G (case v of (x, y) \<Rightarrow> q x y)"
  by (cases v) auto

section \<open>Pools\<close>

locale rely_guarantee =
  fixes rely :: "nat \<Rightarrow> 'w \<Rightarrow> 'w \<Rightarrow> bool" and guar :: "nat \<Rightarrow> 'w \<Rightarrow> 'w \<Rightarrow> bool"
  assumes rely_refl: "reflp (rely i)"
    and rely_trans: "transp (rely i)"
    and respects: "i \<noteq> j \<Longrightarrow> guar i w w' \<Longrightarrow> rely j w w'"
begin

definition all_safe :: "('w, 'a) pool \<times> 'w \<Rightarrow> bool" where
  "all_safe = (\<lambda>(ps, w). \<forall>i < length ps. safe (rely i) (guar i) anything (ps ! i) w)"

lemma safe_step:
  assumes "all_safe (ps, w)" and "pool_step k (ps, w) = (ps', w')"
  shows "all_safe (ps', w') \<and> (w' = w \<or> guar k w w')"
  using assms(2)
proof (cases rule: pool_step_cases)
  case 1
  then show ?thesis using assms(1) by simp
next
  case (2 f g)
  have k: "safe (rely k) (guar k) anything (Atom f g) w" using assms(1) 2(1,2) by (auto simp: all_safe_def)
  then have G: "guar k w w'" and s: "safe (rely k) (guar k) anything (g w) w'"
    using rely_refl [of k] 2(4) by (auto dest: reflpD)
  have "safe (rely i) (guar i) anything (ps' ! i) w'" if i: "i < length ps'" for i
  proof (cases "i = k")
    case True
    then show ?thesis using s 2(1,3) by simp
  next
    case False
    then have "k \<noteq> i" by simp
    then have "rely i w w'" by (rule respects) (rule G)
    moreover have "safe (rely i) (guar i) anything (ps ! i) w" using assms(1) i 2(3) by (simp add: all_safe_def)
    ultimately have "safe (rely i) (guar i) anything (ps ! i) w'" using safe_rely [OF _ _ rely_trans] by fast
    then show ?thesis using False 2(3) by simp
  qed
  then show ?thesis using G by (simp add: all_safe_def)
qed

text \<open>Every schedule moves the world along a relation that contains all guarantees.\<close>

lemma safe_exec:
  assumes "all_safe (ps, w)" and "reflp S" and "transp S" and "\<And>i w w'. guar i w w' \<Longrightarrow> S w w'"
  shows "all_safe (exec sched (ps, w)) \<and> S w (snd (exec sched (ps, w)))"
  using assms(1)
proof (induction sched arbitrary: ps w)
  case Nil
  then show ?case using assms(2) by (simp add: reflpD)
next
  case (Cons k sched)
  obtain ps' w' where step: "pool_step k (ps, w) = (ps', w')" by fastforce
  from safe_step [OF Cons.prems step] have safe: "all_safe (ps', w')" and S: "S w w'"
    using assms(2,4) by (auto dest: reflpD)
  from Cons.IH [OF safe] S show ?case using assms(3) by (auto simp: step dest: transpD)
qed

end

end
