(* ===== verification/Concurrent_Workers.thy ===== *)
theory Concurrent_Workers
  imports Concurrent_Tables Log_Stream Rely_Guarantee
begin

text \<open>
  The workers next to the requests. \<^verbatim>\<open>main.rs\<close> spawns five workers, each once, and each is its own task: their statements
  interleave with those of the requests and of each other. Every cycle is written here as a thread with at most one
  database statement in a step, as the handlers are in theory \<open>Concurrent_Requests\<close>; run alone, the thread is the cycle.
  \<open>backend\<close> is the pool of the whole process: the five workers, each for any number of ticks or connections, the
  transfers seen, the WebSockets that close, and the requests.
\<close>

section \<open>Keeper\<close>

definition remind_one_t :: "env \<Rightarrow> uuid \<Rightarrow> (world, app_error, unit) thread" where
  "remind_one_t E iid =
     bind_t (atom (attempt (send_email E ''invited@example.com'' NE_InvitationReminder None))) (\<lambda>r.
     case r of
       Inl e \<Rightarrow> ret_t ()
     | Inr _ \<Rightarrow>
         bind_t (atom (now E)) (\<lambda>t.
         bind_t (atom (attempt (sql E InternalError (\<lambda>_ _. mark_reminded iid t)))) (\<lambda>_. ret_t ())))"

definition send_invitation_reminders_t :: "env \<Rightarrow> (world, app_error, unit) thread" where
  "send_invitation_reminders_t E =
     bind_t (atom (now E)) (\<lambda>t.
     let threshold = wrap_i64 (t - as_i64 (invite_reminder_after_seconds (cfg E))) in
     bind_t (atom (attempt (sql_select E InternalError (reminder_rows threshold)))) (\<lambda>result.
     case result of
       Inl e \<Rightarrow> ret_t ()
     | Inr rows \<Rightarrow> for_each_t rows (remind_one_t E)))"

definition sweep_treasury_excess_t :: "env \<Rightarrow> (world, app_error, unit) thread" where
  "sweep_treasury_excess_t E =
     bind_t (atom (attempt (sql E InternalError (\<lambda>t _ d. Some (should_sweep t d, d))))) (\<lambda>result.
     case should_sweep_from_query_result result of
       None \<Rightarrow> ret_t ()
     | Some b \<Rightarrow>
         if \<not> b then ret_t ()
         else
           (case pubkey_from_str (lib E) (treasury_sweep_dest (cfg E)) of
              None \<Rightarrow> ret_t ()
            | Some sweep_dest \<Rightarrow>
                let reg = stablecoin_registry (cfg E) in
                then_t (for_each_t [usdc reg, usdt reg, pyusd reg] (\<lambda>c. atom (sweep_one E c)))
                (bind_t (atom (now E)) (\<lambda>t.
                 bind_t (atom (attempt (sql_update E InternalError (mark_swept t)))) (\<lambda>_. ret_t ())))))"

definition reconcile_one_t :: "env \<Rightarrow> uuid \<times> string \<Rightarrow> (world, app_error, unit) thread" where
  "reconcile_one_t E row =
     (case row of (payment_id, reference) \<Rightarrow>
      case pubkey_from_str (lib E) reference of
        None \<Rightarrow> ret_t ()
      | Some ref_pubkey \<Rightarrow>
          bind_t (atom (attempt (spawn_blocking E InternalError (\<lambda>k. rpc_account_data (orc E) k ref_pubkey \<noteq> None)))) (\<lambda>r.
          case r of
            Inl e \<Rightarrow> ret_t ()
          | Inr found \<Rightarrow>
              if found
              then bind_t (atom (attempt (sql E InternalError (\<lambda>t _ d. Some ((), mark_refund_pending payment_id t d))))) (\<lambda>_. ret_t ())
              else ret_t ()))"

definition reconcile_late_payments_t :: "env \<Rightarrow> (world, app_error, unit) thread" where
  "reconcile_late_payments_t E =
     bind_t (atom (now E)) (\<lambda>t.
     bind_t (atom (attempt (sql_select E InternalError (late_payments (wrap_i64 (t - 3600)))))) (\<lambda>r.
     for_each_t (case r of Inl e \<Rightarrow> [] | Inr payments \<Rightarrow> payments) (reconcile_one_t E)))"

definition cleanup_expired_auth_records_t :: "env \<Rightarrow> (world, app_error, unit) thread" where
  "cleanup_expired_auth_records_t E =
     bind_t (atom (now E)) (\<lambda>t.
     bind_t (atom (attempt (sql_update E InternalError (drop_old_nonces (wrap_i64 (t - 300)))))) (\<lambda>_.
     bind_t (atom (now E)) (\<lambda>t'.
     bind_t (atom (attempt (sql_update E InternalError (drop_old_tokens t')))) (\<lambda>_. ret_t ()))))"

text \<open>The scans with one statement, or none, are one step each.\<close>

definition keeper_tail_t :: "env \<Rightarrow> (world, app_error, unit) thread" where
  "keeper_tail_t E =
     then_t (sweep_treasury_excess_t E)
     (then_t (atom (expire_timed_out_payments E))
     (then_t (reconcile_late_payments_t E)
     (cleanup_expired_auth_records_t E)))"

definition keeper_cycle_t :: "env \<Rightarrow> (world, app_error, worker_status) thread" where
  "keeper_cycle_t E =
     then_t (send_invitation_reminders_t E)
     (then_t (atom (expire_stale_invitations E))
     (bind_t (atom (check_hot_wallet_balances E)) (\<lambda>st.
      if st = WS_Disabled then ret_t st
      else then_t (keeper_tail_t E) (ret_t st))))"

section \<open>Refunds and expiry\<close>

definition refund_one_t :: "env \<Rightarrow> payment_row \<times> agreement_party_row \<Rightarrow> (world, app_error, unit) thread" where
  "refund_one_t E row =
     (case row of (p, a) \<Rightarrow>
      let creator_pubkey = ap_creator_pubkey a in
      if creator_pubkey = [] then ret_t ()
      else
        bind_t (atom (attempt (execute_refund E creator_pubkey (refund_mint_of p) (refund_amount_of p)))) (\<lambda>refund_result.
        case refund_result of
          Inr sig \<Rightarrow>
            bind_t (atom (now E)) (\<lambda>t.
            bind_t (atom (attempt (sql_update E InternalError (mark_refunded (pay_id p) sig t)))) (\<lambda>u.
            case u of Inl e \<Rightarrow> atom (degraded_mark RetryBackoff) | Inr _ \<Rightarrow> ret_t ()))
        | Inl e \<Rightarrow> atom (degraded_mark RetryBackoff)))"

definition process_pending_refunds_t :: "env \<Rightarrow> (world, app_error, worker_status) thread" where
  "process_pending_refunds_t E =
     bind_t (atom (attempt (sql_select E InternalError pending_refunds))) (\<lambda>rows.
     case rows of
       Inl e \<Rightarrow> atom (report_degraded RpcUnavailable)
     | Inr rows \<Rightarrow>
         if rows = [] then ret_t WS_Healthy
         else then_t (for_each_t rows (refund_one_t E)) (ret_t WS_Healthy))"

definition expire_one_t :: "env \<Rightarrow> string \<times> string \<Rightarrow> (world, app_error, unit) thread" where
  "expire_one_t E row =
     (case row of (agreement_pda, creator_pubkey) \<Rightarrow>
      bind_t (atom (attempt (lock_agreement_for_expiry E agreement_pda))) (\<lambda>locked.
      case locked of
        Inr got \<Rightarrow>
          if got then
            bind_t (atom (attempt (submit_expire_transaction E agreement_pda creator_pubkey))) (\<lambda>r.
            case r of
              Inr _ \<Rightarrow> ret_t ()
            | Inl e \<Rightarrow>
                then_t (atom (degraded_mark RetryBackoff))
                (bind_t (atom (attempt (unlock_agreement_from_expiry E agreement_pda))) (\<lambda>u.
                 case u of Inr _ \<Rightarrow> ret_t () | Inl e \<Rightarrow> atom (degraded_mark RetryBackoff))))
          else ret_t ()
      | Inl e \<Rightarrow> atom (degraded_mark RetryBackoff)))"

definition expire_due_agreements_t :: "env \<Rightarrow> (world, app_error, worker_status) thread" where
  "expire_due_agreements_t E =
     bind_t (atom (now E)) (\<lambda>t.
     bind_t (atom (attempt (sql_select E InternalError (due_agreements t)))) (\<lambda>rows.
     case rows of
       Inl e \<Rightarrow> atom (report_degraded RpcUnavailable)
     | Inr rows \<Rightarrow>
         if rows = [] then ret_t WS_Healthy
         else then_t (for_each_t rows (expire_one_t E)) (ret_t WS_Healthy)))"

section \<open>Event listener\<close>

definition push_to_t :: "env \<Rightarrow> ws_event \<Rightarrow> string \<Rightarrow> (world, app_error, unit) thread" where
  "push_to_t E ev party =
     bind_t (atom (lookup_user_id E party)) (\<lambda>u.
     case u of None \<Rightarrow> ret_t () | Some user_id \<Rightarrow> bind_t (atom (send_to_user E user_id ev)) (\<lambda>_. ret_t ()))"

definition handle_create_agreement_t :: "env \<Rightarrow> parsed_event \<Rightarrow> (world, app_error, unit) thread" where
  "handle_create_agreement_t E event =
     (let agreement_pda = ev_agreement_pda event; cr = or_unknown (ev_creator event) in
      then_t (for_each_t (ev_parties event) (\<lambda>party.
        atom (sql E InternalError (\<lambda>t _ d. Some ((), insert_party party agreement_pda cr t d)))))
      (then_t (for_each_t (ev_parties event) (\<lambda>party. atom (enqueue_quietly E ''AgreementCreated'' agreement_pda party)))
      (for_each_t (ev_parties event) (push_to_t E (AgreementCreated agreement_pda)))))"

definition announce_signature_t :: "env \<Rightarrow> string \<Rightarrow> string \<Rightarrow> (world, app_error, unit) thread" where
  "announce_signature_t E agreement_pda signer =
     bind_t (atom (sql_select E InternalError (unsigned_count agreement_pda))) (\<lambda>n.
     let is_fully_signed = (n = 0);
         event_type = (if is_fully_signed then ''Completed'' else ''Signed'');
         ws_event = (if is_fully_signed then AgreementCompleted agreement_pda else AgreementSigned agreement_pda) in
     then_t (atom (enqueue_quietly E event_type agreement_pda signer))
     (bind_t (atom (sql_select E InternalError (parties_of agreement_pda))) (\<lambda>parties.
      for_each_t parties (push_to_t E ws_event))))"

definition handle_sign_agreement_t :: "env \<Rightarrow> parsed_event \<Rightarrow> (world, app_error, unit) thread" where
  "handle_sign_agreement_t E event =
     (let agreement_pda = ev_agreement_pda event; signer = or_unknown (ev_signer event) in
      bind_t (atom (sql E InternalError (\<lambda>t _ d.
        Some (signer \<in> set (parties_of agreement_pda d), record_signature agreement_pda signer t d)))) (\<lambda>found.
      if \<not> found then ret_t ()
      else announce_signature_t E agreement_pda signer))"

definition initiate_refund_if_eligible_t :: "env \<Rightarrow> string \<Rightarrow> (world, app_error, unit) thread" where
  "initiate_refund_if_eligible_t E agreement_pda =
     bind_t (atom (sql_select E InternalError (confirmed_payment agreement_pda))) (\<lambda>payment_id.
     case payment_id of
       None \<Rightarrow> ret_t ()
     | Some i \<Rightarrow> atom (sql E InternalError (\<lambda>t _ d. Some ((), mark_refund_pending i t d))))"

definition handle_cancellation_t :: "env \<Rightarrow> parsed_event \<Rightarrow> string \<Rightarrow> (world, app_error, unit) thread" where
  "handle_cancellation_t E event st =
     (let agreement_pda = ev_agreement_pda event in
      then_t (atom (sql_update E InternalError (set_agreement_status st agreement_pda)))
      (bind_t (atom (sql_select E InternalError (parties_of agreement_pda))) (\<lambda>parties.
       let event_type = (if st = ''Cancelled'' then ''Cancelled'' else ''Expired'');
           ws_event = (if st = ''Cancelled'' then AgreementCancelled agreement_pda else AgreementExpired agreement_pda) in
       then_t (for_each_t parties (\<lambda>party. atom (enqueue_quietly E event_type agreement_pda party)))
       (then_t (for_each_t parties (push_to_t E ws_event))
       (bind_t (attempt_t (initiate_refund_if_eligible_t E agreement_pda)) (\<lambda>_. ret_t ()))))))"

definition handle_vote_revoke_t :: "env \<Rightarrow> parsed_event \<Rightarrow> (world, app_error, unit) thread" where
  "handle_vote_revoke_t E event =
     (let agreement_pda = ev_agreement_pda event; signer = or_unknown (ev_signer event) in
      then_t (atom (enqueue_quietly E ''RevokeVote'' agreement_pda signer))
      (bind_t (atom (sql_select E InternalError (parties_of agreement_pda))) (\<lambda>parties.
       for_each_t parties (push_to_t E (AgreementRevokeVote agreement_pda)))))"

definition handle_event_t :: "env \<Rightarrow> parsed_event \<Rightarrow> (world, app_error, unit) thread" where
  "handle_event_t E event =
     (case ev_instruction event of
        CreateAgreement \<Rightarrow> handle_create_agreement_t E event
      | SignAgreement \<Rightarrow> handle_sign_agreement_t E event
      | CancelAgreement \<Rightarrow> handle_cancellation_t E event ''Cancelled''
      | ExpireAgreement \<Rightarrow> handle_cancellation_t E event ''Expired''
      | VoteRevoke \<Rightarrow> handle_vote_revoke_t E event)"

definition process_log_t :: "env \<Rightarrow> program_log \<Rightarrow> (world, app_error, unit) thread" where
  "process_log_t E entry =
     (case parse_logs E (pl_signature entry) (pl_slot entry) (pl_logs entry) of
        None \<Rightarrow> ret_t ()
      | Some event \<Rightarrow> bind_t (attempt_t (handle_event_t E event)) (\<lambda>_. ret_t ()))"

definition connect_and_listen_t ::
    "env \<Rightarrow> program_log list \<Rightarrow> worker_status \<Rightarrow> (world, app_error, bool \<times> worker_status) thread" where
  "connect_and_listen_t E received st =
     (case logs_service_new E (program_id (cfg E)) of
        None \<Rightarrow> ret_t (False, st)
      | Some _ \<Rightarrow>
          let st' = transition_to_healthy st in
          then_t (for_each_t received (process_log_t E)) (ret_t (True, st')))"

fun listener_run_t :: "env \<Rightarrow> program_log list list \<Rightarrow> worker_status \<Rightarrow> (world, app_error, worker_status) thread" where
  "listener_run_t E [] st = ret_t st"
| "listener_run_t E (session # sessions) st =
     bind_t (connect_and_listen_t E session st) (\<lambda>(_, st').
     bind_t (atom (transition_to_degraded st')) (\<lambda>st''. listener_run_t E sessions st''))"

section \<open>Notification worker\<close>

definition lookup_user_email_t :: "env \<Rightarrow> string \<Rightarrow> (world, app_error, (string \<times> byte list) option) thread" where
  "lookup_user_email_t E pubkey =
     bind_t (atom (lookup_user_id E pubkey)) (\<lambda>u.
     case u of
       None \<Rightarrow> ret_t None
     | Some user_id \<Rightarrow>
         bind_t (atom (attempt (sql_select E InternalError (contact_row user_id)))) (\<lambda>r.
         ret_t (case r of Inr (Some row) \<Rightarrow> open_email E row | _ \<Rightarrow> None)))"

definition mark_sent_or_retry_t :: "env \<Rightarrow> uuid \<Rightarrow> (world, app_error, unit) thread" where
  "mark_sent_or_retry_t E jid =
     bind_t (atom (attempt (mark_sent E jid))) (\<lambda>r.
     case r of
       Inl _ \<Rightarrow> bind_t (atom (attempt (increment_attempts E jid))) (\<lambda>_. ret_t ())
     | Inr _ \<Rightarrow> ret_t ())"

definition email_step_t :: "env \<Rightarrow> notification_row \<Rightarrow> (world, app_error, bool option) thread" where
  "email_step_t E job =
     bind_t (lookup_user_email_t E (nq_recipient_pubkey job)) (\<lambda>r.
     case r of
       None \<Rightarrow> ret_t (Some True)
     | Some (email, _) \<Rightarrow>
         (case event_of_type (nq_event_type job) of
            None \<Rightarrow> ret_t None
          | Some event \<Rightarrow>
              bind_t (atom (attempt (send_email E email event (Some (nq_agreement_pda job))))) (\<lambda>r.
              ret_t (Some (case r of Inr _ \<Rightarrow> True | Inl _ \<Rightarrow> False)))))"

definition deliver_job_t :: "env \<Rightarrow> notification_row \<Rightarrow> (world, app_error, unit) thread" where
  "deliver_job_t E job =
     bind_t (atom (lookup_user_id E (nq_recipient_pubkey job))) (\<lambda>u.
     case u of
       None \<Rightarrow> mark_sent_or_retry_t E (nq_id job)
     | Some user_id \<Rightarrow>
         bind_t (atom (send_to_user E user_id (build_ws_event job))) (\<lambda>ws_delivered.
         bind_t (email_step_t E job) (\<lambda>r.
         case r of
           None \<Rightarrow> ret_t ()
         | Some email_sent \<Rightarrow>
             if ws_delivered \<or> email_sent then mark_sent_or_retry_t E (nq_id job)
             else bind_t (atom (attempt (increment_attempts E (nq_id job)))) (\<lambda>_. ret_t ()))))"

definition notification_cycle_t :: "worker_status \<Rightarrow> env \<Rightarrow> (world, app_error, worker_status) thread" where
  "notification_cycle_t st E =
     bind_t (atom (attempt (fetch_pending_jobs E 10))) (\<lambda>r.
     case r of
       Inl _ \<Rightarrow> atom (transition_to_degraded st)
     | Inr jobs \<Rightarrow> then_t (for_each_t jobs (deliver_job_t E)) (ret_t (transition_to_healthy st)))"

fun notification_run_t :: "env \<Rightarrow> nat \<Rightarrow> worker_status \<Rightarrow> (world, app_error, worker_status) thread" where
  "notification_run_t E 0 st = ret_t st"
| "notification_run_t E (Suc n) st = bind_t (notification_cycle_t st E) (notification_run_t E n)"

section \<open>Run alone, a thread is its cycle\<close>

text \<open>The loop over ticks; an error of the cycle, which does not occur, would leave the status as it is.\<close>

fun worker_run_t :: "(world, app_error, worker_status) thread \<Rightarrow> nat \<Rightarrow> worker_status \<Rightarrow> (world, app_error, worker_status) thread" where
  "worker_run_t c 0 st = ret_t st"
| "worker_run_t c (Suc n) st =
     (if st = WS_Disabled then worker_run_t c n st
      else bind_t (attempt_t c) (\<lambda>r. case r of Inl e \<Rightarrow> worker_run_t c n st | Inr st' \<Rightarrow> worker_run_t c n st'))"

lemma alone_worker_run:
  "run_alone (worker_run_t c n st) w = (case worker_run (run_alone c) n st w of (st', w') \<Rightarrow> (Inr st', w'))"
proof (induction n arbitrary: st w)
  case 0
  then show ?case by (simp add: alone_simps ret_def)
next
  case (Suc n)
  then show ?case by (auto simp: alone_simps bindE_def attempt_def split: sum.splits prod.splits)
qed

lemmas worker_branch_congs = branch_congs sum.case_cong

lemma alone_reminders [alone_simps]: "run_alone (send_invitation_reminders_t E) = send_invitation_reminders E"
proof -
  have "run_alone (remind_one_t E i) = remind_one E i" for i
    by (simp add: remind_one_t_def remind_one_def alone_simps cong: worker_branch_congs)
  then show ?thesis
    by (simp add: send_invitation_reminders_t_def send_invitation_reminders_def alone_simps Let_def cong: worker_branch_congs)
qed

lemma alone_sweep [alone_simps]: "run_alone (sweep_treasury_excess_t E) = sweep_treasury_excess E"
  by (simp add: sweep_treasury_excess_t_def sweep_treasury_excess_def alone_simps Let_def cong: worker_branch_congs)

lemma alone_reconcile [alone_simps]: "run_alone (reconcile_late_payments_t E) = reconcile_late_payments E"
proof -
  have "run_alone (reconcile_one_t E row) = reconcile_one E row" for row
    by (cases row) (simp add: reconcile_one_t_def reconcile_one_def alone_simps cong: worker_branch_congs)
  then show ?thesis
    by (simp add: reconcile_late_payments_t_def reconcile_late_payments_def alone_simps cong: worker_branch_congs)
qed

lemma alone_keeper [alone_simps]: "run_alone (keeper_cycle_t E) = keeper_cycle E"
  by (simp add: keeper_cycle_t_def keeper_tail_t_def keeper_cycle_def keeper_tail_def cleanup_expired_auth_records_t_def
      cleanup_expired_auth_records_def alone_simps cong: worker_branch_congs)

lemma alone_refunds [alone_simps]: "run_alone (process_pending_refunds_t E) = process_pending_refunds E"
proof -
  have "run_alone (refund_one_t E row) = refund_one E row" for row
    by (cases row) (simp add: refund_one_t_def refund_one_def alone_simps Let_def cong: worker_branch_congs)
  then show ?thesis
    by (simp add: process_pending_refunds_t_def process_pending_refunds_def alone_simps cong: worker_branch_congs)
qed

lemma alone_expiry [alone_simps]: "run_alone (expire_due_agreements_t E) = expire_due_agreements E"
proof -
  have "run_alone (expire_one_t E row) = expire_one E row" for row
    by (cases row) (simp add: expire_one_t_def expire_one_def alone_simps cong: worker_branch_congs)
  then show ?thesis
    by (simp add: expire_due_agreements_t_def expire_due_agreements_def alone_simps cong: worker_branch_congs)
qed

lemma alone_push_to [alone_simps]: "run_alone (push_to_t E ev party) = push_to E ev party"
  by (simp add: push_to_t_def push_to_def alone_simps cong: worker_branch_congs)

lemma alone_handle_event [alone_simps]: "run_alone (handle_event_t E event) = handle_event E event"
  by (cases "ev_instruction event")
    (simp_all add: handle_event_t_def handle_event_def handle_create_agreement_t_def handle_create_agreement_def
      handle_sign_agreement_t_def handle_sign_agreement_def announce_signature_t_def announce_signature_def
      handle_cancellation_t_def handle_cancellation_def handle_cancel_agreement_def handle_expire_agreement_def
      handle_vote_revoke_t_def handle_vote_revoke_def initiate_refund_if_eligible_t_def initiate_refund_if_eligible_def
      alone_simps Let_def cong: worker_branch_congs)

lemma alone_listener [alone_simps]: "run_alone (listener_run_t E sessions st) = listener_run E sessions st"
proof (induction sessions arbitrary: st)
  case (Cons s sessions)
  have "run_alone (process_log_t E l) = process_log E l" for l
    by (simp add: process_log_t_def process_log_def alone_simps cong: worker_branch_congs)
  then have "run_alone (connect_and_listen_t E s st) = connect_and_listen E s st"
    by (simp add: connect_and_listen_t_def connect_and_listen_def alone_simps Let_def cong: worker_branch_congs)
  then show ?case by (simp add: alone_simps Cons.IH cong: worker_branch_congs)
qed (simp add: alone_simps)

lemma alone_notification [alone_simps]: "run_alone (notification_cycle_t st E) = notification_cycle st E"
proof -
  have retry: "run_alone (mark_sent_or_retry_t E j) = mark_sent_or_retry E j" for j
    by (simp add: mark_sent_or_retry_t_def mark_sent_or_retry_def alone_simps cong: worker_branch_congs)
  have email: "run_alone (email_step_t E job) = email_step E job" for job
    by (simp add: email_step_t_def email_step_def lookup_user_email_t_def lookup_user_email_def alone_simps
        cong: worker_branch_congs)
  have "run_alone (deliver_job_t E job) = deliver_job E job" for job
    by (simp add: deliver_job_t_def deliver_job_def alone_simps retry email cong: worker_branch_congs)
  then show ?thesis by (simp add: notification_cycle_t_def notification_cycle_def alone_simps cong: worker_branch_congs)
qed

text \<open>The loops of the three polling workers, from their first tick.\<close>

definition keeper_run_t :: "env \<Rightarrow> nat \<Rightarrow> (world, app_error, worker_status) thread" where
  "keeper_run_t E n = worker_run_t (keeper_cycle_t E) n WS_Healthy"

definition refund_run_t :: "env \<Rightarrow> nat \<Rightarrow> (world, app_error, worker_status) thread" where
  "refund_run_t E n = worker_run_t (process_pending_refunds_t E) n WS_Healthy"

definition expiry_run_t :: "env \<Rightarrow> nat \<Rightarrow> (world, app_error, worker_status) thread" where
  "expiry_run_t E n = worker_run_t (expire_due_agreements_t E) n WS_Healthy"

lemmas run_t_defs = keeper_run_t_def refund_run_t_def expiry_run_t_def

lemma alone_runs:
  "run_alone (keeper_run_t E n) w = (case keeper_run E n w of (st, w') \<Rightarrow> (Inr st, w'))"
  "run_alone (refund_run_t E n) w = (case refund_run E n w of (st, w') \<Rightarrow> (Inr st, w'))"
  "run_alone (expiry_run_t E n) w = (case expiry_run E n w of (st, w') \<Rightarrow> (Inr st, w'))"
  by (simp_all add: run_t_defs keeper_run_def refund_run_def expiry_run_def alone_worker_run alone_simps)

end
