(* ===== verification/Concurrent_Backend.thy ===== *)
theory Concurrent_Backend
  imports Concurrent_Workers
begin

text \<open>
  The whole process, interleaved statement by statement: the pool \<open>backend\<close>. The locale \<open>worker_frame\<close> extends
  \<open>statement_frame\<close>, the relation every step of every request is in, by the statements of the workers, except the one
  that sends a payment to the refund queue: \<open>UPDATE ... SET status = 'refund_pending' WHERE id = $1\<close> has no condition on
  the status and is right only because the status the worker read before it is still there. Relations that do not look
  at that statement (\<open>backend_frame\<close>) hold of every step of every thread of the process. For properties of the tables
  the laws are given once more as laws of the statements themselves (\<open>worker_property\<close>, \<open>every_property\<close>).
\<close>

section \<open>The process\<close>

text \<open>What is put on the process: ticks and connections of the workers, transfers, closed sockets, requests.\<close>

record workload =
  wl_keeper :: nat
  wl_sessions :: "program_log list list"
  wl_refund :: nat
  wl_expiry :: nat
  wl_notification :: nat
  wl_transfers :: "(string \<times> string \<times> string \<times> int) list"
  wl_closed :: "uuid list"
  wl_requests :: "(headers \<times> request) list"

definition transfer_t :: "env \<Rightarrow> string \<times> string \<times> string \<times> int \<Rightarrow> (world, nat, unit) thread" where
  "transfer_t E x = (case x of (ref, sg, mk, amt) \<Rightarrow> public_t (atom (confirm_payment_atomic E ref sg mk amt)))"

definition closed_t :: "uuid \<Rightarrow> (world, nat, unit) thread" where
  "closed_t u = atom (remove_user_channel u)"

definition backend :: "env \<Rightarrow> workload \<Rightarrow> (world, nat + unit) pool" where
  "backend E l =
     [public_t (keeper_run_t E (wl_keeper l)),
      public_t (listener_run_t E (wl_sessions l) WS_Healthy),
      public_t (refund_run_t E (wl_refund l)),
      public_t (expiry_run_t E (wl_expiry l)),
      public_t (notification_run_t E (wl_notification l) WS_Healthy)] @
     map (transfer_t E) (wl_transfers l) @ map closed_t (wl_closed l) @ serve_all E (wl_requests l)"

text \<open>The thread of a request of the workload.\<close>

definition request_thread :: "workload \<Rightarrow> nat \<Rightarrow> nat" where
  "request_thread l i = 5 + length (wl_transfers l) + length (wl_closed l) + i"

lemma backend_split:
  "\<exists>qs. backend E l = qs @ serve_all E (wl_requests l) \<and> (\<forall>i. request_thread l i = length qs + i)"
  by (intro exI [of _ "[public_t (keeper_run_t E (wl_keeper l)), public_t (listener_run_t E (wl_sessions l) WS_Healthy),
      public_t (refund_run_t E (wl_refund l)), public_t (expiry_run_t E (wl_expiry l)),
      public_t (notification_run_t E (wl_notification l) WS_Healthy)] @
     map (transfer_t E) (wl_transfers l) @ map closed_t (wl_closed l)"])
    (simp add: backend_def request_thread_def)

lemma backend_request:
  assumes "i < length (wl_requests l)"
  shows "request_thread l i < length (backend E l)"
    "backend E l ! request_thread l i = serve_t E (fst (wl_requests l ! i)) (snd (wl_requests l ! i))"
proof -
  obtain qs where b: "backend E l = qs @ serve_all E (wl_requests l)" and n: "\<forall>i. request_thread l i = length qs + i"
    using backend_split by blast
  show "request_thread l i < length (backend E l)" using assms by (simp add: b n serve_all_def)
  show "backend E l ! request_thread l i = serve_t E (fst (wl_requests l ! i)) (snd (wl_requests l ! i))"
    using assms by (simp add: b n serve_all_def case_prod_beta)
qed

lemma request_thread_inj [simp]: "request_thread l i = request_thread l j \<longleftrightarrow> i = j"
  by (simp add: request_thread_def)

section \<open>The keeper and the listener\<close>

text \<open>
  Both consist of steps within a guarantee, and of one part that may have to rely on the others: the keeper's
  reconciliation and the listener's refund.
\<close>

lemma always_worker_run [always_intros]: "always R c \<Longrightarrow> always R (worker_run_t c n st)"
  by (induction n arbitrary: st) (auto intro!: always_intros)

lemma secured_worker_run:
  assumes "secured I R G c" and "reflp R" and "stable_under I R"
  shows "secured I R G (worker_run_t c n st)"
  by (induction n arbitrary: st) (auto intro!: secured_intros assms)

lemma secured_public: "secured I R G p \<Longrightarrow> reflp R \<Longrightarrow> stable_under I R \<Longrightarrow> secured I R G (public_t p)"
  unfolding public_t_def by (intro secured_intros)

lemma secured_keeper:
  assumes R: "reflp R" and rely: "stable_under I R" and guar: "stable_under I G"
    and parts: "always G (send_invitation_reminders_t E)" "keeps G (expire_stale_invitations E)"
      "always G (sweep_treasury_excess_t E)" "keeps G (expire_timed_out_payments E)"
      "always G (cleanup_expired_auth_records_t E)" "keeps G (check_hot_wallet_balances E)"
    and reconcile: "secured I R G (reconcile_late_payments_t E)"
  shows "secured I R G (public_t (worker_run_t (keeper_cycle_t E) n st))"
proof -
  note a = secured_always [OF always_atom rely guar] and w = parts(1,3,5) [THEN secured_always, OF rely guar]
  have "secured I R G (keeper_tail_t E)"
    unfolding keeper_tail_t_def by (intro secured_intros R reconcile w a parts)
  then have "secured I R G (keeper_cycle_t E)"
    unfolding keeper_cycle_t_def by (intro secured_intros R rely w a parts)
  then show ?thesis by (intro secured_public secured_worker_run R rely)
qed

lemma secured_listener:
  assumes R: "reflp R" and rely: "stable_under I R" and guar: "stable_under I G"
    and parts: "\<And>ev. always G (handle_create_agreement_t E ev)" "\<And>ev. always G (handle_sign_agreement_t E ev)"
      "\<And>ev. always G (handle_vote_revoke_t E ev)" "\<And>ev party. always G (push_to_t E ev party)"
      "\<And>pda s. keeps G (sql_update E InternalError (set_agreement_status s pda))"
      "\<And>ty pda party. keeps G (enqueue_quietly E ty pda party)" "\<And>pda. keeps G (sql_select E InternalError (parties_of pda))"
      "\<And>s. keeps G (transition_to_degraded s :: (world, app_error, worker_status) act)"
    and refund: "\<And>pda. secured I R G (initiate_refund_if_eligible_t E pda)"
  shows "secured I R G (public_t (listener_run_t E sessions st))"
proof -
  note a = secured_always [OF always_atom rely guar] and w = parts(1-4) [THEN secured_always, OF rely guar]
  have cancel: "secured I R G (handle_cancellation_t E event s)" for event s
    unfolding handle_cancellation_t_def Let_def
    by (intro secured_intros R rely refund w a parts)
  have "secured I R G (handle_event_t E event)" for event
    unfolding handle_event_t_def by (cases "ev_instruction event") (simp_all add: cancel w)
  then have "secured I R G (process_log_t E entry)" for entry
    unfolding process_log_t_def by (intro secured_intros R rely)
  then have listen: "secured I R G (connect_and_listen_t E session s)" for session s
    unfolding connect_and_listen_t_def Let_def by (intro secured_intros R rely)
  have "secured I R G (listener_run_t E sessions st)"
  proof (induction sessions arbitrary: st)
    case (Cons session sessions)
    show ?case unfolding listener_run_t.simps by (intro secured_intros R listen a parts Cons.IH)
  qed (simp, intro secured_intros rely)
  then show ?thesis by (intro secured_public R rely)
qed

text \<open>With nothing to rely on, a secured thread is one whose steps are all within the guarantee.\<close>

lemma always_secured: "secured (\<lambda>_. True) (\<lambda>_ _. True) G p \<Longrightarrow> always G p"
proof -
  have "safe (\<lambda>_ _. True) G (\<lambda>_ _. True) p w \<Longrightarrow> always G p" for w
    by (induction p arbitrary: w) auto
  then show "secured (\<lambda>_. True) (\<lambda>_ _. True) G p \<Longrightarrow> always G p" by (auto simp: secured_def)
qed

lemma secured_trivial: "always G p \<Longrightarrow> secured (\<lambda>_. True) (\<lambda>_ _. True) G p"
  by (rule secured_always) (simp_all add: stable_under_def)

section \<open>Relations every step is in\<close>

text \<open>One law for each statement the workers execute.\<close>

locale worker_frame = statement_frame +
  assumes r_health: "R w (w\<lparr>health := h\<rparr>)"
    and b_reminded: "keeps R (sql E InternalError (\<lambda>_ _. mark_reminded iid tm))"
    and b_stale: "keeps R (sql_update E InternalError (expire_invitations tm))"
    and b_timed_out: "keeps R (sql_update E InternalError (expire_payments tm))"
    and b_swept: "keeps R (sql_update E InternalError (mark_swept tm))"
    and b_old_nonces: "keeps R (sql_update E InternalError (drop_old_nonces tm))"
    and b_old_tokens: "keeps R (sql_update E InternalError (drop_old_tokens tm))"
    and b_refunded: "keeps R (sql_update E InternalError (mark_refunded pid sig tm))"
    and b_transfer: "keeps R (confirm_payment_atomic E ref sig mk amt)"
    and b_lock: "keeps R (lock_agreement_for_expiry E pda)"
    and b_unlock: "keeps R (unlock_agreement_from_expiry E pda)"
    and b_party: "keeps R (sql E InternalError (\<lambda>t _ d. Some ((), insert_party party pda cr t d)))"
    and b_signature: "keeps R (sql E InternalError (\<lambda>t _ d.
        Some (signer \<in> set (parties_of pda d), record_signature pda signer t d)))"
    and b_status: "keeps R (sql_update E InternalError (set_agreement_status st pda))"
    and b_attempts: "keeps R (increment_attempts E jid)"
begin

lemma keeps_emit: "keeps R (emit x :: (world, app_error, unit) act)"
  by (auto intro!: keepsI simp: act_simps r_outbox)

lemma keeps_health:
  "keeps R (report_degraded r)" "keeps R (degraded_mark r)"
  "keeps R (transition_to_degraded s :: (world, app_error, worker_status) act)"
proof -
  have m: "keeps R (modify (\<lambda>w. w\<lparr>health := mark_degraded (health w)\<rparr>) :: (world, app_error, unit) act)"
    by (auto intro!: keepsI simp: act_simps r_health)
  show "keeps R (report_degraded r)" "keeps R (degraded_mark r)"
    by (rule keeps_degraded [OF frame r_health])+
  show "keeps R (transition_to_degraded s :: (world, app_error, worker_status) act)"
    unfolding transition_to_degraded_def by (intro keeps_intros frame m)
qed

lemma keeper_parts:
  "always R (send_invitation_reminders_t E)" "keeps R (expire_stale_invitations E)"
  "always R (sweep_treasury_excess_t E)" "keeps R (expire_timed_out_payments E)"
  "always R (cleanup_expired_auth_records_t E)" "keeps R (check_hot_wallet_balances E)"
proof -
  have "always R (remind_one_t E i)" for i
    unfolding remind_one_t_def by (intro always_intros keeps_intros frame r_outbox b_reminded)
  then show "always R (send_invitation_reminders_t E)"
    unfolding send_invitation_reminders_t_def Let_def by (intro always_intros keeps_intros frame)
  show "keeps R (expire_stale_invitations E)" "keeps R (expire_timed_out_payments E)"
    unfolding expire_stale_invitations_def expire_timed_out_payments_def by (intro keeps_intros frame b_stale b_timed_out)+
  have "keeps R (sql E InternalError (\<lambda>t _ d. Some (should_sweep t d, d)))"
    by (rule keeps_sql [OF frame]) (auto simp: frame_tick [OF frame, unfolded tick_on_def] tick_on_def)
  then show "always R (sweep_treasury_excess_t E)"
    unfolding sweep_treasury_excess_t_def sweep_one_def Let_def by (intro always_intros keeps_intros frame b_swept)
  show "always R (cleanup_expired_auth_records_t E)"
    unfolding cleanup_expired_auth_records_t_def by (intro always_intros keeps_intros frame b_old_nonces b_old_tokens)
  have "keeps R (modify (\<lambda>w. w\<lparr>health := mark_degraded (health w)\<rparr>) :: (world, app_error, unit) act)"
    by (auto intro!: keepsI simp: act_simps r_health)
  then show "keeps R (check_hot_wallet_balances E)"
    unfolding check_hot_wallet_balances_def check_treasury_def Let_def by (intro keeps_intros frame)
qed

lemma always_refunds: "always R (process_pending_refunds_t E)"
proof -
  have "always R (refund_one_t E row)" for row
    unfolding refund_one_t_def Let_def by (intro always_intros keeps_intros frame keeps_emit keeps_health b_refunded)
  then show ?thesis unfolding process_pending_refunds_t_def by (intro always_intros keeps_intros frame keeps_health)
qed

lemma always_expiry: "always R (expire_due_agreements_t E)"
proof -
  have "always R (expire_one_t E row)" for row
    unfolding expire_one_t_def by (intro always_intros keeps_intros frame keeps_emit keeps_health b_lock b_unlock)
  then show ?thesis unfolding expire_due_agreements_t_def by (intro always_intros keeps_intros frame keeps_health)
qed

lemma keeps_queue: "keeps R (enqueue_quietly E ty pda party)"
  unfolding enqueue_quietly_def by (intro keeps_intros frame a_enqueue)

lemma always_push: "always R (push_to_t E ev party)"
  unfolding push_to_t_def lookup_user_id_def by (intro always_intros keeps_intros frame r_outbox)

lemma always_events:
  "always R (handle_create_agreement_t E event)" "always R (handle_sign_agreement_t E event)"
  "always R (handle_vote_revoke_t E event)"
  unfolding handle_create_agreement_t_def handle_sign_agreement_t_def announce_signature_t_def handle_vote_revoke_t_def Let_def
  by (intro always_intros keeps_intros frame keeps_queue always_push b_party b_signature)+

lemma always_notification: "always R (notification_run_t E n st)"
proof -
  have "always R (deliver_job_t E job)" for job
    unfolding deliver_job_t_def email_step_t_def lookup_user_email_t_def mark_sent_or_retry_t_def lookup_user_id_def
    by (intro always_intros keeps_intros frame r_outbox b_attempts)
  then have "always R (notification_cycle_t st E)" for st
    unfolding notification_cycle_t_def by (intro always_intros keeps_intros frame keeps_health)
  then show ?thesis by (induction n arbitrary: st) (auto intro!: always_intros)
qed

text \<open>All threads but those of the keeper and the listener.\<close>

lemma always_other_threads: "\<forall>p \<in> set (drop 2 (backend E l)). always R p"
proof -
  have "always R (transfer_t E x)" for x
    unfolding transfer_t_def by (intro always_intros b_transfer)
  moreover have "always R (closed_t u)" for u
    unfolding closed_t_def remove_user_channel_def
    by (intro always_intros) (auto intro!: keepsI simp: act_simps r_channels)
  ultimately show ?thesis
    using serve_all_always always_notification always_refunds always_expiry
    by (auto simp: backend_def run_t_defs intro!: always_intros)
qed

end

text \<open>With the statement that sends a payment to the refund queue: every thread of the process.\<close>

locale backend_frame = worker_frame +
  assumes b_refund_pending: "keeps R (sql E InternalError (\<lambda>t _ d. Some ((), mark_refund_pending pid t d)))"
begin

lemma always_keeper: "always R (public_t (worker_run_t (keeper_cycle_t E) n st))"
proof -
  have "always R (reconcile_one_t E row)" for row
    unfolding reconcile_one_t_def by (intro always_intros keeps_intros frame b_refund_pending)
  then have "always R (reconcile_late_payments_t E)"
    unfolding reconcile_late_payments_t_def by (intro always_intros keeps_intros frame)
  from secured_trivial [OF this] show ?thesis
    by (intro always_secured secured_keeper keeper_parts) (simp_all add: stable_under_def reflp_def)
qed

lemma always_listener: "always R (public_t (listener_run_t E sessions st))"
proof -
  have "always R (initiate_refund_if_eligible_t E pda)" for pda
    unfolding initiate_refund_if_eligible_t_def by (intro always_intros keeps_intros frame b_refund_pending)
  then have refund: "secured (\<lambda>_. True) (\<lambda>_ _. True) R (initiate_refund_if_eligible_t E pda)" for pda
    by (rule secured_trivial)
  show ?thesis
    by (intro always_secured secured_listener always_events always_push keeps_queue b_status keeps_health refund
        keeps_sql_select frame) (simp_all add: stable_under_def reflp_def)
qed

lemma backend_always: "\<forall>p \<in> set (backend E l). always R p"
  using always_other_threads [of l] always_keeper always_listener by (simp add: backend_def run_t_defs)

lemma backend_interleaved: "R w (snd (exec sched (backend E l, w)))"
  using exec_always [OF backend_always frame_reflp [OF frame] frame_transp [OF frame]] by blast

end

section \<open>Properties of the tables\<close>

locale worker_property = statement_property +
  assumes s_reminded: "mark_reminded i t d = Some (x, d') \<Longrightarrow> P d \<Longrightarrow> P d'"
    and s_stale: "P d \<Longrightarrow> P (expire_invitations t d)"
    and s_timed_out: "P d \<Longrightarrow> P (expire_payments t d)"
    and s_refunded: "P d \<Longrightarrow> P (mark_refunded i sig t d)"
    and s_transfer: "confirm_stmt ref sig mk amt t d = Some (b, d') \<Longrightarrow> P d \<Longrightarrow> P d'"
    and s_old_nonces: "P d \<Longrightarrow> P (drop_old_nonces t d)"
    and s_old_tokens: "P d \<Longrightarrow> P (drop_old_tokens t d)"
    and s_parties: "P (d\<lparr>agreement_parties := rows\<rparr>) = P d"
    and s_sweep: "P (d\<lparr>sweep_config := cfgs\<rparr>) = P d"

sublocale worker_property \<subseteq> work: worker_frame E "db_frame P"
proof
  show "keeps (db_frame P) (sql E InternalError (\<lambda>_ _. mark_reminded iid tm))" for iid tm
    by (rule keeps_db_frame_sql) (rule s_reminded)
  show "keeps (db_frame P) (confirm_payment_atomic E ref sig mk amt)" for ref sig mk amt
    unfolding confirm_payment_atomic_def by (rule keeps_db_frame_sql) (rule s_transfer)
  show "keeps (db_frame P) (lock_agreement_for_expiry E pda)" "keeps (db_frame P) (unlock_agreement_from_expiry E pda)" for pda
    unfolding lock_agreement_for_expiry_def unlock_agreement_from_expiry_def
    by (auto intro!: keeps_db_frame_sql keeps_db_frame_update simp: move_parties_def s_parties)
  show "keeps (db_frame P) (sql E InternalError (\<lambda>t _ d. Some ((), insert_party party pda cr t d)))" for party pda cr
    by (rule keeps_db_frame_sql) (auto simp: insert_party_def s_parties split: if_splits)
  show "keeps (db_frame P) (sql E InternalError (\<lambda>t _ d.
      Some (signer \<in> set (parties_of pda d), record_signature pda signer t d)))" for signer pda
    by (rule keeps_db_frame_sql) (auto simp: record_signature_def s_parties)
  show "keeps (db_frame P) (increment_attempts E jid)" for jid
    unfolding increment_attempts_def by (intro keeps_db_frame_sql) (auto simp: bump_attempts_def s_queue split: if_splits)
qed (rule keeps_db_frame_update, (erule s_stale s_timed_out s_refunded s_old_nonces s_old_tokens
    | simp add: mark_swept_def set_agreement_status_def s_sweep s_parties) | simp add: db_frame_def)+

locale every_property = worker_property +
  assumes s_refund_pending: "P d \<Longrightarrow> P (mark_refund_pending i t d)"

sublocale every_property \<subseteq> all: backend_frame E "db_frame P"
proof
  show "keeps (db_frame P) (sql E InternalError (\<lambda>t _ d. Some ((), mark_refund_pending pid t d)))" for pid
    by (rule keeps_db_frame_sql) (auto intro: s_refund_pending)
qed

context every_property
begin

lemma backend_always_db: "\<forall>p \<in> set (backend E l). always (db_frame P) p"
  by (rule all.backend_always)

lemma backend_keeps: "P (db w) \<Longrightarrow> P (db (snd (exec sched (backend E l, w))))"
  using all.backend_interleaved [of w sched l] by (simp add: db_frame_def)

end

end
