(* ===== verification/Concurrent_System.thy ===== *)
theory Concurrent_System
  imports Concurrent_Backend
begin

text \<open>
  What holds of the tables while the whole process runs: the invariant of the system and the life cycles. Most parts
  of the invariant are kept by every statement of every thread (\<open>every_property\<close> of theory \<open>Concurrent_Backend\<close>). For the
  life cycle of payments the keeper and the listener rely on the others (theory \<open>Rely_Guarantee\<close>): expired payments are
  the keeper's, confirmed payments the listener's.
\<close>

section \<open>Properties every statement keeps\<close>

interpretation auth_all: every_property E auth_inv for E
  by unfold_locales (auto simp: auth_inv_def keeper_statements mark_refunded_def confirm_stmt_def Let_def distinct_del_where
      sql_list split: if_splits)

interpretation contact_all: every_property E contact_inv for E
  by unfold_locales (auto simp: contact_inv_def keeper_statements mark_refunded_def confirm_stmt_def Let_def split: if_splits)

interpretation name_all: every_property E names_inv for E
  by unfold_locales (auto simp: names_inv_def keeper_statements mark_refunded_def confirm_stmt_def Let_def split: if_splits)

text \<open>Drafts and invitations.\<close>

lemma draft_all:
  assumes law: "serde_law (lib E)"
  shows "every_property E (\<lambda>d. draft_inv E d \<and> invitations_evolve d0 d)" (is "every_property E ?P")
proof (intro every_property.intro worker_property.intro draft_req [OF law] worker_property_axioms.intro
    every_property_axioms.intro)
  show "?P d'" if "mark_reminded i t d = Some (x, d')" "?P d" for i t d x d'
    using that draft_inv_reminded invitations_evolve_reminded evolves_trans by blast
  show "?P (expire_invitations t d)" if "?P d" for t d
    using that draft_inv_stale invitations_evolve_stale evolves_trans by blast
qed (auto simp: draft_inv_def evolves_def keeper_statements mark_refunded_def confirm_stmt_def Let_def split: if_splits)

section \<open>Payments\<close>

text \<open>The statuses of the payments with an identifier; and that payments with a status keep it.\<close>

definition status_at :: "uuid \<Rightarrow> database \<Rightarrow> string set" where
  "status_at i d = pay_status ` {p \<in> set (agreement_payments d). pay_id p = i}"

definition stays :: "string \<Rightarrow> database \<Rightarrow> database \<Rightarrow> bool" where
  "stays s d d' \<longleftrightarrow> (\<forall>i. status_at i d = {s} \<longrightarrow> status_at i d' = {s})"

lemma stays_refl: "stays s d d"
  by (simp add: stays_def)

lemma stays_trans: "stays s d d1 \<Longrightarrow> stays s d1 d2 \<Longrightarrow> stays s d d2"
  by (simp add: stays_def)

lemma status_at_update:
  assumes "\<And>p. pay_id (f p) = pay_id p"
    and "\<And>p. p \<in> set (agreement_payments d) \<Longrightarrow> pay_id p = i \<Longrightarrow> Q p \<Longrightarrow> pay_status (f p) = pay_status p"
  shows "status_at i (d\<lparr>agreement_payments := upd_where Q f (agreement_payments d)\<rparr>) = status_at i d"
proof -
  let ?S = "{p \<in> set (agreement_payments d). pay_id p = i}"
  have rows: "{p \<in> set (upd_where Q f (agreement_payments d)). pay_id p = i} = (\<lambda>p. if Q p then f p else p) ` ?S"
    by (auto simp: in_upd_where assms(1))
  have "pay_status ` (\<lambda>p. if Q p then f p else p) ` ?S = pay_status ` ?S"
    unfolding image_image using assms(2) by (intro image_cong) auto
  then show ?thesis unfolding status_at_def using rows by simp
qed

lemma stays_update:
  assumes "\<And>p. pay_id (f p) = pay_id p"
    and "\<And>p. p \<in> set (agreement_payments d) \<Longrightarrow> Q p \<Longrightarrow> pay_status p = s \<Longrightarrow> pay_status (f p) = s"
  shows "stays s d (d\<lparr>agreement_payments := upd_where Q f (agreement_payments d)\<rparr>)"
  unfolding stays_def
proof (intro allI impI)
  fix i assume s: "status_at i d = {s}"
  have "status_at i (d\<lparr>agreement_payments := upd_where Q f (agreement_payments d)\<rparr>) = status_at i d"
  proof (rule status_at_update [OF assms(1)])
    fix p assume p: "p \<in> set (agreement_payments d)" "pay_id p = i" "Q p"
    then have "pay_status p = s" using s by (auto simp: status_at_def)
    with p assms(2) show "pay_status (f p) = pay_status p" by simp
  qed
  with s show "status_at i (d\<lparr>agreement_payments := upd_where Q f (agreement_payments d)\<rparr>) = {s}" by simp
qed

text \<open>From any earlier state: the invariant, the life cycle, and that expired and confirmed payments are as they were.\<close>

definition pay_ok :: "database \<Rightarrow> database \<Rightarrow> bool" where
  "pay_ok d0 d \<longleftrightarrow> pay_inv d \<and> payments_evolve d0 d \<and> stays ''expired'' d0 d \<and> stays ''confirmed'' d0 d"

lemma pay_ok_refl: "pay_inv d \<Longrightarrow> pay_ok d d"
  by (simp add: pay_ok_def evolves_refl stays_refl)

lemma pay_ok_step:
  "pay_ok d0 d \<Longrightarrow> (pay_inv d \<Longrightarrow> pay_inv d' \<and> payments_evolve d d') \<Longrightarrow> stays ''expired'' d d' \<Longrightarrow> stays ''confirmed'' d d' \<Longrightarrow> pay_ok d0 d'"
  using evolves_trans stays_trans unfolding pay_ok_def by blast

lemma pay_ok_blind:
  "pay_ok d0 (d\<lparr>user_accounts := q0\<rparr>) = pay_ok d0 d" "pay_ok d0 (d\<lparr>auth_wallet := q1\<rparr>) = pay_ok d0 d"
  "pay_ok d0 (d\<lparr>auth_oauth := q2\<rparr>) = pay_ok d0 d" "pay_ok d0 (d\<lparr>user_contacts := q3\<rparr>) = pay_ok d0 d"
  "pay_ok d0 (d\<lparr>siws_nonces := q4\<rparr>) = pay_ok d0 d" "pay_ok d0 (d\<lparr>refresh_tokens := q5\<rparr>) = pay_ok d0 d"
  "pay_ok d0 (d\<lparr>user_agreement_counts := q6\<rparr>) = pay_ok d0 d" "pay_ok d0 (d\<lparr>agreement_drafts := q7\<rparr>) = pay_ok d0 d"
  "pay_ok d0 (d\<lparr>party_invitations := q8\<rparr>) = pay_ok d0 d" "pay_ok d0 (d\<lparr>notification_queue := q9\<rparr>) = pay_ok d0 d"
  "pay_ok d0 (d\<lparr>agreement_parties := q10\<rparr>) = pay_ok d0 d" "pay_ok d0 (d\<lparr>sweep_config := q11\<rparr>) = pay_ok d0 d"
  by (simp_all add: pay_ok_def pay_inv_def evolves_def stays_def status_at_def)

lemmas payment_tables_defs =
  statement_defs update_draft_def mark_reminded_def expire_invitations_def drop_old_nonces_def drop_old_tokens_def

interpretation pay_work: worker_property E "pay_ok d0" for E d0
proof
  show "keeps (db_frame (pay_ok d0)) (accept_tx E pk tok t)" for pk tok t
    by (rule keeps_accept_tx_other) (simp_all add: pay_ok_blind)
  show "pay_ok d0 (confirmed_pda i pda d)" if "pay_ok d0 d" for i pda d
  proof (rule pay_ok_step [OF that])
    show "pay_inv (confirmed_pda i pda d) \<and> payments_evolve d (confirmed_pda i pda d)" if "pay_inv d"
      using that payment_req.s_confirmed [of d d i pda] by (simp add: evolves_refl)
  qed (unfold confirmed_pda_def, (rule stays_update; simp)+)
  show "pay_ok d0 (expire_payments t d)" if "pay_ok d0 d" for t d
  proof (rule pay_ok_step [OF that])
    show "pay_inv (expire_payments t d) \<and> payments_evolve d (expire_payments t d)" if "pay_inv d"
      using payments_timed_out [OF that] by simp
  qed (unfold expire_payments_def, (rule stays_update; auto)+)
  show "pay_ok d0 (mark_refunded i sig t d)" if "pay_ok d0 d" for i sig t d
  proof (rule pay_ok_step [OF that])
    show "pay_inv (mark_refunded i sig t d) \<and> payments_evolve d (mark_refunded i sig t d)" if "pay_inv d"
      using that payments_evolve_refunded unfolding mark_refunded_def by (subst pay_inv_status_update) auto
  qed (unfold mark_refunded_def, (rule stays_update; auto)+)
  show "pay_ok d0 d'" if "confirm_stmt ref sig mk amt t d = Some (b, d')" "pay_ok d0 d" for ref sig mk amt t d b d'
  proof (rule pay_ok_step [OF that(2)])
    show "pay_inv d' \<and> payments_evolve d d'" if "pay_inv d"
      using confirm_stmt_Some [OF that] \<open>confirm_stmt ref sig mk amt t d = Some (b, d')\<close> by blast
  qed (use that(1) in \<open>auto simp: confirm_stmt_def Let_def split: if_splits intro!: stays_update\<close>)
qed (rule keeps_session_other; simp add: pay_ok_blind
  | auto simp: payment_tables_defs pay_ok_blind split: if_splits)+

text \<open>
  A step as seen by the payments: it keeps the invariant and the life cycle, and payments with a status in \<open>S\<close> stay.
\<close>

definition pay_rel :: "string set \<Rightarrow> world \<Rightarrow> world \<Rightarrow> bool" where
  "pay_rel S w w' \<longleftrightarrow> (pay_inv (db w) \<longrightarrow>
     pay_inv (db w') \<and> payments_evolve (db w) (db w') \<and> (\<forall>s \<in> S. stays s (db w) (db w')))"

lemma pay_rel_refl: "reflp (pay_rel S)"
  by (simp add: reflp_def pay_rel_def evolves_refl stays_refl)

lemma pay_rel_trans: "transp (pay_rel S)"
  unfolding transp_def pay_rel_def using evolves_trans stays_trans by blast

lemma pay_rel_mono: "pay_rel S w w' \<Longrightarrow> T \<subseteq> S \<Longrightarrow> pay_rel T w w'"
  by (auto simp: pay_rel_def)

lemma pay_rel_same: "db w' = db w \<Longrightarrow> pay_rel S w w'"
  by (simp add: pay_rel_def evolves_refl stays_refl)

lemma pay_rel_ok: "(\<And>d0. db_frame (pay_ok d0) w w') \<Longrightarrow> S \<subseteq> {''expired'', ''confirmed''} \<Longrightarrow> pay_rel S w w'"
  using pay_ok_refl [of "db w"] unfolding db_frame_def pay_ok_def pay_rel_def by blast

lemma always_pay_rel:
  "(\<And>d0. always (db_frame (pay_ok d0)) p) \<Longrightarrow> S \<subseteq> {''expired'', ''confirmed''} \<Longrightarrow> always (pay_rel S) p"
  by (rule always_mono [OF always_all]) (auto intro: pay_rel_ok)

lemma keeps_pay_rel:
  "(\<And>d0. keeps (db_frame (pay_ok d0)) m) \<Longrightarrow> S \<subseteq> {''expired'', ''confirmed''} \<Longrightarrow> keeps (pay_rel S) m"
  by (auto simp: keeps_def intro: pay_rel_ok)

text \<open>Sending a payment to the refund queue, when its status is still the one that was read.\<close>

lemma mark_pending_rel:
  assumes "pay_inv d" and "status_at i d = {s}" and "s \<in> {''expired'', ''confirmed''}"
  shows "pay_inv (mark_refund_pending i t d)" "payments_evolve d (mark_refund_pending i t d)"
    "s' \<noteq> s \<Longrightarrow> stays s' d (mark_refund_pending i t d)"
    "j \<noteq> i \<Longrightarrow> status_at j (mark_refund_pending i t d) = status_at j d"
proof -
  have st: "pay_status p = s" if "p \<in> set (agreement_payments d)" "pay_id p = i" for p
    using assms(2) that by (auto simp: status_at_def)
  show "pay_inv (mark_refund_pending i t d)" "payments_evolve d (mark_refund_pending i t d)"
    using payments_marked [OF assms(1)] st assms(3) by auto
  show "stays s' d (mark_refund_pending i t d)" if "s' \<noteq> s"
    unfolding mark_refund_pending_def using that st by (intro stays_update) auto
  show "status_at j (mark_refund_pending i t d) = status_at j d" if "j \<noteq> i"
    unfolding mark_refund_pending_def using that by (intro status_at_update) auto
qed

lemma mark_statement:
  "sql E e (\<lambda>t _ d. Some ((), mark_refund_pending i t d)) w = (r, w') \<Longrightarrow>
   db w' = db w \<or> (\<exists>t. db w' = mark_refund_pending i t (db w))"
  by (auto simp: sql_def act_simps tick_on_def split: if_splits)

lemma quiet_spawn: "attempt (spawn_blocking E e f) w = (r, w') \<Longrightarrow> db w' = db w"
  by (cases "join_fault (orc E) (tick w)") auto

lemma safe_quiet:
  assumes "\<And>w r w'. m w = (r, w') \<Longrightarrow> db w' = db w" and "J (db w)"
    and "\<And>w w'. J (db w) \<Longrightarrow> pay_rel S w w' \<Longrightarrow> J (db w')"
  shows "safe (pay_rel S) (pay_rel T) (\<lambda>_ w. J (db w)) (atom m) w"
proof (rule safe_atom)
  fix w1 r w2 assume w1: "pay_rel S w w1" and m: "m w1 = (r, w2)"
  have "db w2 = db w1" using assms(1) [OF m] .
  moreover have "J (db w1)" using assms(3) [OF assms(2) w1] .
  ultimately show "pay_rel T w1 w2 \<and> (\<forall>w3. pay_rel S w2 w3 \<longrightarrow> J (db w3))"
    using pay_rel_same assms(3) [of w2] by auto
qed

section \<open>The keeper's payments\<close>

text \<open>What the loop of the reconciliation knows of the payments it has still to look at.\<close>

definition late_left :: "(uuid \<times> string) list \<Rightarrow> database \<Rightarrow> bool" where
  "late_left rows d \<longleftrightarrow> pay_inv d \<and> distinct (map fst rows) \<and> (\<forall>i \<in> fst ` set rows. status_at i d = {''expired''})"

lemma late_left_stable: "late_left rows (db w) \<Longrightarrow> pay_rel {''expired''} w w' \<Longrightarrow> late_left rows (db w')"
  by (simp add: late_left_def pay_rel_def stays_def)

lemma late_left_rest: "late_left (x # rows) d \<Longrightarrow> late_left rows d"
  by (simp add: late_left_def)

lemma late_left_selected:
  assumes "pay_inv d"
  shows "late_left (late_payments t d) d"
proof -
  have ids: "map fst (late_payments t d) = map pay_id (filter (\<lambda>p. pay_token_reference_pubkey p \<noteq> None)
      (filter (\<lambda>p. pay_status p = ''expired'' \<and> pay_created_at p > t) (agreement_payments d)))"
    unfolding late_payments_def by (induction "agreement_payments d") (auto simp: List.map_filter_def)
  have "distinct (map pay_id (agreement_payments d))" using assms by (simp add: pay_inv_def)
  then have "distinct (map fst (late_payments t d))" unfolding ids by (intro distinct_map_filter)
  moreover have "status_at i d = {''expired''}" if i: "i \<in> fst ` set (late_payments t d)" for i
  proof -
    from i obtain p where "p \<in> set (agreement_payments d)" "pay_id p = i"
      by (auto simp: late_payments_def List.map_filter_def)
    then show ?thesis using late_payments_expired [OF assms i] by (auto simp: status_at_def)
  qed
  ultimately show ?thesis using assms by (simp add: late_left_def)
qed

lemma reconcile_one_safe:
  assumes "late_left (x # rows) (db w)"
  shows "safe (pay_rel {''expired''}) (pay_rel {''confirmed''}) (\<lambda>_ w. late_left rows (db w)) (reconcile_one_t E x) w"
proof -
  obtain i ref where x: "x = (i, ref)" by (cases x)
  let ?R = "pay_rel {''expired''}" and ?G = "pay_rel {''confirmed''}" and ?Q = "\<lambda>_ w. late_left rows (db w)"
  have rest: "safe ?R ?G ?Q (ret_t ()) w" if "late_left rows (db w)" for w
    using late_left_stable [OF that] by (simp add: ret_t_def)
  have mark: "safe ?R ?G ?Q (bind_t (atom (attempt (sql E InternalError (\<lambda>t _ d. Some ((), mark_refund_pending i t d)))))
      (\<lambda>_. ret_t ())) w" if left: "late_left (x # rows) (db w)" for w
  proof (rule safe_bind [OF safe_post [where Q = ?Q] pay_rel_refl], rule safe_atom)
    fix w1 r w2 assume R: "?R w w1" and m: "attempt (sql E InternalError (\<lambda>t _ d. Some ((), mark_refund_pending i t d))) w1 = (r, w2)"
    have l: "late_left (x # rows) (db w1)" by (rule late_left_stable [OF left R])
    from m have "db w2 = db w1 \<or> (\<exists>t. db w2 = mark_refund_pending i t (db w1))"
      by (auto simp: attempt_def split: prod.splits dest: mark_statement)
    then have "?G w1 w2 \<and> late_left rows (db w2)"
    proof
      assume "db w2 = db w1"
      then show ?thesis using late_left_rest [OF l] by (simp add: pay_rel_same)
    next
      assume "\<exists>t. db w2 = mark_refund_pending i t (db w1)"
      then obtain t where t: "db w2 = mark_refund_pending i t (db w1)" by blast
      have "pay_inv (db w1)" "status_at i (db w1) = {''expired''}" using l by (simp_all add: late_left_def x)
      note p = mark_pending_rel [OF this, where t = t, folded t, simplified]
      have "status_at j (db w2) = {''expired''}" if j: "j \<in> fst ` set rows" for j
      proof -
        have "i \<noteq> j" using j l by (auto simp: late_left_def x)
        moreover have "status_at j (db w1) = {''expired''}" using j l unfolding late_left_def by simp blast
        ultimately show ?thesis using p(4) [of j] by simp
      qed
      moreover have "stays ''confirmed'' (db w1) (db w2)" by (rule p(3)) simp
      ultimately show ?thesis using l p(1,2) by (simp add: pay_rel_def late_left_def)
    qed
    then show "?G w1 w2 \<and> (\<forall>w3. ?R w2 w3 \<longrightarrow> late_left rows (db w3))" using late_left_stable by blast
  qed (auto intro: rest split: sum.splits)
  show ?thesis
  proof (cases "pubkey_from_str (lib E) ref")
    case None
    then show ?thesis using rest late_left_rest [OF assms] by (simp add: reconcile_one_t_def x)
  next
    case (Some k)
    show ?thesis unfolding reconcile_one_t_def x prod.case Some option.case
      by (rule safe_bind [OF safe_post [OF safe_quiet [where J = "late_left (x # rows)", OF quiet_spawn assms late_left_stable]]
            pay_rel_refl])
        (auto intro: late_left_rest rest mark split: sum.splits)
  qed
qed

lemma reconcile_secured:
  "secured (\<lambda>w. pay_inv (db w)) (pay_rel {''expired''}) (pay_rel {''confirmed''}) (reconcile_late_payments_t E)"
proof -
  let ?R = "pay_rel {''expired''}" and ?G = "pay_rel {''confirmed''}" and ?I = "\<lambda>w. pay_inv (db w)"
  have stable: "stable_under ?I ?R" "stable_under ?I ?G" by (simp_all add: stable_under_def pay_rel_def)
  have loop: "safe ?R ?G (\<lambda>_. ?I) (for_each_t rows (reconcile_one_t E)) w" if "late_left rows (db w)" for rows w
    by (rule safe_for_each [where I = "\<lambda>rows w. late_left rows (db w)", OF reconcile_one_safe pay_rel_refl _ _ that])
      (auto simp: late_left_def pay_rel_def)
  have select: "secured ?I ?R ?G (bind_t (atom (attempt (sql_select E InternalError (late_payments th)))) (\<lambda>r.
      for_each_t (case r of Inl e \<Rightarrow> [] | Inr payments \<Rightarrow> payments) (reconcile_one_t E)))" for th
    unfolding secured_def
  proof (intro allI impI, rule safe_bind [OF safe_atom pay_rel_refl])
    fix w w1 r w2 assume I: "pay_inv (db w)" and R: "?R w w1"
      and m: "attempt (sql_select E InternalError (late_payments th)) w1 = (r, w2)"
    have inv: "pay_inv (db w1)" using I R by (simp add: pay_rel_def)
    from m have r: "db w2 = db w1" "r \<in> {Inr (Inl InternalError), Inr (Inr (late_payments th (db w1)))}"
      by (cases "db_fault (orc E) (tick w1)"; auto)+
    have "late_left (case x of Inl e \<Rightarrow> [] | Inr payments \<Rightarrow> payments) (db w2)" if "r = Inr x" for x
      using r that inv late_left_selected [OF inv, of th]
      by (cases x) (simp_all, simp add: late_left_def)
    from loop [OF late_left_stable [OF this]]
    show "?G w1 w2 \<and> (\<forall>w3. ?R w2 w3 \<longrightarrow> (case r of Inl e \<Rightarrow> pay_inv (db w3) | Inr x \<Rightarrow>
        safe ?R ?G (\<lambda>_. ?I) (for_each_t (case x of Inl e \<Rightarrow> [] | Inr payments \<Rightarrow> payments) (reconcile_one_t E)) w3))"
      using r by (auto simp: pay_rel_same split: sum.splits)
  qed
  have "keeps ?G (now E)" by (auto intro!: keepsI simp: act_simps pay_rel_same)
  then show ?thesis unfolding reconcile_late_payments_t_def
    by (intro secured_bind secured_always stable always_atom pay_rel_refl select)
qed

section \<open>The listener's payments\<close>

lemma refund_secured:
  "secured (\<lambda>w. pay_inv (db w)) (pay_rel {''confirmed''}) (pay_rel {''expired''}) (initiate_refund_if_eligible_t E pda)"
proof -
  let ?R = "pay_rel {''confirmed''}" and ?G = "pay_rel {''expired''}" and ?I = "\<lambda>w. pay_inv (db w)"
  let ?J = "\<lambda>i d. pay_inv d \<and> status_at i d = {''confirmed''}"
  have keep: "?J i (db w')" if "?J i (db w)" "?R w w'" for i w w'
    using that by (simp add: pay_rel_def stays_def)
  have mark: "safe ?R ?G (\<lambda>_. ?I) (atom (sql E InternalError (\<lambda>t _ d. Some ((), mark_refund_pending i t d)))) w"
    if J: "?J i (db w)" for i w
  proof (rule safe_atom)
    fix w1 w2 and r :: "app_error + unit"
    assume R: "?R w w1" and m: "sql E InternalError (\<lambda>t _ d. Some ((), mark_refund_pending i t d)) w1 = (r, w2)"
    have J1: "pay_inv (db w1)" "status_at i (db w1) = {''confirmed''}" using keep [OF J R] by auto
    from mark_statement [OF m] have "?G w1 w2 \<and> pay_inv (db w2)"
    proof
      assume "\<exists>t. db w2 = mark_refund_pending i t (db w1)"
      then obtain t where t: "db w2 = mark_refund_pending i t (db w1)" by blast
      note p = mark_pending_rel [OF J1, where t = t, folded t, simplified]
      have "stays ''expired'' (db w1) (db w2)" by (rule p(3)) simp
      then show ?thesis using p(1,2) by (simp add: pay_rel_def)
    qed (simp add: pay_rel_same J1)
    then show "?G w1 w2 \<and> (\<forall>w3. ?R w2 w3 \<longrightarrow> pay_inv (db w3))" by (simp add: pay_rel_def)
  qed
  show ?thesis unfolding secured_def initiate_refund_if_eligible_t_def
  proof (intro allI impI, rule safe_bind [OF safe_atom pay_rel_refl])
    fix w w1 r w2 assume I: "pay_inv (db w)" and R: "?R w w1"
      and m: "sql_select E InternalError (confirmed_payment pda) w1 = (r, w2)"
    have inv: "pay_inv (db w1)" using I R by (simp add: pay_rel_def)
    have J: "?J i (db w2)" if "r = Inr (Some i)" for i
    proof -
      have i: "confirmed_payment pda (db w1) = Some i" and "db w2 = db w1" using m that by (auto simp: act_simps)
      moreover have "status_at i (db w1) = {''confirmed''}"
        using confirmed_payment_status [OF inv i] i
        by (auto simp: status_at_def confirmed_payment_def dest: select_first_SomeD)
      ultimately show ?thesis using inv by simp
    qed
    have db: "db w2 = db w1" using m by (cases r) (auto simp: act_simps)
    have inv3: "pay_inv (db w3)" if "?R w2 w3" for w3 using that inv db by (simp add: pay_rel_def)
    have "case r of Inl e \<Rightarrow> pay_inv (db w3) | Inr x \<Rightarrow> safe ?R ?G (\<lambda>_. ?I) (case x of None \<Rightarrow> ret_t () | Some i \<Rightarrow>
        atom (sql E InternalError (\<lambda>t _ d. Some ((), mark_refund_pending i t d)))) w3" if R3: "?R w2 w3" for w3
      using inv3 [OF R3] mark [OF keep [OF J R3]] by (auto simp: ret_t_def pay_rel_def split: sum.splits option.splits)
    then show "?G w1 w2 \<and> (\<forall>w3. ?R w2 w3 \<longrightarrow> (case r of Inl e \<Rightarrow> pay_inv (db w3) | Inr x \<Rightarrow>
        safe ?R ?G (\<lambda>_. ?I) (case x of None \<Rightarrow> ret_t () | Some i \<Rightarrow>
          atom (sql E InternalError (\<lambda>t _ d. Some ((), mark_refund_pending i t d)))) w3))"
      using db by (simp add: pay_rel_same)
  qed
qed

section \<open>All threads together\<close>

text \<open>Expired payments belong to the thread with index 0, the keeper, confirmed ones to the listener, index 1.\<close>

definition owned :: "nat \<Rightarrow> string set" where
  "owned i = (if i = 0 then {''expired''} else if i = 1 then {''confirmed''} else {})"

interpretation pay_rg: rely_guarantee "\<lambda>i. pay_rel (owned i)" "\<lambda>i. pay_rel ({''expired'', ''confirmed''} - owned i)"
proof
  fix i j w w' assume "i \<noteq> j" and g: "pay_rel ({''expired'', ''confirmed''} - owned i) w w'"
  then have "owned j \<subseteq> {''expired'', ''confirmed''} - owned i" by (auto simp: owned_def)
  then show "pay_rel (owned j) w w'" by (rule pay_rel_mono [OF g])
qed (rule pay_rel_refl pay_rel_trans)+

lemma backend_payments:
  assumes inv: "pay_inv (db w)"
  shows "pay_rel {} w (snd (exec sched (backend E l, w)))"
proof -
  let ?I = "\<lambda>w. pay_inv (db w)"
  note W = pay_work.work.keeper_parts pay_work.work.always_events pay_work.work.always_push
  have st: "stable_under ?I (pay_rel S)" for S by (simp add: stable_under_def pay_rel_def)
  have k: "secured ?I (pay_rel {''expired''}) (pay_rel {''confirmed''}) (public_t (worker_run_t (keeper_cycle_t E) n s))" for n s
    by (intro secured_keeper st pay_rel_refl reconcile_secured always_pay_rel keeps_pay_rel W keeps_check) simp_all
  have degraded: "keeps (db_frame P) (transition_to_degraded s :: (world, app_error, worker_status) act)" for P s
    unfolding transition_to_degraded_def by (intro keeps_intros)
  have select: "keeps (pay_rel S) (sql_select E e q)" for S e q
    by (auto intro!: keepsI pay_rel_same simp: sql_select_def sql_def tick_on_def split: if_splits)
  have li: "secured ?I (pay_rel {''confirmed''}) (pay_rel {''expired''}) (public_t (listener_run_t E ss s))" for ss s
    by (intro secured_listener st pay_rel_refl refund_secured degraded select always_pay_rel keeps_pay_rel W
        pay_work.work.b_status pay_work.work.keeps_queue) simp_all
  have "pay_rg.all_safe (backend E l, w)"
    unfolding pay_rg.all_safe_def
  proof (simp only: prod.case, intro allI impI)
    fix i assume i: "i < length (backend E l)"
    show "safe (pay_rel (owned i)) (pay_rel ({''expired'', ''confirmed''} - owned i)) anything (backend E l ! i) w"
    proof (cases "i < 2")
      case True
      then have "i = 0 \<or> i = 1" by auto
      moreover have "safe (pay_rel {''expired''}) (pay_rel {''confirmed''}) anything (backend E l ! 0) w"
        using k inv by (auto simp: backend_def run_t_defs secured_def intro: safe_post)
      moreover have "safe (pay_rel {''confirmed''}) (pay_rel {''expired''}) anything (backend E l ! 1) w"
        using li inv by (simp add: backend_def secured_def) (blast intro: safe_post)
      ultimately show ?thesis by (auto simp: owned_def insert_Diff_if)
    next
      case False
      then obtain j where "i = 2 + j" using le_Suc_ex [of 2 i] by auto
      then have "backend E l ! i \<in> set (drop 2 (backend E l))" using i nth_mem [of j "drop 2 (backend E l)"] by simp
      then have "always (db_frame (pay_ok d0)) (backend E l ! i)" for d0 using pay_work.work.always_other_threads by blast
      then show ?thesis using False by (intro safe_always always_pay_rel) (auto simp: owned_def)
    qed
  qed
  from pay_rg.safe_exec [OF this pay_rel_refl pay_rel_trans, of "{}"] show ?thesis
    using pay_rel_mono by blast
qed

lemma backend_facts:
  assumes law: "serde_law (lib E)" and inv: "sys_inv E (db w)" and run: "exec sched (backend E l, w) = (ps, w')"
  shows "sys_inv E (db w') \<and> invitations_evolve (db w) (db w') \<and> payments_evolve (db w) (db w')"
proof -
  from inv have i: "auth_inv (db w)" "contact_inv (db w)" "names_inv (db w)" "draft_inv E (db w)" "pay_inv (db w)"
    by (simp_all add: sys_inv_def)
  have w': "w' = snd (exec sched (backend E l, w))" using run by simp
  have "draft_inv E (db w') \<and> invitations_evolve (db w) (db w')"
    unfolding w' using i(4) by (intro every_property.backend_keeps [OF draft_all [OF law]]) (simp add: evolves_refl)
  moreover have "pay_inv (db w') \<and> payments_evolve (db w) (db w')"
    unfolding w' using backend_payments [OF i(5)] i(5) by (simp add: pay_rel_def)
  moreover have "auth_inv (db w')" "contact_inv (db w')" "names_inv (db w')"
    unfolding w' using i(1-3) by (simp_all add: auth_all.backend_keeps contact_all.backend_keeps name_all.backend_keeps)
  ultimately show ?thesis by (simp add: sys_inv_def)
qed

text \<open>
  C1 (the invariant of the running process). The five workers, each for any number of ticks or connections, transfers,
  closing sockets and any number of requests run at the same time, their statements interleaved by an arbitrary
  schedule that may also leave threads unfinished. The tables keep the invariant of the system at every point, and
  payments and invitations only move along their life cycles. For the payments this rests on there being one keeper
  and one listener: the statement that sends a payment to the refund queue does not check the status.
\<close>

theorem concurrent_system_invariant:
  assumes "serde_law (lib E)" and "sys_inv E (db w)" and "exec sched (backend E l, w) = (ps, w')"
  shows "sys_inv E (db w') \<and> advances payment_step (payment_view (db w)) (payment_view (db w')) \<and>
    advances invitation_step (invitation_view (db w)) (invitation_view (db w'))"
proof -
  from backend_facts [OF assms] have inv: "sys_inv E (db w')"
    and i: "invitations_evolve (db w) (db w')" and p: "payments_evolve (db w) (db w')" by blast+
  from inv have "distinct (map pay_key (agreement_payments (db w')))" "distinct (map inv_key (party_invitations (db w')))"
    by (auto simp: sys_inv_def intro: distinct_pay_key distinct_inv_key)
  then show ?thesis using inv unfolding payment_view_def invitation_view_def
    using view_advances [OF p] view_advances [OF i] by blast
qed

definition sample_workload :: workload where
  "sample_workload = \<lparr>wl_keeper = 2, wl_sessions = [[]], wl_refund = 1, wl_expiry = 1, wl_notification = 1,
     wl_transfers = [(''ref'', ''sig'', ''mint'', 5)], wl_closed = [7],
     wl_requests = [(\<lambda>_. None, R_Challenge), (\<lambda>_. None, R_Refresh ''tok'')]\<rparr>"

theorem concurrent_system_invariant_witness:
  "sys_inv sample_env (db (snd (exec [0, 5, 1, 2, 0, 7, 3, 4, 0, 8, 0] (backend sample_env sample_workload, sample_payment_world))))"
proof -
  obtain ps w' where run: "exec [0, 5, 1, 2, 0, 7, 3, 4, 0, 8, 0] (backend sample_env sample_workload, sample_payment_world) = (ps, w')"
    by fastforce
  from concurrent_system_invariant [OF sample_laws(1) sample_payment_inv run] run show ?thesis by simp
qed

end
