(* ===== verification/Races.thy ===== *)
theory Races
  imports Concurrent_System
begin

text \<open>
  Requests that compete for the same thing, under every schedule of the whole process: the workers, the transfers, the
  closing sockets and the other requests run next to them. A sign-in nonce, a refresh token, an unlinked wallet and a
  pending invitation are resources of the locale \<open>contended\<close>: of the requests that need the same one, at most one
  succeeds. What every step of every thread leaves gone is an interpretation of \<open>backend_frame\<close>. The free tier and the
  first sign-in of an OAuth identity are read in one statement and written in a later one, and two requests can pass
  between (theory \<open>Check_Then_Act\<close>).
\<close>

section \<open>What stays gone\<close>

text \<open>Every handler only moves the clock of external calls forward.\<close>

lemma keeps_transaction:
  assumes "frame R" and "keeps R m" and "\<And>w w'. R w w' \<Longrightarrow> R w (w'\<lparr>db := db w\<rparr>)"
  shows "keeps R (transaction_of m)"
proof (rule keepsI)
  fix w r w' assume "transaction_of m w = (r, w')"
  then show "R w w'" using keepsD [OF assms(2)] assms(3) by (cases r) (auto simp: act_simps)
qed

text \<open>
  A record that only the session statements write: once missing it stays missing, if those statements see to it.
\<close>

lemma absent_frame:
  assumes session: "keeps (absent_from T P) (challenge E)" "\<And>body. keeps (absent_from T P) (check_signed_nonce E body)"
      "\<And>u. keeps (absent_from T P) (issue_and_store_refresh_token E u)"
      "\<And>h. keeps (absent_from T P) (sql E InternalError (\<lambda>t _ d. Some (consume_token t h d)))"
      "\<And>tok. keeps (absent_from T P) (logout E tok)"
    and cleanup: "\<And>t d. P (drop_old_nonces t d) \<Longrightarrow> P d" "\<And>t d. P (drop_old_tokens t d) \<Longrightarrow> P d"
    and blind: "\<And>d q. P (d\<lparr>user_accounts := q\<rparr>) = P d" "\<And>d q. P (d\<lparr>auth_wallet := q\<rparr>) = P d"
      "\<And>d q. P (d\<lparr>auth_oauth := q\<rparr>) = P d" "\<And>d q. P (d\<lparr>user_contacts := q\<rparr>) = P d"
      "\<And>d q. P (d\<lparr>agreement_drafts := q\<rparr>) = P d" "\<And>d q. P (d\<lparr>party_invitations := q\<rparr>) = P d"
      "\<And>d q. P (d\<lparr>agreement_payments := q\<rparr>) = P d" "\<And>d q. P (d\<lparr>user_agreement_counts := q\<rparr>) = P d"
      "\<And>d q. P (d\<lparr>notification_queue := q\<rparr>) = P d" "\<And>d q. P (d\<lparr>agreement_parties := q\<rparr>) = P d"
      "\<And>d q. P (d\<lparr>sweep_config := q\<rparr>) = P d"
  shows "backend_frame E (absent_from T P)" (is "backend_frame E ?R")
proof
  note stmt = keeps_absent_from_sql keeps_absent_from_update
  show "keeps ?R (upsert_email_contact E u email)" for u email
    unfolding upsert_email_contact_def by (intro keeps_intros stmt) (auto simp: upsert_contact_def blind split: if_splits)
  show "keeps ?R (update_contacts E auth ureq)" for auth ureq
    unfolding update_contacts_def encrypt_opt_def
    by (intro keeps_intros stmt) (auto simp: upsert_contact_def blind split: if_splits)
  show "keeps ?R (delete_contacts E auth)" for auth
    unfolding delete_contacts_def by (intro keeps_intros stmt) (simp add: blind)
  show "keeps ?R (accept_tx E pk tok t)" for pk tok t
    unfolding accept_tx_def tx_statement_def Let_def
    by (intro keeps_transaction keeps_intros stmt)
      (auto simp: absent_from_def mark_accepted_def store_slots_def update_draft_def blind)
  show "keeps ?R (enqueue_notification E et about rc)" for et about rc
    unfolding enqueue_notification_def insert_job_def
    by (intro keeps_intros stmt) (auto simp: blind split: if_splits option.splits)
  show "keeps ?R (confirm_payment_atomic E ref sig mk amt)" for ref sig mk amt
    unfolding confirm_payment_atomic_def confirm_stmt_def Let_def
    by (intro stmt) (auto simp: blind split: if_splits)
  show "keeps ?R (lock_agreement_for_expiry E pda)" "keeps ?R (unlock_agreement_from_expiry E pda)" for pda
    unfolding lock_agreement_for_expiry_def unlock_agreement_from_expiry_def move_parties_def
    by (intro stmt; auto simp: blind)+
  show "keeps ?R (increment_attempts E jid)" for jid
    unfolding increment_attempts_def bump_attempts_def by (intro stmt) (auto simp: blind split: if_splits)
qed (rule session frame_absent_from pay_stablecoin_keeps
  | rule keeps_absent_from_update, (erule cleanup | simp add: statement_defs store_uri_def store_pda_def mark_paid_def
      expire_invitations_def expire_payments_def mark_swept_def mark_refunded_def set_agreement_status_def blind; fail)
  | rule keeps_absent_from_sql, (force simp: statement_defs mark_reminded_def insert_party_def record_signature_def
      mark_refund_pending_def blind split: if_splits)
  | simp add: absent_from_def)+

lemma nonce_frame:
  assumes "\<forall>k \<ge> T. uuid_to_string (lib E) (random_uuid (orc E) k) \<noteq> n"
  shows "backend_frame E (absent_from T (nonce_held n))"
proof (rule absent_frame)
  show "keeps (absent_from T (nonce_held n)) (sql E InternalError (\<lambda>t _ d. Some (consume_token t h d)))" for h
    by (rule keeps_absent_from_sql) (auto simp: nonce_held_def consume_token_def)
qed (rule nonce_absent_challenge [OF assms] nonce_absent_check nonce_absent_store nonce_absent_logout
  | auto simp: nonce_held_def drop_old_nonces_def drop_old_tokens_def sql_list)+

lemma token_frame:
  assumes "token_fresh E T h"
  shows "backend_frame E (absent_from T (token_held h))"
proof (rule absent_frame)
  show "keeps (absent_from T (token_held h)) (challenge E)"
    unfolding challenge_def by (intro keeps_intros keeps_absent_from_sql) (auto simp: token_held_def split: if_splits)
  show "keeps (absent_from T (token_held h)) (check_signed_nonce E body)" for body
    unfolding check_signed_nonce_def
    by (intro keeps_intros keeps_absent_from_sql) (auto simp: token_held_def consume_nonce_def)
  show "keeps (absent_from T (token_held h)) (sql E InternalError (\<lambda>t _ d. Some (consume_token t h' d)))" for h'
    by (rule keeps_absent_from_sql) (auto simp: token_held_def consume_token_def sql_list)
  show "keeps (absent_from T (token_held h)) (logout E tok)" for tok
    unfolding logout_def by (intro keeps_intros keeps_absent_from_update) (auto simp: token_held_def sql_list)
qed (rule token_absent_store [OF assms]
  | auto simp: token_held_def drop_old_nonces_def drop_old_tokens_def sql_list)+

section \<open>Single-use records\<close>

text \<open>A request that has been answered with success.\<close>

definition succeeded :: "nat + unit \<Rightarrow> bool" where
  "succeeded r \<longleftrightarrow> (\<exists>x. r = Inr x)"

lemma succeeded_simps [simp]: "succeeded (Inr x)" "\<not> succeeded (Inl e)"
  by (simp_all add: succeeded_def)

text \<open>A claim anywhere in a handler is a claim of its request.\<close>

abbreviation needs_it :: "('w \<Rightarrow> bool) \<Rightarrow> ('w \<Rightarrow> bool) \<Rightarrow> ('w, 'e + 'a) prog \<Rightarrow> bool" where
  "needs_it ok held \<equiv> claimant ok held (\<lambda>r. \<exists>x. r = Inr x)"

lemma needs_public: "needs_it ok held p \<Longrightarrow> claimant ok held succeeded (public_t p)"
  unfolding public_t_def
  by (rule claimant_bind [where won' = "\<lambda>r. \<exists>x. r = Inr x"]) (auto intro: claimant_map_err)

lemma needs_with_user:
  "(\<And>auth. needs_it ok held (p auth)) \<Longrightarrow> claimant ok held succeeded (with_user_t E hs p)"
  unfolding with_user_t_def by (rule claimant_skip) (simp_all add: needs_public)

lemma needs_with_wallet:
  "(\<And>auth. needs_it ok held (p auth)) \<Longrightarrow> claimant ok held succeeded (with_wallet_t E hs p)"
  unfolding with_wallet_t_def by (rule claimant_skip) (simp_all add: needs_public)

lemma needs_first: "needs_it ok held p \<Longrightarrow> needs_it ok held (bind_t p k)"
  by (rule claimant_bind [where won' = "\<lambda>r. \<exists>x. r = Inr x"]) auto

lemma needs_first_then: "needs_it ok held p \<Longrightarrow> needs_it ok held (then_t p q)"
  unfolding then_t_def by (rule needs_first)

lemma needs_later: "(\<And>x. needs_it ok held (k x)) \<Longrightarrow> needs_it ok held (bind_t p k)"
  by (rule claimant_skip) auto

lemma needs_later_then: "needs_it ok held q \<Longrightarrow> needs_it ok held (then_t p q)"
  unfolding then_t_def by (rule needs_later)

text \<open>
  A record that is consumed by its key: while the keys are unique and nobody stores it again, it is a contended
  resource of all requests.
\<close>

definition record_frame :: "nat \<Rightarrow> (database \<Rightarrow> bool) \<Rightarrow> world \<Rightarrow> world \<Rightarrow> bool" where
  "record_frame T P w w' \<longleftrightarrow> db_frame auth_inv w w' \<and> absent_from T P w w'"

definition from_call :: "nat \<Rightarrow> world \<Rightarrow> bool" where
  "from_call T w \<longleftrightarrow> auth_inv (db w) \<and> T \<le> tick w"

interpretation record_race: contended "from_call T" "\<lambda>w. P (db w)" succeeded "record_frame T P" for T P
proof
  show "reflp (record_frame T P)" by (auto simp: reflp_def record_frame_def db_frame_def absent_from_def)
  show "from_call T w'" if "record_frame T P w w'" "from_call T w" for w w'
    using that by (auto simp: record_frame_def from_call_def db_frame_def absent_from_def)
  show "\<not> P (db w')" if "record_frame T P w w'" "from_call T w" "\<not> P (db w)" for w w'
    using that by (auto simp: record_frame_def from_call_def absent_from_def)
qed

lemma record_race_requests:
  assumes frame: "backend_frame E (absent_from T P)" and "auth_inv (db w)" and "T \<le> tick w"
    and "i < length (wl_requests l)" and "j < length (wl_requests l)" and "i \<noteq> j"
    and "\<And>k. k \<in> {i, j} \<Longrightarrow> claimant (from_call T) (\<lambda>w. P (db w)) succeeded
      (serve_t E (fst (wl_requests l ! k)) (snd (wl_requests l ! k)))"
    and "exec sched (backend E l, w) = (ps, w')" and "ps ! request_thread l i = Done ri" and "ps ! request_thread l j = Done rj"
  shows "\<not> (succeeded ri \<and> succeeded rj)"
proof (rule record_race.one_winner)
  show "from_call T w" using assms(2,3) by (simp add: from_call_def)
  show "\<forall>p \<in> set (backend E l). always (record_frame T P) p"
    using auth_all.all.backend_always backend_frame.backend_always [OF frame]
    unfolding record_frame_def [abs_def] by (blast intro: always_conj)
qed (use assms in \<open>simp_all add: backend_request\<close>)

text \<open>
  Work for every part of the process next to the requests, and a schedule that finishes two requests, for use on
  concrete states.
\<close>

definition busy_workload :: "(headers \<times> request) list \<Rightarrow> workload" where
  "busy_workload reqs = \<lparr>wl_keeper = 1, wl_sessions = [[]], wl_refund = 1, wl_expiry = 1, wl_notification = 1,
     wl_transfers = [(''ref'', ''sig'', ''mint'', 5)], wl_closed = [7], wl_requests = reqs\<rparr>"

lemma busy_requests [simp]: "wl_requests (busy_workload reqs) = reqs" "request_thread (busy_workload reqs) i = 7 + i"
  by (simp_all add: busy_workload_def request_thread_def)

lemma busy_requests_run:
  assumes "serve_in_order E reqs w = (rs, w')"
  shows "\<exists>sched qs. exec sched (backend E (busy_workload reqs), w) = (qs @ map Done rs, w') \<and> length qs = 7"
proof -
  obtain qs where qs: "backend E (busy_workload reqs) = qs @ serve_all E reqs"
      "\<forall>i. request_thread (busy_workload reqs) i = length qs + i"
    using backend_split [of E "busy_workload reqs"] by auto
  have "length qs = 7" using qs(2) by simp
  moreover have "run_each (serve_all E reqs) w = (rs, w')" unfolding run_each_serve by (rule assms)
  ultimately show ?thesis using exec_in_order [of "serve_all E reqs" w rs w' qs] unfolding qs(1) by blast
qed

lemma busy_requests_finish:
  assumes "serve E hs1 r1 w = (a, w1)"
  shows "\<exists>sched ps w2 b. exec sched (backend E (busy_workload [(hs1, r1), (hs2, r2)]), w) = (ps, w2) \<and>
    ps ! 7 = Done a \<and> ps ! 8 = Done b"
proof -
  obtain b w2 where b: "serve E hs2 r2 w1 = (b, w2)" by fastforce
  have "serve_in_order E [(hs1, r1), (hs2, r2)] w = ([a, b], w2)" using assms b by simp
  from busy_requests_run [OF this] show ?thesis by (fastforce simp: nth_append)
qed

fun presents_nonce :: "string \<Rightarrow> request \<Rightarrow> bool" where
  "presents_nonce n (R_Verify body) = (vr_nonce body = n)"
| "presents_nonce n (R_LinkWallet body) = (vr_nonce body = n)"
| "presents_nonce n _ = False"

lemma check_claims_nonce:
  "needs_it (from_call T) (\<lambda>w. nonce_held (vr_nonce body) (db w)) (atom (check_signed_nonce E body))"
proof (rule claimant_atom)
  fix w and r :: "app_error + unit" and w'
  assume ok: "from_call T w" and run: "check_signed_nonce E body w = (r, w')" and "\<exists>x. r = Inr x"
  then obtain v where c: "consume_nonce (clock (orc E) (tick w)) (vr_nonce body) (db w) = (Some v, db w')"
    by (auto elim: check_signed_nonce_Inr)
  have "distinct (map sn_nonce (siws_nonces (db w)))" using ok by (simp add: from_call_def auth_inv_def)
  then show "nonce_held (vr_nonce body) (db w) \<and> \<not> nonce_held (vr_nonce body) (db w')"
    using nonce.hit_held [OF c] nonce.hit_removes [OF _ c] by simp
qed

lemma serve_claims_nonce:
  assumes "presents_nonce n req"
  shows "claimant (from_call T) (\<lambda>w. nonce_held n (db w)) succeeded (serve_t E hs req)"
proof (cases req)
  case (R_Verify body)
  then have "n = vr_nonce body" using assms by simp
  then show ?thesis unfolding R_Verify serve_t.simps verify_t_def
    by (simp only:) (intro needs_public needs_first_then check_claims_nonce)
next
  case (R_LinkWallet body)
  then have "n = vr_nonce body" using assms by simp
  then show ?thesis unfolding R_LinkWallet serve_t.simps link_wallet_t_def
    by (simp only:) (rule needs_with_user, rule needs_later_then, intro needs_first_then check_claims_nonce)
qed (use assms in simp_all)

text \<open>
  C5 (the nonce race). Two requests that present the same sign-in nonce are served while the five workers, transfers,
  closing sockets and any other requests run, their statements interleaved in any way. At most one of them succeeds, be it a sign-in or the linking of
  a wallet, whoever signs: a captured signature cannot be used next to the original. The nonce must not be issued a
  second time in the meantime, which version-4 UUIDs rule out.
\<close>

theorem nonce_race:
  assumes "auth_inv (db w)" and "\<forall>k \<ge> tick w. uuid_to_string (lib E) (random_uuid (orc E) k) \<noteq> n"
    and "i < length (wl_requests l)" and "j < length (wl_requests l)" and "i \<noteq> j"
    and "presents_nonce n (snd (wl_requests l ! i))" and "presents_nonce n (snd (wl_requests l ! j))"
    and "exec sched (backend E l, w) = (ps, w')"
    and "ps ! request_thread l i = Done ri" and "ps ! request_thread l j = Done rj"
  shows "\<not> (succeeded ri \<and> succeeded rj)"
proof (rule record_race_requests [OF nonce_frame [OF assms(2)] assms(1) order_refl assms(3-5) _ assms(8-10)])
  fix k assume "k \<in> {i, j}"
  then show "claimant (from_call (tick w)) (\<lambda>w. nonce_held n (db w)) succeeded
      (serve_t E (fst (wl_requests l ! k)) (snd (wl_requests l ! k)))"
    using assms(6,7) by (auto intro: serve_claims_nonce)
qed

theorem nonce_race_witness:
  "\<exists>sched ps w' b. exec sched (backend sample_env (busy_workload
       [(\<lambda>_. None, R_Verify sample_login), (\<lambda>_. None, R_Verify sample_login)]), sample_login_world) = (ps, w') \<and>
     ps ! 7 = Done (Inr ()) \<and> ps ! 8 = Done b \<and> \<not> succeeded b"
proof -
  obtain resp w1 where "verify sample_env sample_login sample_login_world = (Inr resp, w1)" using sample_verify by blast
  then have "serve sample_env (\<lambda>_. None) (R_Verify sample_login) sample_login_world = (Inr (), w1)"
    by (simp add: public_handler_def map_err_def bindE_def ret_def)
  from busy_requests_finish [OF this, of "\<lambda>_. None" "R_Verify sample_login"] obtain sched ps w' b where
    run: "exec sched (backend sample_env (busy_workload
       [(\<lambda>_. None, R_Verify sample_login), (\<lambda>_. None, R_Verify sample_login)]), sample_login_world) = (ps, w')"
      "ps ! 7 = Done (Inr ())" "ps ! 8 = Done b" by blast
  from nonce_race [where i = 0 and j = 1 and ri = "Inr ()" and rj = b, OF sample_login_inv sample_nonce_fresh _ _ _ _ _ run(1)] run show ?thesis by auto
qed

fun presents_token :: "env \<Rightarrow> string \<Rightarrow> request \<Rightarrow> bool" where
  "presents_token E h (R_Refresh tok) = (sha256_hex E tok = h)"
| "presents_token E h _ = False"

lemma serve_claims_token:
  assumes "presents_token E h req"
  shows "claimant (from_call T) (\<lambda>w. token_held h (db w)) succeeded (serve_t E hs req)"
proof (cases req)
  case (R_Refresh tok)
  let ?consume = "sql E InternalError (\<lambda>t _ d. Some (consume_token t h d)) :: (world, app_error, uuid option) act"
  have "claimant (from_call T) (\<lambda>w. token_held h (db w)) (\<lambda>r. \<exists>u. r = Inr (Some u)) (atom ?consume)"
  proof (rule claimant_atom)
    fix w and r :: "app_error + uuid option" and w'
    assume ok: "from_call T w" and run: "?consume w = (r, w')" and "\<exists>u. r = Inr (Some u)"
    then obtain u where c: "consume_token (clock (orc E) (tick w)) h (db w) = (Some u, db w')"
      by (auto simp: act_simps)
    have "distinct (map rt_token_hash (refresh_tokens (db w)))" using ok by (simp add: from_call_def auth_inv_def)
    then show "token_held h (db w) \<and> \<not> token_held h (db w')"
      using token.hit_held [OF c] token.hit_removes [OF _ c] by simp
  qed
  moreover have "sha256_hex E tok = h" using assms R_Refresh by simp
  ultimately have "needs_it (from_call T) (\<lambda>w. token_held h (db w)) (refresh_t E tok)"
    unfolding refresh_t_def
    by (simp only:) (erule claimant_bind, simp, case_tac x, simp_all add: ok_or_t_def)
  then show ?thesis unfolding R_Refresh serve_t.simps by (rule needs_public)
qed (use assms in simp_all)

text \<open>
  C8 (the refresh race). Of several refreshes with the same token, interleaved with each other, with any other requests
  and with the workers (the keeper deletes expired tokens meanwhile), at most one succeeds: a token that leaked rotates for its owner or for the thief, never for both.
\<close>

theorem refresh_race:
  assumes "auth_inv (db w)" and "token_fresh E (tick w) h"
    and "i < length (wl_requests l)" and "j < length (wl_requests l)" and "i \<noteq> j"
    and "presents_token E h (snd (wl_requests l ! i))" and "presents_token E h (snd (wl_requests l ! j))"
    and "exec sched (backend E l, w) = (ps, w')"
    and "ps ! request_thread l i = Done ri" and "ps ! request_thread l j = Done rj"
  shows "\<not> (succeeded ri \<and> succeeded rj)"
proof (rule record_race_requests [OF token_frame [OF assms(2)] assms(1) order_refl assms(3-5) _ assms(8-10)])
  fix k assume "k \<in> {i, j}"
  then show "claimant (from_call (tick w)) (\<lambda>w. token_held h (db w)) succeeded
      (serve_t E (fst (wl_requests l ! k)) (snd (wl_requests l ! k)))"
    using assms(6,7) by (auto intro: serve_claims_token)
qed

theorem refresh_race_witness:
  "\<exists>sched ps w' b. exec sched (backend sample_session_env (busy_workload
       [(\<lambda>_. None, R_Refresh ''old''), (\<lambda>_. None, R_Refresh ''old'')]), sample_session_world) = (ps, w') \<and>
     ps ! 7 = Done (Inr ()) \<and> ps ! 8 = Done b \<and> \<not> succeeded b"
proof -
  obtain resp w1 where "refresh sample_session_env ''old'' sample_session_world = (Inr resp, w1)" using sample_refresh by blast
  then have "serve sample_session_env (\<lambda>_. None) (R_Refresh ''old'') sample_session_world = (Inr (), w1)"
    by (simp add: public_handler_def map_err_def bindE_def ret_def)
  from busy_requests_finish [OF this, of "\<lambda>_. None" "R_Refresh ''old''"] obtain sched ps w' b where
    run: "exec sched (backend sample_session_env (busy_workload
       [(\<lambda>_. None, R_Refresh ''old''), (\<lambda>_. None, R_Refresh ''old'')]), sample_session_world) = (ps, w')"
      "ps ! 7 = Done (Inr ())" "ps ! 8 = Done b" by blast
  from refresh_race [where i = 0 and j = 1 and ri = "Inr ()" and rj = b, OF sample_session_inv sample_session_fresh _ _ _ _ _ run(1)] run show ?thesis by auto
qed

section \<open>Wallets\<close>

definition wallet_taken :: "string \<Rightarrow> database \<Rightarrow> bool" where
  "wallet_taken pk d \<longleftrightarrow> pk \<in> aw_pubkey ` set (auth_wallet d)"

interpretation wallet_all: every_property E "wallet_taken pk" for E pk
  by unfold_locales
    (rule keeps_session_other keeps_accept_tx_other; simp add: wallet_taken_def
     | force simp: statement_defs keeper_statements mark_refunded_def confirm_stmt_def Let_def wallet_taken_def split: if_splits)+

text \<open>A wallet nobody has linked is what a request to link it takes.\<close>

interpretation wallet_race: contended "\<lambda>w. True" "\<lambda>w. \<not> wallet_taken pk (db w)" succeeded "db_frame (wallet_taken pk)" for pk
  by unfold_locales (auto simp: reflp_def db_frame_def)

lemma link_claims_wallet:
  "claimant (\<lambda>w. True) (\<lambda>w. \<not> wallet_taken (vr_pubkey body) (db w)) succeeded (serve_t E hs (R_LinkWallet body))"
proof -
  have "needs_it (\<lambda>w. True) (\<lambda>w. \<not> wallet_taken pk (db w))
      (atom (sql E InternalError (\<lambda>t _. insert_wallet t u pk) :: (world, app_error, unit) act))" for u pk
    by (rule claimant_atom) (auto simp: act_simps insert_wallet_def wallet_taken_def split: if_splits)
  then show ?thesis unfolding serve_t.simps link_wallet_t_def
    by (intro needs_with_user) (rule needs_later_then, rule needs_later_then, rule needs_later, rule needs_later_then,
      rule needs_first_then)
qed

text \<open>
  C9 (the wallet race). Two requests to link the same wallet, for the same or for different accounts, interleaved with
  any other requests and with the workers: at most one succeeds, although each looks the wallet up in one statement and inserts it in
  another.
\<close>

theorem wallet_link_race:
  assumes "i < length (wl_requests l)" and "j < length (wl_requests l)" and "i \<noteq> j"
    and "snd (wl_requests l ! i) = R_LinkWallet bi" and "snd (wl_requests l ! j) = R_LinkWallet bj" and "vr_pubkey bi = vr_pubkey bj"
    and "exec sched (backend E l, w) = (ps, w')"
    and "ps ! request_thread l i = Done ri" and "ps ! request_thread l j = Done rj"
  shows "\<not> (succeeded ri \<and> succeeded rj)"
proof (rule wallet_race.one_winner [OF TrueI wallet_all.all.backend_always])
  show "claimant (\<lambda>w. True) (\<lambda>w. \<not> wallet_taken (vr_pubkey bi) (db w)) succeeded (backend E l ! request_thread l i)"
    using assms(1,4) link_claims_wallet [of bi] by (simp add: backend_request)
  show "claimant (\<lambda>w. True) (\<lambda>w. \<not> wallet_taken (vr_pubkey bi) (db w)) succeeded (backend E l ! request_thread l j)"
    using assms(2,5,6) link_claims_wallet [of bj] by (simp add: backend_request)
qed (use assms in \<open>simp_all add: backend_request\<close>)

text \<open>A user without a wallet, whose token every request carries.\<close>

definition sample_token_env :: "string option \<Rightarrow> env" where
  "sample_token_env pk = sample_env\<lparr>lib := sample_libs\<lparr>jwt_decode := (\<lambda>secret t token.
     Some \<lparr>cl_sub = 7, cl_pubkey = pk, cl_exp = 2000, cl_iat = 0, cl_jti = 1\<rparr>)\<rparr>\<rparr>"

definition bearer :: headers where
  "bearer h = (if h = ''authorization'' then Some ''Bearer t'' else None)"

definition sample_link_world :: world where
  "sample_link_world = empty_world\<lparr>db := empty_db
     \<lparr>user_accounts := [\<lparr>ua_id = 7, ua_display_name = None, ua_created_at = 0\<rparr>],
      siws_nonces := [\<lparr>sn_nonce = ''N'', sn_created_at = 900\<rparr>]\<rparr>\<rparr>"

lemma sample_token_user:
  "auth_user_from_request (sample_token_env pk) bearer w = (Inr \<lparr>au_user_id = 7, au_pubkey = pk\<rparr>, tick_on w)"
  by (simp add: auth_user_from_request_def decode_access_token_def bearer_def strip_prefix_def run_defs
      sample_token_env_def sample_env_def)

theorem wallet_link_race_witness:
  "\<exists>sched ps w' b. exec sched (backend (sample_token_env None) (busy_workload
       [(bearer, R_LinkWallet sample_login), (bearer, R_LinkWallet sample_login)]), sample_link_world) = (ps, w') \<and>
     ps ! 7 = Done (Inr ()) \<and> ps ! 8 = Done b \<and> \<not> succeeded b"
proof -
  let ?E = "sample_token_env None"
  have "\<exists>resp w1. link_wallet ?E \<lparr>au_user_id = 7, au_pubkey = None\<rparr> sample_login (tick_on sample_link_world) = (Inr resp, w1)"
    by (simp add: link_wallet_def check_signed_nonce_def issue_access_token_def current_timestamp_def
        issue_and_store_refresh_token_def consume_nonce_def live_nonce_def wallet_owner_def insert_wallet_def run_defs
        sample_link_world_def sample_token_env_def sample_login_defs as_bytes_def)
  then obtain resp w1 where
    "link_wallet ?E \<lparr>au_user_id = 7, au_pubkey = None\<rparr> sample_login (tick_on sample_link_world) = (Inr resp, w1)" by blast
  then have "serve ?E bearer (R_LinkWallet sample_login) sample_link_world = (Inr (), w1)"
    by (simp add: with_user_def public_handler_def sample_token_user map_err_def bindE_def ret_def)
  from busy_requests_finish [OF this, of bearer "R_LinkWallet sample_login"] obtain sched ps w' b where
    run: "exec sched (backend ?E (busy_workload [(bearer, R_LinkWallet sample_login), (bearer, R_LinkWallet sample_login)]),
        sample_link_world) = (ps, w')" "ps ! 7 = Done (Inr ())" "ps ! 8 = Done b" by blast
  from wallet_link_race [where i = 0 and j = 1 and ri = "Inr ()" and rj = b and bi = sample_login and bj = sample_login, OF _ _ _ _ _ _ run(1)] run show ?thesis by auto
qed

section \<open>Invitations\<close>

text \<open>Accepted or expired: no longer to be had.\<close>

definition invitation_spent :: "string \<Rightarrow> database \<Rightarrow> bool" where
  "invitation_spent tok d \<longleftrightarrow> (\<exists>i \<in> set (party_invitations d). inv_token i = tok \<and> inv_status i \<noteq> ''pending'')"

definition invitation_frame :: "env \<Rightarrow> world \<Rightarrow> world \<Rightarrow> bool" where
  "invitation_frame E w w' \<longleftrightarrow>
     (draft_inv E (db w) \<longrightarrow> draft_inv E (db w') \<and> invitations_evolve (db w) (db w'))"

lemma always_invitation_frame:
  assumes "serde_law (lib E)"
  shows "\<forall>p \<in> set (backend E l). always (invitation_frame E) p"
proof
  fix p assume p: "p \<in> set (backend E l)"
  have "always (db_frame (\<lambda>d. draft_inv E d \<and> invitations_evolve d0 d)) p" for d0
    using every_property.backend_always_db [OF draft_all [OF assms]] p by blast
  then have "always (\<lambda>w w'. \<forall>d0. db_frame (\<lambda>d. draft_inv E d \<and> invitations_evolve d0 d) w w') p" by (rule always_all)
  then show "always (invitation_frame E) p"
    by (rule always_mono) (use evolves_refl in \<open>force simp: invitation_frame_def db_frame_def\<close>)
qed

lemma invitation_spent_evolves:
  assumes "invitations_evolve d d'" and "invitation_spent tok d"
  shows "invitation_spent tok d'"
proof -
  from assms(2) obtain i where i: "i \<in> set (party_invitations d)" "inv_token i = tok" "inv_status i \<noteq> ''pending''"
    by (auto simp: invitation_spent_def)
  with assms(1) obtain i' where i': "i' \<in> set (party_invitations d')" "inv_key i' = inv_key i"
    "invitation_step\<^sup>*\<^sup>* (inv_status i) (inv_status i')" by (auto simp: evolves_def)
  from i'(3) i(3) have "inv_status i' \<noteq> ''pending''"
    by (induction rule: rtranclp_induct) (auto simp: invitation_step_def)
  with i i' show ?thesis by (auto simp: invitation_spent_def inv_key_def)
qed

interpretation invitation_race: contended "\<lambda>w. draft_inv E (db w)" "\<lambda>w. \<not> invitation_spent tok (db w)" succeeded
  "invitation_frame E" for E tok
  by unfold_locales (auto simp: reflp_def invitation_frame_def evolves_refl intro: invitation_spent_evolves)

lemma accept_claims_invitation:
  "claimant (\<lambda>w. draft_inv E (db w)) (\<lambda>w. \<not> invitation_spent tok (db w)) succeeded (serve_t E hs (R_AcceptInvite tok))"
proof -
  have "needs_it (\<lambda>w. draft_inv E (db w)) (\<lambda>w. \<not> invitation_spent tok (db w)) (atom (accept_tx E pk tok t))" for pk t
  proof (rule claimant_atom)
    fix w and r :: "app_error + invitation_row \<times> draft_row \<times> bool" and w'
    assume inv: "draft_inv E (db w)" and run: "accept_tx E pk tok t w = (r, w')" and "\<exists>x. r = Inr x"
    then obtain i dr b v where f: "find_invitation tok (db w) = Some i" and p: "inv_status i = ''pending''"
      and w': "db w' = store_slots (inv_draft_id i) v b t (mark_accepted (inv_id i) (db w))"
      by (metis accept_tx_Inr prod.exhaust)
    have i: "i \<in> set (party_invitations (db w))" "inv_token i = tok" using find_invitation_Some [OF f] by simp_all
    have "\<not> invitation_spent tok (db w)"
      using find_invitation_token [OF inv] f p by (auto simp: invitation_spent_def)
    moreover have "i\<lparr>inv_status := ''accepted''\<rparr> \<in> set (party_invitations (db w'))"
      unfolding w' using i(1) by (force simp: store_slots_def mark_accepted_def update_draft_def in_upd_where)
    then have "invitation_spent tok (db w')"
      unfolding invitation_spent_def using i(2) by (intro bexI [of _ "i\<lparr>inv_status := ''accepted''\<rparr>"]) simp_all
    ultimately show "\<not> invitation_spent tok (db w) \<and> \<not> \<not> invitation_spent tok (db w')" by simp
  qed
  then show ?thesis unfolding serve_t.simps accept_invite_t_def
    by (intro needs_with_wallet) (rule needs_later, rule needs_first)
qed

text \<open>
  C18 (the invitation race). Several people follow the same invitation link at the same time, among any other requests and
  next to the workers, of which the keeper reminds of invitations and expires them: at most one of them is recorded as the party.
\<close>

theorem invitation_accept_race:
  assumes "serde_law (lib E)" and "draft_inv E (db w)"
    and "i < length (wl_requests l)" and "j < length (wl_requests l)" and "i \<noteq> j"
    and "snd (wl_requests l ! i) = R_AcceptInvite tok" and "snd (wl_requests l ! j) = R_AcceptInvite tok"
    and "exec sched (backend E l, w) = (ps, w')"
    and "ps ! request_thread l i = Done ri" and "ps ! request_thread l j = Done rj"
  shows "\<not> (succeeded ri \<and> succeeded rj)"
  by (rule invitation_race.one_winner [OF assms(2) always_invitation_frame [OF assms(1)]])
    (use assms accept_claims_invitation in \<open>simp_all add: backend_request\<close>)

theorem invitation_accept_race_witness:
  "\<exists>sched ps w' b. exec sched (backend (sample_token_env (Some ''alice'')) (busy_workload
       [(bearer, R_AcceptInvite ''tok''), (bearer, R_AcceptInvite ''tok'')]), sample_invite_world) = (ps, w') \<and>
     ps ! 7 = Done (Inr ()) \<and> ps ! 8 = Done b \<and> \<not> succeeded b"
proof -
  let ?E = "sample_token_env (Some ''alice'')"
  have law: "serde_law (lib ?E)" using sample_laws(1) by (simp add: serde_law_def sample_token_env_def sample_env_def)
  have inv: "draft_inv ?E (db sample_invite_world)"
    using sample_invite_inv by (simp add: draft_inv_def draft_ok_def sample_token_env_def sample_env_def)
  have "\<exists>w1. accept_invite ?E sample_caller ''tok'' (tick_on sample_invite_world) = (Inr 204, w1)"
    by (simp add: accept_defs run_defs sample_invite_world_def new_draft_row_def new_invitation_row_def
        sample_caller_def sample_token_env_def sample_defs slots_of_slots_value)
  then obtain w1 where "accept_invite ?E sample_caller ''tok'' (tick_on sample_invite_world) = (Inr 204, w1)" by blast
  then have "serve ?E bearer (R_AcceptInvite ''tok'') sample_invite_world = (Inr (), w1)"
    by (simp add: with_wallet_def auth_user_with_wallet_from_request_def public_handler_def sample_token_user map_err_def
        bindE_def ret_def sample_caller_def)
  from busy_requests_finish [OF this, of bearer "R_AcceptInvite ''tok''"] obtain sched ps w' b where
    run: "exec sched (backend ?E (busy_workload [(bearer, R_AcceptInvite ''tok''), (bearer, R_AcceptInvite ''tok'')]),
        sample_invite_world) = (ps, w')" "ps ! 7 = Done (Inr ())" "ps ! 8 = Done b" by blast
  from invitation_accept_race [where i = 0 and j = 1 and ri = "Inr ()" and rj = b, OF law inv _ _ _ _ _ run(1)] run show ?thesis by auto
qed

end
