(* ===== verification/Check_Then_Act.thy ===== *)
theory Check_Then_Act
  imports Races
begin

text \<open>
  Two places where a handler reads in one statement what it relies on in a later one, and nothing in the database
  holds other requests off in between. The theorems give the schedule, for every state in which it can happen, and
  the sequential order in which it cannot.
\<close>

lemma pool_step_pair [simp]:
  "pool_step 0 ([p, q], w) = (case p of Done r \<Rightarrow> ([p, q], w) | Atom f g \<Rightarrow> ([g w, q], f w))"
  "pool_step (Suc 0) ([p, q], w) = (case q of Done r \<Rightarrow> ([p, q], w) | Atom f g \<Rightarrow> ([p, g w], f w))"
  by (simp_all add: pool_step_def split: prog.splits)

text \<open>A step of a thread that starts with an action.\<close>

lemma bind_atom: "bind_t (atom m) k = Atom (\<lambda>w. snd (m w)) (\<lambda>w. case fst (m w) of Inl e \<Rightarrow> Done (Inl e) | Inr x \<Rightarrow> k x)"
  by (simp add: atom_def)

lemma then_atom: "then_t (atom m) q = Atom (\<lambda>w. snd (m w)) (\<lambda>w. case fst (m w) of Inl e \<Rightarrow> Done (Inl e) | Inr x \<Rightarrow> q)"
  by (simp add: then_t_def bind_atom)

section \<open>The free tier\<close>

lemma bump_free_used_room:
  assumes u: "u \<in> ua_id ` set (user_accounts d)"
    and le: "\<forall>r \<in> set (user_agreement_counts d). cnt_user_id r = u \<longrightarrow> cnt_free_used r \<le> n" and n: "0 \<le> n" "n < 2147483647"
  shows "\<exists>d'. bump_free_used u d = Some ((), d') \<and> u \<in> ua_id ` set (user_accounts d') \<and>
    (\<forall>r \<in> set (user_agreement_counts d'). cnt_user_id r = u \<longrightarrow> cnt_free_used r \<le> n + 1)"
proof (cases "u \<in> cnt_user_id ` set (user_agreement_counts d)")
  case True
  have "\<not> (\<exists>r \<in> set (user_agreement_counts d). cnt_user_id r = u \<and> cnt_free_used r + 1 > 2147483647)"
    using le n by force
  with True show ?thesis using u le by (auto simp: bump_free_used_def in_upd_where)
next
  case False
  with u le n show ?thesis by (auto simp: bump_free_used_def)
qed

lemma bump_twice:
  assumes "u \<in> ua_id ` set (user_accounts d)"
    and "\<forall>r \<in> set (user_agreement_counts d). cnt_user_id r = u \<longrightarrow> cnt_free_used r < 2147483645"
  obtains d1 d2 where "bump_free_used u d = Some ((), d1)" and "bump_free_used u d1 = Some ((), d2)"
    and "free_used_of u d2 = free_used_of u d + 2"
proof -
  have "\<forall>r \<in> set (user_agreement_counts d). cnt_user_id r = u \<longrightarrow> cnt_free_used r \<le> 2147483644" using assms(2) by auto
  from bump_free_used_room [OF assms(1) this] obtain d1 where d1: "bump_free_used u d = Some ((), d1)"
    and u1: "u \<in> ua_id ` set (user_accounts d1)"
    and le: "\<forall>r \<in> set (user_agreement_counts d1). cnt_user_id r = u \<longrightarrow> cnt_free_used r \<le> 2147483644 + 1" by auto
  from bump_free_used_room [OF u1 le] obtain d2 where d2: "bump_free_used u d1 = Some ((), d2)" by auto
  show ?thesis using that [OF d1 d2] bump_free_used_count [OF d1] bump_free_used_count [OF d2] by simp
qed

text \<open>
  C24 (the free tier can be overrun). A user with one free agreement left pays for two of her drafts. One after the other,
  the second payment is not free. Interleaved so that both requests read the counter before either writes it, both
  are answered \<open>Free\<close>, and the counter ends one above the tier.
\<close>

theorem free_tier_race:
  assumes up: "\<And>k. \<not> db_fault (orc E) k"
    and d1: "find_draft i1 (db w) = Some r1" "dr_creator_pubkey r1 = aww_pubkey auth"
    and d2: "find_draft i2 (db w) = Some r2" "dr_creator_pubkey r2 = aww_pubkey auth"
    and left: "free_used_of (aww_user_id auth) (db w) + 1 = as_i32 (platform_fee_free_tier (cfg E))"
    and user: "aww_user_id auth \<in> ua_id ` set (user_accounts (db w))"
    and small: "\<forall>r \<in> set (user_agreement_counts (db w)). cnt_user_id r = aww_user_id auth \<longrightarrow> cnt_free_used r < 2147483645"
  shows "(\<exists>sched w'. exec sched ([initiate_payment_t E auth i1 m1, initiate_payment_t E auth i2 m2], w) =
        ([Done (Inr Free), Done (Inr Free)], w') \<and>
      free_used_of (aww_user_id auth) (db w') = as_i32 (platform_fee_free_tier (cfg E)) + 1) \<and>
    (\<forall>wa. initiate_payment E auth i1 m1 w = (Inr Free, wa) \<longrightarrow> (\<forall>wb. initiate_payment E auth i2 m2 wa \<noteq> (Inr Free, wb)))"
proof
  let ?u = "aww_user_id auth"
  let ?d = "mark_paid i2 (mark_paid i1 (db w))"
  have frame: "user_accounts ?d = user_accounts (db w)" "user_agreement_counts ?d = user_agreement_counts (db w)"
    by (simp_all add: mark_paid_def update_draft_def)
  obtain e1 e2 where e1: "bump_free_used ?u ?d = Some ((), e1)" and e2: "bump_free_used ?u e1 = Some ((), e2)"
    and count: "free_used_of ?u e2 = free_used_of ?u ?d + 2"
    using bump_twice [of ?u ?d] user small unfolding frame by blast
  let ?w = "w\<lparr>tick := tick w + 8, db := e2\<rparr>"
  have "exec [0, 1, 0, 1, 0, 1, 0, 1] ([initiate_payment_t E auth i1 m1, initiate_payment_t E auth i2 m2], w) =
      ([Done (Inr Free), Done (Inr Free)], ?w)"
    using up d1 d2 left e1 e2
    by (simp add: initiate_payment_t_def bind_atom then_atom get_draft_row_def run_defs guard_t_def then_t_def ret_t_def)
  moreover have "free_used_of ?u (db ?w) = as_i32 (platform_fee_free_tier (cfg E)) + 1"
    using count left by (simp add: mark_paid_counts)
  ultimately show "\<exists>sched w'. exec sched ([initiate_payment_t E auth i1 m1, initiate_payment_t E auth i2 m2], w) =
        ([Done (Inr Free), Done (Inr Free)], w') \<and>
      free_used_of ?u (db w') = as_i32 (platform_fee_free_tier (cfg E)) + 1" by blast
  have stable: "pay_stablecoin E i m u \<noteq> (Inr Free, u')" for i m u u'
    by (auto simp: pay_stablecoin_def act_simps Let_def)
  show "\<forall>wa. initiate_payment E auth i1 m1 w = (Inr Free, wa) \<longrightarrow> (\<forall>wb. initiate_payment E auth i2 m2 wa \<noteq> (Inr Free, wb))"
  proof (intro allI impI notI)
    fix wa wb
    assume a: "initiate_payment E auth i1 m1 w = (Inr Free, wa)" and b: "initiate_payment E auth i2 m2 wa = (Inr Free, wb)"
    from a left stable have "free_used_of ?u (db wa) = free_used_of ?u (db w) + 1"
      by (auto simp: initiate_payment_def pay_free_def get_draft_row_def act_simps mark_paid_counts
          dest!: bump_free_used_count split: if_splits)
    with b left stable show False
      by (auto simp: initiate_payment_def get_draft_row_def act_simps split: if_splits)
  qed
qed

definition sample_tier_world :: world where
  "sample_tier_world = empty_world\<lparr>db := empty_db
     \<lparr>user_accounts := [\<lparr>ua_id = 7, ua_display_name = None, ua_created_at = 0\<rparr>],
      user_agreement_counts := [\<lparr>cnt_user_id = 7, cnt_total_submitted = 2, cnt_free_used = 2\<rparr>],
      agreement_drafts := [new_draft_row 1 ''alice'' JNull JNull 0, new_draft_row 2 ''alice'' JNull JNull 0]\<rparr>\<rparr>"

theorem free_tier_race_witness:
  "\<exists>sched w'. exec sched ([initiate_payment_t sample_env sample_caller 1 ''usdc'', initiate_payment_t sample_env sample_caller 2 ''usdt''],
       sample_tier_world) = ([Done (Inr Free), Done (Inr Free)], w') \<and>
     free_used_of 7 (db w') = 4 \<and> as_i32 (platform_fee_free_tier (cfg sample_env)) = 3"
proof -
  have tier: "as_i32 (platform_fee_free_tier (cfg sample_env)) = 3"
    by (simp add: sample_defs as_i32_def)
  have "free_used_of (aww_user_id sample_caller) (db sample_tier_world) + 1 = as_i32 (platform_fee_free_tier (cfg sample_env))"
    unfolding tier by (simp add: free_used_of_def sample_tier_world_def sample_caller_def)
  from free_tier_race [of sample_env 1 sample_tier_world "new_draft_row 1 ''alice'' JNull JNull 0" sample_caller 2
      "new_draft_row 2 ''alice'' JNull JNull 0" "''usdc''" "''usdt''", OF _ _ _ _ _ this] tier
  show ?thesis
    by (simp add: find_draft_def sample_tier_world_def sample_caller_def new_draft_row_def sample_outside_def sample_env_def)
qed

section \<open>The first sign-in of an identity\<close>

lemma upd_where_append: "upd_where P f (xs @ ys) = upd_where P f xs @ upd_where P f ys"
  by (simp add: upd_where_def)

lemma upsert_email_total:
  assumes "\<And>k. \<not> db_fault (orc E) k"
    and "decode_hex_key_32 E (encryption_key (cfg E)) = Inr key" and "decode_hex_key_32 E (encryption_index_key (cfg E)) = Inr idx_key"
    and "\<And>k n m. aes_gcm_encrypt (lib E) k n m \<noteq> None" and "u \<in> ua_id ` set (user_accounts (db w))"
  shows "\<exists>d. upsert_email_contact E u email w = (Inr (), w\<lparr>tick := tick w + 2, db := d\<rparr>) \<and>
    auth_oauth d = auth_oauth (db w) \<and> user_accounts d = user_accounts (db w)"
proof -
  obtain c where "aes_gcm_encrypt (lib E) key (random_bytes (orc E) (tick w) 12) (as_bytes email) = Some c"
    using assms(4) by blast
  then show ?thesis using assms(1,2,3,5)
    by (auto simp: upsert_email_contact_def encrypt_def run_defs upsert_contact_def)
qed

lemma oauth_owner_None_iff: "oauth_owner prov pid d = None \<longleftrightarrow> (\<forall>r \<in> set (auth_oauth d). \<not> (ao_provider r = prov \<and> ao_provider_id r = pid))"
  by (simp add: oauth_owner_def select_first_None_iff)

lemma resolve_again:
  assumes "resolve_or_create_oauth_user E p pid email w = (Inr (ResolvedUser u), wa)"
    and "resolve_or_create_oauth_user E p pid email' wa = (Inr (ResolvedUser v), wb)"
  shows "v = u"
proof -
  from assms(1) obtain t d d' x w1 where up: "upsert_oauth u (provider_as_str p) pid t d = Some (x, d')"
    and mail: "upsert_email_contact E u email w1 = (Inr (), wa)" and w1: "db w1 = d'"
    by (force simp: resolve_or_create_oauth_user_def act_simps Let_def split: option.splits)
  from mail w1 have "auth_oauth (db wa) = auth_oauth d'"
    by (auto simp: upsert_email_contact_def encrypt_def act_simps dest!: upsert_contact_other)
  then have "oauth_owner (provider_as_str p) pid (db wa) = Some u"
    using oauth_owner_upsert [OF up] by (simp add: oauth_owner_def)
  with assms(2) show ?thesis
    by (auto simp: resolve_or_create_oauth_user_def user_for_identity_def act_simps Let_def split: option.splits)
qed

text \<open>What is left of a callback once it knows the account: link the identity, then store the address.\<close>

definition link_identity_t :: "env \<Rightarrow> oauth_provider \<Rightarrow> string \<Rightarrow> string \<Rightarrow> uuid \<Rightarrow> (world, app_error, oauth_user_resolution) thread" where
  "link_identity_t E p pid email x =
     then_t (atom (sql E InternalError (\<lambda>t _. upsert_oauth x (provider_as_str p) pid t)))
     (then_t (atom (upsert_email_contact E x email)) (ret_t (ResolvedUser x)))"

text \<open>Both callbacks find nothing and create an account each.\<close>

lemma both_create_accounts:
  assumes up: "\<And>k. \<not> db_fault (orc E) k" and key: "decode_hex_key_32 E (encryption_index_key (cfg E)) = Inr idx_key"
    and new: "oauth_owner (provider_as_str p) pid (db w) = None" "identities_with_email (hmac_index E email idx_key) (db w) = []"
    and u: "u = random_uuid (orc E) (tick w + 6)" and v: "v = random_uuid (orc E) (tick w + 7)" and uv: "u \<noteq> v"
    and out: "u \<notin> ua_id ` set (user_accounts (db w))" "v \<notin> ua_id ` set (user_accounts (db w))"
  shows "\<exists>as. exec [0, 1, 0, 1, 0, 1, 0, 1]
      ([resolve_or_create_oauth_user_t E p pid email, resolve_or_create_oauth_user_t E p pid email], w) =
      ([link_identity_t E p pid email u, link_identity_t E p pid email v],
       w\<lparr>tick := tick w + 8, db := (db w)\<lparr>user_accounts := user_accounts (db w) @ as\<rparr>\<rparr>) \<and> ua_id ` set as = {u, v}"
proof -
  have nobody: "conflicting_provider (hmac_index E email idx_key) (provider_as_str p) (db w) = None"
    "same_provider_user (hmac_index E email idx_key) (provider_as_str p) (db w) = None"
    using new(2) by (simp_all add: conflicting_provider_def same_provider_user_def)
  have ids: "random_uuid (orc E) (Suc (Suc (Suc (Suc (Suc (Suc (tick w))))))) = u"
    "random_uuid (orc E) (Suc (Suc (Suc (Suc (Suc (Suc (Suc (tick w)))))))) = v"
    by (simp_all add: u v numeral_eq_Suc)
  let ?as = "[\<lparr>ua_id = u, ua_display_name = None, ua_created_at = clock (orc E) (Suc (Suc (Suc (Suc (Suc (Suc (tick w)))))))\<rparr>,
    \<lparr>ua_id = v, ua_display_name = None, ua_created_at = clock (orc E) (Suc (Suc (Suc (Suc (Suc (Suc (Suc (tick w))))))))\<rparr>]"
  have "exec [0, 1, 0, 1, 0, 1, 0, 1]
      ([resolve_or_create_oauth_user_t E p pid email, resolve_or_create_oauth_user_t E p pid email], w) =
      ([link_identity_t E p pid email u, link_identity_t E p pid email v],
       w\<lparr>tick := tick w + 8, db := (db w)\<lparr>user_accounts := user_accounts (db w) @ ?as\<rparr>\<rparr>)"
    using up key new(1) nobody out uv
    by (simp add: resolve_or_create_oauth_user_t_def user_for_identity_t_def bind_atom then_atom run_defs lift_t_def
        insert_user_def ids link_identity_t_def)
  then show ?thesis by (intro exI [of _ ?as]) simp
qed

text \<open>The second to link takes the identity from the first.\<close>

lemma second_link_wins:
  assumes "upsert_oauth u prov pid t d = Some (x, d1)" and "upsert_oauth v prov pid t' d1 = Some (x', d2)"
    and "oauth_owner prov pid d = None" and "u \<noteq> v" and "u \<notin> ao_user_id ` set (auth_oauth d)"
  shows "oauth_owner prov pid d2 = Some v \<and> u \<notin> ao_user_id ` set (auth_oauth d2)"
proof -
  from assms(3) have no: "\<not> (ao_provider r = prov \<and> ao_provider_id r = pid)" if "r \<in> set (auth_oauth d)" for r
    using that by (auto simp: oauth_owner_None_iff)
  then have "auth_oauth d1 = auth_oauth d @ [\<lparr>ao_user_id = u, ao_provider = prov, ao_provider_id = pid, ao_linked_at = t\<rparr>]"
    using assms(1) by (auto simp: upsert_oauth_def split: if_splits)
  then have "auth_oauth d2 = auth_oauth d @ [\<lparr>ao_user_id = v, ao_provider = prov, ao_provider_id = pid, ao_linked_at = t\<rparr>]"
    using assms(2) upd_where_no_match [of "auth_oauth d" "\<lambda>r. ao_provider r = prov \<and> ao_provider_id r = pid", OF no]
    by (auto simp: upsert_oauth_def upd_where_append split: if_splits)
  then show ?thesis using oauth_owner_upsert [OF assms(2)] assms(4,5) by auto
qed

lemma both_link:
  assumes up: "\<And>k. \<not> db_fault (orc E) k"
    and keys: "decode_hex_key_32 E (encryption_key (cfg E)) = Inr key" "decode_hex_key_32 E (encryption_index_key (cfg E)) = Inr idx_key"
    and cipher: "\<And>k n m. aes_gcm_encrypt (lib E) k n m \<noteq> None"
    and new: "oauth_owner (provider_as_str p) pid (db w) = None" and uv: "u \<noteq> v"
    and ids: "{u, v} \<subseteq> ua_id ` set (user_accounts (db w))" and none: "u \<notin> ao_user_id ` set (auth_oauth (db w))"
  shows "\<exists>w'. exec [0, 1, 0, 1] ([link_identity_t E p pid email u, link_identity_t E p pid email v], w) =
      ([Done (Inr (ResolvedUser u)), Done (Inr (ResolvedUser v))], w') \<and>
    {u, v} \<subseteq> ua_id ` set (user_accounts (db w')) \<and>
    oauth_owner (provider_as_str p) pid (db w') = Some v \<and> u \<notin> ao_user_id ` set (auth_oauth (db w'))"
proof -
  let ?prov = "provider_as_str p"
  let ?link = "\<lambda>x. sql E InternalError (\<lambda>t _. upsert_oauth x ?prov pid t) :: (world, app_error, unit) act"
  obtain d1 where d1: "upsert_oauth u ?prov pid (clock (orc E) (tick w)) (db w) = Some ((), d1)"
    using ids by (auto simp: upsert_oauth_def)
  obtain d2 where d2: "upsert_oauth v ?prov pid (clock (orc E) (Suc (tick w))) d1 = Some ((), d2)"
    using ids upsert_oauth_other [OF d1] by (auto simp: upsert_oauth_def)
  let ?w1 = "(tick_on w)\<lparr>db := d1\<rparr>" and ?w2 = "(tick_on (tick_on w))\<lparr>db := d2\<rparr>"
  have l: "?link u w = (Inr (), ?w1)" "?link v ?w1 = (Inr (), ?w2)"
    using up d1 d2 by (simp_all add: sql_def tick_on_def)
  have acc: "user_accounts d2 = user_accounts (db w)" using upsert_oauth_other [OF d1] upsert_oauth_other [OF d2] by simp
  have "u \<in> ua_id ` set (user_accounts (db ?w2))" using ids acc by simp
  from upsert_email_total [OF up keys cipher this] obtain w3 where
    m3: "upsert_email_contact E u email ?w2 = (Inr (), w3)"
    and f3: "auth_oauth (db w3) = auth_oauth d2" "user_accounts (db w3) = user_accounts (db w)"
    using acc by force
  have "v \<in> ua_id ` set (user_accounts (db w3))" using ids f3 by simp
  from upsert_email_total [OF up keys cipher this] obtain w4 where
    m4: "upsert_email_contact E v email w3 = (Inr (), w4)"
    and f4: "auth_oauth (db w4) = auth_oauth d2" "user_accounts (db w4) = user_accounts (db w)"
    using f3 by force
  have "exec [0, 1, 0, 1] ([link_identity_t E p pid email u, link_identity_t E p pid email v], w) =
      ([Done (Inr (ResolvedUser u)), Done (Inr (ResolvedUser v))], w4)"
    using l m3 m4 by (simp add: link_identity_t_def then_atom ret_t_def)
  then show ?thesis
    using second_link_wins [OF d1 d2 new uv none] f4 ids by (auto simp: oauth_owner_def)
qed

text \<open>
  C12 (the first sign-in can be doubled). An identity that has never signed in comes back from its provider twice at the
  same time. One after the other, both callbacks sign in the same account. Interleaved so that both look the identity
  up before either links it, each creates an account; the second to write takes the identity over, and the account of
  the first session is left without any identity.
\<close>

theorem oauth_first_sign_in_race:
  assumes up: "\<And>k. \<not> db_fault (orc E) k"
    and keys: "decode_hex_key_32 E (encryption_key (cfg E)) = Inr key" "decode_hex_key_32 E (encryption_index_key (cfg E)) = Inr idx_key"
    and cipher: "\<And>k n m. aes_gcm_encrypt (lib E) k n m \<noteq> None"
    and new: "oauth_owner (provider_as_str p) pid (db w) = None" "identities_with_email (hmac_index E email idx_key) (db w) = []"
    and differ: "random_uuid (orc E) (tick w + 6) \<noteq> random_uuid (orc E) (tick w + 7)"
    and fresh: "\<And>k. random_uuid (orc E) (tick w + k) \<notin> ua_id ` set (user_accounts (db w)) \<union> ao_user_id ` set (auth_oauth (db w))"
  shows "(\<exists>sched w' u v. exec sched
        ([resolve_or_create_oauth_user_t E p pid email, resolve_or_create_oauth_user_t E p pid email], w) =
        ([Done (Inr (ResolvedUser u)), Done (Inr (ResolvedUser v))], w') \<and> u \<noteq> v \<and>
      {u, v} \<subseteq> ua_id ` set (user_accounts (db w')) \<and>
      oauth_owner (provider_as_str p) pid (db w') = Some v \<and> u \<notin> ao_user_id ` set (auth_oauth (db w'))) \<and>
    (\<forall>wa wb u v. resolve_or_create_oauth_user E p pid email w = (Inr (ResolvedUser u), wa) \<longrightarrow>
      resolve_or_create_oauth_user E p pid email wa = (Inr (ResolvedUser v), wb) \<longrightarrow> v = u)"
proof
  let ?T = "resolve_or_create_oauth_user_t E p pid email"
  define u where "u = random_uuid (orc E) (tick w + 6)"
  define v where "v = random_uuid (orc E) (tick w + 7)"
  have uv: "u \<noteq> v" using differ by (simp add: u_def v_def)
  have out: "u \<notin> ua_id ` set (user_accounts (db w))" "v \<notin> ua_id ` set (user_accounts (db w))"
    "u \<notin> ao_user_id ` set (auth_oauth (db w))"
    using fresh by (simp_all add: u_def v_def)
  obtain as where a: "exec [0, 1, 0, 1, 0, 1, 0, 1] ([?T, ?T], w) =
      ([link_identity_t E p pid email u, link_identity_t E p pid email v],
       w\<lparr>tick := tick w + 8, db := (db w)\<lparr>user_accounts := user_accounts (db w) @ as\<rparr>\<rparr>)" "ua_id ` set as = {u, v}"
    using both_create_accounts [OF up keys(2) new u_def v_def uv out(1,2)] by blast
  let ?w = "w\<lparr>tick := tick w + 8, db := (db w)\<lparr>user_accounts := user_accounts (db w) @ as\<rparr>\<rparr>"
  have own: "oauth_owner (provider_as_str p) pid (db ?w) = None" using new(1) by (simp add: oauth_owner_def)
  have acc: "{u, v} \<subseteq> ua_id ` set (user_accounts (db ?w))" using a(2) by (auto simp: image_Un)
  have none: "u \<notin> ao_user_id ` set (auth_oauth (db ?w))" using out(3) by simp
  from both_link [OF up keys cipher own uv acc none, of email]
  obtain w' where b: "exec [0, 1, 0, 1] ([link_identity_t E p pid email u, link_identity_t E p pid email v], ?w) =
      ([Done (Inr (ResolvedUser u)), Done (Inr (ResolvedUser v))], w')"
    and end_state: "{u, v} \<subseteq> ua_id ` set (user_accounts (db w'))" "oauth_owner (provider_as_str p) pid (db w') = Some v"
      "u \<notin> ao_user_id ` set (auth_oauth (db w'))" by blast
  have "exec ([0, 1, 0, 1, 0, 1, 0, 1] @ [0, 1, 0, 1]) ([?T, ?T], w) = ([Done (Inr (ResolvedUser u)), Done (Inr (ResolvedUser v))], w')"
    unfolding exec_simps(3) a(1) by (rule b)
  with uv end_state show "\<exists>sched w' u v. exec sched ([?T, ?T], w) = ([Done (Inr (ResolvedUser u)), Done (Inr (ResolvedUser v))], w') \<and>
      u \<noteq> v \<and> {u, v} \<subseteq> ua_id ` set (user_accounts (db w')) \<and> oauth_owner (provider_as_str p) pid (db w') = Some v \<and>
      u \<notin> ao_user_id ` set (auth_oauth (db w'))" by blast
qed (use resolve_again in blast)

theorem oauth_first_sign_in_race_witness:
  "\<exists>sched w' u v. exec sched ([resolve_or_create_oauth_user_t sample_env Google ''g1'' ''a@b.c'',
       resolve_or_create_oauth_user_t sample_env Google ''g1'' ''a@b.c''], empty_world) =
     ([Done (Inr (ResolvedUser u)), Done (Inr (ResolvedUser v))], w') \<and> u \<noteq> v \<and>
     oauth_owner (provider_as_str Google) ''g1'' (db w') = Some v"
proof -
  have key: "decode_hex_key_32 sample_env (replicate 64 (CHR ''0'')) = Inr (replicate 32 0)"
    by (simp add: decode_hex_key_32_def sample_env_def sample_libs_def)
  have keys: "decode_hex_key_32 sample_env (encryption_key (cfg sample_env)) = Inr (replicate 32 0)"
    "decode_hex_key_32 sample_env (encryption_index_key (cfg sample_env)) = Inr (replicate 32 0)"
    using key by (simp_all add: sample_env_def sample_config_def)
  have "(6 :: uuid) \<noteq> 7" by simp
  then have differ: "random_uuid (orc sample_env) (tick empty_world + 6) \<noteq> random_uuid (orc sample_env) (tick empty_world + 7)"
    by (simp add: sample_defs)
  from oauth_first_sign_in_race [of sample_env "replicate 32 0" "replicate 32 0" Google "''g1''" empty_world "''a@b.c''", OF _ keys _ _ _ differ]
  have "\<exists>sched w' u v. exec sched ([resolve_or_create_oauth_user_t sample_env Google ''g1'' ''a@b.c'',
       resolve_or_create_oauth_user_t sample_env Google ''g1'' ''a@b.c''], empty_world) =
     ([Done (Inr (ResolvedUser u)), Done (Inr (ResolvedUser v))], w') \<and> u \<noteq> v \<and>
     {u, v} \<subseteq> ua_id ` set (user_accounts (db w')) \<and> oauth_owner (provider_as_str Google) ''g1'' (db w') = Some v \<and>
     u \<notin> ao_user_id ` set (auth_oauth (db w'))"
    by (simp add: sample_env_def sample_outside_def sample_libs_def empty_world_def empty_db_def oauth_owner_def identities_with_email_def)
  then show ?thesis by blast
qed

end
