(* ===== verification/Second_Instance.thy ===== *)
theory Second_Instance
  imports Concurrent_System
begin

text \<open>
  Why theory \<open>Concurrent_System\<close> has one listener. Two listeners, as two running copies of the process have, receive the
  same cancellation, and both look the payment up before either marks it.
\<close>

definition refund_tick_t :: "env \<Rightarrow> (world, app_error, unit) thread" where
  "refund_tick_t E = bind_t (process_pending_refunds_t E) (\<lambda>_. ret_t ())"

lemma status_at_marked:
  assumes "status_at i d \<noteq> {}"
  shows "status_at i (mark_refund_pending i t d) = {''refund_pending''}"
proof -
  let ?S = "{p \<in> set (agreement_payments d). pay_id p = i}"
  have "{p \<in> set (agreement_payments (mark_refund_pending i t d)). pay_id p = i} =
      (\<lambda>p. p\<lparr>pay_status := ''refund_pending'', pay_refund_initiated_at := Some t\<rparr>) ` ?S"
    by (auto simp: mark_refund_pending_def in_upd_where)
  moreover have "?S \<noteq> {}" using assms unfolding status_at_def by blast
  ultimately show ?thesis unfolding status_at_def by (simp add: image_image image_constant_conv)
qed

lemma status_at_single: "agreement_payments d = [p] \<Longrightarrow> status_at (pay_id p) d = {pay_status p}"
  by (auto simp: status_at_def)

text \<open>
  C28 (a second listener reopens a refund). Two listeners handle the end of the same agreement. Both read its confirmed
  payment, the first sends it to the refund queue, and a tick of the refund worker pays it back. Then the second
  listener writes what it decided before: the refunded payment is in the refund queue again, and the next tick pays
  it back once more. With the status in the condition of the statement nothing would happen.
\<close>

theorem second_listener_reopens_refund:
  assumes w1: "w1 = (tick_on (tick_on (tick_on w)))\<lparr>db := mark_refund_pending i (clock (orc E) (tick w + 2)) (db w)\<rparr>"
    and up: "\<And>k. \<not> db_fault (orc E) k" and c: "confirmed_payment pda (db w) = Some i"
    and tick: "process_pending_refunds E w1 = (Inr st, w2)" and refunded: "status_at i (db w2) = {''refunded''}"
  shows "\<exists>sched ps w3. exec sched ([initiate_refund_if_eligible_t E pda, initiate_refund_if_eligible_t E pda, refund_tick_t E], w) = (ps, w2) \<and>
    exec [1] (ps, w2) = ([Done (Inr ()), Done (Inr ()), Done (Inr ())], w3) \<and> status_at i (db w3) = {''refund_pending''}"
proof -
  let ?A = "initiate_refund_if_eligible_t E pda"
  let ?m = "sql E InternalError (\<lambda>t _ d. Some ((), mark_refund_pending i t d))"
  have S: "atom (sql_select E InternalError (confirmed_payment pda)) =
      Atom (\<lambda>w. tick_on w) (\<lambda>w. Done (Inr (confirmed_payment pda (db w)) :: app_error + uuid option))"
    by (simp add: atom_def sql_select_def sql_def up tick_on_def)
  have A: "?A = Atom (\<lambda>w. tick_on w) (\<lambda>w. case confirmed_payment pda (db w) of None \<Rightarrow> ret_t () | Some i \<Rightarrow>
      atom (sql E InternalError (\<lambda>t _ d. Some ((), mark_refund_pending i t d))))"
    unfolding initiate_refund_if_eligible_t_def S by simp
  have M: "atom ?m = Atom (\<lambda>w. (tick_on w)\<lparr>db := mark_refund_pending i (clock (orc E) (tick w)) (db w)\<rparr>) (\<lambda>w. Done (Inr ()))"
    unfolding atom_def by (simp add: sql_def up)
  have first: "exec [0, 1, 0] ([?A, ?A, refund_tick_t E], w) = ([Done (Inr ()), atom ?m, refund_tick_t E], w1)"
    using c by (simp add: A M pool_step_def w1)
  let ?ps = "[Done (Inr ()), atom ?m, refund_tick_t E]"
  have alone: "run_alone (?ps ! 2) w1 = (Inr (), w2)"
    using tick by (simp add: refund_tick_t_def alone_simps bindE_def ret_def)
  have "2 < length ?ps" by simp
  from exec_solo [OF this alone] obtain n where "exec (replicate n 2) (?ps, w1) = (?ps[2 := Done (Inr ())], w2)" ..
  moreover have "?ps[2 := Done (Inr ())] = [Done (Inr ()), atom ?m, Done (Inr ())]" by (simp add: numeral_2_eq_2)
  ultimately have "exec (replicate n 2) (?ps, w1) = ([Done (Inr ()), atom ?m, Done (Inr ())], w2)" by (simp only:)
  then have run: "exec ([0, 1, 0] @ replicate n 2) ([?A, ?A, refund_tick_t E], w) = ([Done (Inr ()), atom ?m, Done (Inr ())], w2)"
    unfolding exec_simps(3) first .
  let ?w3 = "(tick_on w2)\<lparr>db := mark_refund_pending i (clock (orc E) (tick w2)) (db w2)\<rparr>"
  have "exec [1] ([Done (Inr ()), atom ?m, Done (Inr ())], w2) = ([Done (Inr ()), Done (Inr ()), Done (Inr ())], ?w3)"
    by (simp add: M pool_step_def)
  moreover have "status_at i (db ?w3) = {''refund_pending''}"
    using refunded by (simp add: status_at_marked)
  ultimately show ?thesis using run by blast
qed

definition sample_paid_world :: world where
  "sample_paid_world = empty_world\<lparr>db := empty_db
     \<lparr>agreement_payments := [(initiate_row 7 1 ''usdc'' ''mint'' 1990000 ''ref'' 900)
        \<lparr>pay_status := ''confirmed'', pay_agreement_pda := Some ''pda'', pay_refund_amount := Some 100\<rparr>],
      agreement_parties := [\<lparr>ap_party_pubkey = ''bob'', ap_agreement_pda = ''pda'', ap_creator_pubkey = ''alice'',
        ap_status = ''Cancelled'', ap_signed_at = None, ap_created_at = 0, ap_expires_at = 0, ap_title = ''T''\<rparr>]\<rparr>\<rparr>"

theorem second_listener_reopens_refund_witness:
  "\<exists>sched ps w2 w3. exec sched ([initiate_refund_if_eligible_t sample_env ''pda'', initiate_refund_if_eligible_t sample_env ''pda'',
       refund_tick_t sample_env], sample_paid_world) = (ps, w2) \<and> status_at 7 (db w2) = {''refunded''} \<and>
     exec [1] (ps, w2) = ([Done (Inr ()), Done (Inr ()), Done (Inr ())], w3) \<and> status_at 7 (db w3) = {''refund_pending''}"
proof -
  let ?w1 = "(tick_on (tick_on (tick_on sample_paid_world)))\<lparr>db :=
    mark_refund_pending 7 (clock (orc sample_env) (tick sample_paid_world + 2)) (db sample_paid_world)\<rparr>"
  have c: "confirmed_payment ''pda'' (db sample_paid_world) = Some 7"
    by (simp add: confirmed_payment_def sample_paid_world_def initiate_row_def)
  let ?p = "(initiate_row 7 1 ''usdc'' ''mint'' 1990000 ''ref'' 900)\<lparr>pay_status := ''refund_pending'',
    pay_agreement_pda := Some ''pda'', pay_refund_amount := Some 100, pay_refund_initiated_at := Some 1000\<rparr>"
  have d: "db ?w1 = (db sample_paid_world)\<lparr>agreement_payments := [?p]\<rparr>"
    by (simp add: mark_refund_pending_def sample_paid_world_def initiate_row_def sample_defs)
  have rows: "pending_refunds (db ?w1) = [(?p, hd (agreement_parties (db sample_paid_world)))]"
    unfolding d by (simp add: pending_refunds_def refund_rows_def sample_paid_world_def initiate_row_def)
  have "\<exists>st w2. process_pending_refunds sample_env ?w1 = (Inr st, w2) \<and> agreement_payments (db w2) =
      [?p\<lparr>pay_status := ''refunded'', pay_refund_tx_signature := Some ''sig'', pay_refund_completed_at := Some 1000\<rparr>]"
    using rows d
    by (simp add: process_pending_refunds_def refund_one_def execute_refund_def mark_refunded_def run_defs
        sample_paid_world_def initiate_row_def sample_defs refund_mint_of_def refund_amount_of_def Let_def)
  then obtain st w2 where t: "process_pending_refunds sample_env ?w1 = (Inr st, w2)" and "agreement_payments (db w2) =
      [?p\<lparr>pay_status := ''refunded'', pay_refund_tx_signature := Some ''sig'', pay_refund_completed_at := Some 1000\<rparr>]" by blast
  from status_at_single [OF this(2)] have r: "status_at 7 (db w2) = {''refunded''}" by (simp add: initiate_row_def)
  have up: "\<not> db_fault (orc sample_env) k" for k by (simp add: sample_defs)
  show ?thesis using second_listener_reopens_refund [OF refl up c t r] r
    by (elim exE conjE) (intro exI conjI; assumption)
qed

end
