(* ===== verification/Journeys.thy ===== *)
theory Journeys
  imports Races
begin

text \<open>
  What becomes of a payment, an invitation and a draft over a whole run of the process, under every schedule: the
  columns of a payment that no statement writes and the transfer it was confirmed with, the slots of a draft, the
  invitation a creator sends again, and the parties of a draft that is submitted. Each follows from a property every statement of every thread keeps.
\<close>

section \<open>Payments\<close>

text \<open>The columns of a payment that no statement of the program writes, in the order of the table.\<close>

definition pay_fixed :: "payment_row \<Rightarrow> uuid \<times> uuid \<times> uuid \<times> string \<times> string option \<times> int option" where
  "pay_fixed p = (pay_id p, pay_draft_id p, pay_user_id p, pay_method p, pay_token_reference_pubkey p, pay_refund_amount p)"

definition payments_fixed :: "database \<Rightarrow> (uuid \<times> uuid \<times> uuid \<times> string \<times> string option \<times> int option) list" where
  "payments_fixed d = map pay_fixed (agreement_payments d)"

lemma payments_fixed_update:
  "(\<And>p. pay_fixed (f p) = pay_fixed p) \<Longrightarrow>
   payments_fixed (d\<lparr>agreement_payments := upd_where Q f (agreement_payments d)\<rparr>) = payments_fixed d"
  by (simp add: payments_fixed_def map_upd_where)

lemma payments_fixed_blind [simp]:
  "payments_fixed (d\<lparr>user_accounts := q0\<rparr>) = payments_fixed d" "payments_fixed (d\<lparr>auth_wallet := q1\<rparr>) = payments_fixed d"
  "payments_fixed (d\<lparr>auth_oauth := q2\<rparr>) = payments_fixed d" "payments_fixed (d\<lparr>user_contacts := q3\<rparr>) = payments_fixed d"
  "payments_fixed (d\<lparr>siws_nonces := q4\<rparr>) = payments_fixed d" "payments_fixed (d\<lparr>refresh_tokens := q5\<rparr>) = payments_fixed d"
  "payments_fixed (d\<lparr>user_agreement_counts := q6\<rparr>) = payments_fixed d" "payments_fixed (d\<lparr>agreement_drafts := q7\<rparr>) = payments_fixed d"
  "payments_fixed (d\<lparr>party_invitations := q8\<rparr>) = payments_fixed d" "payments_fixed (d\<lparr>notification_queue := q9\<rparr>) = payments_fixed d"
  "payments_fixed (d\<lparr>agreement_parties := q10\<rparr>) = payments_fixed d" "payments_fixed (d\<lparr>sweep_config := q11\<rparr>) = payments_fixed d"
  by (simp_all add: payments_fixed_def)

lemmas all_statements = statement_defs keeper_statements mark_refunded_def confirm_stmt_def Let_def

interpretation fixed_all: every_property E "\<lambda>d. payments_fixed d = k" for E k
  by unfold_locales
    (rule keeps_session_other keeps_accept_tx_other; simp
     | auto simp: all_statements payments_fixed_update pay_fixed_def split: if_splits)+

text \<open>What a payment without a recorded refund is paid back.\<close>

lemma refund_amount_none: "pay_refund_amount p = None \<Longrightarrow> refund_amount_of p = 0"
  by (simp add: refund_amount_of_def)

lemma refund_cycle_outbox:
  assumes "process_pending_refunds E w = (r, w')" and "\<forall>p \<in> set (agreement_payments (db w)). pay_refund_amount p = None"
  shows "\<exists>xs. outbox w' = outbox w @ xs \<and> (\<forall>x \<in> set xs. \<exists>src dst. x = SplTransfer src dst 0)"
proof -
  from refund_cycle_trace [OF assms(1)] obtain rows where "set rows \<subseteq> set (pending_refunds (db w))"
    and rows: "outbox w' = outbox w @ map (transfer_of E) rows" by (auto simp: refund_trace_def)
  then have paid: "\<forall>(p, a) \<in> set rows. p \<in> set (agreement_payments (db w))"
    using subsetD [OF order_trans [OF _ pending_refunds_sound(1)]] by (auto simp: refund_rows_def)
  have "\<exists>src dst. transfer_of E row = SplTransfer src dst 0" if "row \<in> set rows" for row
    using that paid assms(2) refund_amount_none by (fastforce simp: transfer_of_def Let_def)
  then show ?thesis using rows by (intro exI [of _ "map (transfer_of E) rows"]) auto
qed

text \<open>
  C27 (refunds are empty). No statement of the process creates a payment, or writes the amount to refund: under
  every schedule the identifiers, drafts, users, references and refund amounts of the payments stay what they were. So
  from tables in which no refund amount is set, at any later moment a cycle of the refund worker sends transfers of zero
  units only, whatever was paid; the computation \<open>calculate_refund_amount\<close> is never called.
\<close>

theorem refunds_are_empty:
  assumes "\<forall>p \<in> set (agreement_payments (db w)). pay_refund_amount p = None"
    and "exec sched (backend E l, w) = (ps, w1)" and "process_pending_refunds E w1 = (r, w2)"
  shows "payments_fixed (db w1) = payments_fixed (db w) \<and>
    (\<exists>xs. outbox w2 = outbox w1 @ xs \<and> (\<forall>x \<in> set xs. \<exists>src dst. x = SplTransfer src dst 0))"
proof -
  have same: "payments_fixed (db w1) = payments_fixed (db w)"
    using fixed_all.backend_keeps [where w = w and sched = sched and E = E and l = l, OF refl] assms(2) by simp
  then have "map pay_refund_amount (agreement_payments (db w1)) = map pay_refund_amount (agreement_payments (db w))"
    unfolding payments_fixed_def by (drule_tac arg_cong [where f = "map (snd \<circ> snd \<circ> snd \<circ> snd \<circ> snd)"]) (simp add: pay_fixed_def comp_def)
  then have "pay_refund_amount ` set (agreement_payments (db w1)) \<subseteq> {None}"
    using assms(1) unfolding list.set_map [symmetric] by auto
  with same refund_cycle_outbox [OF assms(3)] show ?thesis by blast
qed

definition sample_due_world :: world where
  "sample_due_world = empty_world\<lparr>db := empty_db
     \<lparr>agreement_payments := [(initiate_row 7 1 ''usdc'' ''mint'' 1990000 ''ref'' 900)
        \<lparr>pay_status := ''refund_pending'', pay_agreement_pda := Some ''pda''\<rparr>],
      agreement_parties := [\<lparr>ap_party_pubkey = ''bob'', ap_agreement_pda = ''pda'', ap_creator_pubkey = ''alice'',
        ap_status = ''Cancelled'', ap_signed_at = None, ap_created_at = 0, ap_expires_at = 0, ap_title = ''T''\<rparr>]\<rparr>\<rparr>"

theorem refunds_are_empty_witness:
  "\<exists>ps w1 r w2 xs. exec [0, 3, 5] (backend sample_env sample_workload, sample_due_world) = (ps, w1) \<and>
     process_pending_refunds sample_env w1 = (r, w2) \<and> outbox w2 = outbox w1 @ xs \<and>
     (\<forall>x \<in> set xs. \<exists>src dst. x = SplTransfer src dst 0)"
proof -
  obtain ps w1 where run: "exec [0, 3, 5] (backend sample_env sample_workload, sample_due_world) = (ps, w1)" by fastforce
  obtain r w2 where cyc: "process_pending_refunds sample_env w1 = (r, w2)" by fastforce
  have "\<forall>p \<in> set (agreement_payments (db sample_due_world)). pay_refund_amount p = None"
    by (simp add: sample_due_world_def initiate_row_def)
  from refunds_are_empty [OF this run cyc] run cyc show ?thesis by blast
qed

text \<open>The payment exists, is past the confirmation, and carries the transfer it was confirmed with.\<close>

definition transfer_recorded :: "uuid \<Rightarrow> string option \<times> string option \<times> int option \<times> int option \<Rightarrow> database \<Rightarrow> bool" where
  "transfer_recorded i x d \<longleftrightarrow> i \<in> pay_id ` set (agreement_payments d) \<and>
     (\<forall>p \<in> set (agreement_payments d). pay_id p = i \<longrightarrow> pay_status p \<noteq> ''pending'' \<and>
        (pay_token_tx_signature p, pay_token_mint p, pay_token_amount p, pay_confirmed_at p) = x)"

lemma transfer_recorded_update:
  assumes "transfer_recorded i x d" and "\<And>p. pay_id (f p) = pay_id p"
    and "\<And>p. Q p \<Longrightarrow> pay_status p \<noteq> ''pending'' \<Longrightarrow> pay_status (f p) \<noteq> ''pending'' \<and>
      (pay_token_tx_signature (f p), pay_token_mint (f p), pay_token_amount (f p), pay_confirmed_at (f p)) =
      (pay_token_tx_signature p, pay_token_mint p, pay_token_amount p, pay_confirmed_at p)"
  shows "transfer_recorded i x (d\<lparr>agreement_payments := upd_where Q f (agreement_payments d)\<rparr>)"
proof -
  have "map pay_id (upd_where Q f (agreement_payments d)) = map pay_id (agreement_payments d)"
    by (simp add: map_upd_where assms(2))
  then have "pay_id ` set (upd_where Q f (agreement_payments d)) = pay_id ` set (agreement_payments d)"
    by (metis list.set_map)
  then show ?thesis using assms by (simp add: transfer_recorded_def ball_upd_where)
qed

interpretation recorded_all: every_property E "transfer_recorded i x" for E i x
proof
  show "transfer_recorded i x (confirmed_pda j pda d)" "transfer_recorded i x (expire_payments t d)"
    "transfer_recorded i x (mark_refunded j sig t d)" "transfer_recorded i x (mark_refund_pending j t d)"
    if "transfer_recorded i x d" for j pda d t sig
    unfolding confirmed_pda_def expire_payments_def mark_refunded_def mark_refund_pending_def
    by (rule transfer_recorded_update [OF that]; simp)+
  show "transfer_recorded i x d'" if "confirm_stmt ref sig mk amt t d = Some (b, d')" "transfer_recorded i x d"
    for ref sig mk amt t d b d'
  proof -
    from that(1) have "d' = d\<lparr>agreement_payments := upd_where
        (\<lambda>p. pay_token_reference_pubkey p = Some ref \<and> pay_status p = ''pending'')
        (\<lambda>p. p\<lparr>pay_status := ''confirmed'', pay_token_tx_signature := Some sig, pay_token_mint := Some mk,
          pay_token_amount := Some amt, pay_confirmed_at := Some t\<rparr>) (agreement_payments d)\<rparr>"
      by (auto simp: confirm_stmt_def Let_def split: if_splits)
    then show ?thesis by (simp only:) (rule transfer_recorded_update [OF that(2)]; simp)
  qed
qed (rule keeps_session_other keeps_accept_tx_other; simp add: transfer_recorded_def
  | auto simp: statement_defs mark_reminded_def expire_invitations_def drop_old_nonces_def drop_old_tokens_def
      transfer_recorded_def split: if_splits)+

lemma confirmed_row:
  assumes "pay_inv (db w)" and "confirm_payment_atomic E ref sg mk amt w = (Inr True, w1)"
  shows "pay_inv (db w1) \<and> (\<exists>p \<in> set (agreement_payments (db w)). pay_token_reference_pubkey p = Some ref \<and>
    pay_status p = ''pending'' \<and>
    transfer_recorded (pay_id p) (Some sg, Some mk, Some amt, Some (clock (orc E) (tick w))) (db w1))"
proof -
  let ?t = "clock (orc E) (tick w)"
  have inv1: "pay_inv (db w1)"
    using keepsD [OF keeps_pay_inv_confirm [of "db w"] assms(2)] assms(1) by (simp add: db_frame_def evolves_refl)
  from payment_confirmed_once [OF assms evolves_refl inv1] obtain p xs ys where
    p: "agreement_payments (db w) = xs @ p # ys" "pay_token_reference_pubkey p = Some ref" "pay_status p = ''pending''"
    and d: "db w1 = (db w)\<lparr>agreement_payments := xs @ p\<lparr>pay_status := ''confirmed'', pay_token_tx_signature := Some sg,
      pay_token_mint := Some mk, pay_token_amount := Some amt, pay_confirmed_at := Some ?t\<rparr> # ys\<rparr>" by blast
  have "pay_id q \<noteq> pay_id p" if "q \<in> set xs \<or> q \<in> set ys" for q
    using that assms(1) by (auto simp: pay_inv_def p(1) image_iff)
  then have "transfer_recorded (pay_id p) (Some sg, Some mk, Some amt, Some ?t) (db w1)"
    unfolding transfer_recorded_def d by simp
  then show ?thesis using inv1 p by auto
qed

text \<open>
  C22 (a payment is confirmed once). If \<open>confirm_payment_atomic\<close> reports that it confirmed a payment, it was the one with that
  reference, and it was pending. From then on, under every schedule of the whole process with any further transfers, the
  payment is never pending again and carries the signature, mint, amount and time of that transfer; the same reference,
  with whatever signature and amount, confirms nothing and changes no table, and the same signature confirms no other
  payment.
\<close>

theorem confirmation_is_final:
  assumes inv: "pay_inv (db w)" and run: "confirm_payment_atomic E ref sg mk amt w = (Inr True, w1)"
    and later: "exec sched (backend E l, w1) = (ps, w2)"
  shows "(\<exists>p \<in> set (agreement_payments (db w)). pay_token_reference_pubkey p = Some ref \<and> pay_status p = ''pending'' \<and>
      transfer_recorded (pay_id p) (Some sg, Some mk, Some amt, Some (clock (orc E) (tick w))) (db w2)) \<and>
    fst (confirm_payment_atomic E ref sg' mk' amt' w2) \<in> {Inr False, Inl InternalError} \<and>
    db (snd (confirm_payment_atomic E ref sg' mk' amt' w2)) = db w2 \<and>
    fst (confirm_payment_atomic E ref' sg mk' amt' w2) \<in> {Inr False, Inl InternalError}"
proof -
  have w2: "w2 = snd (exec sched (backend E l, w1))" using later by simp
  from confirmed_row [OF inv run] obtain p where inv1: "pay_inv (db w1)" and p: "p \<in> set (agreement_payments (db w))"
    "pay_token_reference_pubkey p = Some ref" "pay_status p = ''pending''"
    "transfer_recorded (pay_id p) (Some sg, Some mk, Some amt, Some (clock (orc E) (tick w))) (db w1)" by blast
  have rec: "transfer_recorded (pay_id p) (Some sg, Some mk, Some amt, Some (clock (orc E) (tick w))) (db w2)"
    unfolding w2 by (rule recorded_all.backend_keeps [OF p(4)])
  have later: "payments_evolve (db w1) (db w2)" "pay_inv (db w2)"
    using backend_payments [OF inv1, of sched E l] inv1 unfolding w2 by (simp_all add: pay_rel_def)
  from rec obtain q where q: "q \<in> set (agreement_payments (db w2))" "pay_status q \<noteq> ''pending''" "pay_token_tx_signature q = Some sg"
    by (auto simp: transfer_recorded_def)
  show ?thesis
    using p(1-3) rec payment_confirmed_once [OF inv run later] confirm_signature_again [OF q] by blast
qed

theorem confirmation_is_final_witness:
  "\<exists>w1 ps w2. confirm_payment_atomic sample_env ''ref'' ''sig'' ''mint'' 5 sample_payment_world = (Inr True, w1) \<and>
     exec [0, 5, 1, 7] (backend sample_env sample_workload, w1) = (ps, w2) \<and>
     fst (confirm_payment_atomic sample_env ''ref'' ''sig2'' ''mint'' 6 w2) \<in> {Inr False, Inl InternalError}"
proof -
  have inv: "pay_inv (db sample_payment_world)" using sample_payment_inv by (simp add: sys_inv_def)
  obtain w1 where run: "confirm_payment_atomic sample_env ''ref'' ''sig'' ''mint'' 5 sample_payment_world = (Inr True, w1)"
    by (simp add: confirm_payment_atomic_def confirm_stmt_def run_defs sample_payment_world_def sample_defs initiate_row_def)
  obtain ps w2 where later: "exec [0, 5, 1, 7] (backend sample_env sample_workload, w1) = (ps, w2)" by fastforce
  from confirmation_is_final [OF inv run later] run later show ?thesis by blast
qed

section \<open>Drafts\<close>

text \<open>A slot that waits for an invited party may be filled, once; a filled slot stays as it is.\<close>

definition slot_step :: "party_slot \<Rightarrow> party_slot \<Rightarrow> bool" where
  "slot_step s s' \<longleftrightarrow> s' = s \<or> slot_invite_id s \<noteq> None \<and> slot_invite_id s' = None \<and> slot_pubkey s' \<noteq> None"

abbreviation slots_progress :: "party_slot list \<Rightarrow> party_slot list \<Rightarrow> bool" where
  "slots_progress \<equiv> list_all2 slot_step"

lemma slots_progress_refl: "slots_progress ss ss"
  by (rule list_all2_refl) (simp add: slot_step_def)

lemma slots_progress_trans: "slots_progress as bs \<Longrightarrow> slots_progress bs cs \<Longrightarrow> slots_progress as cs"
  by (rule list_all2_trans) (auto simp: slot_step_def)

lemma resolve_slot_progress:
  "resolve_party_slot_pubkey ss i pk = Inr ss' \<Longrightarrow> slots_progress ss ss'"
  by (auto dest!: resolve_slot_Inr intro!: list_all2_appendI slots_progress_refl simp: slot_step_def)

lemma slots_progress_ids:
  "slots_progress ss ss' \<Longrightarrow> set (List.map_filter slot_invite_id ss') \<subseteq> set (List.map_filter slot_invite_id ss)"
  by (induction rule: list_all2_induct) (auto simp: slot_step_def List.map_filter_def split: if_splits)

text \<open>What stays of a draft: its payload, and its slots up to progress.\<close>

definition draft_from :: "env \<Rightarrow> uuid \<Rightarrow> json \<Rightarrow> party_slot list \<Rightarrow> database \<Rightarrow> bool" where
  "draft_from E did payload slots d \<longleftrightarrow> did \<in> dr_id ` set (agreement_drafts d) \<and>
     (\<forall>r \<in> set (agreement_drafts d). dr_id r = did \<longrightarrow> dr_draft_payload r = payload \<and>
        (\<exists>slots'. slots_from_value (lib E) (dr_party_slots r) = Some slots' \<and> slots_progress slots slots'))"

lemma draft_from_update:
  assumes "draft_from E did payload slots d" and "\<And>r. dr_id (f r) = dr_id r"
    and "\<And>r slots'. r \<in> set (agreement_drafts d) \<Longrightarrow> dr_id r = did \<Longrightarrow> i = did \<Longrightarrow>
      slots_from_value (lib E) (dr_party_slots r) = Some slots' \<Longrightarrow> slots_progress slots slots' \<Longrightarrow>
      dr_draft_payload (f r) = dr_draft_payload r \<and>
      (\<exists>slots''. slots_from_value (lib E) (dr_party_slots (f r)) = Some slots'' \<and> slots_progress slots slots'')"
  shows "draft_from E did payload slots (update_draft i f d)"
proof -
  have ids: "map dr_id (agreement_drafts (update_draft i f d)) = map dr_id (agreement_drafts d)"
    unfolding update_draft_def by (simp add: map_upd_where assms(2))
  then have "dr_id ` set (agreement_drafts (update_draft i f d)) = dr_id ` set (agreement_drafts d)"
    by (metis list.set_map)
  then show ?thesis using assms(1,3) unfolding draft_from_def
    by (auto simp: update_draft_def in_upd_where assms(2)) metis+
qed

lemma draft_from_accept:
  assumes law: "serde_law (lib E)" and start: "draft_from E did payload slots (db w)"
    and run: "accept_tx E pk tok t w = (res, w')"
  shows "draft_from E did payload slots (db w')"
proof (cases res)
  case (Inl e)
  with run accept_tx_Inl start show ?thesis by metis
next
  case (Inr x)
  obtain i r b where x: "x = (i, r, b)" by (cases x)
  from accept_tx_Inr [OF run [unfolded Inr x]] obtain slots1 slots2 v where
    fd: "find_draft (inv_draft_id i) (db w) = Some r" and sl: "slots_from_value (lib E) (dr_party_slots r) = Some slots1"
    and rs: "resolve_party_slot_pubkey slots1 (inv_id i) pk = Inr slots2" and v: "slots_to_value (lib E) slots2 = Some v"
    and w': "db w' = store_slots (inv_draft_id i) v b t (mark_accepted (inv_id i) (db w))" by blast
  have r: "r \<in> set (agreement_drafts (db w))" "dr_id r = inv_draft_id i" using find_draft_Some [OF fd] by simp_all
  have "slots_from_value (lib E) v = Some slots2" using law v by (auto simp: serde_law_def)
  moreover have "slots_progress slots slots2" if "inv_draft_id i = did"
    using start r that sl slots_progress_trans [OF _ resolve_slot_progress [OF rs]] by (auto simp: draft_from_def)
  moreover have "draft_from E did payload slots (mark_accepted (inv_id i) (db w))"
    using start by (simp add: draft_from_def mark_accepted_def)
  ultimately show ?thesis unfolding w' store_slots_def by (intro draft_from_update) auto
qed

lemma draft_from_all:
  assumes law: "serde_law (lib E)"
  shows "every_property E (draft_from E did payload slots)" (is "every_property E ?P")
proof
  show "keeps (db_frame ?P) (accept_tx E pk tok t)" for pk tok t
    by (rule keepsI) (auto simp: db_frame_def intro: draft_from_accept [OF law])
  show "?P (update_draft i df d)" if "\<And>r. dr_id (df r) = dr_id r \<and> dr_party_slots (df r) = dr_party_slots r \<and>
      dr_draft_payload (df r) = dr_draft_payload r" "?P d" for df i d
    using that by (intro draft_from_update) simp_all
  show "?P d'" if "insert_draft pk v v' t g d = Some (y, d')" "?P d" for pk v v' t g d y d'
    using that by (auto simp: insert_draft_def draft_from_def new_draft_row_def split: if_splits)
qed (rule keeps_session_other; simp add: draft_from_def
  | auto simp: insert_user_def insert_wallet_def upsert_oauth_def upsert_contact_def insert_invitation_def
      confirmed_pda_def bump_free_used_def consume_token_def set_display_name_def keeper_statements mark_refunded_def
      confirm_stmt_def Let_def draft_from_def split: if_splits)+

lemma draft_from_now:
  assumes "draft_inv E d" and "find_draft did d = Some r" and "slots_from_value (lib E) (dr_party_slots r) = Some slots"
  shows "draft_from E did (dr_draft_payload r) slots d"
proof -
  have r: "r \<in> set (agreement_drafts d)" "dr_id r = did" using find_draft_Some [OF assms(2)] by simp_all
  have "x = r" if "x \<in> set (agreement_drafts d)" "dr_id x = did" for x
    using find_draft_unique [OF assms(1,2) that] .
  then show ?thesis using r assms(3) slots_progress_refl unfolding draft_from_def by blast
qed

lemma draft_from_found:
  assumes "draft_from E did payload slots d"
  shows "\<exists>r slots'. find_draft did d = Some r \<and> dr_draft_payload r = payload \<and>
    slots_from_value (lib E) (dr_party_slots r) = Some slots' \<and> slots_progress slots slots'"
proof -
  obtain r where r: "find_draft did d = Some r"
    using assms unfolding draft_from_def find_draft_def by (cases "select_first (\<lambda>r. dr_id r = did) (agreement_drafts d)")
      (auto simp: select_first_None_iff)
  then show ?thesis using assms find_draft_Some [OF r] by (auto simp: draft_from_def)
qed

text \<open>
  C17 (the life of a draft). Under every schedule of the whole process a draft stays in its table with the payload it
  was created with, and its slots only progress: their number and order stay, a slot that waits for an invited party may
  be filled with a wallet and then loses its invitation, and a filled slot never changes again. Nobody who joined is
  replaced or dropped.
\<close>

theorem draft_slots_progress:
  assumes "serde_law (lib E)" and "draft_inv E (db w)" and "find_draft did (db w) = Some r"
    and "slots_from_value (lib E) (dr_party_slots r) = Some slots" and "exec sched (backend E l, w) = (ps, w')"
  shows "\<exists>r' slots'. find_draft did (db w') = Some r' \<and> dr_draft_payload r' = dr_draft_payload r \<and>
    slots_from_value (lib E) (dr_party_slots r') = Some slots' \<and> length slots' = length slots \<and>
    (\<forall>k < length slots. slot_step (slots ! k) (slots' ! k))"
proof -
  have "draft_from E did (dr_draft_payload r) slots (db w')"
    using every_property.backend_keeps [OF draft_from_all [OF assms(1)] draft_from_now [OF assms(2-4)]] assms(5)
    by (metis snd_conv)
  from draft_from_found [OF this] show ?thesis by (auto simp: list_all2_conv_all_nth)
qed

lemma sample_invite_draft:
  "\<exists>r. find_draft 1 (db sample_invite_world) = Some r \<and>
     slots_from_value (lib sample_env) (dr_party_slots r) = Some [\<lparr>slot_pubkey = None, slot_invite_id = Some 2\<rparr>]"
  by (simp add: find_draft_def sample_invite_world_def new_draft_row_def sample_defs slots_of_slots_value)

theorem draft_slots_progress_witness:
  "\<exists>r' slots'. find_draft 1 (db (snd (exec [0, 7, 5, 0, 1] (backend sample_env sample_workload, sample_invite_world)))) = Some r' \<and>
     slots_from_value (lib sample_env) (dr_party_slots r') = Some slots' \<and> length slots' = 1"
proof -
  obtain ps w' where run: "exec [0, 7, 5, 0, 1] (backend sample_env sample_workload, sample_invite_world) = (ps, w')" by fastforce
  from sample_invite_draft obtain r where r: "find_draft 1 (db sample_invite_world) = Some r"
    "slots_from_value (lib sample_env) (dr_party_slots r) = Some [\<lparr>slot_pubkey = None, slot_invite_id = Some 2\<rparr>]" by blast
  from draft_slots_progress [OF sample_laws(1) sample_invite_inv r run] run show ?thesis by auto
qed

section \<open>Invitations sent again\<close>

text \<open>The invitation with an identifier exists and belongs to the draft.\<close>

definition invitation_of_draft :: "uuid \<Rightarrow> uuid \<Rightarrow> database \<Rightarrow> bool" where
  "invitation_of_draft i did d \<longleftrightarrow> i \<in> inv_id ` set (party_invitations d) \<and>
     (\<forall>r \<in> set (party_invitations d). inv_id r = i \<longrightarrow> inv_draft_id r = did)"

lemma invitation_of_draft_update:
  assumes "\<And>r. inv_id (f r) = inv_id r \<and> inv_draft_id (f r) = inv_draft_id r"
  shows "invitation_of_draft i did (d\<lparr>party_invitations := upd_where Q f (party_invitations d)\<rparr>) = invitation_of_draft i did d"
proof -
  have "map inv_id (upd_where Q f (party_invitations d)) = map inv_id (party_invitations d)"
    by (simp add: map_upd_where assms)
  then have "inv_id ` set (upd_where Q f (party_invitations d)) = inv_id ` set (party_invitations d)"
    by (metis list.set_map)
  then show ?thesis by (simp add: invitation_of_draft_def ball_upd_where assms)
qed

interpretation invitation_of_draft_all: every_property E "invitation_of_draft i did" for E i did
proof
  show "keeps (db_frame (invitation_of_draft i did)) (accept_tx E pk tok t)" for pk tok t
  proof (rule keepsI)
    fix w res w' assume run: "accept_tx E pk tok t w = (res, w')"
    show "db_frame (invitation_of_draft i did) w w'"
    proof (cases res)
      case (Inl e)
      with run accept_tx_Inl show ?thesis by (metis db_frame_def)
    next
      case (Inr x)
      obtain r q b where x: "x = (r, q, b)" by (cases x)
      from accept_tx_Inr [OF run [unfolded Inr x]] obtain v where
        w': "db w' = store_slots (inv_draft_id r) v b t (mark_accepted (inv_id r) (db w))" by blast
      have "invitation_of_draft i did (db w') = invitation_of_draft i did (mark_accepted (inv_id r) (db w))"
        unfolding w' by (simp add: store_slots_def update_draft_def invitation_of_draft_def)
      also have "\<dots> = invitation_of_draft i did (db w)"
        unfolding mark_accepted_def by (rule invitation_of_draft_update) simp
      finally show ?thesis by (simp add: db_frame_def)
    qed
  qed
  show "invitation_of_draft i did d'" if "insert_invitation r d = Some (x, d')" "invitation_of_draft i did d" for r d x d'
    using that by (auto simp: insert_invitation_def invitation_of_draft_def split: if_splits)
  show "invitation_of_draft i did (expire_invitations t d)" if "invitation_of_draft i did d" for t d
    unfolding expire_invitations_def using that by (subst invitation_of_draft_update) simp_all
  show "invitation_of_draft i did d'" if "mark_reminded j t d = Some (x, d')" "invitation_of_draft i did d" for j t d x d'
    using that invitation_of_draft_update by (auto simp: mark_reminded_def split: if_splits)
qed (rule keeps_session_other; simp add: invitation_of_draft_def
  | auto simp: insert_user_def insert_wallet_def upsert_oauth_def upsert_contact_def insert_draft_def update_draft_def
      confirmed_pda_def bump_free_used_def consume_token_def set_display_name_def expire_payments_def
      mark_refund_pending_def drop_old_nonces_def drop_old_tokens_def mark_refunded_def
      confirm_stmt_def Let_def invitation_of_draft_def split: if_splits)+

lemma reinvite_stored:
  assumes "reinvite_draft E auth did old w = (Inr (new_id, expires), w1)"
  shows "\<exists>row. inv_id row = new_id \<and> inv_draft_id row = did \<and> insert_invitation row (db w) = Some ((), db w1)"
  using assms
  by (force simp: reinvite_draft_def get_draft_row_Inr_iff ensure_creator_from_user_id_def act_simps Let_def new_invitation_row_def)

lemma accept_needs_slot:
  assumes "draft_from E did payload slots (db w)" and "i \<notin> set (List.map_filter slot_invite_id slots)"
    and "invitation_of_draft i did (db w)" and "find_invitation tok (db w) = Some row" and "inv_id row = i"
  shows "\<exists>e w'. accept_invite E auth tok w = (Inl e, w') \<and> db w' = db w"
proof -
  obtain t w1 where now: "current_unix_timestamp E w = (Inr t :: app_error + int, w1)" and w1: "db w1 = db w"
    by (fastforce simp: current_unix_timestamp_def act_simps)
  obtain res w2 where run: "accept_tx E (aww_pubkey auth) tok t w1 = (res, w2)" by fastforce
  show ?thesis
  proof (cases res)
    case (Inl e)
    with now run w1 accept_tx_Inl [of E _ tok t w1 e w2] show ?thesis by (simp add: accept_invite_def bindE_def)
  next
    case (Inr x)
    obtain row' r b where x: "x = (row', r, b)" by (cases x)
    from accept_tx_Inr [OF run [unfolded Inr x]] assms(4) w1 obtain slots1 slots2 where
      r: "find_draft (inv_draft_id row) (db w) = Some r" "slots_from_value (lib E) (dr_party_slots r) = Some slots1"
        "resolve_party_slot_pubkey slots1 i (aww_pubkey auth) = Inr slots2" using assms(5) by auto
    have "inv_draft_id row = did"
      using assms(3,5) find_invitation_Some [OF assms(4)] by (simp add: invitation_of_draft_def)
    with r draft_from_found [OF assms(1)] have "slots_progress slots slots1" by auto
    from slots_progress_ids [OF this] have "i \<notin> set (List.map_filter slot_invite_id slots1)" using assms(2) by blast
    with r(3) resolve_slot_Inl_iff [of slots1 i] show ?thesis by (metis Inl_Inr_False)
  qed
qed

text \<open>
  C19 (an invitation sent again cannot be accepted). \<open>reinvite_draft\<close> inserts a new invitation but leaves the slot of the
  draft pointing at the expired one. Whatever the process does afterwards, under every schedule, the new invitation stays
  in its table and every attempt of anybody to accept it fails and changes nothing: the party can never join. The
  database must not have generated an identifier the slots of the draft name already.
\<close>

theorem reinvitation_never_accepted:
  assumes "serde_law (lib E)" and "draft_inv E (db w)" and "find_draft did (db w) = Some r"
    and "slots_from_value (lib E) (dr_party_slots r) = Some slots"
    and "reinvite_draft E auth did old w = (Inr (new_id, expires), w1)"
    and "new_id \<notin> set (List.map_filter slot_invite_id slots)" and "exec sched (backend E l, w1) = (ps, w2)"
  shows "(\<exists>row \<in> set (party_invitations (db w2)). inv_id row = new_id) \<and>
    (\<forall>tok row caller. find_invitation tok (db w2) = Some row \<and> inv_id row = new_id \<longrightarrow>
       (\<exists>e w3. accept_invite E caller tok w2 = (Inl e, w3) \<and> db w3 = db w2))"
proof -
  from reinvite_stored [OF assms(5)] obtain row where row: "inv_id row = new_id" "inv_draft_id row = did"
    "insert_invitation row (db w) = Some ((), db w1)" by blast
  then have w1: "db w1 = (db w)\<lparr>party_invitations := party_invitations (db w) @ [row]\<rparr>"
    by (auto simp: insert_invitation_def split: if_splits)
  have "draft_from E did (dr_draft_payload r) slots (db w1)"
    using draft_from_now [OF assms(2-4)] by (simp add: w1 draft_from_def)
  then have d: "draft_from E did (dr_draft_payload r) slots (db w2)"
    using every_property.backend_keeps [OF draft_from_all [OF assms(1)]] assms(7) by (metis snd_conv)
  have "new_id \<notin> inv_id ` set (party_invitations (db w))"
    using row(1,3) by (auto simp: insert_invitation_def split: if_splits)
  then have "invitation_of_draft new_id did (db w1)"
    using row(1,2) unfolding invitation_of_draft_def by (simp add: w1) (metis imageI)
  then have i: "invitation_of_draft new_id did (db w2)"
    using invitation_of_draft_all.backend_keeps assms(7) by (metis snd_conv)
  then show ?thesis using accept_needs_slot [OF d assms(6) i] by (auto simp: invitation_of_draft_def)
qed

text \<open>The draft of the sample, its invitation expired, and the wallet of its creator.\<close>

definition sample_reinvite_world :: world where
  "sample_reinvite_world = empty_world\<lparr>db := (db sample_invite_world)
     \<lparr>party_invitations := [(new_invitation_row 2 1 [] [] [] ''tok'' 5000 0)\<lparr>inv_status := ''expired''\<rparr>],
      auth_wallet := [\<lparr>aw_user_id = 7, aw_pubkey = ''alice'', aw_linked_at = 0\<rparr>]\<rparr>\<rparr>"

lemma sample_new_token: "hex_bytes (replicate 32 3) \<noteq> ''tok''"
  by code_simp

theorem reinvitation_never_accepted_witness:
  "\<exists>new_id expires w1 w2. reinvite_draft sample_env \<lparr>au_user_id = 7, au_pubkey = Some ''alice''\<rparr> 1 2 sample_reinvite_world =
       (Inr (new_id, expires), w1) \<and>
     w2 = snd (exec [0, 7, 5, 0] (backend sample_env sample_workload, w1)) \<and>
     (\<exists>row \<in> set (party_invitations (db w2)). inv_id row = new_id)"
proof -
  have "\<exists>new_id expires w1. reinvite_draft sample_env \<lparr>au_user_id = 7, au_pubkey = Some ''alice''\<rparr> 1 2 sample_reinvite_world =
       (Inr (new_id, expires), w1) \<and> new_id \<noteq> 2"
    by (simp add: reinvite_draft_def get_draft_row_def find_draft_def ensure_creator_from_user_id_def user_wallet_def
        ensure_creator_only_def find_expired_invitation_def insert_invitation_def new_invitation_row_def new_draft_row_def
        run_defs i64_try_from_def sample_new_token sample_reinvite_world_def sample_invite_world_def sample_defs)
  then obtain new_id expires w1 where re: "reinvite_draft sample_env \<lparr>au_user_id = 7, au_pubkey = Some ''alice''\<rparr> 1 2
      sample_reinvite_world = (Inr (new_id, expires), w1)" "new_id \<noteq> 2" by blast
  obtain ps w2 where run: "exec [0, 7, 5, 0] (backend sample_env sample_workload, w1) = (ps, w2)" by fastforce
  have inv: "draft_inv sample_env (db sample_reinvite_world)"
    using sample_invite_inv by (simp add: draft_inv_def sample_reinvite_world_def sample_invite_world_def new_invitation_row_def)
  have "\<exists>r. find_draft 1 (db sample_reinvite_world) = Some r \<and>
     slots_from_value (lib sample_env) (dr_party_slots r) = Some [\<lparr>slot_pubkey = None, slot_invite_id = Some 2\<rparr>]"
    using sample_invite_draft by (simp add: sample_reinvite_world_def find_draft_def)
  then obtain r where r: "find_draft 1 (db sample_reinvite_world) = Some r"
     "slots_from_value (lib sample_env) (dr_party_slots r) = Some [\<lparr>slot_pubkey = None, slot_invite_id = Some 2\<rparr>]" by blast
  from reinvitation_never_accepted [OF sample_laws(1) inv r re(1) _ run] re run show ?thesis by auto
qed

section \<open>The parties of a submitted draft\<close>

lemma submit_draft_args:
  assumes "submit_draft E auth did req w = (Inr (tx, pda), w')"
  shows "\<exists>r payload args a t ix. find_draft did (db w) = Some r \<and> dr_status r = ''ready_to_submit'' \<and>
    payload_from_value (lib E) (dr_draft_payload r) = Some payload \<and> ca_parties args = slot_keys E (dp_parties payload) \<and>
    borsh_create_args (lib E) args = Some a \<and> tx_to_base64 (lib E) t = Some tx \<and> tx_instructions t = [ix] \<and>
    ix_data ix = CREATE_AGREEMENT_DISCRIMINATOR @ a"
proof -
  from assms obtain backend r w0 where chk: "submit_checks E auth did req w = (Inr (backend, r), w0)"
    by (auto simp: submit_draft_def act_simps)
  then have row: "find_draft did (db w) = Some r" "dr_status r = ''ready_to_submit''"
    by (auto simp: submit_checks_def act_simps get_draft_row_Inr_iff evaluate_submit_gates_Inr_iff)
  from assms chk obtain cr payload aid hash w1 w2 where
    p: "payload_from_value (lib E) (dr_draft_payload r) = Some payload"
    and b: "build_create_agreement_tx E (submit_args E req backend payload aid hash) cr w1 = (Inr tx, w2)"
    by (auto simp: submit_draft_def act_simps Let_def)
  from build_create_agreement_tx_Inr [OF b] obtain t a ix where
    "borsh_create_args (lib E) (submit_args E req backend payload aid hash) = Some a" "tx_to_base64 (lib E) t = Some tx"
    "tx_instructions t = [ix]" "ix_data ix = CREATE_AGREEMENT_DISCRIMINATOR @ a"
    by (auto simp: create_agreement_ix_def)
  moreover have "ca_parties (submit_args E req backend payload aid hash) = slot_keys E (dp_parties payload)"
    by (simp add: submit_args_def)
  ultimately show ?thesis using row p by blast
qed

lemma slot_keys_length: "length (slot_keys E slots) \<le> length (filter (\<lambda>s. slot_pubkey s \<noteq> None) slots)"
proof -
  have "length (List.map_filter f xs) \<le> length xs" for f :: "string \<Rightarrow> pubkey option" and xs
    by (induction xs) (auto split: option.splits)
  moreover have "length (List.map_filter slot_pubkey slots) = length (filter (\<lambda>s. slot_pubkey s \<noteq> None) slots)"
    by (induction slots) (auto split: option.splits)
  ultimately show ?thesis unfolding slot_keys_def by metis
qed

text \<open>
  C20 (invited parties are left out of the agreement). A draft is stored with the same slots in its payload and in its
  slot column, as \<open>create_agreement\<close> does. If it is submitted at any later moment, under every schedule, then all its
  slots have a wallet by then, but the transaction carries the parties of the payload: those whose wallet was known at
  creation. The agreement on chain lacks at least as many parties as had to be invited.
\<close>

theorem invited_parties_left_out:
  assumes "serde_law (lib E)" and "draft_inv E (db w)" and "find_draft did (db w) = Some r"
    and "payload_from_value (lib E) (dr_draft_payload r) = Some payload"
    and "slots_from_value (lib E) (dr_party_slots r) = Some (dp_parties payload)"
    and "exec sched (backend E l, w) = (ps, w1)" and "submit_draft E auth did req w1 = (Inr (tx, pda), w2)"
  shows "\<exists>r' slots args a t ix. find_draft did (db w1) = Some r' \<and>
    slots_from_value (lib E) (dr_party_slots r') = Some slots \<and> (\<forall>s \<in> set slots. slot_pubkey s \<noteq> None) \<and>
    tx_to_base64 (lib E) t = Some tx \<and> tx_instructions t = [ix] \<and> ix_data ix = CREATE_AGREEMENT_DISCRIMINATOR @ a \<and>
    borsh_create_args (lib E) args = Some a \<and> ca_parties args = slot_keys E (dp_parties payload) \<and>
    length (ca_parties args) + length (filter (\<lambda>s. slot_pubkey s = None) (dp_parties payload)) \<le> length slots"
proof -
  have w1: "w1 = snd (exec sched (backend E l, w))" using assms(6) by simp
  have "draft_from E did (dr_draft_payload r) (dp_parties payload) (db w1)"
    unfolding w1 by (rule every_property.backend_keeps [OF draft_from_all [OF assms(1)] draft_from_now [OF assms(2,3,5)]])
  from draft_from_found [OF this] obtain r' slots where r': "find_draft did (db w1) = Some r'"
    "dr_draft_payload r' = dr_draft_payload r" "slots_from_value (lib E) (dr_party_slots r') = Some slots"
    "slots_progress (dp_parties payload) slots" by blast
  from submit_draft_args [OF assms(7)] r' assms(4) obtain args a t ix where
    t: "dr_status r' = ''ready_to_submit''" "ca_parties args = slot_keys E (dp_parties payload)"
      "borsh_create_args (lib E) args = Some a" "tx_to_base64 (lib E) t = Some tx" "tx_instructions t = [ix]"
      "ix_data ix = CREATE_AGREEMENT_DISCRIMINATOR @ a" by auto
  have "draft_inv E (db w1)"
    using every_property.backend_keeps [OF draft_all [OF assms(1), where ?d0.0 = "db w"], of w sched l] assms(2) evolves_refl
    unfolding w1 by blast
  then have "\<forall>s \<in> set slots. slot_pubkey s \<noteq> None"
    using find_draft_Some [OF r'(1)] r'(3) t(1) by (auto simp: draft_inv_def draft_ok_def)
  moreover have "length (ca_parties args) + length (filter (\<lambda>s. slot_pubkey s = None) (dp_parties payload)) \<le> length slots"
    using slot_keys_length [of E "dp_parties payload"] sum_length_filter_compl [of "\<lambda>s. slot_pubkey s \<noteq> None" "dp_parties payload"]
      list_all2_lengthD [OF r'(4)] by (simp add: t(2))
  ultimately show ?thesis using r'(1,3) t(2-6) by blast
qed

text \<open>The draft of the sample, paid for, and a contact of its creator; its invitation is accepted, then it is submitted.\<close>

definition sample_paid_world :: world where
  "sample_paid_world = empty_world\<lparr>db := (db sample_invite_world)
     \<lparr>agreement_drafts := map (\<lambda>r. r\<lparr>dr_paid := True\<rparr>) (agreement_drafts (db sample_invite_world)),
      user_contacts := user_contacts (db (sample_draft_world True ''ready_to_submit''))\<rparr>\<rparr>"

theorem invited_parties_left_out_witness:
  "\<exists>sched ps w1 tx pda w2 args a. exec sched (backend (sample_token_env (Some ''alice''))
       (busy_workload [(bearer, R_AcceptInvite ''tok'')]), sample_paid_world) = (ps, w1) \<and>
     submit_draft (sample_token_env (Some ''alice'')) sample_caller 1 sample_submit w1 = (Inr (tx, pda), w2) \<and>
     borsh_create_args (lib sample_env) args = Some a \<and> ca_parties args = []"
proof -
  let ?E = "sample_token_env (Some ''alice'')"
  have "\<exists>w1. accept_invite ?E sample_caller ''tok'' (tick_on sample_paid_world) = (Inr 204, w1) \<and>
      (\<exists>tx pda w2. submit_draft ?E sample_caller 1 sample_submit w1 = (Inr (tx, pda), w2))"
    by (simp add: accept_defs submit_draft_def submit_checks_def get_draft_row_def has_contact_email_def find_draft_def
        ensure_creator_only_def evaluate_submit_gates_def decode_content_hash_def sample_submit_def
        sample_hash sample_backend sample_draft_world_def sample_invite_world_def sample_paid_world_def sample_caller_def
        new_draft_row_def new_invitation_row_def slots_of_slots_value sample_token_env_def
        payload_of_payload_value build_create_defs run_defs sample_defs)
  then obtain w1 tx pda w2 where acc: "accept_invite ?E sample_caller ''tok'' (tick_on sample_paid_world) = (Inr 204, w1)"
    and sub: "submit_draft ?E sample_caller 1 sample_submit w1 = (Inr (tx, pda), w2)" by blast
  from acc have "serve ?E bearer (R_AcceptInvite ''tok'') sample_paid_world = (Inr (), w1)"
    by (simp add: with_wallet_def auth_user_with_wallet_from_request_def public_handler_def sample_token_user map_err_def
        bindE_def ret_def sample_caller_def)
  then have "serve_in_order ?E [(bearer, R_AcceptInvite ''tok'')] sample_paid_world = ([Inr ()], w1)" by simp
  from busy_requests_run [OF this] obtain sched ps where
    run: "exec sched (backend ?E (busy_workload [(bearer, R_AcceptInvite ''tok'')]), sample_paid_world) = (ps, w1)" by blast
  have law: "serde_law (lib ?E)" using sample_laws(1) by (simp add: serde_law_def sample_token_env_def sample_env_def)
  let ?payload = "\<lparr>dp_title = ''T'', dp_expires_in_secs = 1000000, dp_parties = [\<lparr>slot_pubkey = None, slot_invite_id = Some 2\<rparr>]\<rparr>"
  have inv: "draft_inv ?E (db sample_paid_world)" and "\<exists>r. find_draft 1 (db sample_paid_world) = Some r \<and>
      payload_from_value (lib ?E) (dr_draft_payload r) = Some ?payload \<and>
      slots_from_value (lib ?E) (dr_party_slots r) = Some (dp_parties ?payload)"
    by (simp_all add: draft_inv_def draft_ok_def slot_wf_def find_draft_def sample_paid_world_def sample_invite_world_def
        new_draft_row_def new_invitation_row_def sample_token_env_def sample_defs slots_of_slots_value payload_of_payload_value)
  then obtain r where r: "find_draft 1 (db sample_paid_world) = Some r"
    "payload_from_value (lib ?E) (dr_draft_payload r) = Some ?payload"
    "slots_from_value (lib ?E) (dr_party_slots r) = Some (dp_parties ?payload)" by blast
  from invited_parties_left_out [OF law inv r run sub] obtain args a where
    "borsh_create_args (lib ?E) args = Some a" "ca_parties args = slot_keys ?E (dp_parties ?payload)" by blast
  then have "borsh_create_args (lib sample_env) args = Some a" "ca_parties args = []"
    by (simp_all add: slot_keys_def sample_token_env_def sample_env_def)
  with run sub show ?thesis by blast
qed

end
