(* ===== verification/Refund_Delivery.thy ===== *)
theory Refund_Delivery
  imports Event_Listener Refund
begin

text \<open>
  From the end of an agreement to the refund of its payment: the listener handles the event and sends the payment to the
  refund queue, and the next cycle of the refund worker takes it from there. Here is what the two workers achieve
  together when no call of theirs fails.
\<close>

section \<open>A cycle serves what it selects\<close>

text \<open>A row whose keys can be read.\<close>

definition payable :: "env \<Rightarrow> payment_row \<times> agreement_party_row \<Rightarrow> bool" where
  "payable E row \<longleftrightarrow> ap_creator_pubkey (snd row) \<noteq> [] \<and> pubkey_from_str (lib E) (ap_creator_pubkey (snd row)) \<noteq> None \<and>
     pubkey_from_str (lib E) (refund_mint_of (fst row)) \<noteq> None"

text \<open>The payment has left the refund queue.\<close>

definition served :: "uuid \<Rightarrow> database \<Rightarrow> bool" where
  "served i d \<longleftrightarrow> (\<forall>q \<in> set (agreement_payments d). pay_id q = i \<longrightarrow> pay_status q \<noteq> ''refund_pending'')"

lemma served_mark: "served i (mark_refunded i sig t d)"
  by (simp add: served_def mark_refunded_def ball_upd_where)

lemma served_stays: "served i d \<Longrightarrow> served i (mark_refunded j sig t d)"
  by (simp add: served_def mark_refunded_def ball_upd_where)

lemma refund_one_serves:
  assumes "no_faults E" and "payable E row" and "refund_one E row u = (res, u')"
  shows "served (pay_id (fst row)) (db u')" "transfer_of E row \<in> set (outbox u')"
proof -
  obtain p a where row: "row = (p, a)" by (cases row)
  from assms(2) obtain cr mk where k: "pubkey_from_str (lib E) (ap_creator_pubkey a) = Some cr"
    "pubkey_from_str (lib E) (refund_mint_of p) = Some mk" "ap_creator_pubkey a \<noteq> []" by (auto simp: payable_def row)
  from refund_one_no_faults [OF assms(1) k assms(3) [unfolded row]] show "transfer_of E row \<in> set (outbox u')"
    by (simp add: row)
  from execute_refund_no_faults [OF assms(1) k(1,2)] obtain sig u1 where
    ex: "execute_refund E (ap_creator_pubkey a) (refund_mint_of p) (refund_amount_of p) u = (Inr sig, u1)" by blast
  with assms(1,3) k(3) have "\<exists>t. db u' = mark_refunded (pay_id p) sig t (db u1)"
    by (auto simp: row refund_one_def bindE_def attempt_def Let_def now_def ask_def sql_update_def sql_def ret_def no_faults_def)
  then show "served (pay_id (fst row)) (db u')" using served_mark by (auto simp: row)
qed

lemma refund_one_keeps_served:
  assumes "refund_one E row u = (res, u')"
  shows "served i (db u) \<Longrightarrow> served i (db u')" "set (outbox u) \<subseteq> set (outbox u')"
  using refund_one_cases [OF assms] served_stays by auto

lemma pending_refunds_all:
  assumes "length (refund_rows d) \<le> 10"
  shows "set (pending_refunds d) = set (refund_rows d)"
proof -
  let ?dated = "filter (\<lambda>(p, a). pay_refund_initiated_at p \<noteq> None) (refund_rows d)"
    and ?undated = "filter (\<lambda>(p, a). pay_refund_initiated_at p = None) (refund_rows d)"
  have "length ?dated + length ?undated = length (refund_rows d)"
    using sum_length_filter_compl [of "\<lambda>(p, a). pay_refund_initiated_at p \<noteq> None" "refund_rows d"]
    by (simp add: case_prod_beta')
  then show ?thesis using assms unfolding pending_refunds_def Let_def by (auto simp: case_prod_beta')
qed

lemma refund_cycle_serves:
  assumes faults: "no_faults E" and few: "length (refund_rows (db w)) \<le> 10" and row: "row \<in> set (refund_rows (db w))"
    and pay: "payable E row" and run: "process_pending_refunds E w = (r, w')"
  shows "served (pay_id (fst row)) (db w')" "transfer_of E row \<in> set (outbox w')"
proof -
  let ?rows = "pending_refunds (db w)"
  have in_rows: "row \<in> set ?rows" using row pending_refunds_all [OF few] by simp
  obtain st where "r = Inr st" using refund_worker.cycle_returns run by (metis prod.inject)
  moreover have "\<not> db_fault (orc E) (tick w)" using faults by (simp add: no_faults_def)
  moreover have "?rows \<noteq> []" using in_rows by auto
  ultimately have loop: "for_each ?rows (refund_one E) (tick_on w) = (Inr (), w')"
    using run by (simp add: process_pending_refunds_def act_simps)
  define I where "I zs u \<longleftrightarrow> (\<forall>x \<in> set zs. payable E x \<longrightarrow> served (pay_id (fst x)) (db u) \<and> transfer_of E x \<in> set (outbox u))"
    for zs and u :: world
  have "I ([] @ ?rows) w'"
  proof (rule for_each_invariant [OF loop])
    show "I [] (tick_on w)" by (simp add: I_def)
    fix zs x u u' assume "I zs u" and one: "refund_one E x u = (Inr (), u')"
    then show "I (zs @ [x]) u'"
      using refund_one_serves [OF faults _ one] refund_one_keeps_served [OF one] by (auto simp: I_def)
  qed
  with in_rows pay show "served (pay_id (fst row)) (db w')" "transfer_of E row \<in> set (outbox w')"
    by (simp_all add: I_def)
qed

section \<open>The queue after a cancellation\<close>

lemma refund_rows_length:
  "length (refund_rows d) = (\<Sum>p \<leftarrow> agreement_payments d. if pay_status p = ''refund_pending'' then
     length (filter (\<lambda>a. pay_agreement_pda p = Some (ap_agreement_pda a)) (agreement_parties d)) else 0)"
proof -
  have "(\<Sum>a \<leftarrow> xs. length (if Q a \<and> b then [(p, a)] else [])) = (if b then length (filter Q xs) else 0)"
    for Q b and p :: payment_row and xs :: "agreement_party_row list" by (induction xs) auto
  then show ?thesis by (simp add: refund_rows_def length_concat comp_def)
qed

text \<open>Changing the one element with a key adds at most its new weight.\<close>

lemma sum_upd_where:
  fixes f :: "'r \<Rightarrow> nat"
  assumes "distinct (map key xs)" and "\<And>x. x \<in> set xs \<Longrightarrow> key x = i \<Longrightarrow> f (g x) \<le> K"
  shows "(\<Sum>x \<leftarrow> upd_where (\<lambda>x. key x = i) g xs. f x) \<le> (\<Sum>x \<leftarrow> xs. f x) + K"
  using assms
proof (induction xs)
  case (Cons x xs)
  show ?case
  proof (cases "key x = i")
    case True
    then have "upd_where (\<lambda>x. key x = i) g xs = xs" using Cons.prems(1) by (intro upd_where_no_match) (auto simp: image_iff)
    with True Cons.prems(2) [of x] show ?thesis by simp
  next
    case False
    with Cons show ?thesis by simp
  qed
qed simp

lemma refund_rows_after:
  assumes "distinct (map pay_id (agreement_payments d))"
    and "\<And>p. p \<in> set (agreement_payments d) \<Longrightarrow> pay_id p = i \<Longrightarrow> pay_agreement_pda p = Some pda"
    and "agreement_payments d' = agreement_payments (mark_refund_pending i t d)"
    and "agreement_parties d' = agreement_parties (set_agreement_status st pda d)"
  shows "length (refund_rows d') \<le> length (refund_rows d) + length (parties_of pda d)"
proof -
  let ?n = "\<lambda>p. if pay_status p = ''refund_pending'' then
     length (filter (\<lambda>a. pay_agreement_pda p = Some (ap_agreement_pda a)) (agreement_parties d)) else 0"
  have same: "length (filter (\<lambda>a. v = Some (ap_agreement_pda a)) (agreement_parties d')) =
      length (filter (\<lambda>a. v = Some (ap_agreement_pda a)) (agreement_parties d))" for v
  proof -
    have "length (filter (\<lambda>a. v = Some (ap_agreement_pda a)) (upd_where Q (\<lambda>r. r\<lparr>ap_status := st\<rparr>) xs)) =
        length (filter (\<lambda>a. v = Some (ap_agreement_pda a)) xs)" for Q xs
      by (simp add: upd_where_def filter_map comp_def if_distrib [where f = ap_agreement_pda])
    then show ?thesis unfolding assms(4) set_agreement_status_def by simp
  qed
  have flip: "filter (\<lambda>a. pda = ap_agreement_pda a) xs = filter (\<lambda>a. ap_agreement_pda a = pda) xs" for xs
    by (rule filter_cong) auto
  have "length (refund_rows d') = (\<Sum>p \<leftarrow> agreement_payments d'. ?n p)"
    unfolding refund_rows_length same ..
  also have "\<dots> \<le> (\<Sum>p \<leftarrow> agreement_payments d. ?n p) + length (parties_of pda d)"
  proof -
    let ?g = "\<lambda>p. p\<lparr>pay_status := ''refund_pending'', pay_refund_initiated_at := Some t\<rparr>"
    have "?n (?g p) \<le> length (parties_of pda d)" if "p \<in> set (agreement_payments d)" "pay_id p = i" for p
    proof -
      have "pay_agreement_pda (?g p) = Some pda" using assms(2) [OF that] by simp
      then show ?thesis by (simp add: parties_of_def flip)
    qed
    then have "(\<Sum>p \<leftarrow> upd_where (\<lambda>p. pay_id p = i) ?g (agreement_payments d). ?n p) \<le>
        (\<Sum>p \<leftarrow> agreement_payments d. ?n p) + length (parties_of pda d)"
      by (rule sum_upd_where [where key = pay_id and f = ?n, OF assms(1)])
    moreover have "agreement_payments d' = upd_where (\<lambda>p. pay_id p = i) ?g (agreement_payments d)"
      by (simp add: assms(3) mark_refund_pending_def)
    ultimately show ?thesis by (simp only:)
  qed
  also have "\<dots> = length (refund_rows d) + length (parties_of pda d)"
    unfolding refund_rows_length ..
  finally show ?thesis .
qed

text \<open>When the database answers, the handler of the end of an agreement returns.\<close>

lemma answered_then_total:
  assumes "\<And>k. \<not> db_fault (orc E) k" and "\<And>x. total_act (rest x)"
  shows "\<exists>y w'. thenE (sql_update E e u) (bindE (sql_select E e q) rest) w = (Inr y, w')"
  using assms by (simp add: total_act_def thenE_def bindE_def sql_update_def sql_select_def sql_def)

lemma cancellation_returns:
  assumes "\<And>k. \<not> db_fault (orc E) k"
  shows "\<exists>w'. handle_cancellation E event st w = (Inr (), w')"
proof -
  have "total_act (push_to E ev p)" for ev p
    unfolding total_act_def using push_to_outcome by (metis prod.exhaust)
  then have t: "total_act (thenE (for_each ps (enqueue_quietly E ty pda)) (thenE (for_each ps (push_to E ev))
      (bindE (attempt (initiate_refund_if_eligible E pda)) (\<lambda>_. ret ()))))" for ps ty pda ev
    unfolding enqueue_quietly_def by (intro total_intros)
  have "\<exists>y w'. handle_cancellation E event st w = (Inr y, w')"
    unfolding handle_cancellation_def Let_def by (rule answered_then_total [OF assms t])
  then show ?thesis by simp
qed

section \<open>From the event to the refund\<close>

definition ends_agreement :: "parsed_event \<Rightarrow> bool" where
  "ends_agreement event \<longleftrightarrow> ev_instruction event = CancelAgreement \<or> ev_instruction event = ExpireAgreement"

lemma ends_handled: "ends_agreement event \<Longrightarrow> \<exists>st. handle_event E event = handle_cancellation E event st"
  by (auto simp: ends_agreement_def handle_event_def handle_cancel_agreement_def handle_expire_agreement_def)

text \<open>
  C26 (the end of an agreement leads to the refund). The listener handles the cancellation or the expiry of an agreement
  with a confirmed payment, and then the refund worker runs one cycle. If no call fails, the creator's key and the mint
  can be read and at most ten rows wait for a refund, then both workers return, the payment is marked refunded, and a
  transfer of its refund amount from the treasury to the creator's account was sent.
\<close>

theorem cancellation_leads_to_refund:
  assumes faults: "no_faults E" and inv: "pay_inv (db w)" and ev: "ends_agreement event"
    and p: "p \<in> set (agreement_payments (db w))" and i: "confirmed_payment (ev_agreement_pda event) (db w) = Some (pay_id p)"
    and a: "a \<in> set (agreement_parties (db w))" "ap_agreement_pda a = ev_agreement_pda event" "ap_creator_pubkey a \<noteq> []"
    and keys: "pubkey_from_str (lib E) (ap_creator_pubkey a) = Some cr" "pubkey_from_str (lib E) (refund_mint_of p) = Some mk"
    and few: "length (refund_rows (db w)) + length (parties_of (ev_agreement_pda event) (db w)) \<le> 10"
  shows "\<exists>w1 st w2 q. handle_event E event w = (Inr (), w1) \<and> process_pending_refunds E w1 = (Inr st, w2) \<and>
    q \<in> set (agreement_payments (db w2)) \<and> pay_id q = pay_id p \<and> pay_status q = ''refunded'' \<and>
    SplTransfer (get_associated_token_address (lib E) (treasury_pubkey E) mk)
      (get_associated_token_address (lib E) cr mk) (refund_amount_of p) \<in> set (outbox w2)"
proof -
  let ?pda = "ev_agreement_pda event"
  have db: "\<not> db_fault (orc E) k" for k using faults by (simp add: no_faults_def)
  from ends_handled [OF ev] obtain st where h: "handle_event E event = handle_cancellation E event st" by blast
  from cancellation_returns [OF db] obtain w1 where run: "handle_cancellation E event st w = (Inr (), w1)" by blast
  from cancellation_effect [OF run db refl] i obtain t where
    parties: "agreement_parties (db w1) = agreement_parties (set_agreement_status st ?pda (db w))"
    and pays: "agreement_payments (db w1) = agreement_payments (mark_refund_pending (pay_id p) t (db w))" by auto
  let ?p = "p\<lparr>pay_status := ''refund_pending'', pay_refund_initiated_at := Some t\<rparr>" and ?a = "a\<lparr>ap_status := st\<rparr>"
  have unique: "x = p" if "x \<in> set (agreement_payments (db w))" "pay_id x = pay_id p" for x
    using that p inv by (auto simp: pay_inv_def distinct_map dest: inj_onD)
  have pda: "pay_agreement_pda p = Some ?pda"
    using i unique unfolding confirmed_payment_def by (auto dest!: select_first_SomeD)
  have in1: "?p \<in> set (agreement_payments (db w1))" "?a \<in> set (agreement_parties (db w1))"
    using p a(1,2) unfolding pays parties mark_refund_pending_def set_agreement_status_def by (force simp: in_upd_where)+
  have rows: "length (refund_rows (db w1)) \<le> 10"
    using refund_rows_after [OF _ _ pays parties] inv unique pda few by (force simp: pay_inv_def)
  have row: "(?p, ?a) \<in> set (refund_rows (db w1))"
    using in1 pda a(2) by (force simp: refund_rows_def)
  have pay: "payable E (?p, ?a)" using keys a(3) by (simp add: payable_def refund_mint_of_def)
  obtain s w2 where cyc: "process_pending_refunds E w1 = (Inr s, w2)" using refund_worker.cycle_returns by blast
  note fin = refund_cycle_serves [OF faults rows row pay cyc]
  have "transfer_of E (?p, ?a) = SplTransfer (get_associated_token_address (lib E) (treasury_pubkey E) mk)
      (get_associated_token_address (lib E) cr mk) (refund_amount_of p)"
    using keys by (simp add: transfer_of_def refund_mint_of_def refund_amount_of_def)
  moreover have "\<exists>q \<in> set (agreement_payments (db w2)). pay_id q = pay_id p \<and> pay_status q = ''refunded''"
  proof -
    from refund_cycle_trace [OF cyc] have "payments_evolve (db w1) (db w2)" by (auto simp: refund_trace_def)
    with in1(1) obtain q where q: "q \<in> set (agreement_payments (db w2))" "pay_key q = pay_key ?p"
      "payment_step\<^sup>*\<^sup>* ''refund_pending'' (pay_status q)" by (auto simp: evolves_def)
    have "pay_id q = pay_id p" using q(2) by (simp add: pay_key_def)
    moreover have "pay_status q \<noteq> ''refund_pending''" using fin(1) q(1) \<open>pay_id q = pay_id p\<close> by (simp add: served_def)
    moreover have "pay_status q \<in> {''refund_pending'', ''refunded''}"
      using q(3) by (induction rule: rtranclp_induct) (auto simp: payment_step_def)
    ultimately show ?thesis using q(1) by blast
  qed
  ultimately show ?thesis using h run cyc fin(2) by auto
qed

theorem cancellation_leads_to_refund_witness:
  "\<exists>w1 st w2. handle_event sample_env (sample_sign_event\<lparr>ev_instruction := CancelAgreement\<rparr>) sample_cancel_world = (Inr (), w1) \<and>
     process_pending_refunds sample_env w1 = (Inr st, w2) \<and>
     (\<exists>q \<in> set (agreement_payments (db w2)). pay_id q = 7 \<and> pay_status q = ''refunded'')"
proof -
  let ?ev = "sample_sign_event\<lparr>ev_instruction := CancelAgreement\<rparr>"
  let ?p = "(initiate_row 7 1 ''usdc'' ''mint'' 1990000 ''ref'' 900)\<lparr>pay_status := ''confirmed'', pay_agreement_pda := Some ''pda''\<rparr>"
  let ?a = "\<lparr>ap_party_pubkey = ''bob'', ap_agreement_pda = ''pda'', ap_creator_pubkey = ''alice'',
    ap_status = ''PendingSignatures'', ap_signed_at = None, ap_created_at = 0, ap_expires_at = 500, ap_title = ''T''\<rparr>"
  have "no_faults sample_env" by (simp add: no_faults_def sample_defs)
  moreover have "pay_inv (db sample_cancel_world)"
    by (simp add: pay_inv_def sample_cancel_world_def initiate_row_def List.map_filter_def)
  moreover have "ends_agreement ?ev" by (simp add: ends_agreement_def)
  moreover have "?p \<in> set (agreement_payments (db sample_cancel_world))" by (simp add: sample_cancel_world_def)
  moreover have "confirmed_payment (ev_agreement_pda ?ev) (db sample_cancel_world) = Some (pay_id ?p)"
    by (simp add: confirmed_payment_def sample_cancel_world_def sample_sign_event_def initiate_row_def)
  moreover have "?a \<in> set (agreement_parties (db sample_cancel_world))" "ap_agreement_pda ?a = ev_agreement_pda ?ev"
    "ap_creator_pubkey ?a \<noteq> []"
    by (simp_all add: sample_cancel_world_def sample_sign_world_def sample_sign_event_def)
  moreover have "pubkey_from_str (lib sample_env) (ap_creator_pubkey ?a) = Some (as_bytes ''alice'')"
    "pubkey_from_str (lib sample_env) (refund_mint_of ?p) = Some (as_bytes ''mint'')"
    by (simp_all add: sample_defs refund_mint_of_def initiate_row_def)
  moreover have "length (refund_rows (db sample_cancel_world)) + length (parties_of (ev_agreement_pda ?ev) (db sample_cancel_world)) \<le> 10"
    by (simp add: refund_rows_def parties_of_def sample_cancel_world_def sample_sign_world_def sample_sign_event_def)
  ultimately have "\<exists>w1 st w2 q. handle_event sample_env ?ev sample_cancel_world = (Inr (), w1) \<and>
      process_pending_refunds sample_env w1 = (Inr st, w2) \<and> q \<in> set (agreement_payments (db w2)) \<and>
      pay_id q = pay_id ?p \<and> pay_status q = ''refunded'' \<and>
      SplTransfer (get_associated_token_address (lib sample_env) (treasury_pubkey sample_env) (as_bytes ''mint''))
        (get_associated_token_address (lib sample_env) (as_bytes ''alice'') (as_bytes ''mint'')) (refund_amount_of ?p) \<in> set (outbox w2)"
    by (rule cancellation_leads_to_refund)
  then show ?thesis by (auto simp: initiate_row_def)
qed

end
