(* ===== verification/Ws_Registry.thy ===== *)
theory Ws_Registry
  imports Ws_Handler Sample_World
begin

text \<open>
  The open connections of \<^verbatim>\<open>src/src/handlers/ws.rs\<close> next to the registry of channels. A connection holds the receiver of
  the broadcast channel it was opened with; the only sender is the one in the registry, so replacing or removing the
  entry closes the channel, and the connection that waits on it reads what is left in its buffer and ends. Whatever ends
  a connection, its task then removes the entry of the user from the registry, in a step of its own. The registry is the
  field \<open>ws_channels\<close> of the world, and the steps on it are those of theory \<open>Ws_Handler\<close>.
\<close>

section \<open>Connections\<close>

record connection =
  cn_id :: nat
  cn_user :: uuid
  cn_queue :: "ws_event list"
  cn_sent :: "json list"

text \<open>The world, the open connections, and the users of the connections that have ended and are still to be removed.\<close>

type_synonym ws_state = "world \<times> connection list \<times> uuid list"

text \<open>The buffer of \<open>broadcast::channel(64)\<close>: a receiver that lags loses the oldest events.\<close>

definition WS_CAPACITY :: nat where "WS_CAPACITY = 64"

definition buffer :: "ws_event \<Rightarrow> connection \<Rightarrow> connection" where
  "buffer ev k = k\<lparr>cn_queue := (let q = cn_queue k @ [ev] in drop (length q - WS_CAPACITY) q)\<rparr>"

definition new_connection :: "nat \<Rightarrow> uuid \<Rightarrow> connection" where
  "new_connection c u = \<lparr>cn_id = c, cn_user = u, cn_queue = [], cn_sent = []\<rparr>"

definition without :: "nat \<Rightarrow> connection list \<Rightarrow> connection list" where
  "without c ks = filter (\<lambda>k. cn_id k \<noteq> c) ks"

datatype ws_label = Connect uuid | Push uuid ws_event | Deliver nat | Leave nat | Closed nat | Remove uuid

text \<open>
  \<open>Deliver\<close> writes the next event to the socket. A connection ends when the client leaves or the socket fails (\<open>Leave\<close>),
  and when its channel is closed and its buffer read (\<open>Closed\<close>); its task then goes on to \<open>Remove\<close>.
\<close>

inductive ws_step :: "env \<Rightarrow> ws_label \<Rightarrow> ws_state \<Rightarrow> ws_state \<Rightarrow> bool" for E where
  connect: "handle_upgrade_open u w = (Inr c :: nat + nat, w') \<Longrightarrow>
    ws_step E (Connect u) (w, ks, es) (w', ks @ [new_connection c u], es)"
| push: "send_to_user E u ev w = (Inr True :: nat + bool, w') \<Longrightarrow> ws_channels w u = Some c \<Longrightarrow>
    ws_step E (Push u ev) (w, ks, es) (w', map (\<lambda>k. if cn_id k = c then buffer ev k else k) ks, es)"
| missed: "send_to_user E u ev w = (Inr False :: nat + bool, w') \<Longrightarrow>
    ws_step E (Push u ev) (w, ks, es) (w', ks, es)"
| deliver: "k \<in> set ks \<Longrightarrow> cn_queue k = ev # q \<Longrightarrow>
    ws_step E (Deliver (cn_id k)) (w, ks, es) (w, map (\<lambda>k'. if cn_id k' = cn_id k
      then k'\<lparr>cn_queue := q, cn_sent := cn_sent k @ [ws_event_to_json ev t]\<rparr> else k') ks, es)"
| leave: "k \<in> set ks \<Longrightarrow> ws_step E (Leave (cn_id k)) (w, ks, es) (w, without (cn_id k) ks, es @ [cn_user k])"
| closed: "k \<in> set ks \<Longrightarrow> cn_queue k = [] \<Longrightarrow> ws_channels w (cn_user k) \<noteq> Some (cn_id k) \<Longrightarrow>
    ws_step E (Closed (cn_id k)) (w, ks, es) (w, without (cn_id k) ks, es @ [cn_user k])"
| remove: "remove_user_channel u w = (Inr () :: nat + unit, w') \<Longrightarrow>
    ws_step E (Remove u) (w, ks, es @ u # es') (w', ks, es @ es')"

inductive ws_run :: "env \<Rightarrow> ws_label list \<Rightarrow> ws_state \<Rightarrow> ws_state \<Rightarrow> bool" for E where
  stop: "ws_run E [] s s"
| more: "ws_step E l s s1 \<Longrightarrow> ws_run E ls s1 s2 \<Longrightarrow> ws_run E (l # ls) s s2"

inductive_cases ws_runE: "ws_run E (l # ls) s s2" "ws_run E [] s s2"

text \<open>The steps a connection takes by itself; a state in which none can.\<close>

fun internal :: "ws_label \<Rightarrow> bool" where
  "internal (Deliver c) = True"
| "internal (Closed c) = True"
| "internal (Remove u) = True"
| "internal _ = False"

fun quiescent :: "ws_state \<Rightarrow> bool" where
  "quiescent (w, ks, es) \<longleftrightarrow> es = [] \<and>
     (\<forall>k \<in> set ks. cn_queue k = [] \<and> ws_channels w (cn_user k) = Some (cn_id k))"

section \<open>Invariant\<close>

lemma open_result:
  "handle_upgrade_open u w = (Inr c :: nat + nat, w') \<Longrightarrow>
   c = tick w \<and> w' = (tick_on w)\<lparr>ws_channels := (ws_channels w)(u \<mapsto> tick w)\<rparr>"
  by (auto simp: handle_upgrade_open_def act_simps)

lemma remove_result:
  "remove_user_channel u w = (Inr () :: nat + unit, w') \<Longrightarrow> w' = w\<lparr>ws_channels := (ws_channels w)(u := None)\<rparr>"
  by (auto simp: remove_user_channel_def modify_def)

lemma push_result:
  "send_to_user E u ev w = (Inr b :: nat + bool, w') \<Longrightarrow> ws_channels w' = ws_channels w \<and> tick w \<le> tick w'"
  by (auto dest!: send_to_user_result)

lemmas ws_results = open_result remove_result push_result

text \<open>
  Channels are not used twice, a registered channel has its connection unless that has just ended, and no buffer holds
  more than its capacity.
\<close>

fun ws_inv :: "ws_state \<Rightarrow> bool" where
  "ws_inv (w, ks, es) \<longleftrightarrow> distinct (map cn_id ks) \<and> (\<forall>k \<in> set ks. cn_id k < tick w \<and> length (cn_queue k) \<le> WS_CAPACITY) \<and>
     (\<forall>u c. ws_channels w u = Some c \<longrightarrow> u \<in> set es \<or> (\<exists>k \<in> set ks. cn_id k = c \<and> cn_user k = u))"

lemma ws_inv_map:
  assumes "ws_inv (w, ks, es)" and "ws_channels w' = ws_channels w" and "tick w \<le> tick w'"
    and "\<And>k. cn_id (f k) = cn_id k \<and> cn_user (f k) = cn_user k"
    and "\<And>k. k \<in> set ks \<Longrightarrow> length (cn_queue (f k)) \<le> WS_CAPACITY"
  shows "ws_inv (w', map f ks, es)"
  using assms by (fastforce simp: comp_def)

lemma same_id: "distinct (map cn_id ks) \<Longrightarrow> k \<in> set ks \<Longrightarrow> k' \<in> set ks \<Longrightarrow> cn_id k' = cn_id k \<Longrightarrow> k' = k"
  by (auto simp: distinct_map dest: inj_onD)

lemma ws_inv_end:
  assumes "ws_inv (w, ks, es)" and "k \<in> set ks"
  shows "ws_inv (w, without (cn_id k) ks, es @ [cn_user k])"
proof -
  have "u \<in> set (es @ [cn_user k]) \<or> (\<exists>k' \<in> set (without (cn_id k) ks). cn_id k' = c \<and> cn_user k' = u)"
    if "ws_channels w u = Some c" for u c
  proof -
    from that assms(1) consider "u \<in> set es" | k' where "k' \<in> set ks" "cn_id k' = c" "cn_user k' = u"
      unfolding ws_inv.simps by blast
    then show ?thesis
    proof cases
      case (2 k')
      then show ?thesis using same_id [OF _ assms(2)] assms(1) by (cases "cn_id k' = cn_id k") (auto simp: without_def)
    qed simp
  qed
  moreover have "distinct (map cn_id (without (cn_id k) ks))"
    using assms(1) by (simp add: without_def distinct_map_filter)
  ultimately show ?thesis using assms(1) by (auto simp: without_def)
qed

lemma ws_inv_step: "ws_step E l s s' \<Longrightarrow> ws_inv s \<Longrightarrow> ws_inv s'"
proof (induction rule: ws_step.induct)
  case (connect u w c w' ks es)
  then show ?case using open_result [OF connect(1)] by (fastforce simp: new_connection_def)
next
  case (push u ev w w' c ks es)
  then show ?case using push_result [OF push(1)]
    by (intro ws_inv_map [OF push(3)]) (auto simp: buffer_def Let_def WS_CAPACITY_def)
next
  case (missed u ev w w' ks es)
  then show ?case using push_result [OF missed(1)] ws_inv_map [OF missed(2), of w' id] by auto
next
  case (deliver k ks ev q w es t)
  have "length q < WS_CAPACITY" using deliver by force
  then show ?case using deliver(3) by (intro ws_inv_map [OF deliver(3)]) auto
next
  case (leave k ks w es)
  then show ?case by (blast intro: ws_inv_end)
next
  case (closed k ks w es)
  then show ?case by (blast intro: ws_inv_end)
next
  case (remove u w w' ks es es')
  then show ?case using remove_result [OF remove(1)] by auto
qed

section \<open>A second connection\<close>

definition two_connections :: "uuid \<Rightarrow> connection list \<Rightarrow> bool" where
  "two_connections u ks \<longleftrightarrow>
     (\<exists>k \<in> set ks. \<exists>k' \<in> set ks. cn_id k \<noteq> cn_id k' \<and> cn_user k = u \<and> cn_user k' = u)"

lemma two_connections_map:
  "(\<And>k. cn_id (f k) = cn_id k \<and> cn_user (f k) = cn_user k) \<Longrightarrow> two_connections u (map f ks) = two_connections u ks"
  by (simp add: two_connections_def)

text \<open>The registry will not reach the user any more, unless they connect again.\<close>

fun doomed :: "uuid \<Rightarrow> ws_state \<Rightarrow> bool" where
  "doomed u (w, ks, es) \<longleftrightarrow> two_connections u ks \<or> u \<in> set es \<or> ws_channels w u = None"

lemma doomed_end:
  assumes "ws_inv (w, ks, es)" and "k \<in> set ks" and "doomed u (w, ks, es)"
  shows "doomed u (w, without (cn_id k) ks, es @ [cn_user k])"
proof (cases "cn_user k = u")
  case False
  have "two_connections u (without (cn_id k) ks)" if "two_connections u ks"
  proof -
    from that obtain k1 k2 where k: "k1 \<in> set ks" "k2 \<in> set ks" "cn_id k1 \<noteq> cn_id k2" "cn_user k1 = u" "cn_user k2 = u"
      by (auto simp: two_connections_def)
    moreover have "cn_id k1 \<noteq> cn_id k" "cn_id k2 \<noteq> cn_id k"
      using k False same_id [OF _ assms(2)] assms(1) by auto
    ultimately show ?thesis unfolding two_connections_def without_def by auto
  qed
  then show ?thesis using assms(3) by auto
qed simp

lemma doomed_step: "ws_step E l s s' \<Longrightarrow> ws_inv s \<Longrightarrow> l \<noteq> Connect u \<Longrightarrow> doomed u s \<Longrightarrow> doomed u s'"
proof (induction rule: ws_step.induct)
  case (connect u' w c w' ks es)
  then show ?case using open_result [OF connect(1)] by (auto simp: two_connections_def)
next
  case (push u' ev w w' c ks es)
  then show ?case using push_result [OF push(1)] by (simp add: two_connections_map buffer_def)
next
  case (missed u' ev w w' ks es)
  then show ?case using push_result [OF missed(1)] by simp
next
  case (deliver k ks ev q w es t)
  then show ?case by (simp add: two_connections_map)
next
  case (leave k ks w es)
  then show ?case by (blast intro: doomed_end)
next
  case (closed k ks w es)
  then show ?case by (blast intro: doomed_end)
next
  case (remove u' w w' ks es es')
  then show ?case using remove_result [OF remove(1)] by auto
qed

lemma doomed_run:
  "ws_run E ls s s' \<Longrightarrow> ws_inv s \<Longrightarrow> doomed u s \<Longrightarrow> Connect u \<notin> set ls \<Longrightarrow> doomed u s'"
proof (induction rule: ws_run.induct)
  case (more l s s1 ls s2)
  have "l \<noteq> Connect u" using more(6) by auto
  from more(3) [OF ws_inv_step [OF more(1,4)] doomed_step [OF more(1,4) this more(5)]] more(6) show ?case by simp
qed

lemma doomed_quiescent:
  assumes "doomed u (w, ks, es)" and "quiescent (w, ks, es)"
  shows "ws_channels w u = None \<and> (\<forall>k \<in> set ks. cn_user k \<noteq> u)"
proof -
  have r: "ws_channels w u = Some (cn_id k)" if "k \<in> set ks" "cn_user k = u" for k using that assms(2) by auto
  then have "\<not> two_connections u ks" unfolding two_connections_def by (metis option.inject)
  with assms r show ?thesis by (metis doomed.simps quiescent.simps empty_iff empty_set option.distinct(1))
qed

section \<open>Connections come to rest\<close>

fun weight :: "ws_state \<Rightarrow> nat" where
  "weight (w, ks, es) = (\<Sum>k \<leftarrow> ks. 2 + length (cn_queue k)) + length es"

lemma weight_deliver:
  assumes "distinct (map cn_id ks)" and "k \<in> set ks" and "cn_queue k = ev # q"
    and f: "\<And>k'. cn_id k' = cn_id k \<Longrightarrow> cn_queue (f k') = q"
  shows "(\<Sum>k' \<leftarrow> ks. 2 + length (cn_queue (if cn_id k' = cn_id k then f k' else k'))) < (\<Sum>k' \<leftarrow> ks. 2 + length (cn_queue k'))"
  using assms(1,2)
proof (induction ks)
  case (Cons x ks)
  show ?case
  proof (cases "cn_id x = cn_id k")
    case True
    then have "x = k" using Cons.prems by (metis same_id list.set_intros(1))
    moreover have "(\<Sum>k' \<leftarrow> ks. 2 + length (cn_queue (if cn_id k' = cn_id k then f k' else k'))) = (\<Sum>k' \<leftarrow> ks. 2 + length (cn_queue k'))"
      using True Cons.prems(1) by (intro arg_cong [where f = sum_list] map_cong) (auto simp: image_iff)
    ultimately show ?thesis using f [OF True] assms(3) by (simp del: sum_list_Suc)
  next
    case False
    then show ?thesis using Cons by auto
  qed
qed simp

lemma weight_end: "k \<in> set ks \<Longrightarrow> weight (w, without (cn_id k) ks, es @ [cn_user k]) < weight (w, ks, es)"
proof (induction ks)
  case (Cons x ks)
  have le: "(\<Sum>k \<leftarrow> without c ks. 2 + length (cn_queue k)) \<le> (\<Sum>k \<leftarrow> ks. 2 + length (cn_queue k))" for c ks
    by (induction ks) (auto simp: without_def)
  show ?case
  proof (cases "cn_id x = cn_id k")
    case True
    then show ?thesis using le [of "cn_id k" ks] by (simp add: without_def)
  next
    case False
    then show ?thesis using Cons by (auto simp: without_def)
  qed
qed simp

lemma internal_decreases: "ws_step E l s s' \<Longrightarrow> internal l \<Longrightarrow> ws_inv s \<Longrightarrow> weight s' < weight s"
proof (induction rule: ws_step.induct)
  case (deliver k ks ev q w es t)
  then show ?case using weight_deliver [OF _ deliver(1,2)] by (simp add: comp_def)
next
  case (closed k ks w es)
  then show ?case by (blast intro: weight_end)
qed simp_all

lemma not_quiescent_moves:
  assumes "\<not> quiescent s"
  shows "\<exists>l s'. internal l \<and> ws_step E l s s'"
proof -
  obtain w ks es where s: "s = (w, ks, es)" by (cases s)
  show ?thesis
  proof (cases es)
    case (Cons u es')
    obtain w' where "remove_user_channel u w = (Inr () :: nat + unit, w')" by (auto simp: remove_user_channel_def modify_def)
    from ws_step.remove [OF this, of E ks "[]" es'] show ?thesis
      unfolding s Cons by (intro exI [of _ "Remove u"] exI [of _ "(w', ks, es')"]) simp
  next
    case Nil
    with assms s obtain k where k: "k \<in> set ks" "cn_queue k \<noteq> [] \<or> ws_channels w (cn_user k) \<noteq> Some (cn_id k)" by auto
    show ?thesis
    proof (cases "cn_queue k")
      case Nil
      with k have "ws_channels w (cn_user k) \<noteq> Some (cn_id k)" by simp
      from ws_step.closed [OF k(1) Nil this] have "\<exists>s'. ws_step E (Closed (cn_id k)) s s'" unfolding s by blast
      moreover have "internal (Closed (cn_id k))" by simp
      ultimately show ?thesis by blast
    next
      case (Cons ev q)
      have "internal (Deliver (cn_id k))" by simp
      with ws_step.deliver [OF k(1) Cons] show ?thesis unfolding s by blast
    qed
  qed
qed

lemma connections_settle: "ws_inv s \<Longrightarrow> \<exists>ls s'. ws_run E ls s s' \<and> list_all internal ls \<and> quiescent s'"
proof (induction "weight s" arbitrary: s rule: less_induct)
  case less
  show ?case
  proof (cases "quiescent s")
    case True
    then show ?thesis by (intro exI [of _ "[]"] exI [of _ s]) (simp add: ws_run.stop)
  next
    case False
    then obtain l s1 where l: "internal l" "ws_step E l s s1" using not_quiescent_moves by blast
    from less.hyps [OF internal_decreases [OF l(2,1) less.prems] ws_inv_step [OF l(2) less.prems]] obtain ls s2
      where "ws_run E ls s1 s2" "list_all internal ls" "quiescent s2" by blast
    with l show ?thesis by (intro exI [of _ "l # ls"] exI [of _ s2]) (auto intro: ws_run.more)
  qed
qed

text \<open>
  C35 (reconnecting disconnects). A user with an open WebSocket opens a second one, say after a network change. The
  connections then come to rest by themselves, and in every state of rest that is reached before the user connects once
  more, whatever is pushed and whoever else connects or leaves, neither of the user's connections is left and no
  channel is registered for them: the new entry closes the channel of the first connection, whose task then removes the
  entry of the second.
\<close>

theorem reconnect_disconnects:
  assumes inv: "ws_inv (w, ks, es)" and one: "k \<in> set ks" "cn_user k = u"
    and connect: "ws_step E (Connect u) (w, ks, es) s1"
  shows "(\<exists>ls s2. ws_run E ls s1 s2 \<and> list_all internal ls \<and> quiescent s2) \<and>
    (\<forall>ls w2 ks2 es2. ws_run E ls s1 (w2, ks2, es2) \<and> Connect u \<notin> set ls \<and> quiescent (w2, ks2, es2) \<longrightarrow>
       ws_channels w2 u = None \<and> (\<forall>k \<in> set ks2. cn_user k \<noteq> u))"
proof -
  have inv1: "ws_inv s1" by (rule ws_inv_step [OF connect inv])
  from connect obtain w' where "handle_upgrade_open u w = (Inr (tick w) :: nat + nat, w')" and
    s1: "s1 = (w', ks @ [new_connection (tick w) u], es)"
    by (cases rule: ws_step.cases) (use open_result in auto)
  have "cn_id k < tick w" using inv one(1) by simp
  then have "two_connections u (ks @ [new_connection (tick w) u])"
    using one unfolding two_connections_def by (intro bexI [of _ k] bexI [of _ "new_connection (tick w) u"]) (auto simp: new_connection_def)
  then have "doomed u s1" by (simp add: s1)
  then show ?thesis
    using connections_settle [OF inv1] doomed_run [OF _ inv1] doomed_quiescent by blast
qed

definition sample_connection :: connection where
  "sample_connection = new_connection 0 7"

definition sample_ws_world :: world where
  "sample_ws_world = empty_world\<lparr>ws_channels := [7 \<mapsto> 0], tick := 1\<rparr>"

theorem reconnect_disconnects_witness:
  "\<exists>s1 ls w2 ks2 es2. ws_step sample_env (Connect 7) (sample_ws_world, [sample_connection], []) s1 \<and>
     ws_run sample_env ls s1 (w2, ks2, es2) \<and> ws_channels w2 7 = None \<and> (\<forall>k \<in> set ks2. cn_user k \<noteq> 7)"
proof -
  have inv: "ws_inv (sample_ws_world, [sample_connection], [])"
    by (simp add: sample_connection_def new_connection_def sample_ws_world_def WS_CAPACITY_def)
  have k: "sample_connection \<in> set [sample_connection]" "cn_user sample_connection = 7"
    by (simp_all add: sample_connection_def new_connection_def)
  obtain c w' where "handle_upgrade_open 7 sample_ws_world = (Inr c :: nat + nat, w')"
    by (simp add: handle_upgrade_open_def run_defs)
  from ws_step.connect [OF this] obtain s1 where con: "ws_step sample_env (Connect 7) (sample_ws_world, [sample_connection], []) s1" by blast
  note t = reconnect_disconnects [OF inv k con]
  from t obtain ls s2 where run: "ws_run sample_env ls s1 s2" "list_all internal ls" "quiescent s2" by blast
  obtain w2 ks2 es2 where s2: "s2 = (w2, ks2, es2)" by (cases s2)
  have "Connect 7 \<notin> set ls" using run(2) by (auto simp: list_all_iff)
  with t run con s2 show ?thesis by metis
qed

end
