(* ===== verification/Lifetimes.thy ===== *)
theory Lifetimes
  imports Startup Concurrent_System
begin

text \<open>
  The database outlives the process. A life of the process is a start (\<open>start_process\<close> of theory \<open>Startup\<close>), with
  whatever configuration, that either fails or spawns the workers, followed by any schedule of the workers, of
  requests and of transfers (\<open>backend\<close> of theory \<open>Concurrent_Backend\<close>) that stops at an arbitrary point, as it does
  when the process is killed. This theory follows the tables from an empty database through any number of lives.
\<close>

text \<open>
  One life, as what it makes of the tables. The answer of \<open>bind\<close> is drawn when the schedule has run; it does not
  touch the tables, so its place among the other calls does not matter to them. Requests come only once the server
  listens; the schedules before that are among those allowed here.
\<close>

inductive life :: "libs \<Rightarrow> database \<Rightarrow> database \<Rightarrow> bool" for L where
  life: "migrator_law X \<Longrightarrow>
     start_process L X vars program (\<lambda>E w. snd (exec sched (backend E l, w))) w = (r, w') \<Longrightarrow>
     life L (db w) (db w')"

inductive_cases lifeE: "life L d d'"

section \<open>Migrations along the lives\<close>

text \<open>A database on which some, but not all, of the migrations have been applied holds no rows.\<close>

definition unfinished :: "nat \<Rightarrow> database" where
  "unfinished n = new_db\<lparr>applied_migrations := map fst (take n migrations)\<rparr>"

definition past_inv :: "env \<Rightarrow> database \<Rightarrow> bool" where
  "past_inv E d \<longleftrightarrow>
     (\<exists>n < length migrations. d = unfinished n) \<or> applied_migrations d = map fst migrations \<and> sys_inv E d"

lemmas migration_defs = migrations_def core_users_def agreements_migration_def drafts_and_payments_def workflow_def
  sweep_config_migration_def

lemma past_inv_unfinished: "n < 5 \<Longrightarrow> past_inv E (unfinished n)"
  unfolding past_inv_def by (rule disjI1, rule exI [of _ n]) (simp add: migrations_def)

lemma new_db_unfinished: "new_db = unfinished 0"
  by (simp add: unfinished_def new_db_def)

lemma length_migrations: "length migrations = 5"
  by (simp add: migrations_def)

lemma pending_unfinished: "n \<le> 5 \<Longrightarrow> pending_migrations migrations (unfinished n) = drop n migrations"
proof -
  assume "n \<le> 5"
  then consider "n = 0" | "n = 1" | "n = 2" | "n = 3" | "n = 4" | "n = 5" by linarith
  then show ?thesis
    by cases (simp_all add: pending_migrations_def unfinished_def migrations_def)
qed

lemma apply_unfinished:
  assumes "n < 5"
  shows "apply_migrations [migrations ! n] (unfinished n) = (if n = 4 then empty_db else unfinished (Suc n))"
proof -
  from assms consider "n = 0" | "n = 1" | "n = 2" | "n = 3" | "n = 4" by linarith
  then show ?thesis
    by cases (simp_all add: apply_migrations_def unfinished_def migration_defs new_db_def empty_db_def)
qed

lemma apply_some:
  assumes "n + m \<le> 5" and "n < 5"
  shows "apply_migrations (take m (drop n migrations)) (unfinished n) = (if n + m = 5 then empty_db else unfinished (n + m))"
  using assms
proof (induction m arbitrary: n)
  case 0
  then show ?case by (simp add: apply_migrations_def)
next
  case (Suc m)
  have "drop n migrations = migrations ! n # drop (Suc n) migrations"
    using Suc.prems by (intro Cons_nth_drop_Suc [symmetric]) (simp add: length_migrations)
  then have "apply_migrations (take (Suc m) (drop n migrations)) (unfinished n) =
      apply_migrations (take m (drop (Suc n) migrations)) (apply_migrations [migrations ! n] (unfinished n))"
    by (simp add: apply_migrations_def)
  also have "\<dots> = (if n + Suc m = 5 then empty_db else unfinished (n + Suc m))"
  proof (cases "n = 4")
    case True
    with Suc.prems have "m = 0" by simp
    with True show ?thesis using apply_unfinished [of n] by (simp add: apply_migrations_def)
  next
    case False
    then show ?thesis using Suc.prems Suc.IH [of "Suc n"] apply_unfinished [of n] by simp
  qed
  finally show ?case .
qed

lemma pending_applied: "applied_migrations d = map fst migrations \<Longrightarrow> pending_migrations migrations d = []"
  by (simp add: pending_migrations_def filter_empty_conv)

lemma past_inv_migrated:
  assumes "past_inv E d" and "migrated_up_to m d d'"
  shows "past_inv E d'"
    and "m = length (pending_migrations migrations d) \<Longrightarrow> applied_migrations d' = map fst migrations \<and> sys_inv E d'"
    and "payments_evolve d d' \<and> invitations_evolve d d'"
proof -
  have empty: "applied_migrations empty_db = map fst migrations" "sys_inv E empty_db"
    using sys_inv_empty by (simp_all add: empty_db_def migrations_def)
  have "past_inv E d' \<and> (m = length (pending_migrations migrations d) \<longrightarrow> applied_migrations d' = map fst migrations \<and> sys_inv E d') \<and>
    payments_evolve d d' \<and> invitations_evolve d d'"
  proof (cases "\<exists>n < length migrations. d = unfinished n")
    case True
    then obtain n where n: "n < 5" "d = unfinished n" by (auto simp: length_migrations)
    then have p: "pending_migrations migrations d = drop n migrations" using pending_unfinished by simp
    with assms(2) n have m: "m \<le> 5 - n" "d' = apply_migrations (take m (drop n migrations)) (unfinished n)"
      by (auto simp: migrated_up_to_def length_migrations)
    then have d': "d' = (if n + m = 5 then empty_db else unfinished (n + m))" using apply_some [of n m] n(1) by simp
    moreover have "payments_evolve d d'" "invitations_evolve d d'" using n by (simp_all add: unfinished_def new_db_def evolves_def)
    moreover have "past_inv E d'" using d' empty m(1) n(1) past_inv_unfinished [of "n + m" E] by (auto simp: past_inv_def)
    ultimately show ?thesis using empty m(1) n(1) by (auto simp: p length_migrations)
  next
    case False
    with assms(1) have a: "applied_migrations d = map fst migrations" "sys_inv E d" by (auto simp: past_inv_def)
    with assms(2) have "d' = d" by (simp add: migrated_up_to_def pending_applied apply_migrations_def)
    with a show ?thesis by (simp add: past_inv_def evolves_refl)
  qed
  then show "past_inv E d'"
    "m = length (pending_migrations migrations d) \<Longrightarrow> applied_migrations d' = map fst migrations \<and> sys_inv E d'"
    "payments_evolve d d' \<and> invitations_evolve d d'" by blast+
qed

text \<open>No statement of the running process touches the record of the migrations.\<close>

interpretation applied_all: every_property E "\<lambda>d. applied_migrations d = v" for E v
  by unfold_locales
    (rule keeps_session_other keeps_accept_tx_other; simp
     | auto simp: statement_defs keeper_statements mark_refunded_def mark_refund_pending_def confirm_stmt_def Let_def split: if_splits)+

lemma sys_inv_lib: "lib E = lib E' \<Longrightarrow> sys_inv E d = sys_inv E' d"
  by (simp add: sys_inv_def draft_inv_def draft_ok_def)

lemma life_keeps:
  assumes law: "serde_law (lib E)" and life: "life (lib E) d d'" and inv: "past_inv E d"
  shows "past_inv E d' \<and> payments_evolve d d' \<and> invitations_evolve d d'"
proof -
  from life obtain X vars program sched l w r w' where dd: "d = db w" "d' = db w'" and law': "migrator_law X"
    and st: "start_process (lib E) X vars program (\<lambda>E w. snd (exec sched (backend E l, w))) w = (r, w')"
    by (rule lifeE) blast
  let ?run = "\<lambda>E w. snd (exec sched (backend E l, w))"
  note mig = past_inv_migrated [OF inv]
  have running: ?thesis if "ready_to_run (lib E) X vars w E' s w1" and "w' = tick_on (?run E' w1)" for E' s w1
  proof -
    from that(1) have lib: "lib E' = lib E" and full: "fully_migrated d (db w1)" using dd by (simp_all add: ready_to_run_def)
    from mig(2,3) [OF full] have m: "applied_migrations (db w1) = map fst migrations" "sys_inv E (db w1)"
      "payments_evolve d (db w1)" "invitations_evolve d (db w1)" by simp_all
    obtain ps w2 where run: "exec sched (backend E' l, w1) = (ps, w2)" by fastforce
    have "sys_inv E' (db w1)" "serde_law (lib E')" using m(2) law lib sys_inv_lib [of E E'] by simp_all
    from backend_facts [OF this(2,1) run] have "sys_inv E (db w2)" "invitations_evolve (db w1) (db w2)" "payments_evolve (db w1) (db w2)"
      using lib sys_inv_lib [of E E'] by simp_all
    moreover have "applied_migrations (db w2) = map fst migrations"
      using applied_all.backend_keeps [of w1 "map fst migrations" sched E' l] m(1) run by simp
    ultimately show ?thesis
      using evolves_trans [OF m(3)] evolves_trans [OF m(4)] that(2) run dd(2) by (simp add: past_inv_def)
  qed
  have failed: ?thesis if "boot_effect (db w) e (db w')" for e
  proof -
    from that have "db w' = db w \<or> (\<exists>n. migrated_up_to n (db w) (db w'))"
      by (auto simp: boot_effect_def split: boot_failure.splits startup_error.splits)
    then show ?thesis using dd inv mig(1,3) by (auto simp: evolves_refl)
  qed
  have "case (r, w') of
     (Inr (E', s), w') \<Rightarrow> (\<exists>w1. ready_to_run (lib E) X vars w E' s w1 \<and> w' = tick_on (?run E' w1))
   | (Inl (ListenFailed E' s), w') \<Rightarrow> (\<exists>w1. ready_to_run (lib E) X vars w E' s w1 \<and> w' = tick_on (?run E' w1))
   | (Inl e, w') \<Rightarrow> boot_effect (db w) e (db w')"
    using start_outcome [OF law', where L = "lib E" and vars = vars and program = program and meanwhile = ?run and w = w] st
    by (auto split: sum.splits boot_failure.splits)
  then show ?thesis using running failed by (auto split: sum.splits boot_failure.splits)
qed

lemma lives_keep:
  assumes "(life (lib E))\<^sup>*\<^sup>* d d'" and "serde_law (lib E)" and "past_inv E d"
  shows "past_inv E d' \<and> payments_evolve d d' \<and> invitations_evolve d d'"
  using assms(1)
proof (induction rule: rtranclp_induct)
  case base
  show ?case using assms(3) by (simp add: evolves_refl)
next
  case (step y z)
  then have y: "past_inv E y" "payments_evolve d y" "invitations_evolve d y" by blast+
  from life_keeps [OF assms(2) step.hyps(2) y(1)] show ?case
    using evolves_trans [OF y(2)] evolves_trans [OF y(3)] by blast
qed

text \<open>Tables without rows satisfy the invariant, whatever has been applied.\<close>

lemma past_inv_sys: "past_inv E d \<Longrightarrow> sys_inv E d"
  by (auto simp: past_inv_def unfinished_def new_db_def sys_inv_def auth_inv_def contact_inv_def names_inv_def draft_inv_def
      pay_inv_def)

text \<open>
  C4 (the invariant survives restarts). Start with a new database and let the process live any number of lives, each with
  its own configuration, starts that fail at any point among them, and each stopped at an arbitrary moment of an
  arbitrary schedule of workers, requests and transfers. The tables satisfy the invariant of the system; either all
  migrations are recorded as applied, once each and in order, or there is no row yet; and from any of these moments to
  any later one, restarts included, no payment and no invitation is lost and each only advances in its life cycle.
\<close>

theorem restarts_keep_invariant:
  assumes law: "serde_law (lib E)" and past: "(life (lib E))\<^sup>*\<^sup>* new_db d" and later: "(life (lib E))\<^sup>*\<^sup>* d d'"
  shows "sys_inv E d' \<and>
    (applied_migrations d' = map fst migrations \<or> (\<exists>n. d' = new_db\<lparr>applied_migrations := map fst (take n migrations)\<rparr>)) \<and>
    advances payment_step (payment_view d) (payment_view d') \<and> advances invitation_step (invitation_view d) (invitation_view d')"
proof -
  have "past_inv E new_db" by (simp add: new_db_unfinished past_inv_unfinished)
  with lives_keep [OF past law] have "past_inv E d" by blast
  with lives_keep [OF later law] have inv: "past_inv E d'" and ev: "payments_evolve d d'" "invitations_evolve d d'" by blast+
  have sys: "sys_inv E d'" by (rule past_inv_sys [OF inv])
  then have "distinct (map pay_key (agreement_payments d'))" "distinct (map inv_key (party_invitations d'))"
    by (auto simp: sys_inv_def intro: distinct_pay_key distinct_inv_key)
  then have "advances payment_step (payment_view d) (payment_view d')" "advances invitation_step (invitation_view d) (invitation_view d')"
    unfolding payment_view_def invitation_view_def using view_advances [OF ev(1)] view_advances [OF ev(2)] by blast+
  with sys inv show ?thesis by (auto simp: past_inv_def unfinished_def)
qed

text \<open>A first life on a new database: the start succeeds, and some workers and a request take steps.\<close>

definition start_env :: env where
  "start_env = sample_env\<lparr>lib := start_libs\<rparr>"

definition first_run :: "env \<Rightarrow> world \<Rightarrow> world" where
  "first_run E w = snd (exec [0, 5, 1, 2, 0, 7, 3, 4] (backend E sample_workload, w))"

lemma start_life: "\<exists>d. life start_libs new_db d \<and> applied_migrations d = map fst migrations"
proof -
  obtain E s w' where st: "start_process start_libs start_outside sample_vars [3] first_run new_world = (Inr (E, s), w')"
    using sample_start by blast
  then have life: "life start_libs new_db (db w')"
    using life.life [OF start_migrator_law st [unfolded first_run_def [abs_def]]] by (simp add: new_world_def)
  from start_outcome [OF start_migrator_law, where L = start_libs and vars = sample_vars and program = "[3]" and
      meanwhile = first_run and w = new_world] st
  obtain w1 where r: "ready_to_run start_libs start_outside sample_vars new_world E s w1" and w': "w' = tick_on (first_run E w1)"
    by auto
  then have "db w1 = empty_db" by (intro new_db_migrated) (simp add: ready_to_run_def new_world_def)
  then have "applied_migrations (db w1) = map fst migrations" by (simp add: empty_db_def migrations_def)
  then have "applied_migrations (db (first_run E w1)) = map fst migrations"
    unfolding first_run_def by (rule applied_all.backend_keeps)
  with life w' show ?thesis by auto
qed

theorem restarts_keep_invariant_witness:
  "\<exists>d. life start_libs new_db d \<and> applied_migrations d = map fst migrations \<and> sys_inv start_env d \<and>
     advances payment_step (payment_view new_db) (payment_view d)"
proof -
  obtain d where d: "life start_libs new_db d" "applied_migrations d = map fst migrations" using start_life by blast
  have law: "serde_law (lib start_env)" using sample_laws(1) by (simp add: serde_law_def start_env_def start_libs_def sample_env_def)
  from d have "(life (lib start_env))\<^sup>*\<^sup>* new_db new_db" "(life (lib start_env))\<^sup>*\<^sup>* new_db d" by (simp_all add: start_env_def)
  from restarts_keep_invariant [OF law this] d show ?thesis by blast
qed

end
