(* ===== verification/Spec2Isabelle.thy ===== *)
theory Spec2Isabelle
  imports System Startup Check_Then_Act Second_Instance Journeys Refund_Delivery Ws_Registry Lifetimes
begin

text \<open>
  Verification of the Pactum backend (\<^verbatim>\<open>src/src\<close>), an axum service that lets parties draft, pay for, sign and
  cancel agreements recorded on Solana.

  \<^bold>\<open>The program.\<close> \<^verbatim>\<open>main.rs\<close> reads the configuration, connects to PostgreSQL, applies the migrations, loads
  two key pairs, starts five supervised workers and binds the HTTP server. Handlers (\<^verbatim>\<open>handlers/*.rs\<close>) sign users in by wallet or
  OAuth, create drafts and invitations, initiate payments, build partially signed transactions and keep WebSocket channels. Workers
  (\<^verbatim>\<open>workers/*.rs\<close>) follow the program's logs on the chain, deliver notifications, execute refunds, expire
  agreements and clean up. They communicate through the tables, the channel registry and one health byte.

  \<^bold>\<open>How it is modelled.\<close> A handler or worker step is an action \<open>(world, error, value) act\<close> (theory
  \<open>Pactum_Prelude\<close>): a function of the \<open>world\<close> that returns the error of Rust's \<open>?\<close> or the value, and the world it
  leaves; an error does not undo earlier writes. The \<open>world\<close> (theory \<open>Schema\<close>) is the mutable part of
  \<open>AppState\<close>: one list of records per table of \<^verbatim>\<open>src/migrations\<close>, the channels, the health byte, the invite limiter, a
  counter of external calls and the list of effects sent outside (e-mails, pushes, transactions). The \<open>env\<close> is the
  immutable part: configuration, keys, the libraries the code calls (JWT, AES-GCM, HMAC, borsh, base58, serde; record
  \<open>libs\<close>) and the outside world (clock, randomness, database and task failures, RPC and HTTP replies; record
  \<open>outside\<close>), each a function of the call counter, so that every theorem quantifies over all clocks, faults and
  answers. A SQL statement is a partial function on the tables that fails where a constraint or a missing column
  makes PostgreSQL fail. Words keep their width (\<open>u64\<close>, \<open>u32\<close>, the health byte); \<open>i64\<close> arithmetic is written with its
  wrap-around (\<open>wrap_i64\<close>). A JSON object built by \<open>json!\<close> has its members in the order of their keys, as in the
  \<open>BTreeMap\<close> of serde_json. What the libraries must satisfy is stated as named hypotheses (\<open>cipher_law\<close>, \<open>hex_law\<close>,
  \<open>serde_law\<close>, \<open>tx_codec_law\<close>, and \<open>migrator_law\<close> for the migrator of sqlx), and theory
  \<open>Sample_World\<close> instantiates them with concrete functions.

  \<^bold>\<open>Theories and sources.\<close>
  \<^item> \<open>Pactum_Prelude\<close>: actions, the \<open>keeps\<close> calculus, list forms of SQL, Rust's string functions, integers.
  \<^item> \<open>App_Error\<close>: \<^verbatim>\<open>error.rs\<close>. \<open>Process_Health\<close>: \<^verbatim>\<open>state.rs\<close> (health), \<^verbatim>\<open>workers/policy.rs\<close>,
    \<^verbatim>\<open>workers/supervisor.rs\<close>; the supervisor is a step relation, one access to the lifecycle map or to the health
    byte per step. \<open>Solana_Types\<close>: \<^verbatim>\<open>solana_types.rs\<close>. \<open>Config\<close>:
    \<^verbatim>\<open>config.rs\<close> (types). \<open>Schema\<close>: the tables and shared state.
  \<^item> \<open>Crypto_Service\<close>: \<^verbatim>\<open>services/crypto.rs\<close>, \<^verbatim>\<open>services/hash.rs\<close>. \<open>Auth_Service\<close>: \<^verbatim>\<open>services/jwt.rs\<close>,
    \<^verbatim>\<open>middleware\<close>, wallet sign-in of \<^verbatim>\<open>handlers/auth.rs\<close>. \<open>OAuth_Service\<close>: the OAuth part of
    \<^verbatim>\<open>handlers/auth.rs\<close>. \<open>User_Handlers\<close>: \<^verbatim>\<open>handlers/user.rs\<close>.
  \<^item> \<open>Solana_Tx\<close>: \<^verbatim>\<open>services/solana.rs\<close>. \<open>Agreement\<close>: \<^verbatim>\<open>handlers/agreement.rs\<close>. \<open>Draft_Handlers\<close>:
    \<^verbatim>\<open>handlers/draft.rs\<close>. \<open>Invite\<close>: \<^verbatim>\<open>handlers/invite.rs\<close>. \<open>Payment\<close>: \<^verbatim>\<open>handlers/payment.rs\<close>,
    \<^verbatim>\<open>services/solana_pay.rs\<close>. \<open>Lifecycle\<close>: the contract of a status column.
  \<^item> \<open>Ws_Handler\<close>: \<^verbatim>\<open>handlers/ws.rs\<close>; \<open>Ws_Registry\<close>: its open connections next to the registry, as a step relation.
    \<open>Notification\<close>: \<^verbatim>\<open>services/notification.rs\<close>. \<open>Storage_Service\<close>:
    \<^verbatim>\<open>services/storage.rs\<close>, \<^verbatim>\<open>services/metadata.rs\<close>, \<^verbatim>\<open>handlers/upload.rs\<close>.
  \<^item> \<open>Worker_Loop\<close>, \<open>Refund\<close>, \<open>Expiry_Worker\<close>, \<open>Keeper\<close>, \<open>Event_Listener\<close>, \<open>Notification_Worker\<close>: the workers
    of \<^verbatim>\<open>workers\<close> with \<^verbatim>\<open>services/refund.rs\<close>; \<open>Program_Log\<close>: \<^verbatim>\<open>services/program_log.rs\<close>, for
    arbitrary log lines. \<open>Log_Stream\<close>:
    \<^verbatim>\<open>services/solana_logs.rs\<close>, the receiving task and the listener around a bounded channel as a step relation.
  \<^item> \<open>Startup\<close>: \<^verbatim>\<open>config.rs\<close> (loading), \<^verbatim>\<open>services/keypair_security.rs\<close>, \<^verbatim>\<open>src/migrations\<close> as what each file does
    to the tables, and \<^verbatim>\<open>main.rs\<close> until the address is bound. \<open>Router\<close>: the route
    table of \<^verbatim>\<open>router.rs\<close>. \<open>System\<close>: all endpoints behind their extractors, and runs of requests, ticks and events.
  \<^item> \<open>Interleaving\<close>: threads, pools and schedules; \<open>Rely_Guarantee\<close>: threads that rely on each other.
    \<open>Concurrent_Requests\<close>, \<open>Concurrent_Workers\<close>: every handler and every worker cycle as a thread. \<open>Concurrent_Backend\<close>:
    the pool of the whole process and what every step of every thread keeps. \<open>Concurrent_Tables\<close>, \<open>Concurrent_System\<close>:
    the invariant of the tables and the life cycles under all interleavings. \<open>Races\<close>: what the database decides when
    requests compete while the process runs. \<open>Check_Then_Act\<close>, \<open>Second_Instance\<close>: where it does not.
  \<^item> \<open>Journeys\<close>: what becomes of a draft, an invitation and a payment over a whole run, under every schedule.
    \<open>Refund_Delivery\<close>: what the listener and the refund worker achieve together. \<open>Lifetimes\<close>: the tables over any number
    of starts, schedules and stops of the process.

  \<^bold>\<open>Concurrency.\<close> axum serves requests at the same time, and the five workers of \<^verbatim>\<open>main.rs\<close> are tasks next to them. A step
  of a thread holds at most one database statement with the local computation and the outside calls next to it; the
  transaction of \<open>accept_invite\<close>, which locks its rows with \<open>FOR UPDATE\<close>, is one step, and so is a handler with a single
  statement. Run alone a thread is its handler or cycle (\<open>serve_alone\<close>, \<open>alone_keeper\<close> and the other \<open>alone_simps\<close>), so
  serving requests one after the other, as theory \<open>System\<close> does, is one of the schedules. Two workers write
  what they decided on an earlier read (\<open>mark_refund_pending\<close>); that nobody else touches what they read is shown by rely
  and guarantee for one keeper and one listener, and refuted for two.

  \<^bold>\<open>Interfaces.\<close> \<open>code_table\<close> (an injective code, interpreted for the health byte, the instruction names and the event
  names), \<open>single_use\<close> (a record consumed at most once; nonces and refresh tokens), \<open>lifecycle\<close> (a status column with
  final statuses; invitations and payments), \<open>worker\<close> (a cycle that always returns and at most degrades the health;
  the four polling workers), \<open>table_property\<close> (a property of the tables that every writing operation keeps; accounts,
  contacts, names, payments, and drafts for a lawful serde), \<open>statement_frame\<close> (a relation that every single statement
  of the handlers is in), \<open>worker_frame\<close> and \<open>backend_frame\<close> (extended to the statements of the workers; what stays
  gone of nonces and tokens), \<open>statement_property\<close>, \<open>worker_property\<close> and \<open>every_property\<close> (the same three for a
  property of the tables, each giving its frame by a \<open>sublocale\<close>; accounts, contacts, names, drafts and their slots,
  invitations, wallets, the fixed columns of payments, the record of the migrations), \<open>rely_guarantee\<close> (threads whose guarantees are what the others rely on;
  the payments), \<open>contended\<close> (a resource one step takes and none gives back, so one claimant at most wins; nonces and
  refresh tokens, wallets, invitations).

  \<^bold>\<open>What is shown.\<close> System-wide: the invariant of all tables and that payments and invitations only advance along
  their life cycles, in every sequential run and in every interleaving of the workers with any number of requests,
  across restarts and failed starts from a new database on, and access control on every endpoint. Per component:
  single use and soundness of sign-in and refresh, OAuth resolution,
  effects of every agreement, draft, invitation and payment operation with their error paths, exact amounts and links,
  the effects and completeness of every worker cycle, parsing of logs, uploads, routing, configuration and start-up, and
  that the health endpoint turns to 503 for good after the critical worker has ended.
  Under concurrency, further: one winner at most for a nonce, a refresh token, a wallet and an invitation among all
  threads of the process, slots of drafts that are filled once and never change again, and a lossless log stream that
  cannot deadlock. Across components: the end of an agreement leads to the refund of its payment. Several theorems
  state defects as they are in the code: a payment that can never be initiated, notifications that repeat, refunds paid
  once per party and always of zero units, invitations that cannot be accepted once sent again, invited parties missing
  from the submitted agreement, a WebSocket that a reconnect ends for good, a misread agreement identifier, a free tier
  that can be overrun, a first OAuth sign-in that can create two accounts, a refund that a second process can reopen, and
  workers that have run when the address turns out to be taken.

  \<^bold>\<open>Termination and fuel.\<close> Handlers and cycles are total functions; endless loops of workers are folds over the list
  of their ticks or connections, so statements about them hold for every number of turns. No fuel is used. The log
  stream and the WebSocket connections come to rest by a measure.

  \<^bold>\<open>Not modelled.\<close> Middleware of other crates (CORS, tracing, tower_governor), axum's parsing of bodies and paths,
  socket I/O of the PubSub client, logging, and the test modules, among them \<^verbatim>\<open>workers/guardrails.rs\<close>. The on-chain
  program is outside the repository; what the handlers read of it are replies of the outside world.
\<close>

end
